(* ===== verification/Prelude.thy ===== *)
theory Prelude
  imports Complex_Main "HOL-Library.AList" "HOL-Library.Product_Lexorder" "HOL-Library.List_Lexorder" "HOL-Library.Char_ord" "HOL-Library.Multiset"
begin

text \<open>
  Shared vocabulary of the development: Python dictionaries as association lists in insertion
  order, the interface every dictionary-backed table of the code relies on (locale
  \<^theory_text>\<open>dict_table\<close>), and the list lemmas several components use.
\<close>

named_theorems chain_simps \<open>facts about runs of the hash chain\<close>
named_theorems dict_simps \<open>lookups in Python dictionaries\<close>

section \<open>Python dictionaries\<close>

text \<open>
  A \<^verbatim>\<open>dict\<close> is an association list with distinct keys, in insertion order: assignment to a
  known key keeps its position, a new key goes to the end. That is \<^const>\<open>AList.update\<close>.
\<close>

type_synonym ('k, 'v) dict = "('k \<times> 'v) list"

definition dget :: "('k, 'v) dict \<Rightarrow> 'k \<Rightarrow> 'v option" where
  "dget d k = map_of d k"

definition dset :: "('k, 'v) dict \<Rightarrow> 'k \<Rightarrow> 'v \<Rightarrow> ('k, 'v) dict" where
  "dset d k v = AList.update k v d"

definition dpop :: "('k, 'v) dict \<Rightarrow> 'k \<Rightarrow> ('k, 'v) dict" where
  "dpop d k = AList.delete k d"

definition dkeys :: "('k, 'v) dict \<Rightarrow> 'k list" where
  "dkeys d = map fst d"

definition dvalues :: "('k, 'v) dict \<Rightarrow> 'v list" where
  "dvalues d = map snd d"

definition dmem :: "('k, 'v) dict \<Rightarrow> 'k \<Rightarrow> bool" where
  "dmem d k \<longleftrightarrow> dget d k \<noteq> None"

text \<open>\<^verbatim>\<open>d.setdefault(k, v)\<close> leaves a known key alone.\<close>

definition dsetdefault :: "('k, 'v) dict \<Rightarrow> 'k \<Rightarrow> 'v \<Rightarrow> ('k, 'v) dict" where
  "dsetdefault d k v = (if dmem d k then d else dset d k v)"

text \<open>\<^verbatim>\<open>d.setdefault(k, []).append(x)\<close>.\<close>

definition dappend :: "('k, 'v list) dict \<Rightarrow> 'k \<Rightarrow> 'v \<Rightarrow> ('k, 'v list) dict" where
  "dappend d k x = dset d k ((case dget d k of None \<Rightarrow> [] | Some xs \<Rightarrow> xs) @ [x])"

definition dict_ok :: "('k, 'v) dict \<Rightarrow> bool" where
  "dict_ok d \<longleftrightarrow> distinct (dkeys d)"

lemma dget_Nil [simp, dict_simps]: "dget [] k = None"
  by (simp add: dget_def)

lemma dget_Cons [simp]: "dget ((a, v) # d) k = (if k = a then Some v else dget d k)"
  by (simp add: dget_def)

lemma dget_dset [simp, dict_simps]: "dget (dset d k v) k' = (if k' = k then Some v else dget d k')"
  by (simp add: dget_def dset_def update_conv)

lemma dget_dpop [simp, dict_simps]: "dget (dpop d k) k' = (if k' = k then None else dget d k')"
  by (simp add: dget_def dpop_def delete_conv)

lemma dget_dsetdefault [simp, dict_simps]:
  "dget (dsetdefault d k v) k' = (if k' = k \<and> dget d k = None then Some v else dget d k')"
  by (auto simp: dsetdefault_def dmem_def)

lemma dget_dappend [simp, dict_simps]:
  "dget (dappend d k x) k' =
     (if k' = k then Some ((case dget d k of None \<Rightarrow> [] | Some xs \<Rightarrow> xs) @ [x]) else dget d k')"
  by (simp add: dappend_def)

lemma dmem_iff [dict_simps]: "dmem d k \<longleftrightarrow> k \<in> set (dkeys d)"
  by (simp add: dmem_def dget_def dkeys_def map_of_eq_None_iff)

lemma dict_ok_Nil [simp]: "dict_ok []"
  by (simp add: dict_ok_def dkeys_def)

lemma dict_ok_dset [simp]: "dict_ok d \<Longrightarrow> dict_ok (dset d k v)"
  by (simp add: dict_ok_def dkeys_def dset_def distinct_update)

lemma dict_ok_dpop [simp]: "dict_ok d \<Longrightarrow> dict_ok (dpop d k)"
  by (simp add: dict_ok_def dkeys_def dpop_def distinct_delete)

lemma dict_ok_dsetdefault [simp]: "dict_ok d \<Longrightarrow> dict_ok (dsetdefault d k v)"
  by (simp add: dsetdefault_def)

lemma dict_ok_dappend [simp]: "dict_ok d \<Longrightarrow> dict_ok (dappend d k x)"
  by (simp add: dappend_def)

lemma dget_Some_in: "dget d k = Some v \<Longrightarrow> (k, v) \<in> set d"
  by (simp add: dget_def map_of_SomeD)

lemma dget_of_in: "dict_ok d \<Longrightarrow> (k, v) \<in> set d \<Longrightarrow> dget d k = Some v"
  by (simp add: dget_def dict_ok_def dkeys_def)

lemma in_dict_iff: "dict_ok d \<Longrightarrow> (k, v) \<in> set d \<longleftrightarrow> dget d k = Some v"
  by (metis dget_Some_in dget_of_in)

lemma dget_map_snd: "dget (map (\<lambda>(k, v). (k, f k v)) d) k = map_option (f k) (dget d k)"
  by (induction d) auto

lemma dict_ok_map_snd: "dict_ok (map (\<lambda>(k, v). (k, f k v)) d) = dict_ok d"
  by (simp add: dict_ok_def dkeys_def comp_def case_prod_unfold)

section \<open>The table interface\<close>

text \<open>
  What every store of the code asks of its dictionaries: a lookup after a write sees the write,
  a lookup of another key does not, and the well-formedness of the store is kept.
\<close>

locale dict_table =
  fixes lookup :: "'d \<Rightarrow> 'k \<Rightarrow> 'v option"
    and put :: "'d \<Rightarrow> 'k \<Rightarrow> 'v \<Rightarrow> 'd"
    and drop_key :: "'d \<Rightarrow> 'k \<Rightarrow> 'd"
    and ok :: "'d \<Rightarrow> bool"
  assumes lookup_write: "lookup (put d k v) k' = (if k' = k then Some v else lookup d k')"
    and lookup_drop: "lookup (drop_key d k) k' = (if k' = k then None else lookup d k')"
    and ok_write: "ok d \<Longrightarrow> ok (put d k v)"
    and ok_drop: "ok d \<Longrightarrow> ok (drop_key d k)"
begin

text \<open>The last put to a key decides, whatever was written to other keys after it.\<close>

lemma lookup_fold_write:
  "k \<notin> fst ` set kvs \<Longrightarrow> lookup (fold (\<lambda>(k, v) d. put d k v) kvs d) k = lookup d k"
  by (induction kvs arbitrary: d) (auto simp: lookup_write)

lemma ok_fold_write: "ok d \<Longrightarrow> ok (fold (\<lambda>(k, v) d. put d k v) kvs d)"
  by (induction kvs arbitrary: d) (auto intro: ok_write)

lemma lookup_fold_update:
  assumes "distinct ks"
  shows "lookup (fold (\<lambda>k d. put d k (f k (lookup d k))) ks d) k =
     (if k \<in> set ks then Some (f k (lookup d k)) else lookup d k)"
  using assms by (induction ks arbitrary: d) (auto simp: lookup_write)

lemma write_overwrite: "lookup (put (put d k v) k v') = lookup (put d k v')"
  by (rule ext) (simp add: lookup_write)

lemma drop_after_write: "lookup (drop_key (put d k v) k) = lookup (drop_key d k)"
  by (rule ext) (simp add: lookup_write lookup_drop)

end

interpretation pydict: dict_table dget dset dpop dict_ok
  by unfold_locales simp_all

section \<open>Lists\<close>

lemma sorted_key_filter: "sorted (map f xs) \<Longrightarrow> sorted (map f (filter P xs))"
  by (induction xs) auto

lemma sorted_distinct_nth_less:
  fixes xs :: "'a::linorder list"
  assumes "sorted xs" "distinct xs" "i < j" "j < length xs"
  shows "xs ! i < xs ! j"
  using assms by (metis less_trans nth_eq_iff_index_eq order_le_less order_less_irrefl sorted_nth_mono le_less)

lemma sort_key_sorted_id: "sorted (map f xs) \<Longrightarrow> sort_key f xs = xs"
  by (rule sort_key_id_if_sorted)

lemma list_all2_nthI: "length xs = length ys \<Longrightarrow> (\<And>i. i < length xs \<Longrightarrow> P (xs ! i) (ys ! i)) \<Longrightarrow> list_all2 P xs ys"
  by (simp add: list_all2_conv_all_nth)

text \<open>A stable sort of a concatenation whose parts do not overlap sorts the parts.\<close>

lemma filter_insort_key_same: "filter (\<lambda>y. f y = k) (insort_key f x xs) = filter (\<lambda>y. f y = k) (x # xs)"
  by (induction xs) auto

lemma filter_sort_key_same: "filter (\<lambda>y. f y = k) (sort_key f xs) = filter (\<lambda>y. f y = k) xs"
proof (induction xs)
  case (Cons x xs)
  have "filter (\<lambda>y. f y = k) (sort_key f (x # xs)) = filter (\<lambda>y. f y = k) (x # sort_key f xs)"
    by (simp add: filter_insort_key_same del: filter.simps)
  with Cons show ?case by simp
qed simp

lemma filter_sort_key_eq: "filter (\<lambda>y. k = f y) (sort_key f xs) = filter (\<lambda>y. k = f y) xs"
  using filter_sort_key_same [of f k xs] by (simp add: eq_commute [of k])

lemma sort_key_append_le:
  assumes "\<And>a b. a \<in> set xs \<Longrightarrow> b \<in> set ys \<Longrightarrow> f a \<le> f b"
  shows "sort_key f (xs @ ys) = sort_key f xs @ sort_key f ys"
proof (rule properties_for_sort_key)
  show "sorted (map f (sort_key f xs @ sort_key f ys))"
    using assms by (auto simp: sorted_append)
qed (simp_all add: filter_sort_key_eq)

lemma sort_key_sort_append: "sort_key f (sort_key f xs @ ys) = sort_key f (xs @ ys)"
proof (rule properties_for_sort_key)
  show "filter (\<lambda>x. f k = f x) (sort_key f (xs @ ys)) = filter (\<lambda>x. f k = f x) (sort_key f xs @ ys)" for k
    by (simp only: filter_append filter_sort_key_eq)
qed simp_all

end
