(* ===== verification/PyText.thy ===== *)
theory PyText
  imports Prelude
begin

text \<open>
  The part of Python's \<^verbatim>\<open>str\<close> and \<^verbatim>\<open>re\<close> the code uses.

  A Python string is a \<^typ>\<open>string\<close>: one \<^typ>\<open>char\<close> per code point, so the model speaks of
  texts whose code points are below 256 (Latin-1). On that domain the character classes below are
  Python's own. Alternatives of a pattern that name a code point above 255 (the check mark and
  the cross of two patterns) can match no text of the domain and are left out.
\<close>

section \<open>Characters\<close>

definition ord_of :: "char \<Rightarrow> nat" where
  "ord_of c = of_char c"

definition is_space :: "char \<Rightarrow> bool" where
  "is_space c = (let n = ord_of c in 9 \<le> n \<and> n \<le> 13 \<or> 28 \<le> n \<and> n \<le> 32 \<or> n = 133 \<or> n = 160)"

definition is_digit :: "char \<Rightarrow> bool" where
  "is_digit c = (let n = ord_of c in 48 \<le> n \<and> n \<le> 57)"

definition is_alnum :: "char \<Rightarrow> bool" where
  "is_alnum c = (let n = ord_of c in
     48 \<le> n \<and> n \<le> 57 \<or> 65 \<le> n \<and> n \<le> 90 \<or> 97 \<le> n \<and> n \<le> 122 \<or>
     n \<in> {170, 178, 179, 181, 185, 186, 188, 189, 190} \<or> 192 \<le> n \<and> n \<noteq> 215 \<and> n \<noteq> 247)"

definition is_word :: "char \<Rightarrow> bool" where
  "is_word c \<longleftrightarrow> is_alnum c \<or> c = CHR ''_''"

definition lower_char :: "char \<Rightarrow> char" where
  "lower_char c = (let n = ord_of c in
     if 65 \<le> n \<and> n \<le> 90 \<or> 192 \<le> n \<and> n \<le> 222 \<and> n \<noteq> 215 then char_of (n + 32) else c)"

section \<open>Methods of str\<close>

definition lower :: "string \<Rightarrow> string" where
  "lower s = map lower_char s"

definition lstrip_by :: "(char \<Rightarrow> bool) \<Rightarrow> string \<Rightarrow> string" where
  "lstrip_by P s = dropWhile P s"

definition rstrip_by :: "(char \<Rightarrow> bool) \<Rightarrow> string \<Rightarrow> string" where
  "rstrip_by P s = rev (dropWhile P (rev s))"

definition strip_by :: "(char \<Rightarrow> bool) \<Rightarrow> string \<Rightarrow> string" where
  "strip_by P s = rstrip_by P (lstrip_by P s)"

abbreviation strip :: "string \<Rightarrow> string" where "strip \<equiv> strip_by is_space"
abbreviation lstrip :: "string \<Rightarrow> string" where "lstrip \<equiv> lstrip_by is_space"

text \<open>\<^verbatim>\<open>s.split()\<close>: the maximal runs of non-space characters.\<close>

fun split_words :: "string \<Rightarrow> string \<Rightarrow> string list" where
  "split_words acc [] = (if acc = [] then [] else [rev acc])"
| "split_words acc (c # cs) =
     (if is_space c then (if acc = [] then split_words [] cs else rev acc # split_words [] cs)
      else split_words (c # acc) cs)"

definition words :: "string \<Rightarrow> string list" where
  "words s = split_words [] s"

text \<open>\<^verbatim>\<open>s.split(c)\<close> for a one-character separator.\<close>

fun split_on :: "char \<Rightarrow> string \<Rightarrow> string list" where
  "split_on d [] = [[]]"
| "split_on d (c # cs) =
     (if c = d then [] # split_on d cs
      else (case split_on d cs of [] \<Rightarrow> [[c]] | w # ws \<Rightarrow> (c # w) # ws))"

fun join :: "string \<Rightarrow> string list \<Rightarrow> string" where
  "join sep [] = []"
| "join sep [w] = w"
| "join sep (w # v # ws) = w @ sep @ join sep (v # ws)"

definition starts_with :: "string \<Rightarrow> string \<Rightarrow> bool" where
  "starts_with s p \<longleftrightarrow> take (length p) s = p"

definition ends_with :: "string \<Rightarrow> string \<Rightarrow> bool" where
  "ends_with s p \<longleftrightarrow> length p \<le> length s \<and> drop (length s - length p) s = p"

definition replace_char :: "char \<Rightarrow> string \<Rightarrow> string \<Rightarrow> string" where
  "replace_char d r s = concat (map (\<lambda>c. if c = d then r else [c]) s)"

text \<open>\<^verbatim>\<open>s.find(p, i)\<close>: the least index at or after \<open>i\<close> where \<open>p\<close> occurs.\<close>

definition find_from :: "string \<Rightarrow> string \<Rightarrow> nat \<Rightarrow> nat option" where
  "find_from s p i = find (\<lambda>j. starts_with (drop j s) p) [i ..< Suc (length s)]"

definition substr :: "string \<Rightarrow> string \<Rightarrow> bool" where
  "substr p s \<longleftrightarrow> find_from s p 0 \<noteq> None"

text \<open>Decimal rendering of integers, as in an f-string.\<close>

fun digits_of :: "nat \<Rightarrow> string" where
  "digits_of n = (if n < 10 then [char_of (48 + n)] else digits_of (n div 10) @ [char_of (48 + n mod 10)])"

declare digits_of.simps [simp del]

definition str_of_int :: "int \<Rightarrow> string" where
  "str_of_int i = (if i < 0 then ''-'' @ digits_of (nat (- i)) else digits_of (nat i))"

subsection \<open>Facts\<close>

lemma starts_with_append [simp]: "starts_with (p @ s) p"
  by (simp add: starts_with_def)

lemma starts_with_iff: "starts_with s p \<longleftrightarrow> (\<exists>r. s = p @ r)"
  unfolding starts_with_def by (metis append_take_drop_id append_eq_conv_conj)

lemma find_from_Some:
  assumes "find_from s p i = Some j"
  shows "i \<le> j" "j \<le> length s" "starts_with (drop j s) p"
  using assms unfolding find_from_def by (auto simp: find_Some_iff nth_append split: if_splits)

lemma find_from_fits:
  assumes "find_from s p i = Some j" shows "j + length p \<le> length s"
proof -
  have "j \<le> length s" and "starts_with (drop j s) p" using find_from_Some [OF assms] by auto
  then have "length p \<le> length (drop j s)" unfolding starts_with_iff by (metis length_append le_add1)
  with \<open>j \<le> length s\<close> show ?thesis by simp
qed

lemma find_from_None:
  "find_from s p i = None \<longleftrightarrow> (\<forall>j. i \<le> j \<and> j \<le> length s \<longrightarrow> \<not> starts_with (drop j s) p)"
  unfolding find_from_def by (auto simp: find_None_iff)

lemma find_from_least:
  "find_from s p i = Some j \<Longrightarrow> i \<le> k \<Longrightarrow> k < j \<Longrightarrow> \<not> starts_with (drop k s) p"
proof -
  assume f: "find_from s p i = Some j" and k: "i \<le> k" "k < j"
  from f obtain n where n: "n < length [i ..< Suc (length s)]" "j = [i ..< Suc (length s)] ! n"
    and least: "\<forall>m<n. \<not> starts_with (drop ([i ..< Suc (length s)] ! m) s) p"
    unfolding find_from_def find_Some_iff by auto
  then have "j = i + n" by (simp del: upt_Suc)
  with k have "k - i < n" by simp
  with least n have "\<not> starts_with (drop ([i ..< Suc (length s)] ! (k - i)) s) p" by blast
  moreover have "[i ..< Suc (length s)] ! (k - i) = k" using \<open>k - i < n\<close> n(1) k(1) by (simp del: upt_Suc)
  ultimately show ?thesis by simp
qed

lemma substr_iff: "substr p s \<longleftrightarrow> (\<exists>a b. s = a @ p @ b)"
proof
  assume "substr p s"
  then obtain j where "find_from s p 0 = Some j" unfolding substr_def by auto
  then have "starts_with (drop j s) p" and "j \<le> length s" by (auto dest: find_from_Some)
  then obtain r where "drop j s = p @ r" unfolding starts_with_iff by auto
  then have "s = take j s @ p @ r" by (metis append_take_drop_id)
  then show "\<exists>a b. s = a @ p @ b" by blast
next
  assume "\<exists>a b. s = a @ p @ b"
  then obtain a b where s: "s = a @ p @ b" by auto
  then have "starts_with (drop (length a) s) p" by simp
  moreover have "length a \<le> length s" using s by simp
  ultimately show "substr p s" unfolding substr_def using find_from_None [of s p 0] by auto
qed

lemma split_on_not_Nil: "split_on d s \<noteq> []"
  by (induction s) (auto split: list.splits)

lemma strip_by_Nil [simp]: "strip_by P [] = []"
  by (simp add: strip_by_def lstrip_by_def rstrip_by_def)

section \<open>Regular expressions\<close>

text \<open>
  A pattern of \<^verbatim>\<open>re\<close>, as far as the code's patterns go. \<open>rx_ends r s i\<close> lists the ends of the
  matches of \<open>r\<close> in \<open>s\<close> from position \<open>i\<close>, in the order Python's backtracking tries them: the
  left alternative first, a repetition as long as possible first. The head of the list is the match
  Python reports. A repetition goes round only while it consumes something.
\<close>

datatype rx =
    RChar "char \<Rightarrow> bool"
  | REmpty
  | RSeq rx rx
  | RAlt rx rx
  | RStar rx
  | RWordB
  | REnd
  | RStart
  | RBehind "char \<Rightarrow> bool"
  | RAhead rx

text \<open>\<^verbatim>\<open>\b\<close>: exactly one of the neighbours is a word character.\<close>

definition word_at :: "string \<Rightarrow> nat \<Rightarrow> bool" where
  "word_at s i \<longleftrightarrow> i < length s \<and> is_word (s ! i)"

definition at_word_boundary :: "string \<Rightarrow> nat \<Rightarrow> bool" where
  "at_word_boundary s i \<longleftrightarrow> (0 < i \<and> word_at s (i - 1)) \<noteq> word_at s i"

text \<open>\<^verbatim>\<open>$\<close> without \<^verbatim>\<open>MULTILINE\<close>: at the end, or before a final newline.\<close>

definition at_end :: "string \<Rightarrow> nat \<Rightarrow> bool" where
  "at_end s i \<longleftrightarrow> i = length s \<or> Suc i = length s \<and> s ! i = CHR 10"

fun rx_star :: "nat \<Rightarrow> (nat \<Rightarrow> nat list) \<Rightarrow> nat \<Rightarrow> nat list" where
  "rx_star 0 step i = [i]"
| "rx_star (Suc n) step i =
     concat (map (\<lambda>j. if i < j then rx_star n step j else []) (step i)) @ [i]"

primrec rx_ends :: "rx \<Rightarrow> string \<Rightarrow> nat \<Rightarrow> nat list" where
  "rx_ends (RChar P) s i = (if i < length s \<and> P (s ! i) then [Suc i] else [])"
| "rx_ends REmpty s i = [i]"
| "rx_ends (RSeq a b) s i = concat (map (rx_ends b s) (rx_ends a s i))"
| "rx_ends (RAlt a b) s i = rx_ends a s i @ rx_ends b s i"
| "rx_ends (RStar a) s i = rx_star (length s - i) (rx_ends a s) i"
| "rx_ends RWordB s i = (if at_word_boundary s i then [i] else [])"
| "rx_ends REnd s i = (if at_end s i then [i] else [])"
| "rx_ends RStart s i = (if i = 0 then [i] else [])"
| "rx_ends (RBehind P) s i = (if 0 < i \<and> i \<le> length s \<and> P (s ! (i - 1)) then [i] else [])"
| "rx_ends (RAhead a) s i = (if rx_ends a s i = [] then [] else [i])"

definition rx_match_end :: "rx \<Rightarrow> string \<Rightarrow> nat \<Rightarrow> nat option" where
  "rx_match_end r s i = (case rx_ends r s i of [] \<Rightarrow> None | j # _ \<Rightarrow> Some j)"

text \<open>\<^verbatim>\<open>r.match(s)\<close> is anchored at the start; \<^verbatim>\<open>r.search(s)\<close> is not.\<close>

definition rx_match :: "rx \<Rightarrow> string \<Rightarrow> bool" where
  "rx_match r s \<longleftrightarrow> rx_ends r s 0 \<noteq> []"

definition rx_search_at :: "rx \<Rightarrow> string \<Rightarrow> nat \<Rightarrow> (nat \<times> nat) option" where
  "rx_search_at r s i =
     (case find (\<lambda>j. rx_ends r s j \<noteq> []) [i ..< Suc (length s)] of
        None \<Rightarrow> None
      | Some j \<Rightarrow> Some (j, hd (rx_ends r s j)))"

definition rx_search :: "rx \<Rightarrow> string \<Rightarrow> bool" where
  "rx_search r s \<longleftrightarrow> list_ex (\<lambda>i. rx_ends r s i \<noteq> []) [0 ..< Suc (length s)]"

text \<open>
  \<^verbatim>\<open>r.sub(rep, s)\<close> for a pattern that matches no empty text: the leftmost matches, one after the
  other. The fuel is the number of characters left, enough since each round drops at least one.
\<close>

fun rx_sub_from :: "nat \<Rightarrow> rx \<Rightarrow> string \<Rightarrow> string \<Rightarrow> nat \<Rightarrow> string" where
  "rx_sub_from 0 r rep s i = drop i s"
| "rx_sub_from (Suc n) r rep s i =
     (case rx_search_at r s i of
        None \<Rightarrow> drop i s
      | Some (a, b) \<Rightarrow>
          if i < b then take (a - i) (drop i s) @ rep @ rx_sub_from n r rep s b else drop i s)"

definition rx_sub :: "rx \<Rightarrow> string \<Rightarrow> string \<Rightarrow> string" where
  "rx_sub r rep s = rx_sub_from (Suc (length s)) r rep s 0"

text \<open>
  \<^verbatim>\<open>r.finditer(s)\<close> for such a pattern: the spans of its matches from left to right. Replacing each by a
  function of its text is \<^verbatim>\<open>r.sub(f, s)\<close>.
\<close>

fun rx_spans_from :: "nat \<Rightarrow> rx \<Rightarrow> string \<Rightarrow> nat \<Rightarrow> (nat \<times> nat) list" where
  "rx_spans_from 0 r s i = []"
| "rx_spans_from (Suc n) r s i =
     (case rx_search_at r s i of
        None \<Rightarrow> []
      | Some (a, b) \<Rightarrow> if i < b then (a, b) # rx_spans_from n r s b else [])"

definition rx_spans :: "rx \<Rightarrow> string \<Rightarrow> (nat \<times> nat) list" where
  "rx_spans r s = rx_spans_from (Suc (length s)) r s 0"

definition slice :: "string \<Rightarrow> nat \<Rightarrow> nat \<Rightarrow> string" where
  "slice s a b = take (b - a) (drop a s)"

fun rx_replace_from :: "string \<Rightarrow> (string \<Rightarrow> string) \<Rightarrow> nat \<Rightarrow> (nat \<times> nat) list \<Rightarrow> string" where
  "rx_replace_from s f i [] = drop i s"
| "rx_replace_from s f i ((a, b) # ms) = slice s i a @ f (slice s a b) @ rx_replace_from s f b ms"

definition rx_sub_fun :: "rx \<Rightarrow> (string \<Rightarrow> string) \<Rightarrow> string \<Rightarrow> string" where
  "rx_sub_fun r f s = rx_replace_from s f 0 (rx_spans r s)"

subsection \<open>Building patterns\<close>

definition r_lit :: "string \<Rightarrow> rx" where
  "r_lit w = foldr (\<lambda>c r. RSeq (RChar (\<lambda>d. d = c)) r) w REmpty"

text \<open>A literal under \<^verbatim>\<open>IGNORECASE\<close>, written in lower case.\<close>

definition r_ilit :: "string \<Rightarrow> rx" where
  "r_ilit w = foldr (\<lambda>c r. RSeq (RChar (\<lambda>d. lower_char d = c)) r) w REmpty"

definition r_seq :: "rx list \<Rightarrow> rx" where
  "r_seq rs = foldr RSeq rs REmpty"

fun r_alt :: "rx list \<Rightarrow> rx" where
  "r_alt [] = RChar (\<lambda>_. False)"
| "r_alt [r] = r"
| "r_alt (r # q # rs) = RAlt r (r_alt (q # rs))"

definition r_plus :: "rx \<Rightarrow> rx" where
  "r_plus r = RSeq r (RStar r)"

definition r_opt :: "rx \<Rightarrow> rx" where
  "r_opt r = RAlt r REmpty"

text \<open>\<^verbatim>\<open>r{m}\<close>, \<^verbatim>\<open>r{m,}\<close> and \<^verbatim>\<open>r{m,n}\<close>.\<close>

fun r_rep :: "nat \<Rightarrow> rx \<Rightarrow> rx" where
  "r_rep 0 r = REmpty"
| "r_rep (Suc n) r = RSeq r (r_rep n r)"

definition r_min :: "nat \<Rightarrow> rx \<Rightarrow> rx" where
  "r_min m r = RSeq (r_rep m r) (RStar r)"

fun r_upto :: "nat \<Rightarrow> rx \<Rightarrow> rx" where
  "r_upto 0 r = REmpty"
| "r_upto (Suc n) r = RAlt (RSeq r (r_upto n r)) REmpty"

definition r_range :: "nat \<Rightarrow> nat \<Rightarrow> rx \<Rightarrow> rx" where
  "r_range m n r = RSeq (r_rep m r) (r_upto (n - m) r)"

definition r_words :: "string list \<Rightarrow> rx" where
  "r_words ws = r_alt (map r_lit ws)"

text \<open>A character class: letters, digits and the characters listed.\<close>

definition is_ascii_alpha :: "char \<Rightarrow> bool" where
  "is_ascii_alpha c = (let n = ord_of c in 65 \<le> n \<and> n \<le> 90 \<or> 97 \<le> n \<and> n \<le> 122)"

definition alnum_or :: "string \<Rightarrow> char \<Rightarrow> bool" where
  "alnum_or extra c \<longleftrightarrow> is_ascii_alpha c \<or> is_digit c \<or> c \<in> set extra"

definition is_hex_char :: "char \<Rightarrow> bool" where
  "is_hex_char c = (is_digit c \<or> (let n = ord_of c in 65 \<le> n \<and> n \<le> 70 \<or> 97 \<le> n \<and> n \<le> 102))"

definition r_class :: "string \<Rightarrow> rx" where
  "r_class extra = RChar (alnum_or extra)"

definition r_space :: rx where
  "r_space = RChar is_space"

definition r_digit :: rx where
  "r_digit = RChar is_digit"

definition r_any :: rx where
  "r_any = RChar (\<lambda>c. c \<noteq> CHR 10)"

definition r_iwords :: "string list \<Rightarrow> rx" where
  "r_iwords ws = r_alt (map r_ilit ws)"

subsection \<open>Facts\<close>

definition steps_within :: "nat \<Rightarrow> (nat \<Rightarrow> nat list) \<Rightarrow> bool" where
  "steps_within m step \<longleftrightarrow> (\<forall>i j. i \<le> m \<longrightarrow> j \<in> set (step i) \<longrightarrow> i \<le> j \<and> j \<le> m)"

lemma steps_withinD: "steps_within m step \<Longrightarrow> i \<le> m \<Longrightarrow> j \<in> set (step i) \<Longrightarrow> i \<le> j \<and> j \<le> m"
  unfolding steps_within_def by blast

lemma in_rx_star_Suc:
  "j \<in> set (rx_star (Suc n) step i) \<longleftrightarrow> j = i \<or> (\<exists>k\<in>set (step i). i < k \<and> j \<in> set (rx_star n step k))"
  by (auto split: if_splits)

lemma rx_star_bounds: "steps_within m step \<Longrightarrow> steps_within m (rx_star n step)"
proof (induction n)
  case 0
  show ?case by (simp add: steps_within_def)
next
  case (Suc n)
  show ?case unfolding steps_within_def
  proof (intro allI impI)
    fix i j assume i: "i \<le> m" and "j \<in> set (rx_star (Suc n) step i)"
    then consider "j = i" | k where "k \<in> set (step i)" "i < k" "j \<in> set (rx_star n step k)"
      unfolding in_rx_star_Suc by blast
    then show "i \<le> j \<and> j \<le> m"
    proof cases
      case 1 with i show ?thesis by simp
    next
      case 2
      have "k \<le> m" using steps_withinD [OF Suc.prems i 2(1)] by simp
      with steps_withinD [OF Suc.IH [OF Suc.prems] _ 2(3)] 2(2) show ?thesis by simp
    qed
  qed
qed

lemma rx_ends_within: "steps_within (length s) (rx_ends r s)"
proof (induction r)
  case (RSeq a b)
  show ?case unfolding steps_within_def
  proof (intro allI impI)
    fix i j assume i: "i \<le> length s" and "j \<in> set (rx_ends (RSeq a b) s i)"
    then obtain k where k: "k \<in> set (rx_ends a s i)" "j \<in> set (rx_ends b s k)" by auto
    have "i \<le> k \<and> k \<le> length s" by (rule steps_withinD [OF RSeq.IH(1) i k(1)])
    with steps_withinD [OF RSeq.IH(2) _ k(2)] show "i \<le> j \<and> j \<le> length s" by simp
  qed
next
  case (RStar a)
  show ?case unfolding steps_within_def
  proof (intro allI impI)
    fix i j assume "i \<le> length s" and "j \<in> set (rx_ends (RStar a) s i)"
    then have "j \<in> set (rx_star (length s - i) (rx_ends a s) i)" by simp
    with \<open>i \<le> length s\<close> show "i \<le> j \<and> j \<le> length s"
      using steps_withinD [OF rx_star_bounds [OF RStar.IH]] by blast
  qed
next
  case (RAlt a b)
  show ?case unfolding steps_within_def
  proof (intro allI impI)
    fix i j assume i: "i \<le> length s" and "j \<in> set (rx_ends (RAlt a b) s i)"
    then have "j \<in> set (rx_ends a s i) \<or> j \<in> set (rx_ends b s i)" by simp
    then show "i \<le> j \<and> j \<le> length s"
      using steps_withinD [OF RAlt.IH(1) i] steps_withinD [OF RAlt.IH(2) i] by blast
  qed
next
  case (RAhead a)
  show ?case unfolding steps_within_def rx_ends.simps by simp
next
  case (RBehind P)
  show ?case unfolding steps_within_def by simp
qed (simp_all add: steps_within_def)

lemmas rx_ends_bounds = steps_withinD [OF rx_ends_within]

end
