(* ===== verification/Json.thy ===== *)
theory Json
  imports PyText
begin

text \<open>
  JSON values as Python sees them after \<^verbatim>\<open>json.loads\<close>: the payloads of the event log, tool inputs,
  metadata. Floats are rationals (rounding is not modelled).
\<close>

datatype json =
    JNull
  | JBool bool
  | JInt int
  | JFloat rat
  | JStr string
  | JList "json list"
  | JObj "(string \<times> json) list"

text \<open>Python's truth value of a JSON value.\<close>

fun truthy :: "json \<Rightarrow> bool" where
  "truthy JNull = False"
| "truthy (JBool b) = b"
| "truthy (JInt i) = (i \<noteq> 0)"
| "truthy (JFloat q) = (q \<noteq> 0)"
| "truthy (JStr s) = (s \<noteq> [])"
| "truthy (JList xs) = (xs \<noteq> [])"
| "truthy (JObj kvs) = (kvs \<noteq> [])"

text \<open>\<^verbatim>\<open>d.get(k)\<close>: a missing key reads as \<^verbatim>\<open>None\<close>.\<close>

definition jget :: "(string, json) dict \<Rightarrow> string \<Rightarrow> json" where
  "jget d k = (case dget d k of None \<Rightarrow> JNull | Some v \<Rightarrow> v)"

text \<open>\<^verbatim>\<open>v.get(k) if isinstance(v, dict) else None\<close>.\<close>

definition jfield :: "json \<Rightarrow> string \<Rightarrow> json" where
  "jfield v k = (case v of JObj d \<Rightarrow> jget d k | _ \<Rightarrow> JNull)"

definition jor :: "json \<Rightarrow> json \<Rightarrow> json" where
  "jor a b = (if truthy a then a else b)"

definition is_jobj :: "json \<Rightarrow> bool" where
  "is_jobj v = (case v of JObj _ \<Rightarrow> True | _ \<Rightarrow> False)"

definition is_jlist :: "json \<Rightarrow> bool" where
  "is_jlist v = (case v of JList _ \<Rightarrow> True | _ \<Rightarrow> False)"

text \<open>\<^verbatim>\<open>for x in v or []\<close> over a list value.\<close>

definition jlist :: "json \<Rightarrow> json list" where
  "jlist v = (case v of JList xs \<Rightarrow> xs | _ \<Rightarrow> [])"

definition jstr_opt :: "json \<Rightarrow> string option" where
  "jstr_opt v = (case v of JStr s \<Rightarrow> Some s | _ \<Rightarrow> None)"

definition of_opt_str :: "string option \<Rightarrow> json" where
  "of_opt_str s = (case s of None \<Rightarrow> JNull | Some x \<Rightarrow> JStr x)"

definition of_opt_int :: "int option \<Rightarrow> json" where
  "of_opt_int s = (case s of None \<Rightarrow> JNull | Some x \<Rightarrow> JInt x)"

text \<open>
  \<^verbatim>\<open>str(v)\<close>. The text of a float, a list or a dict is the library's \<^verbatim>\<open>repr\<close>, the parameter \<open>repr\<close>.
\<close>

fun py_str :: "(json \<Rightarrow> string) \<Rightarrow> json \<Rightarrow> string" where
  "py_str repr (JStr s) = s"
| "py_str repr JNull = ''None''"
| "py_str repr (JBool b) = (if b then ''True'' else ''False'')"
| "py_str repr (JInt i) = str_of_int i"
| "py_str repr v = repr v"

section \<open>Errors and conversions\<close>

text \<open>The exceptions the modelled code raises or lets through.\<close>

datatype py_error = KeyError string | TypeError | ValueError | AttributeError | AssertionError

fun map_err :: "('a \<Rightarrow> 'e + 'b) \<Rightarrow> 'a list \<Rightarrow> 'e + 'b list" where
  "map_err f [] = Inr []"
| "map_err f (x # xs) =
     (case f x of Inl e \<Rightarrow> Inl e
      | Inr y \<Rightarrow> (case map_err f xs of Inl e \<Rightarrow> Inl e | Inr ys \<Rightarrow> Inr (y # ys)))"

text \<open>\<^verbatim>\<open>float(v)\<close>, the parse of a text being the parameter \<open>float_of\<close>.\<close>

definition py_float :: "(string \<Rightarrow> rat option) \<Rightarrow> json \<Rightarrow> py_error + rat" where
  "py_float float_of v =
     (case v of
        JFloat q \<Rightarrow> Inr q
      | JInt i \<Rightarrow> Inr (of_int i)
      | JBool b \<Rightarrow> Inr (if b then 1 else 0)
      | JStr s \<Rightarrow> (case float_of s of None \<Rightarrow> Inl ValueError | Some q \<Rightarrow> Inr q)
      | _ \<Rightarrow> Inl TypeError)"

text \<open>\<^verbatim>\<open>d["k"]\<close> on a value that should be a dict.\<close>

definition jindex :: "json \<Rightarrow> string \<Rightarrow> py_error + json" where
  "jindex d k =
     (case d of
        JObj kvs \<Rightarrow> (case dget kvs k of None \<Rightarrow> Inl (KeyError k) | Some v \<Rightarrow> Inr v)
      | _ \<Rightarrow> Inl TypeError)"

text \<open>What \<^verbatim>\<open>for x in v\<close> runs over: the items of a list, the keys of a dict, the characters of a text.\<close>

definition py_iter :: "json \<Rightarrow> py_error + json list" where
  "py_iter v =
     (case v of
        JList xs \<Rightarrow> Inr xs
      | JObj kvs \<Rightarrow> Inr (map (\<lambda>(k, x). JStr k) kvs)
      | JStr s \<Rightarrow> Inr (map (\<lambda>c. JStr [c]) s)
      | _ \<Rightarrow> Inl TypeError)"

text \<open>\<^verbatim>\<open>for x in v or []\<close>\<close>

definition iter_or_empty :: "json \<Rightarrow> py_error + json list" where
  "iter_or_empty v = (if truthy v then py_iter v else Inr [])"

text \<open>\<^verbatim>\<open>d == e\<close> on dicts: the same keys with the same values, in any order.\<close>

definition dict_eq :: "('k, 'v) dict \<Rightarrow> ('k, 'v) dict \<Rightarrow> bool" where
  "dict_eq d e = list_all (\<lambda>k. dget d k = dget e k) (dkeys d @ dkeys e)"

lemma dict_eq_refl [simp]: "dict_eq d d"
  by (simp add: dict_eq_def list_all_iff)

section \<open>Canonical form\<close>

text \<open>
  \<^verbatim>\<open>json.dumps(data, sort_keys=True, ...)\<close> orders the entries of every object by key, so the text
  depends on the value's canonical form only. A digest of the text is a function of that form.
\<close>

fun canon :: "json \<Rightarrow> json" where
  "canon (JList xs) = JList (map canon xs)"
| "canon (JObj kvs) = JObj (sort_key fst (map (\<lambda>(k, v). (k, canon v)) kvs))"
| "canon v = v"

subsection \<open>Facts\<close>

lemma jget_Nil [simp]: "jget [] k = JNull"
  by (simp add: jget_def)

lemma jget_Cons [simp]: "jget ((a, v) # d) k = (if k = a then v else jget d k)"
  by (simp add: jget_def)

lemma jfield_JObj [simp]: "jfield (JObj d) k = jget d k"
  by (simp add: jfield_def)

lemma is_jobj_simps [simp]:
  "is_jobj (JObj d)" "\<not> is_jobj JNull" "\<not> is_jobj (JStr s)" "\<not> is_jobj (JList xs)"
  by (simp_all add: is_jobj_def)

lemma jlist_simps [simp]: "jlist (JList xs) = xs" "jlist JNull = []"
  by (simp_all add: jlist_def)

lemma is_jlist_simps [simp]:
  "is_jlist (JList xs)" "\<not> is_jlist JNull" "\<not> is_jlist (JStr s)" "\<not> is_jlist (JObj d)"
  by (simp_all add: is_jlist_def)

lemma of_opt_str_simps [simp]: "of_opt_str None = JNull" "of_opt_str (Some x) = JStr x"
  by (simp_all add: of_opt_str_def)

lemma of_opt_int_simps [simp]: "of_opt_int None = JNull" "of_opt_int (Some x) = JInt x"
  by (simp_all add: of_opt_int_def)

lemma of_opt_str_inject [simp]: "of_opt_str a = of_opt_str b \<longleftrightarrow> a = b"
  by (cases a; cases b) auto

lemma of_opt_int_inject [simp]: "of_opt_int a = of_opt_int b \<longleftrightarrow> a = b"
  by (cases a; cases b) auto

text \<open>Two orders of the same entries have the same canonical form.\<close>

lemma sort_key_fst_perm:
  fixes xs ys :: "('a::linorder \<times> 'b) list"
  assumes "set xs = set ys" "distinct (map fst xs)" "distinct (map fst ys)"
  shows "sort_key fst xs = sort_key fst ys"
proof (rule map_sorted_distinct_set_unique [where f = fst])
  show "inj_on fst (set (sort_key fst xs) \<union> set (sort_key fst ys))"
    using assms by (simp add: distinct_map)
  show "distinct (map fst (sort_key fst xs))" "distinct (map fst (sort_key fst ys))"
    using assms by (simp_all add: distinct_map)
qed (use assms in simp_all)

lemma canon_JObj_perm:
  assumes "set kvs = set kvs'" "dict_ok kvs" "dict_ok kvs'"
  shows "canon (JObj kvs) = canon (JObj kvs')"
proof -
  let ?c = "map (\<lambda>(k, v). (k, canon v))"
  have "map fst (?c d) = map fst d" for d :: "(string \<times> json) list"
    by (induction d) auto
  moreover have "set (?c kvs) = set (?c kvs')" using assms(1) by auto
  ultimately show ?thesis
    using assms(2,3) sort_key_fst_perm [of "?c kvs" "?c kvs'"]
    by (simp add: dict_ok_def dkeys_def del: map_map)
qed

text \<open>The canonical form determines the entries, each up to its canonical form.\<close>

lemma dget_sort_key:
  fixes d :: "(string \<times> json) list"
  assumes "dict_ok d" shows "dget (sort_key fst d) k = dget d k"
proof -
  have ok: "dict_ok (sort_key fst d)"
    using assms by (simp add: dict_ok_def dkeys_def distinct_map)
  have "(k, v) \<in> set (sort_key fst d) \<longleftrightarrow> (k, v) \<in> set d" for v by simp
  then have "dget (sort_key fst d) k = Some v \<longleftrightarrow> dget d k = Some v" for v
    unfolding in_dict_iff [OF ok] in_dict_iff [OF assms] .
  then show ?thesis by (metis option.exhaust)
qed

lemma canon_JObj_dget:
  assumes "canon (JObj d) = canon (JObj d')" "dict_ok d" "dict_ok d'"
  shows "map_option canon (dget d k) = map_option canon (dget d' k)"
proof -
  let ?c = "\<lambda>d. map (\<lambda>(k, v). (k, canon v)) d"
  have ok: "dict_ok (?c d)" "dict_ok (?c d')"
    using assms(2,3) dict_ok_map_snd [of "\<lambda>_. canon"] by blast+
  have "sort_key fst (?c d) = sort_key fst (?c d')" using assms(1) by simp
  then have "dget (?c d) k = dget (?c d') k"
    using dget_sort_key [OF ok(1), of k] dget_sort_key [OF ok(2), of k] by simp
  then show ?thesis unfolding dget_map_snd [of "\<lambda>_. canon"] .
qed

end
