(* ===== verification/TraceModel.thy ===== *)
theory TraceModel
  imports Json
begin

text \<open>
  The trace schema of \<^verbatim>\<open>packages/opentraces-schema/.../models.py\<close>: one record per pydantic model,
  with the fields in the order the schema has them. A field \<^verbatim>\<open>str | None\<close> is a
  \<^typ>\<open>string option\<close>, a \<^verbatim>\<open>Literal\<close> is a \<^typ>\<open>string\<close>, a float a \<^typ>\<open>rat\<close>. Field names that several
  models share carry a prefix.
\<close>

record task =
  task_description :: "string option"
  task_source :: "string option"
  task_repository :: "string option"
  task_repository_url :: "string option"
  task_base_commit :: "string option"

record agent_info =
  agent_name :: string
  agent_version :: "string option"
  agent_model :: "string option"

record vcs_info =
  vcs_type :: string
  vcs_base_commit :: "string option"
  vcs_branch :: "string option"
  vcs_diff :: "string option"

record pin_record =
  pin_name :: string
  pin_version :: "string option"
  pin_hash :: "string option"
  pin_marker :: "string option"
  pin_source :: "string option"

record interpreter_info =
  interp_name :: "string option"
  interp_version :: "string option"

record environment =
  env_os :: "string option"
  env_shell :: "string option"
  env_vcs :: vcs_info
  language_ecosystem :: "string list"
  resolved_dependencies :: "pin_record list option"
  env_interpreter :: "interpreter_info option"
  env_arch :: "string option"
  env_platform :: "string option"
  abi_tag :: "string option"

record tool_call =
  tool_call_id :: string
  tool_name :: string
  tool_input :: "(string, json) dict"
  duration_ms :: "int option"

record observation =
  source_call_id :: string
  obs_content :: "string option"
  output_summary :: "string option"
  obs_error :: "string option"

record snippet =
  snip_file_path :: string
  snip_start_line :: "int option"
  snip_end_line :: "int option"
  snip_language :: "string option"
  snip_text :: "string option"
  snip_source_step :: "int option"

record token_usage =
  input_tokens :: int
  output_tokens :: int
  cache_read_tokens :: int
  cache_write_tokens :: int
  prefix_reuse_tokens :: int

record step =
  step_index :: int
  step_role :: string
  step_content :: "string option"
  reasoning_content :: "string option"
  step_model :: "string option"
  system_prompt_hash :: "string option"
  agent_role :: "string option"
  parent_step :: "int option"
  call_type :: "string option"
  subagent_trajectory_ref :: "string option"
  tools_available :: "string list"
  tool_calls :: "tool_call list"
  observations :: "observation list"
  snippets :: "snippet list"
  step_token_usage :: token_usage
  step_timestamp :: "string option"
  context_node_id :: "string option"

record outcome_info =
  outcome_success :: "bool option"
  signal_source :: string
  signal_confidence :: string
  outcome_description :: "string option"
  outcome_committed :: bool
  outcome_commit_sha :: "string option"
  terminal_state :: "string option"
  reward :: "rat option"
  reward_source :: "string option"

record metrics_info =
  total_steps :: int
  total_input_tokens :: int
  total_output_tokens :: int
  total_cache_read_tokens :: int
  total_cache_creation_tokens :: int
  total_duration_s :: "rat option"
  cache_hit_rate :: "rat option"
  estimated_cost_usd :: "rat option"

record security_metadata =
  sec_scanned :: bool
  flags_reviewed :: int
  redactions_applied :: int
  classifier_version :: "string option"

text \<open>
  \<^verbatim>\<open>TraceRecord\<close>. The attribution block, the patches, the Git links and the tool definitions are
  read by no component of this development; they are kept as the JSON values they serialise to.
\<close>

record trace_record =
  rec_schema_version :: string
  rec_trace_id :: string
  rec_session_id :: string
  rec_content_hash :: "string option"
  timestamp_start :: "string option"
  timestamp_end :: "string option"
  execution_context :: "string option"
  rec_task :: task
  rec_agent :: agent_info
  rec_environment :: environment
  system_prompts :: "(string, string) dict"
  tool_definitions :: "json list"
  steps :: "step list"
  rec_outcome :: outcome_info
  rec_dependencies :: "string list"
  rec_metrics :: metrics_info
  rec_security :: security_metadata
  rec_attribution :: json
  lifecycle :: string
  rec_generation_index :: int
  rec_patches :: "json list"
  rec_git_links :: "json list"
  context_tree_summary :: "(string, json) dict"
  rec_metadata :: "(string, json) dict"

section \<open>Model defaults\<close>

text \<open>The values pydantic fills in for the fields a caller leaves out.\<close>

definition token_usage_default :: token_usage where
  "token_usage_default = \<lparr>input_tokens = 0, output_tokens = 0, cache_read_tokens = 0,
     cache_write_tokens = 0, prefix_reuse_tokens = 0\<rparr>"

definition mk_step :: "int \<Rightarrow> string \<Rightarrow> step" where
  "mk_step i r = \<lparr>step_index = i, step_role = r, step_content = None, reasoning_content = None,
     step_model = None, system_prompt_hash = None, agent_role = None, parent_step = None,
     call_type = None, subagent_trajectory_ref = None, tools_available = [], tool_calls = [],
     observations = [], snippets = [], step_token_usage = token_usage_default,
     step_timestamp = None, context_node_id = None\<rparr>"

definition mk_tool_call :: "string \<Rightarrow> string \<Rightarrow> (string, json) dict \<Rightarrow> tool_call" where
  "mk_tool_call i n inp = \<lparr>tool_call_id = i, tool_name = n, tool_input = inp, duration_ms = None\<rparr>"

definition mk_observation :: "string \<Rightarrow> string option \<Rightarrow> observation" where
  "mk_observation i c = \<lparr>source_call_id = i, obs_content = c, output_summary = None, obs_error = None\<rparr>"

definition mk_trace_record :: "string \<Rightarrow> step list \<Rightarrow> trace_record" where
  "mk_trace_record tid ss =
    \<lparr>rec_schema_version = ''0.9.0'', rec_trace_id = tid, rec_session_id = tid, rec_content_hash = None,
     timestamp_start = None, timestamp_end = None, execution_context = None,
     rec_task = \<lparr>task_description = None, task_source = None, task_repository = None,
       task_repository_url = None, task_base_commit = None\<rparr>,
     rec_agent = \<lparr>agent_name = ''claude-code'', agent_version = None, agent_model = None\<rparr>,
     rec_environment = \<lparr>env_os = None, env_shell = None,
       env_vcs = \<lparr>vcs_type = ''none'', vcs_base_commit = None, vcs_branch = None, vcs_diff = None\<rparr>,
       language_ecosystem = [], resolved_dependencies = None, env_interpreter = None,
       env_arch = None, env_platform = None, abi_tag = None\<rparr>,
     system_prompts = [], tool_definitions = [], steps = ss,
     rec_outcome = \<lparr>outcome_success = None, signal_source = ''deterministic'',
       signal_confidence = ''derived'', outcome_description = None, outcome_committed = False,
       outcome_commit_sha = None, terminal_state = None, reward = None, reward_source = None\<rparr>,
     rec_dependencies = [],
     rec_metrics = \<lparr>total_steps = 0, total_input_tokens = 0, total_output_tokens = 0,
       total_cache_read_tokens = 0, total_cache_creation_tokens = 0, total_duration_s = None,
       cache_hit_rate = None, estimated_cost_usd = None\<rparr>,
     rec_security = \<lparr>sec_scanned = False, flags_reviewed = 0, redactions_applied = 0,
       classifier_version = None\<rparr>,
     rec_attribution = JNull, lifecycle = ''provisional'', rec_generation_index = 0,
     rec_patches = [], rec_git_links = [], context_tree_summary = [], rec_metadata = []\<rparr>"

end
