(* ===== verification/Tiling.thy ===== *)
theory Tiling
  imports TraceModel "HOL-Library.Multiset"
begin

text \<open>
  The trace slicer's domain model and its one hard contract, from \<^verbatim>\<open>core/slicing/models.py\<close> and
  \<^verbatim>\<open>core/slicing/tiling.py\<close>: building trajectories from a boundary set, and the independent verifier
  that recomputes the tiling from the spans alone. The verifier accepts exactly the lists of spans
  that cover every step once (\<open>exact_cover\<close>).
\<close>

section \<open>Model\<close>

text \<open>
  A label is plain text, or the milestone label that puts a check mark before the narration and a
  dot before the artifact tag.
\<close>

datatype label = LText string | LMilestone string string

record trajectory =
  t_start :: int
  t_end :: int
  t_kind :: string
  t_label :: label

datatype ctx_line = CtxStep int string | CtxElided | CtxPrior string | CtxCandidate string | CtxNext string

datatype prompt =
    SameOutcomePrompt "int list" string "ctx_line list"
  | PivotPrompt int "ctx_line list"

record judgment_request =
  req_id :: string
  req_kind :: string
  req_window :: "int \<times> int"
  req_candidate_step :: int
  req_prompt :: prompt
  req_decisions :: "string list"

record judgment_answer =
  ans_id :: string
  ans_decision :: string
  ans_confidence :: rat

record slice_result =
  trajectories :: "trajectory list"
  requests :: "judgment_request list"

definition span_of :: "trajectory \<Rightarrow> int \<times> int" where
  "span_of t = (t_start t, t_end t)"

section \<open>Trajectories from boundaries\<close>

definition boundary_list :: "int list \<Rightarrow> int \<Rightarrow> int list" where
  "boundary_list boundaries tot = sort (remdups (filter (\<lambda>b. 0 \<le> b \<and> b < tot) boundaries @ [0]))"

definition trajectories_from_boundaries ::
  "int list \<Rightarrow> int \<Rightarrow> string \<Rightarrow> (int \<Rightarrow> int \<Rightarrow> label) \<Rightarrow> trajectory list" where
  "trajectories_from_boundaries boundaries tot kind label_fn =
     (if tot \<le> 0 then []
      else let bs = boundary_list boundaries tot in
        map (\<lambda>i. let b = bs ! i;
                     e = (if i + 1 < length bs then bs ! (i + 1) - 1 else tot - 1)
                 in \<lparr>t_start = b, t_end = e, t_kind = kind, t_label = label_fn b e\<rparr>)
            [0 ..< length bs])"

section \<open>The independent verifier\<close>

record tiling_report =
  tl_valid :: bool
  tl_coverage :: rat
  tl_gaps :: nat
  tl_overlaps :: nat
  tl_out_of_range :: nat
  tl_contiguous :: bool
  tl_n_trajectories :: nat

text \<open>\<^verbatim>\<open>round(x, 6)\<close>, half to even.\<close>

definition round_half_even :: "rat \<Rightarrow> int" where
  "round_half_even q = (let f = \<lfloor>q\<rfloor>; d = q - of_int f in
     if d < 1 / 2 then f else if d > 1 / 2 then f + 1 else if even f then f else f + 1)"

definition round6 :: "rat \<Rightarrow> rat" where
  "round6 q = of_int (round_half_even (q * 1000000)) / 1000000"

definition hit :: "int \<Rightarrow> int \<Rightarrow> nat list \<times> nat \<Rightarrow> nat list \<times> nat" where
  "hit tot i st =
     (if 0 \<le> i \<and> i < tot then ((fst st)[nat i := fst st ! nat i + 1], snd st)
      else (fst st, snd st + 1))"

definition mark_span :: "int \<Rightarrow> int \<times> int \<Rightarrow> nat list \<times> nat \<Rightarrow> nat list \<times> nat" where
  "mark_span tot se st =
     (if snd se < fst se then (fst st, snd st + 1) else fold (hit tot) [fst se .. snd se] st)"

definition cover_counts :: "int \<Rightarrow> (int \<times> int) list \<Rightarrow> nat list \<times> nat" where
  "cover_counts tot spans = fold (mark_span tot) spans (replicate (nat tot) 0, 0)"

definition is_contiguous :: "(int \<times> int) list \<Rightarrow> int \<Rightarrow> bool" where
  "is_contiguous spans tot =
     (spans \<noteq> [] \<and> fst (hd spans) = 0 \<and> snd (last spans) = tot - 1 \<and>
      list_all (\<lambda>i. fst (spans ! i) = snd (spans ! (i - 1)) + 1) [1 ..< length spans])"

definition recompute_tiling :: "(int \<times> int) list \<Rightarrow> int \<Rightarrow> tiling_report" where
  "recompute_tiling raw tot =
     (if tot \<le> 0 then
        (let valid = (raw = []) in
         \<lparr>tl_valid = valid, tl_coverage = (if valid then 1 else 0), tl_gaps = 0, tl_overlaps = 0,
          tl_out_of_range = 0, tl_contiguous = valid, tl_n_trajectories = length raw\<rparr>)
      else
        (let spans = sort raw;
             (covered, out_of_range) = cover_counts tot spans;
             covered_cells = length (filter (\<lambda>c. c \<ge> 1) covered);
             overlaps = length (filter (\<lambda>c. c \<ge> 2) covered);
             gaps = length (filter (\<lambda>c. c = 0) covered);
             coverage = of_nat covered_cells / of_int tot;
             contiguous = is_contiguous spans tot;
             valid = (coverage = 1 \<and> overlaps = 0 \<and> gaps = 0 \<and> out_of_range = 0 \<and> contiguous)
         in \<lparr>tl_valid = valid, tl_coverage = round6 coverage, tl_gaps = gaps, tl_overlaps = overlaps,
             tl_out_of_range = out_of_range, tl_contiguous = contiguous,
             tl_n_trajectories = length raw\<rparr>))"

datatype tiling_error = TilingError tiling_report

definition assert_tiles :: "(int \<times> int) list \<Rightarrow> int \<Rightarrow> tiling_error + tiling_report" where
  "assert_tiles raw tot =
     (let tiling = recompute_tiling raw tot in
      if \<not> tl_valid tiling then Inl (TilingError tiling) else Inr tiling)"

section \<open>Specification\<close>

text \<open>Every step lies in exactly one span, and no span is empty or leaves the trace.\<close>

definition covers :: "int \<Rightarrow> int \<times> int \<Rightarrow> bool" where
  "covers i se \<longleftrightarrow> fst se \<le> i \<and> i \<le> snd se"

definition in_range :: "int \<Rightarrow> int \<Rightarrow> int \<times> int \<Rightarrow> bool" where
  "in_range lo hi se \<longleftrightarrow> lo \<le> fst se \<and> fst se \<le> snd se \<and> snd se < hi"

definition exact_cover :: "(int \<times> int) list \<Rightarrow> int \<Rightarrow> int \<Rightarrow> bool" where
  "exact_cover spans lo hi \<longleftrightarrow>
     (\<forall>se \<in> set spans. in_range lo hi se) \<and>
     (\<forall>i. lo \<le> i \<and> i < hi \<longrightarrow> length (filter (covers i) spans) = 1)"

text \<open>The same for spans in order: each starts where the one before it stopped.\<close>

fun tiles :: "(int \<times> int) list \<Rightarrow> int \<Rightarrow> int \<Rightarrow> bool" where
  "tiles [] lo hi \<longleftrightarrow> lo = hi"
| "tiles (se # ses) lo hi \<longleftrightarrow> fst se = lo \<and> lo \<le> snd se \<and> snd se < hi \<and> tiles ses (snd se + 1) hi"

section \<open>Counting\<close>

lemma length_fold_hit: "length (fst (fold (hit tot) is st)) = length (fst st)"
  by (induction "is" arbitrary: st) (auto simp: hit_def)

lemma nth_fold_hit:
  assumes "length (fst st) = nat tot" "0 \<le> k" "k < tot"
  shows "fst (fold (hit tot) is st) ! nat k = fst st ! nat k + length (filter (\<lambda>i. i = k) is)"
  using assms
proof (induction "is" arbitrary: st)
  case (Cons i "is")
  have len: "length (fst (hit tot i st)) = nat tot" using Cons.prems by (auto simp: hit_def)
  have "fst (hit tot i st) ! nat k = fst st ! nat k + (if i = k then 1 else 0)"
    using Cons.prems by (auto simp: hit_def nth_list_update nat_eq_iff)
  with Cons.IH [OF len Cons.prems(2,3)] show ?case by simp
qed simp

lemma snd_fold_hit:
  "snd (fold (hit tot) is st) = snd st + length (filter (\<lambda>i. \<not> (0 \<le> i \<and> i < tot)) is)"
  by (induction "is" arbitrary: st) (auto simp: hit_def)

lemma count_upto: "length (filter (\<lambda>i. i = k) [s .. e]) = (if s \<le> k \<and> k \<le> e then 1 else 0)"
proof -
  have "length (filter (\<lambda>i. i = k) xs) = (if k \<in> set xs then 1 else 0)" if "distinct xs" for xs :: "int list"
    using that by (induction xs) auto
  from this [of "[s .. e]"] show ?thesis by simp
qed

text \<open>One span marks the cells it covers, and counts as out of range what it has outside.\<close>

definition stray :: "int \<Rightarrow> int \<times> int \<Rightarrow> nat" where
  "stray tot se = (if snd se < fst se then 1 else length (filter (\<lambda>i. \<not> (0 \<le> i \<and> i < tot)) [fst se .. snd se]))"

lemma mark_span_cell:
  assumes "length (fst st) = nat tot" "0 \<le> k" "k < tot"
  shows "length (fst (mark_span tot se st)) = nat tot"
    and "fst (mark_span tot se st) ! nat k = fst st ! nat k + (if covers k se then 1 else 0)"
    and "snd (mark_span tot se st) = snd st + stray tot se"
  using assms nth_fold_hit [OF assms, of "[fst se .. snd se]"]
  by (auto simp: mark_span_def length_fold_hit snd_fold_hit stray_def covers_def count_upto)

lemma cover_fold:
  assumes "length (fst st) = nat tot" "0 < tot"
  shows "length (fst (fold (mark_span tot) spans st)) = nat tot \<and>
    (0 \<le> k \<longrightarrow> k < tot \<longrightarrow>
      fst (fold (mark_span tot) spans st) ! nat k = fst st ! nat k + length (filter (covers k) spans)) \<and>
    snd (fold (mark_span tot) spans st) = snd st + sum_list (map (stray tot) spans)"
  using assms
proof (induction spans arbitrary: st)
  case Nil
  then show ?case by simp
next
  case (Cons se spans)
  let ?st = "mark_span tot se st"
  have len: "length (fst ?st) = nat tot" and oor: "snd ?st = snd st + stray tot se"
    using mark_span_cell [OF Cons.prems(1), of 0] Cons.prems(2) by auto
  have cell: "0 \<le> k \<Longrightarrow> k < tot \<Longrightarrow> fst ?st ! nat k = fst st ! nat k + (if covers k se then 1 else 0)"
    by (rule mark_span_cell(2) [OF Cons.prems(1)])
  show ?case using Cons.IH [OF len Cons.prems(2)] oor cell by auto
qed

lemma stray_zero_iff: "0 < tot \<Longrightarrow> stray tot se = 0 \<longleftrightarrow> in_range 0 tot se"
proof (cases "snd se < fst se")
  case False
  assume "0 < tot"
  have "stray tot se = 0 \<longleftrightarrow> (\<forall>i\<in>{fst se .. snd se}. 0 \<le> i \<and> i < tot)"
    using False by (auto simp: stray_def filter_empty_conv)
  also have "\<dots> \<longleftrightarrow> in_range 0 tot se"
    using False by (force simp: in_range_def)
  finally show ?thesis .
qed (auto simp: stray_def in_range_def)

lemma cover_counts_facts:
  assumes "0 < tot"
  shows "length (fst (cover_counts tot spans)) = nat tot"
    and "0 \<le> k \<Longrightarrow> k < tot \<Longrightarrow> fst (cover_counts tot spans) ! nat k = length (filter (covers k) spans)"
    and "snd (cover_counts tot spans) = 0 \<longleftrightarrow> (\<forall>se\<in>set spans. in_range 0 tot se)"
  using cover_fold [where st = "(replicate (nat tot) 0, 0)" and tot = tot and spans = spans and k = k] assms
  by (auto simp: cover_counts_def stray_zero_iff)

text \<open>The three cell counts of the report say, together, that every cell is covered once.\<close>

lemma all_once_iff:
  fixes cs :: "nat list"
  shows "length (filter (\<lambda>c. 2 \<le> c) cs) = 0 \<and> length (filter (\<lambda>c. c = 0) cs) = 0 \<longleftrightarrow> (\<forall>c\<in>set cs. c = 1)"
  by (auto simp: filter_empty_conv) (metis One_nat_def Suc_leI less_one linorder_neqE_nat numeral_2_eq_2 Suc_lessI not_gr_zero)

lemma once_coverage: "(\<forall>c\<in>set cs. c = (1::nat)) \<Longrightarrow> filter (\<lambda>c. 1 \<le> c) cs = cs"
  by (induction cs) auto

lemma cells_once_iff:
  assumes "0 < tot"
  shows "(\<forall>c\<in>set (fst (cover_counts tot spans)). c = 1) \<longleftrightarrow>
    (\<forall>i. 0 \<le> i \<and> i < tot \<longrightarrow> length (filter (covers i) spans) = 1)" (is "?L \<longleftrightarrow> ?R")
proof
  assume L: ?L
  show ?R
  proof (intro allI impI)
    fix i assume i: "0 \<le> i \<and> i < tot"
    then have "nat i < length (fst (cover_counts tot spans))"
      using cover_counts_facts(1) [OF assms] by simp
    with L have "fst (cover_counts tot spans) ! nat i = 1" by (metis nth_mem)
    with cover_counts_facts(2) [OF assms] i show "length (filter (covers i) spans) = 1" by metis
  qed
next
  assume R: ?R
  show ?L
  proof
    fix c assume "c \<in> set (fst (cover_counts tot spans))"
    then obtain j where j: "j < nat tot" "c = fst (cover_counts tot spans) ! j"
      using cover_counts_facts(1) [OF assms] by (metis in_set_conv_nth)
    then have "0 \<le> int j" "int j < tot" by auto
    with cover_counts_facts(2) [OF assms, of "int j"] R j(2) show "c = 1" by simp
  qed
qed

section \<open>Exact covers are tilings\<close>

lemma exact_cover_perm: "mset xs = mset ys \<Longrightarrow> exact_cover xs lo hi = exact_cover ys lo hi"
proof -
  assume m: "mset xs = mset ys"
  then have "set xs = set ys" by (rule mset_eq_setD)
  moreover have "length (filter P xs) = length (filter P ys)" for P
    using m by (metis mset_filter size_mset)
  ultimately show ?thesis unfolding exact_cover_def by simp
qed

lemma tiles_exact_cover: "tiles spans lo hi \<Longrightarrow> exact_cover spans lo hi"
proof (induction spans arbitrary: lo)
  case Nil
  then show ?case by (simp add: exact_cover_def)
next
  case (Cons se ses)
  then have h: "fst se = lo" "lo \<le> snd se" "snd se < hi" and IH: "exact_cover ses (snd se + 1) hi" by auto
  have inr: "in_range lo hi x" if "x \<in> set (se # ses)" for x
    using that IH h by (fastforce simp: exact_cover_def in_range_def)
  have out: "filter (covers i) ses = []" if "i \<le> snd se" for i
    using IH that by (fastforce simp: exact_cover_def in_range_def covers_def filter_empty_conv)
  have "length (filter (covers i) (se # ses)) = 1" if "lo \<le> i" "i < hi" for i
  proof (cases "i \<le> snd se")
    case True
    then show ?thesis using out [OF True] that h by (simp add: covers_def)
  next
    case False
    then show ?thesis using IH that by (simp add: exact_cover_def covers_def)
  qed
  with inr show ?case by (simp add: exact_cover_def)
qed

lemma exact_cover_tiles:
  "exact_cover spans lo hi \<Longrightarrow> sorted spans \<Longrightarrow> lo \<le> hi \<Longrightarrow> tiles spans lo hi"
proof (induction spans arbitrary: lo)
  case Nil
  then have "\<not> lo < hi" by (force simp: exact_cover_def)
  with Nil show ?case by simp
next
  case (Cons se ses)
  from Cons.prems(1) have inr: "\<And>x. x \<in> set (se # ses) \<Longrightarrow> in_range lo hi x"
    and once: "\<And>i. lo \<le> i \<Longrightarrow> i < hi \<Longrightarrow> length (filter (covers i) (se # ses)) = 1"
    by (auto simp: exact_cover_def)
  from inr [of se] have se: "lo \<le> fst se" "fst se \<le> snd se" "snd se < hi" by (auto simp: in_range_def)
  have le: "fst se \<le> fst x" if "x \<in> set ses" for x
    using Cons.prems(2) that by (cases se; cases x) (auto simp: less_eq_prod_def)
  have "fst se = lo"
  proof (rule ccontr)
    assume "fst se \<noteq> lo"
    with se(1) have "lo < fst se" by simp
    then have "filter (covers lo) (se # ses) = []"
      using le by (fastforce simp: covers_def filter_empty_conv)
    with once [of lo] se show False by simp
  qed
  have later: "filter (covers i) ses = []" if "lo \<le> i" "i \<le> snd se" for i
  proof -
    have "covers i se" using that \<open>fst se = lo\<close> by (simp add: covers_def)
    with once [of i] that se show ?thesis by simp
  qed
  have start: "snd se < fst x" if "x \<in> set ses" for x
  proof (rule ccontr)
    assume "\<not> snd se < fst x"
    moreover have "in_range lo hi x" using inr that by simp
    ultimately have "covers (fst x) x" "lo \<le> fst x" "fst x \<le> snd se"
      by (auto simp: covers_def in_range_def)
    with later [of "fst x"] that show False by (auto simp: filter_empty_conv)
  qed
  have "exact_cover ses (snd se + 1) hi"
    unfolding exact_cover_def
  proof (intro conjI ballI allI impI)
    fix x assume "x \<in> set ses"
    with start inr show "in_range (snd se + 1) hi x" by (fastforce simp: in_range_def)
  next
    fix i assume "snd se + 1 \<le> i \<and> i < hi"
    with once [of i] se \<open>fst se = lo\<close> show "length (filter (covers i) ses) = 1"
      by (simp add: covers_def)
  qed
  from Cons.IH [OF this] Cons.prems(2) se \<open>fst se = lo\<close> show ?case by simp
qed

lemma tiles_last: "tiles (se # ses) lo hi \<Longrightarrow> snd (last (se # ses)) = hi - 1"
  by (induction ses arbitrary: se lo) auto

lemma tiles_adjacent:
  "tiles spans lo hi \<Longrightarrow> 0 < i \<Longrightarrow> i < length spans \<Longrightarrow> fst (spans ! i) = snd (spans ! (i - 1)) + 1"
proof (induction spans arbitrary: lo i)
  case (Cons se ses)
  show ?case
  proof (cases "i = 1")
    case True
    with Cons.prems show ?thesis by (cases ses) auto
  next
    case False
    with Cons.prems Cons.IH [of "snd se + 1" "i - 1"] show ?thesis
      by (auto simp: nth_Cons' numeral_eq_Suc)
  qed
qed simp

lemma tiles_contiguous: "tiles spans 0 tot \<Longrightarrow> 0 < tot \<Longrightarrow> is_contiguous spans tot"
proof -
  assume t: "tiles spans 0 tot" and "0 < tot"
  then have "spans \<noteq> []" "fst (hd spans) = 0" by (cases spans; simp)+
  moreover from this t have "snd (last spans) = tot - 1"
    using tiles_last [of "hd spans" "tl spans" 0 tot] by simp
  moreover have "list_all (\<lambda>i. fst (spans ! i) = snd (spans ! (i - 1)) + 1) [1 ..< length spans]"
    unfolding list_all_iff using tiles_adjacent [OF t] by auto
  ultimately show ?thesis unfolding is_contiguous_def by blast
qed

section \<open>The verifier accepts exactly the exact covers\<close>

lemma valid_iff_exact_cover:
  assumes "0 < tot"
  shows "tl_valid (recompute_tiling raw tot) \<longleftrightarrow> exact_cover raw 0 tot"
proof -
  let ?s = "sort raw"
  obtain cov oor where c: "cover_counts tot ?s = (cov, oor)" by (cases "cover_counts tot ?s")
  have perm: "exact_cover raw 0 tot = exact_cover ?s 0 tot" by (rule exact_cover_perm) simp
  have len: "length cov = nat tot" and once: "(\<forall>c\<in>set cov. c = 1) \<longleftrightarrow>
      (\<forall>i. 0 \<le> i \<and> i < tot \<longrightarrow> length (filter (covers i) ?s) = 1)"
    and oor: "oor = 0 \<longleftrightarrow> (\<forall>se\<in>set ?s. in_range 0 tot se)"
    using cover_counts_facts(1,3) [OF assms, of ?s] cells_once_iff [OF assms, of ?s] c by auto
  have v: "tl_valid (recompute_tiling raw tot) \<longleftrightarrow>
      of_nat (length (filter (\<lambda>c. c \<ge> 1) cov)) / of_int tot = (1::rat) \<and>
      length (filter (\<lambda>c. c \<ge> 2) cov) = 0 \<and> length (filter (\<lambda>c. c = 0) cov) = 0 \<and> oor = 0 \<and>
      is_contiguous ?s tot"
    using assms c by (simp add: recompute_tiling_def Let_def del: length_0_conv)
  show ?thesis
  proof
    assume "tl_valid (recompute_tiling raw tot)"
    then have "exact_cover ?s 0 tot"
      using v all_once_iff [of cov] once oor unfolding exact_cover_def by blast
    then show "exact_cover raw 0 tot" using perm by simp
  next
    assume "exact_cover raw 0 tot"
    with perm have e: "exact_cover ?s 0 tot" by simp
    then have cells: "\<forall>c\<in>set cov. c = 1" and "oor = 0" using once oor unfolding exact_cover_def by blast+
    have "is_contiguous ?s tot"
      by (rule tiles_contiguous [OF exact_cover_tiles [OF e]]) (use assms in simp_all)
    moreover have "of_nat (length (filter (\<lambda>c. c \<ge> 1) cov)) / of_int tot = (1::rat)"
      using once_coverage [OF cells] len assms by (simp add: of_nat_nat)
    ultimately show "tl_valid (recompute_tiling raw tot)"
      using v all_once_iff [of cov] cells \<open>oor = 0\<close> by blast
  qed
qed

section \<open>Trajectories built from boundaries tile\<close>

lemma boundary_list_facts:
  assumes "0 < tot"
  shows "sorted (boundary_list bs tot)" "distinct (boundary_list bs tot)" "0 \<in> set (boundary_list bs tot)"
    and "b \<in> set (boundary_list bs tot) \<longleftrightarrow> b = 0 \<or> b \<in> set bs \<and> 0 \<le> b \<and> b < tot"
  using assms by (auto simp: boundary_list_def)

text \<open>The spans between consecutive elements of a strictly ascending list, up to \<open>hi\<close>.\<close>

fun spans_between :: "int list \<Rightarrow> int \<Rightarrow> (int \<times> int) list" where
  "spans_between [] hi = []"
| "spans_between [b] hi = [(b, hi - 1)]"
| "spans_between (b # c # bs) hi = (b, c - 1) # spans_between (c # bs) hi"

lemma spans_between_nth:
  "i < length bs \<Longrightarrow>
    spans_between bs hi ! i = (bs ! i, if i + 1 < length bs then bs ! (i + 1) - 1 else hi - 1)"
proof (induction bs hi arbitrary: i rule: spans_between.induct)
  case (3 b c bs hi)
  then show ?case by (cases i) auto
qed auto

lemma length_spans_between [simp]: "length (spans_between bs hi) = length bs"
  by (induction bs hi rule: spans_between.induct) auto

lemma spans_between_tiles:
  "sorted bs \<Longrightarrow> distinct bs \<Longrightarrow> bs \<noteq> [] \<Longrightarrow> (\<forall>b\<in>set bs. b < hi) \<Longrightarrow> tiles (spans_between bs hi) (hd bs) hi"
proof (induction bs hi rule: spans_between.induct)
  case (3 b c bs hi)
  then have "b < c" by (auto simp: le_less)
  moreover have "tiles (spans_between (c # bs) hi) c hi" using 3 by simp
  ultimately show ?case using 3 by simp
qed auto

lemma fst_spans_between [simp]: "map fst (spans_between bs hi) = bs"
  by (induction bs hi rule: spans_between.induct) auto

lemma spans_of_trajectories:
  assumes "0 < tot"
  shows "map span_of (trajectories_from_boundaries bs tot k lab) = spans_between (boundary_list bs tot) tot"
  using assms
  by (auto simp: trajectories_from_boundaries_def Let_def span_of_def spans_between_nth intro!: nth_equalityI)

lemma trajectories_tile:
  assumes "0 < tot"
  shows "tiles (map span_of (trajectories_from_boundaries bs tot k lab)) 0 tot"
proof -
  let ?b = "boundary_list bs tot"
  have s: "sorted ?b" and d: "distinct ?b" and z: "0 \<in> set ?b" and m: "\<forall>b\<in>set ?b. 0 \<le> b \<and> b < tot"
    using boundary_list_facts [OF assms] assms by auto
  have "hd ?b = 0"
    using z m s by (cases ?b) fastforce+
  moreover have "tiles (spans_between ?b tot) (hd ?b) tot"
    by (rule spans_between_tiles [OF s d]) (use z m in auto)
  ultimately show ?thesis by (simp add: spans_of_trajectories [OF assms])
qed

text \<open>The starts are exactly the boundaries that fall inside the trace, and zero.\<close>

lemma trajectories_starts:
  assumes "0 < tot"
  shows "map t_start (trajectories_from_boundaries bs tot k lab) = boundary_list bs tot"
proof -
  let ?ts = "trajectories_from_boundaries bs tot k lab"
  have "map t_start ?ts = map fst (map span_of ?ts)" by (simp add: span_of_def)
  also have "\<dots> = boundary_list bs tot" by (simp only: spans_of_trajectories [OF assms] fst_spans_between)
  finally show ?thesis .
qed

lemma trajectories_empty: "tot \<le> 0 \<Longrightarrow> trajectories_from_boundaries bs tot k lab = []"
  by (simp add: trajectories_from_boundaries_def)

lemma trajectories_valid:
  "0 \<le> tot \<Longrightarrow> tl_valid (recompute_tiling (map span_of (trajectories_from_boundaries bs tot k lab)) tot)"
proof (cases "tot = 0")
  case True
  then show ?thesis by (simp add: recompute_tiling_def trajectories_empty)
next
  case False
  assume "0 \<le> tot"
  with False have "0 < tot" by simp
  then show ?thesis
    using valid_iff_exact_cover tiles_exact_cover [OF trajectories_tile] by simp
qed

lemma tiles_spans:
  "tiles spans lo hi \<Longrightarrow> se \<in> set spans \<Longrightarrow> lo \<le> fst se \<and> fst se \<le> snd se \<and> snd se < hi"
  by (induction spans arbitrary: lo) fastforce+

lemma tiles_length: "tiles spans lo hi \<Longrightarrow> int (length spans) \<le> hi - lo"
  by (induction spans arbitrary: lo) fastforce+

text \<open>Equal boundary sets give equal spans.\<close>

lemma boundary_list_cong:
  assumes "{b \<in> set bs. 0 \<le> b \<and> b < tot} \<union> {0} = {b \<in> set cs. 0 \<le> b \<and> b < tot} \<union> {0}"
  shows "boundary_list bs tot = boundary_list cs tot"
  unfolding boundary_list_def
proof (rule sorted_distinct_set_unique)
  show "set (sort (remdups (filter (\<lambda>b. 0 \<le> b \<and> b < tot) bs @ [0]))) =
    set (sort (remdups (filter (\<lambda>b. 0 \<le> b \<and> b < tot) cs @ [0])))" using assms by auto
qed auto

end
