(* ===== verification/SliceSteps.thy ===== *)
theory SliceSteps
  imports Tiling
begin

text \<open>
  The step accessors of \<^verbatim>\<open>core/slicing/steps.py\<close> over the pydantic form of a step: which user
  steps open a trajectory, which observations are an unambiguous pass, the narration and the
  previews the slicers label spans with. A faultpoint is a parameter, the name of the site armed.
\<close>

section \<open>Patterns\<close>

definition EDIT_TOOLS :: "string list" where
  "EDIT_TOOLS = [''apply_patch'', ''Edit'', ''Write'', ''MultiEdit'', ''NotebookEdit'', ''str_replace_editor'']"

definition TAG_BLOCK_RE :: rx where
  "TAG_BLOCK_RE = r_seq [RStar r_space,
     r_alt [r_lit ''<<'',
       r_seq [r_lit ''<'',
         r_alt [r_lit ''skill'', r_lit ''subagent_notification'', r_lit ''task-notification'', r_lit ''turn_aborted''],
         RWordB]]]"

definition CONTINUATION_RE :: rx where
  "CONTINUATION_RE = r_seq [RStar r_space,
     r_alt [r_ilit ''continue'', r_ilit ''keep going'', r_seq [r_ilit ''continue'', RWordB, RStar r_any]],
     RStar r_space, REnd]"

definition name_char :: "char \<Rightarrow> bool" where
  "name_char c = (let n = ord_of c in 65 \<le> n \<and> n \<le> 90 \<or> 97 \<le> n \<and> n \<le> 122 \<or> c = CHR ''_'' \<or> c = CHR ''-'')"

definition NOTIFICATION_RE :: rx where
  "NOTIFICATION_RE = r_seq [RStar r_space, r_lit ''<'',
     r_alt [r_seq [RStar (RChar name_char), r_lit ''notification''], r_lit ''task-notification''], RWordB]"

definition ATTACHMENT_RE :: rx where
  "ATTACHMENT_RE = r_seq [r_lit ''[Image'',
     r_alt [r_seq [RStar r_space, r_lit ''#'', r_plus r_digit],
            r_seq [r_lit '':'', RStar (RChar (\<lambda>c. c \<noteq> CHR '']''))]],
     r_lit '']'']"

definition PSEUDO_PREFIX_RE :: rx where
  "PSEUDO_PREFIX_RE = r_seq [RStar r_space,
     r_alt [r_lit ''[Request interrupted'', r_lit ''<system-reminder''], RWordB]"

definition is_pseudo_turn :: "string \<Rightarrow> bool" where
  "is_pseudo_turn t = (if rx_match PSEUDO_PREFIX_RE t then True else strip (rx_sub ATTACHMENT_RE [] t) = [])"

definition PASS_RE :: rx where
  "PASS_RE = r_seq [RWordB,
     r_alt [r_seq [r_plus r_digit, r_plus r_space, r_ilit ''passed''],
            r_seq [r_ilit ''all test'', r_opt (r_ilit ''s''), r_plus r_space, r_ilit ''passe'', r_opt (r_ilit ''d'')],
            r_seq [r_ilit ''test'', r_opt (r_ilit ''s''), r_plus r_space, r_ilit ''passed''],
            r_ilit ''build succeeded'', r_ilit ''0 failed'', r_ilit ''compilation successful''],
     RWordB]"

definition FAIL_RE :: rx where
  "FAIL_RE = r_seq [RWordB,
     r_alt [r_seq [r_plus r_digit, r_plus r_space, r_ilit ''failed''],
            r_seq [r_ilit ''fail'', r_opt (r_alt [r_ilit ''ed'', r_ilit ''ure''])],
            r_ilit ''error'', r_ilit ''exception'', r_ilit ''traceback'', r_ilit ''did not pass'',
            r_ilit ''assertionerror'',
            r_seq [r_ilit ''exit code '', RChar (\<lambda>c. is_digit c \<and> c \<noteq> CHR ''0'')]],
     RWordB]"

definition FILLER_RE :: rx where
  "FILLER_RE = r_seq [RStar r_space,
     r_alt [r_ilit ''done'', r_seq [r_ilit ''ok'', r_opt (r_ilit ''ay'')], r_ilit ''got it'', r_ilit ''great'',
            r_ilit ''perfect'', r_ilit ''sure'', r_ilit ''alright'', r_ilit ''all set'', r_ilit ''nice''],
     r_plus (RChar (\<lambda>c. is_space c \<or> c \<in> set ''.!:,;-''))]"

section \<open>Accessors\<close>

definition role :: "step \<Rightarrow> string" where
  "role s = step_role s"

definition str_or :: "string option \<Rightarrow> string \<Rightarrow> string" where
  "str_or a b = (case a of None \<Rightarrow> b | Some x \<Rightarrow> if x = [] then b else x)"

definition content :: "step \<Rightarrow> string" where
  "content s = str_or (step_content s) []"

definition tool_names :: "step \<Rightarrow> string list" where
  "tool_names s = filter (\<lambda>n. n \<noteq> []) (map tool_name (tool_calls s))"

definition tool_inputs :: "step \<Rightarrow> (string, json) dict list" where
  "tool_inputs s = map tool_input (tool_calls s)"

definition obs_text :: "step \<Rightarrow> string" where
  "obs_text s = join [CHR 10]
     (filter (\<lambda>p. p \<noteq> []) (map (\<lambda>ob. str_or (obs_content ob) (str_or (output_summary ob) [])) (observations s)))"

definition obs_has_error :: "step \<Rightarrow> bool" where
  "obs_has_error s = list_ex (\<lambda>ob. str_or (obs_error ob) [] \<noteq> []) (observations s)"

definition edit_file_of :: "string \<Rightarrow> (string, json) dict \<Rightarrow> string list" where
  "edit_file_of n inp =
     (if n \<in> set EDIT_TOOLS then
        (case jor (jor (jget inp ''file_path'') (jget inp ''path'')) (jget inp ''filename'') of
           JStr fp \<Rightarrow> [fp]
         | _ \<Rightarrow> if n = ''apply_patch'' then [''<apply_patch>''] else [])
      else [])"

definition edit_files :: "step \<Rightarrow> string list" where
  "edit_files s = concat (map (\<lambda>(n, inp). edit_file_of n inp) (zip (tool_names s) (tool_inputs s)))"

definition is_notification :: "step \<Rightarrow> bool" where
  "is_notification s \<longleftrightarrow> role s = ''user'' \<and> rx_match NOTIFICATION_RE (strip (content s))"

definition is_unambiguous_pass :: "step \<Rightarrow> bool" where
  "is_unambiguous_pass s =
     (let text = obs_text s in if text = [] then False else rx_search PASS_RE text \<and> \<not> rx_search FAIL_RE text)"

section \<open>Narration and previews\<close>

text \<open>The filler pattern is anchored, so substituting it drops at most one match, at the start.\<close>

definition narration :: "step \<Rightarrow> string" where
  "narration s =
     (let txt = join '' '' (words (content s)) in
      if txt = [] then []
      else let stripped = strip (case rx_match_end FILLER_RE txt 0 of None \<Rightarrow> txt | Some e \<Rightarrow> drop e txt);
               txt' = (if stripped = [] then txt else stripped)
           in take 76 txt')"

text \<open>\<^verbatim>\<open>steps[i]\<close>: a negative index counts from the end.\<close>

definition step_at :: "step list \<Rightarrow> int \<Rightarrow> step" where
  "step_at ss i = (if i < 0 then ss ! nat (int (length ss) + i) else ss ! nat i)"

fun first_nonempty :: "string list \<Rightarrow> string" where
  "first_nonempty [] = []"
| "first_nonempty (x # xs) = (if x = [] then first_nonempty xs else x)"

definition agent_narration :: "step \<Rightarrow> string" where
  "agent_narration s = (if role s = ''agent'' then narration s else [])"

definition first_narration :: "step list \<Rightarrow> int \<Rightarrow> int \<Rightarrow> string" where
  "first_narration ss lo hi =
     first_nonempty (map (\<lambda>i. agent_narration (step_at ss i)) [lo .. min hi (int (length ss) - 1)])"

definition last_narration :: "step list \<Rightarrow> int \<Rightarrow> int \<Rightarrow> string" where
  "last_narration ss lo hi =
     first_nonempty (map (\<lambda>i. agent_narration (step_at ss i)) (rev [lo .. min hi (int (length ss) - 1)]))"

definition sorted_set :: "'a::linorder list \<Rightarrow> 'a list" where
  "sorted_set xs = sort (remdups xs)"

definition step_preview :: "step \<Rightarrow> int \<Rightarrow> string" where
  "step_preview s idx =
     (let r = role s;
          tools = take 26 (join '','' (sorted_set (tool_names s)));
          txt0 = replace_char (CHR 10) '' '' (strip (if content s \<noteq> [] then content s else obs_text s));
          txt = (if txt0 = [] then
                   (case edit_files s of [] \<Rightarrow> [] | f # _ \<Rightarrow> ''(edit '' @ last (split_on (CHR ''/'') f) @ '')'')
                 else txt0);
          head = (if tools = [] then r else r @ ''/'' @ tools)
      in ''step '' @ str_of_int idx @ '' ('' @ head @ ''): '' @ take 88 txt)"

text \<open>At most \<open>cap = 5\<close> lines: the first three, the mark of the elision, the last.\<close>

definition cluster_context :: "step list \<Rightarrow> int list \<Rightarrow> ctx_line list" where
  "cluster_context ss indices =
     (let idxs = (if length indices > 5 then take 3 indices @ [-1] @ [last indices] else indices)
      in map (\<lambda>i. if i = -1 then CtxElided else CtxStep i (step_preview (step_at ss i) i)) idxs)"

section \<open>Anchors\<close>

definition opens_ask :: "string option \<Rightarrow> step \<Rightarrow> bool" where
  "opens_ask fault s =
     (if role s \<noteq> ''user'' then False
      else let t = strip (content s) in
        if t = [] then False
        else if fault = Some ''slicer-drop-continuation'' then True
        else \<not> rx_match TAG_BLOCK_RE t \<and> \<not> rx_match CONTINUATION_RE t \<and> \<not> is_pseudo_turn t)"

definition indices_where :: "(step \<Rightarrow> bool) \<Rightarrow> step list \<Rightarrow> int list" where
  "indices_where P ss = map int (filter (\<lambda>i. P (ss ! i)) [0 ..< length ss])"

definition human_ask_starts :: "string option \<Rightarrow> step list \<Rightarrow> int list" where
  "human_ask_starts fault ss = indices_where (opens_ask fault) ss"

definition notification_starts :: "step list \<Rightarrow> int list" where
  "notification_starts ss = indices_where is_notification ss"

section \<open>Facts\<close>

lemma indices_where_iff: "i \<in> set (indices_where P ss) \<longleftrightarrow> 0 \<le> i \<and> i < int (length ss) \<and> P (ss ! nat i)"
proof
  assume "0 \<le> i \<and> i < int (length ss) \<and> P (ss ! nat i)"
  then have "nat i \<in> set (filter (\<lambda>i. P (ss ! i)) [0 ..< length ss])" "i = int (nat i)" by auto
  then show "i \<in> set (indices_where P ss)" unfolding indices_where_def by (metis image_eqI set_map)
qed (auto simp: indices_where_def)

lemma sorted_indices_where: "sorted (indices_where P ss)" "distinct (indices_where P ss)"
  unfolding indices_where_def
  by (auto simp: sorted_map distinct_map intro: sorted_wrt_mono_rel [OF _ sorted_wrt_filter, of _ _ "(<)"])

lemma narration_bound: "length (narration s) \<le> 76"
  by (simp add: narration_def Let_def)

lemma cluster_context_bound: "length (cluster_context ss is) \<le> 5"
  by (simp add: cluster_context_def Let_def)

text \<open>The evidence of a pass is never also evidence of a failure.\<close>

lemma pass_no_fail: "is_unambiguous_pass s \<Longrightarrow> rx_search PASS_RE (obs_text s) \<and> \<not> rx_search FAIL_RE (obs_text s)"
  by (auto simp: is_unambiguous_pass_def Let_def split: if_splits)

text \<open>Decimal rendering is injective, so ids built from an index are distinct.\<close>

lemma of_char_digit: "d < 10 \<Longrightarrow> (of_char (char_of (48 + d :: nat) :: char) :: nat) = 48 + d"
  by simp

definition digits_value :: "string \<Rightarrow> nat" where
  "digits_value s = fold (\<lambda>c v. 10 * v + (of_char c - 48)) s 0"

lemma digits_value_digits_of: "digits_value (digits_of n) = n"
proof (induction n rule: digits_of.induct)
  case (1 n)
  show ?case
  proof (cases "n < 10")
    case True
    then show ?thesis by (subst digits_of.simps) (simp add: digits_value_def)
  next
    case False
    have "digits_value (digits_of (n div 10)) = n div 10" using 1 False by simp
    then show ?thesis
      using False by (subst digits_of.simps) (simp add: digits_value_def)
  qed
qed

lemma str_of_int_inj: "0 \<le> a \<Longrightarrow> 0 \<le> b \<Longrightarrow> str_of_int a = str_of_int b \<longleftrightarrow> a = b"
  by (auto simp: str_of_int_def) (metis digits_value_digits_of eq_nat_nat_iff)

end
