(* ===== verification/Slicers.thy ===== *)
theory Slicers
  imports SliceSteps
begin

text \<open>
  The four slicers of \<^verbatim>\<open>core/slicing/slicers/\<close>. A slicer maps the steps of a trace, and the answers
  a judge gave to its requests, to trajectories and requests. The contract they share, the
  locale \<open>slicer\<close>, is that the trajectories come from a boundary list; the four are interpreted.
\<close>

section \<open>Answers\<close>

type_synonym answers = "(string, (string, json) dict) dict"

text \<open>\<^verbatim>\<open>(answers.get(rid) or {}).get("decision", default)\<close>\<close>

definition decision_of :: "answers \<Rightarrow> string \<Rightarrow> string \<Rightarrow> json" where
  "decision_of ans rid dflt =
     (case dget (case dget ans rid of None \<Rightarrow> [] | Some a \<Rightarrow> a) ''decision'' of
        None \<Rightarrow> JStr dflt | Some v \<Rightarrow> v)"

definition user_label :: "step list \<Rightarrow> int \<Rightarrow> string option" where
  "user_label ss a =
     (let s = step_at ss a; t = replace_char (CHR 10) '' '' (strip (content s)) in
      if role s = ''user'' \<and> t \<noteq> [] then Some (take 80 t) else None)"

section \<open>S1 user turn\<close>

definition s1_label :: "step list \<Rightarrow> int \<Rightarrow> int \<Rightarrow> label" where
  "s1_label ss a b = LText (case user_label ss a of Some t \<Rightarrow> t | None \<Rightarrow> ''(work)'')"

text \<open>The faultpoint \<^verbatim>\<open>slicer-boundary-off-by-one\<close> shifts the first positive boundary.\<close>

definition shift_first :: "int list \<Rightarrow> int list" where
  "shift_first bs =
     (case sorted_set (filter (\<lambda>b. b > 0) bs) of
        [] \<Rightarrow> bs
      | b # _ \<Rightarrow> (b + 1) # filter (\<lambda>x. x \<noteq> b) bs)"

definition s1_boundaries :: "string option \<Rightarrow> step list \<Rightarrow> int list" where
  "s1_boundaries fault ss =
     (let bs = 0 # human_ask_starts fault ss in
      if fault = Some ''slicer-boundary-off-by-one'' then shift_first bs else bs)"

definition s1_slice :: "string option \<Rightarrow> answers \<Rightarrow> step list \<Rightarrow> slice_result" where
  "s1_slice fault ans ss =
     \<lparr>trajectories = trajectories_from_boundaries (s1_boundaries fault ss) (int (length ss)) ''user_turn'' (s1_label ss),
      requests = []\<rparr>"

section \<open>S2 change burst\<close>

definition DEFAULT_BURST_GAP :: int where
  "DEFAULT_BURST_GAP = 35"

fun cluster_from :: "int \<Rightarrow> int \<Rightarrow> int \<Rightarrow> int list \<Rightarrow> (int \<times> int) list" where
  "cluster_from gap cur prev [] = [(cur, prev)]"
| "cluster_from gap cur prev (s # ss) =
     (if s - prev > gap then (cur, prev) # cluster_from gap s s ss else cluster_from gap cur s ss)"

definition cluster_edit_steps :: "int \<Rightarrow> int list \<Rightarrow> (int \<times> int) list" where
  "cluster_edit_steps gap es =
     (if es = [] then [] else case sort es of [] \<Rightarrow> [] | e # rest \<Rightarrow> cluster_from gap e e rest)"

definition edit_step_indices :: "step list \<Rightarrow> int list" where
  "edit_step_indices ss = indices_where (\<lambda>s. list_ex (\<lambda>n. n \<in> set EDIT_TOOLS) (tool_names s)) ss"

definition s2_boundaries :: "string option \<Rightarrow> step list \<Rightarrow> int list" where
  "s2_boundaries fault ss =
     (let tot = int (length ss) in
      0 # concat (map (\<lambda>(cs, ce). cs # (if ce + 1 < tot then [ce + 1] else []))
                   (cluster_edit_steps DEFAULT_BURST_GAP (edit_step_indices ss)))
        @ human_ask_starts fault ss)"

definition s2_label :: "step list \<Rightarrow> int \<Rightarrow> int \<Rightarrow> label" where
  "s2_label ss a b =
     (let files = concat (map (\<lambda>i. edit_files (step_at ss i)) [a .. b]) in
      if files \<noteq> [] then
        LText (''burst: '' @ join '', '' (take 3 (sorted_set (map (\<lambda>f. last (split_on (CHR ''/'') f)) files))))
      else LText ''explore'')"

definition s2_slice :: "string option \<Rightarrow> answers \<Rightarrow> step list \<Rightarrow> slice_result" where
  "s2_slice fault ans ss =
     \<lparr>trajectories = trajectories_from_boundaries (s2_boundaries fault ss) (int (length ss)) ''change_burst'' (s2_label ss),
      requests = []\<rparr>"

section \<open>S3 milestone\<close>

definition SUBAGENT_RETURN :: "string list" where
  "SUBAGENT_RETURN = [''wait_agent'', ''close_agent'', ''TaskOutput'']"

text \<open>The artifact a step completes, if it completes one: the four signals in the code's order.\<close>

definition success_of :: "step list \<Rightarrow> nat \<Rightarrow> string option" where
  "success_of ss i =
     (let s = ss ! i in
      if role s \<noteq> ''agent'' then None
      else if edit_files s \<noteq> [] \<and> \<not> obs_has_error s then Some (hd (edit_files s))
      else if is_unambiguous_pass s then Some ''<test>''
      else if list_ex (\<lambda>t. t \<in> set SUBAGENT_RETURN) (tool_names s) \<and> \<not> obs_has_error s then Some ''<subagent>''
      else if strip (content s) \<noteq> [] \<and> tool_names s = [] \<and>
              (i + 1 = length ss \<or> role (ss ! (i + 1)) = ''user'') then Some ''<answer>''
      else None)"

definition success_steps :: "step list \<Rightarrow> (int \<times> string) list" where
  "success_steps ss =
     sorted_set (concat (map (\<lambda>i. case success_of ss i of None \<Rightarrow> [] | Some a \<Rightarrow> [(int i, a)]) [0 ..< length ss]))"

definition add_success :: "int \<times> string \<Rightarrow> (int \<times> string) list list \<Rightarrow> (int \<times> string) list list" where
  "add_success item clusters =
     (if clusters \<noteq> [] \<and> snd (last (last clusters)) = snd item
      then butlast clusters @ [last clusters @ [item]] else clusters @ [[item]])"

definition same_outcome_clusters :: "(int \<times> string) list \<Rightarrow> (int \<times> string) list list" where
  "same_outcome_clusters succ = fold add_success succ []"

definition close_after :: "int \<Rightarrow> int \<Rightarrow> int list" where
  "close_after tot i = (if i + 1 < tot then [i + 1] else [])"

definition s3_id :: "nat \<Rightarrow> string" where
  "s3_id ci = ''s3-same-outcome-'' @ str_of_int (int ci)"

definition s3_request :: "step list \<Rightarrow> nat \<Rightarrow> (int \<times> string) list \<Rightarrow> judgment_request" where
  "s3_request ss ci cl =
     \<lparr>req_id = s3_id ci, req_kind = ''same_outcome'', req_window = (fst (hd cl), fst (last cl)),
      req_candidate_step = fst (last cl),
      req_prompt = SameOutcomePrompt (map fst cl) (snd (hd cl)) (cluster_context ss (map fst cl)),
      req_decisions = [''one_outcome'', ''distinct'']\<rparr>"

definition s3_cluster ::
  "answers \<Rightarrow> step list \<Rightarrow> nat \<times> (int \<times> string) list \<Rightarrow> int list \<times> judgment_request list" where
  "s3_cluster ans ss icl =
     (case icl of (ci, cl) \<Rightarrow>
      let tot = int (length ss) in
      if length cl < 2 then (close_after tot (fst (hd cl)), [])
      else (if decision_of ans (s3_id ci) ''one_outcome'' = JStr ''distinct''
            then concat (map (\<lambda>(idx, art). close_after tot idx) cl)
            else close_after tot (fst (last cl)),
            [s3_request ss ci cl]))"

definition s3_clusters :: "step list \<Rightarrow> (nat \<times> (int \<times> string) list) list" where
  "s3_clusters ss = (let cls = same_outcome_clusters (success_steps ss) in zip [0 ..< length cls] cls)"

definition s3_boundaries :: "string option \<Rightarrow> answers \<Rightarrow> step list \<Rightarrow> int list" where
  "s3_boundaries fault ans ss =
     0 # human_ask_starts fault ss @ notification_starts ss @
       concat (map (\<lambda>icl. fst (s3_cluster ans ss icl)) (s3_clusters ss))"

definition artifact_tag :: "string \<Rightarrow> string" where
  "artifact_tag art =
     (if starts_with art ''<'' then strip_by (\<lambda>c. c \<in> set ''<>'') art else last (split_on (CHR ''/'') art))"

definition s3_label :: "step list \<Rightarrow> int \<Rightarrow> int \<Rightarrow> label" where
  "s3_label ss a b =
     (case dget (fold (\<lambda>(idx, art) d. dset d idx art) (success_steps ss) []) b of
        Some art \<Rightarrow>
          (let tag = artifact_tag art;
               n = narration (step_at ss b);
               narr = (if n = [] then first_narration ss a b else n)
           in if narr \<noteq> [] then LMilestone narr tag else LText (''milestone: '' @ tag))
      | None \<Rightarrow>
          (case user_label ss a of Some t \<Rightarrow> LText t
           | None \<Rightarrow> LText (let n = first_narration ss a b in if n = [] then ''(work)'' else n)))"

definition s3_slice :: "string option \<Rightarrow> answers \<Rightarrow> step list \<Rightarrow> slice_result" where
  "s3_slice fault ans ss =
     \<lparr>trajectories = trajectories_from_boundaries (s3_boundaries fault ans ss) (int (length ss)) ''milestone'' (s3_label ss),
      requests = concat (map (\<lambda>icl. snd (s3_cluster ans ss icl)) (s3_clusters ss))\<rparr>"

section \<open>S4 subgoal\<close>

definition pivot_candidates :: "step list \<Rightarrow> int list" where
  "pivot_candidates ss =
     (let succ_idx = map fst (success_steps ss) in
      filter (\<lambda>i. role (step_at ss i) = ''agent'' \<and> i - 1 \<in> set succ_idx \<and> tool_names (step_at ss i) \<noteq> [])
        (map int [1 ..< length ss]))"

definition s4_id :: "int \<Rightarrow> string" where
  "s4_id cand = ''s4-pivot-'' @ str_of_int cand"

definition s4_context :: "step list \<Rightarrow> int \<Rightarrow> ctx_line list" where
  "s4_context ss cand =
     (if cand - 1 \<ge> 0 then [CtxPrior (step_preview (step_at ss (cand - 1)) (cand - 1))] else []) @
     [CtxCandidate (step_preview (step_at ss cand) cand)] @
     (if cand + 1 < int (length ss) then [CtxNext (step_preview (step_at ss (cand + 1)) (cand + 1))] else [])"

definition s4_request :: "step list \<Rightarrow> int \<Rightarrow> judgment_request" where
  "s4_request ss cand =
     \<lparr>req_id = s4_id cand, req_kind = ''terminal_vs_intermediate'',
      req_window = (max 0 (cand - 3), min (int (length ss) - 1) (cand + 3)),
      req_candidate_step = cand, req_prompt = PivotPrompt cand (s4_context ss cand),
      req_decisions = [''pivot'', ''stay'']\<rparr>"

definition s4_boundaries :: "string option \<Rightarrow> answers \<Rightarrow> step list \<Rightarrow> int list" where
  "s4_boundaries fault ans ss =
     0 # human_ask_starts fault ss @
       filter (\<lambda>cand. decision_of ans (s4_id cand) ''stay'' = JStr ''pivot'') (pivot_candidates ss)"

definition s4_label :: "step list \<Rightarrow> int \<Rightarrow> int \<Rightarrow> label" where
  "s4_label ss a b =
     (let outcome = last_narration ss a b in
      if outcome \<noteq> [] then LText outcome
      else case user_label ss a of Some t \<Rightarrow> LText t
         | None \<Rightarrow> LText (let n = first_narration ss a b in if n = [] then ''(work)'' else n))"

definition s4_slice :: "string option \<Rightarrow> answers \<Rightarrow> step list \<Rightarrow> slice_result" where
  "s4_slice fault ans ss =
     \<lparr>trajectories = trajectories_from_boundaries (s4_boundaries fault ans ss) (int (length ss)) ''subgoal'' (s4_label ss),
      requests = map (s4_request ss) (pivot_candidates ss)\<rparr>"

section \<open>Facts about successes and clusters\<close>

lemma success_index: "(i, a) \<in> set (success_steps ss) \<longleftrightarrow> 0 \<le> i \<and> i < int (length ss) \<and> success_of ss (nat i) = Some a"
proof
  assume "(i, a) \<in> set (success_steps ss)"
  then show "0 \<le> i \<and> i < int (length ss) \<and> success_of ss (nat i) = Some a"
    by (auto simp: success_steps_def sorted_set_def split: option.splits)
next
  assume "0 \<le> i \<and> i < int (length ss) \<and> success_of ss (nat i) = Some a"
  then have "nat i < length ss" "i = int (nat i)" "success_of ss (nat i) = Some a" by auto
  then show "(i, a) \<in> set (success_steps ss)"
    unfolding success_steps_def sorted_set_def by (auto intro!: bexI [of _ "nat i"])
qed

lemma sorted_fst: "sorted (xs :: ('a::linorder \<times> 'b::linorder) list) \<Longrightarrow> sorted (map fst xs)"
  by (induction xs) (auto simp: less_eq_prod_def)

lemma success_sorted: "sorted (map fst (success_steps ss))"
  by (rule sorted_fst) (simp add: success_steps_def sorted_set_def)

lemma success_distinct: "distinct (map fst (success_steps ss))"
proof -
  have "distinct (success_steps ss)" by (simp add: success_steps_def sorted_set_def)
  moreover have "inj_on fst (set (success_steps ss))"
    by (rule inj_onI) (auto simp: success_index)
  ultimately show ?thesis by (simp add: distinct_map)
qed

lemma success_bound: "length (success_steps ss) \<le> length ss"
proof -
  have "length (success_steps ss) = card (set (map fst (success_steps ss)))"
    using distinct_card [OF success_distinct] by simp
  also have "\<dots> \<le> card {0 ..< int (length ss)}"
    by (rule card_mono) (auto simp: success_index)
  finally show ?thesis by simp
qed

lemma concat_add_success: "concat (fold add_success xs cs) = concat cs @ xs"
proof (induction xs arbitrary: cs)
  case (Cons x xs)
  have "concat (add_success x cs) = concat cs @ [x]"
    by (cases cs rule: rev_cases) (auto simp: add_success_def)
  with Cons show ?case by simp
qed simp

text \<open>The clusters split the successes into runs, in order, none of them empty.\<close>

lemma concat_clusters: "concat (same_outcome_clusters succ) = succ"
  by (simp add: same_outcome_clusters_def concat_add_success)

fun homogeneous :: "(int \<times> string) list \<Rightarrow> bool" where
  "homogeneous [] = False"
| "homogeneous (x # xs) = list_all (\<lambda>y. snd y = snd x) xs"

lemma homogeneous_last: "homogeneous cl \<Longrightarrow> snd (last cl) = snd (hd cl)"
  by (cases cl) (auto simp: list_all_iff)

lemma homogeneous_add: "homogeneous cl \<Longrightarrow> snd (last cl) = snd x \<Longrightarrow> homogeneous (cl @ [x])"
  using homogeneous_last [of cl] by (cases cl) (auto simp: list_all_iff)

lemma homogeneous_single: "homogeneous [x]"
  by simp

lemma clusters_homogeneous:
  "list_all homogeneous cs \<Longrightarrow> list_all homogeneous (fold add_success xs cs)"
proof (induction xs arbitrary: cs)
  case (Cons x xs)
  have "list_all homogeneous (add_success x cs)"
  proof (cases cs rule: rev_cases)
    case Nil
    then show ?thesis by (simp add: add_success_def)
  next
    case (snoc ds d)
    then show ?thesis using Cons.prems homogeneous_add [of d x]
      by (simp add: add_success_def)
  qed
  with Cons.IH show ?case by simp
qed simp

lemma cluster_homogeneous: "cl \<in> set (same_outcome_clusters succ) \<Longrightarrow> homogeneous cl"
  using clusters_homogeneous [of "[]" succ] by (simp add: same_outcome_clusters_def list_all_iff)

lemma cluster_member: "cl \<in> set (same_outcome_clusters succ) \<Longrightarrow> x \<in> set cl \<Longrightarrow> x \<in> set succ"
  using concat_clusters [of succ] by (metis UN_I set_concat)

lemma s3_clusters_mem:
  "(ci, cl) \<in> set (s3_clusters ss) \<Longrightarrow> cl \<in> set (same_outcome_clusters (success_steps ss))"
  by (auto simp: s3_clusters_def Let_def dest: set_zip_rightD)

lemma s3_candidate:
  assumes "(ci, cl) \<in> set (s3_clusters ss)" "x \<in> set cl"
  shows "0 \<le> fst x \<and> fst x < int (length ss)"
  using cluster_member [OF s3_clusters_mem [OF assms(1)] assms(2)] success_index [of "fst x" "snd x" ss] by simp

section \<open>Facts about requests\<close>

lemma snd_s3_cluster: "snd (s3_cluster ans ss (ci, cl)) = (if length cl < 2 then [] else [s3_request ss ci cl])"
  by (simp add: s3_cluster_def Let_def)

lemma s3_requests_eq:
  "requests (s3_slice f ans ss) =
    map (\<lambda>(ci, cl). s3_request ss ci cl) (filter (\<lambda>(ci, cl). 2 \<le> length cl) (s3_clusters ss))"
proof -
  have "concat (map (\<lambda>icl. snd (s3_cluster ans ss icl)) xs) =
     map (\<lambda>(ci, cl). s3_request ss ci cl) (filter (\<lambda>(ci, cl). 2 \<le> length cl) xs)" for xs
    by (induction xs) (auto simp: snd_s3_cluster)
  then show ?thesis by (simp add: s3_slice_def)
qed

lemma s3_id_inj: "s3_id a = s3_id b \<longleftrightarrow> a = b"
  using str_of_int_inj [of "int a" "int b"] by (simp add: s3_id_def)

lemma s4_id_inj: "0 \<le> a \<Longrightarrow> 0 \<le> b \<Longrightarrow> s4_id a = s4_id b \<longleftrightarrow> a = b"
  using str_of_int_inj [of a b] by (simp add: s4_id_def)

lemma map_fst_filter_distinct: "distinct (map fst xs) \<Longrightarrow> distinct (map fst (filter P xs))"
  by (induction xs) auto

lemma s3_ids_distinct: "distinct (map req_id (requests (s3_slice f ans ss)))"
proof -
  let ?xs = "filter (\<lambda>(ci, cl). 2 \<le> length cl) (s3_clusters ss)"
  have "map req_id (requests (s3_slice f ans ss)) = map s3_id (map fst ?xs)"
    by (auto simp: s3_requests_eq s3_request_def)
  moreover have "distinct (map fst ?xs)"
    by (rule map_fst_filter_distinct) (simp add: s3_clusters_def Let_def)
  moreover have "inj_on s3_id A" for A by (rule inj_onI) (simp add: s3_id_inj)
  ultimately show ?thesis by (simp only: distinct_map)
qed

lemma pivot_range: "c \<in> set (pivot_candidates ss) \<Longrightarrow> 1 \<le> c \<and> c < int (length ss)"
  by (auto simp: pivot_candidates_def Let_def)

lemma pivot_distinct: "distinct (pivot_candidates ss)"
  by (simp add: pivot_candidates_def Let_def distinct_map)

lemma s4_ids_distinct: "distinct (map req_id (requests (s4_slice f ans ss)))"
proof -
  have "map req_id (requests (s4_slice f ans ss)) = map s4_id (pivot_candidates ss)"
    by (simp add: s4_slice_def s4_request_def)
  moreover have "inj_on s4_id (set (pivot_candidates ss))"
    by (rule inj_onI) (use s4_id_inj pivot_range in \<open>metis order_trans zero_le_one\<close>)
  ultimately show ?thesis using pivot_distinct by (simp add: distinct_map)
qed

lemma pivot_after_success: "c \<in> set (pivot_candidates ss) \<Longrightarrow> c - 1 \<in> fst ` set (success_steps ss)"
  by (auto simp: pivot_candidates_def Let_def)

lemma pivot_count: "length (pivot_candidates ss) \<le> length (success_steps ss)"
proof -
  have "length (pivot_candidates ss) = card ((\<lambda>c. c - 1) ` set (pivot_candidates ss))"
    using distinct_card [OF pivot_distinct] by (simp add: card_image inj_on_def)
  also have "\<dots> \<le> card (fst ` set (success_steps ss))"
    by (rule card_mono) (auto dest: pivot_after_success)
  also have "\<dots> \<le> length (success_steps ss)"
    by (rule order_trans [OF card_image_le card_length]) simp
  finally show ?thesis .
qed

lemma s3_count: "2 * length (requests (s3_slice f ans ss)) \<le> length (success_steps ss)"
proof -
  have bound: "2 * length (filter (\<lambda>(ci, cl). 2 \<le> length cl) (zip ns cls)) \<le> length (concat cls)"
    if "length ns = length cls" for ns :: "nat list" and cls :: "(int \<times> string) list list"
    using that by (induction ns cls rule: list_induct2) auto
  show ?thesis
    using bound [of "[0 ..< length (same_outcome_clusters (success_steps ss))]" "same_outcome_clusters (success_steps ss)"]
    by (simp add: s3_requests_eq s3_clusters_def Let_def concat_clusters)
qed

section \<open>The contract of a slicer\<close>

locale slicer =
  fixes slice :: "string option \<Rightarrow> answers \<Rightarrow> step list \<Rightarrow> slice_result"
    and bounds :: "string option \<Rightarrow> answers \<Rightarrow> step list \<Rightarrow> int list"
    and kind :: string
    and lab :: "step list \<Rightarrow> int \<Rightarrow> int \<Rightarrow> label"
  assumes from_boundaries:
      "trajectories (slice f ans ss) = trajectories_from_boundaries (bounds f ans ss) (int (length ss)) kind (lab ss)"
    and requests_fixed: "requests (slice f ans ss) = requests (slice f [] ss)"
    and candidates: "\<forall>r\<in>set (requests (slice f ans ss)). 0 \<le> req_candidate_step r \<and> req_candidate_step r < int (length ss)"
    and ids_distinct: "distinct (map req_id (requests (slice f ans ss)))"
    and requests_bounded: "length (requests (slice f ans ss)) \<le> length ss"
begin

lemma slice_valid: "tl_valid (recompute_tiling (map span_of (trajectories (slice f ans ss))) (int (length ss)))"
  unfolding from_boundaries by (rule trajectories_valid) simp

lemma slice_tiles: "ss \<noteq> [] \<Longrightarrow> tiles (map span_of (trajectories (slice f ans ss))) 0 (int (length ss))"
  unfolding from_boundaries by (rule trajectories_tile) simp

lemma slice_starts:
  "ss \<noteq> [] \<Longrightarrow> i \<in> t_start ` set (trajectories (slice f ans ss)) \<longleftrightarrow>
     i = 0 \<or> i \<in> set (bounds f ans ss) \<and> 0 \<le> i \<and> i < int (length ss)"
proof -
  assume "ss \<noteq> []"
  then have "0 < int (length ss)" by simp
  from trajectories_starts [OF this, where bs = "bounds f ans ss" and k = kind and lab = "lab ss"] boundary_list_facts(4) [OF this]
  show ?thesis unfolding from_boundaries by (metis list.set_map)
qed

lemma slice_size: "length (trajectories (slice f ans ss)) \<le> length ss"
proof (cases "ss = []")
  case True
  then show ?thesis by (simp add: from_boundaries trajectories_empty)
next
  case False
  from tiles_length [OF slice_tiles [OF this]] show ?thesis by simp
qed

lemma slice_kind: "t \<in> set (trajectories (slice f ans ss)) \<Longrightarrow> t_kind t = kind"
  unfolding from_boundaries trajectories_from_boundaries_def by (auto simp: Let_def split: if_splits)

text \<open>An answered run re-raises the requests of the unanswered one: the handshake converges.\<close>

lemma requests_answer_free: "requests (slice f ans ss) = requests (slice f ans' ss)"
  by (metis requests_fixed)

end

interpretation s1: slicer s1_slice "\<lambda>f ans. s1_boundaries f" "''user_turn''" s1_label
  by unfold_locales (simp_all add: s1_slice_def)

interpretation s2: slicer s2_slice "\<lambda>f ans. s2_boundaries f" "''change_burst''" s2_label
  by unfold_locales (simp_all add: s2_slice_def)

interpretation s3: slicer s3_slice s3_boundaries "''milestone''" s3_label
proof
  fix f ans ss
  show "\<forall>r\<in>set (requests (s3_slice f ans ss)). 0 \<le> req_candidate_step r \<and> req_candidate_step r < int (length ss)"
  proof
    fix r assume "r \<in> set (requests (s3_slice f ans ss))"
    then obtain ci cl where m: "(ci, cl) \<in> set (s3_clusters ss)" "2 \<le> length cl" and r: "r = s3_request ss ci cl"
      unfolding s3_requests_eq by auto
    from m(2) have "last cl \<in> set cl" by (cases cl) auto
    from s3_candidate [OF m(1) this] show "0 \<le> req_candidate_step r \<and> req_candidate_step r < int (length ss)"
      by (simp add: r s3_request_def)
  qed
  show "length (requests (s3_slice f ans ss)) \<le> length ss"
    using s3_count [of f ans ss] success_bound [of ss] by simp
  show "requests (s3_slice f ans ss) = requests (s3_slice f [] ss)"
    by (simp only: s3_requests_eq)
  show "distinct (map req_id (requests (s3_slice f ans ss)))"
    by (rule s3_ids_distinct)
  show "trajectories (s3_slice f ans ss) =
      trajectories_from_boundaries (s3_boundaries f ans ss) (int (length ss)) ''milestone'' (s3_label ss)"
    by (simp add: s3_slice_def)
qed

interpretation s4: slicer s4_slice s4_boundaries "''subgoal''" s4_label
proof
  fix f ans ss
  show "\<forall>r\<in>set (requests (s4_slice f ans ss)). 0 \<le> req_candidate_step r \<and> req_candidate_step r < int (length ss)"
    using pivot_range by (fastforce simp: s4_slice_def s4_request_def)
  show "length (requests (s4_slice f ans ss)) \<le> length ss"
    using order_trans [OF pivot_count success_bound] by (simp add: s4_slice_def)
  show "requests (s4_slice f ans ss) = requests (s4_slice f [] ss)"
    by (simp add: s4_slice_def)
  show "distinct (map req_id (requests (s4_slice f ans ss)))"
    by (rule s4_ids_distinct)
  show "trajectories (s4_slice f ans ss) =
      trajectories_from_boundaries (s4_boundaries f ans ss) (int (length ss)) ''subgoal'' (s4_label ss)"
    by (simp add: s4_slice_def)
qed

end
