(* ===== verification/Slicing.thy ===== *)
theory Slicing
  imports Slicers
begin

text \<open>
  The slicing operation of \<^verbatim>\<open>core/slicing/__init__.py\<close>: registry, judges, labels, the frozen
  envelope of \<^verbatim>\<open>contract.py\<close>, the answers file, and \<open>partition_trace\<close>. The language model behind
  the provider judge is a parameter.
\<close>

section \<open>Registry\<close>

type_synonym slice_fun = "string option \<Rightarrow> answers \<Rightarrow> step list \<Rightarrow> slice_result"

record slicer_module =
  sm_name :: string
  sm_label :: string
  sm_tier :: string
  sm_slice :: slice_fun

definition SLICERS :: "slicer_module list" where
  "SLICERS =
     [\<lparr>sm_name = ''s1'', sm_label = ''user-turn'', sm_tier = ''deterministic'', sm_slice = s1_slice\<rparr>,
      \<lparr>sm_name = ''s2'', sm_label = ''change-burst'', sm_tier = ''deterministic'', sm_slice = s2_slice\<rparr>,
      \<lparr>sm_name = ''s3'', sm_label = ''milestone'', sm_tier = ''cheap_llm'', sm_slice = s3_slice\<rparr>,
      \<lparr>sm_name = ''s4'', sm_label = ''subgoal'', sm_tier = ''cheap_llm'', sm_slice = s4_slice\<rparr>]"

definition get_slicer :: "string \<Rightarrow> py_error + slicer_module" where
  "get_slicer name =
     (case find (\<lambda>m. sm_name m = name) SLICERS of None \<Rightarrow> Inl (KeyError name) | Some m \<Rightarrow> Inr m)"

definition slice_steps :: "string option \<Rightarrow> string \<Rightarrow> step list \<Rightarrow> answers \<Rightarrow> py_error + slice_result" where
  "slice_steps fault name ss ans =
     (case get_slicer name of Inl e \<Rightarrow> Inl e | Inr m \<Rightarrow> Inr (sm_slice m fault ans ss))"

section \<open>Answers file\<close>

text \<open>Texts Python makes of values that are not texts, and the parse of a float, are the library's.\<close>

record py_lib =
  lib_repr :: "json \<Rightarrow> string"
  lib_float :: "string \<Rightarrow> rat option"

definition answer_of :: "py_lib \<Rightarrow> json \<Rightarrow> py_error + judgment_answer" where
  "answer_of lib d =
     (case jindex d ''id'' of Inl e \<Rightarrow> Inl e
      | Inr i \<Rightarrow> (case jindex d ''decision'' of Inl e \<Rightarrow> Inl e
      | Inr dec \<Rightarrow> (case (case d of JObj kvs \<Rightarrow> (case dget kvs ''confidence'' of None \<Rightarrow> JFloat 1 | Some c \<Rightarrow> c) | _ \<Rightarrow> JNull) of
          c \<Rightarrow> (case py_float (lib_float lib) c of Inl e \<Rightarrow> Inl e
      | Inr q \<Rightarrow> Inr \<lparr>ans_id = py_str (lib_repr lib) i, ans_decision = py_str (lib_repr lib) dec, ans_confidence = q\<rparr>))))"

definition answer_entry :: "string \<Rightarrow> rat \<Rightarrow> (string, json) dict" where
  "answer_entry dec q = [(''decision'', JStr dec), (''confidence'', JFloat q)]"

definition put_answer :: "judgment_answer \<Rightarrow> answers \<Rightarrow> answers" where
  "put_answer a out = dset out (ans_id a) (answer_entry (ans_decision a) (ans_confidence a))"

definition load_answers :: "py_lib \<Rightarrow> json \<Rightarrow> py_error + answers" where
  "load_answers lib raw =
     (let items = (case raw of JObj kvs \<Rightarrow> (case dget kvs ''answers'' of None \<Rightarrow> raw | Some v \<Rightarrow> v) | _ \<Rightarrow> raw) in
      if \<not> truthy items then Inr []
      else (case py_iter items of Inl e \<Rightarrow> Inl e
            | Inr xs \<Rightarrow> (case map_err (answer_of lib) xs of Inl e \<Rightarrow> Inl e | Inr as \<Rightarrow> Inr (fold put_answer as []))))"

section \<open>Judges\<close>

datatype judge_outcome = NeedsJudgment | Answers answers

text \<open>\<open>pv_call\<close> is \<^verbatim>\<open>provider.call_structured\<close> on the prompt built from its arguments; \<^const>\<open>None\<close> when it raises.\<close>

record provider =
  pv_detected :: bool
  pv_call :: "string \<Rightarrow> step list \<Rightarrow> judgment_request list \<Rightarrow> json option"

definition agent_resolve :: "string \<Rightarrow> step list \<Rightarrow> judgment_request list \<Rightarrow> py_error + judge_outcome" where
  "agent_resolve name ss rs = Inr (if rs \<noteq> [] then NeedsJudgment else Answers [])"

definition human_resolve :: "string \<Rightarrow> step list \<Rightarrow> judgment_request list \<Rightarrow> py_error + judge_outcome" where
  "human_resolve name ss rs = Inr (if rs \<noteq> [] then NeedsJudgment else Answers [])"

definition deterministic_resolve :: "string \<Rightarrow> step list \<Rightarrow> judgment_request list \<Rightarrow> py_error + judge_outcome" where
  "deterministic_resolve name ss rs = Inr (Answers [])"

text \<open>One item of the model's reply: items that are no dict, or have no id, are skipped.\<close>

definition provider_item :: "py_lib \<Rightarrow> json \<Rightarrow> py_error + (string \<times> (string, json) dict) list" where
  "provider_item lib a =
     (case a of
        JObj kvs \<Rightarrow>
          (if truthy (jget kvs ''id'') then
             (let dec = py_str (lib_repr lib) (case dget kvs ''decision'' of None \<Rightarrow> JStr [] | Some v \<Rightarrow> v);
                  c = jor (case dget kvs ''confidence'' of None \<Rightarrow> JFloat 1 | Some v \<Rightarrow> v) (JFloat 1)
              in case py_float (lib_float lib) c of Inl e \<Rightarrow> Inl e
                 | Inr q \<Rightarrow> Inr [(py_str (lib_repr lib) (jget kvs ''id''), answer_entry dec q)])
           else Inr [])
      | _ \<Rightarrow> Inr [])"

definition provider_answers :: "py_lib \<Rightarrow> json \<Rightarrow> py_error + answers" where
  "provider_answers lib payload =
     (case (if truthy payload then payload else JObj []) of
        JObj kvs \<Rightarrow>
          (case py_iter (case dget kvs ''answers'' of None \<Rightarrow> JList [] | Some v \<Rightarrow> v) of
             Inl e \<Rightarrow> Inl e
           | Inr xs \<Rightarrow> (case map_err (provider_item lib) xs of Inl e \<Rightarrow> Inl e
               | Inr kvss \<Rightarrow> Inr (fold (\<lambda>(k, v) d. dset d k v) (concat kvss) [])))
      | _ \<Rightarrow> Inl AttributeError)"

definition provider_resolve ::
  "py_lib \<Rightarrow> provider \<Rightarrow> string \<Rightarrow> step list \<Rightarrow> judgment_request list \<Rightarrow> py_error + judge_outcome" where
  "provider_resolve lib pv name ss rs =
     (if \<not> pv_detected pv \<or> rs = [] then Inr (Answers [])
      else case pv_call pv name ss rs of
        None \<Rightarrow> Inr (Answers [])
      | Some payload \<Rightarrow> (case provider_answers lib payload of Inl e \<Rightarrow> Inl e | Inr a \<Rightarrow> Inr (Answers a)))"

definition judge_resolve ::
  "py_lib \<Rightarrow> provider \<Rightarrow> string \<Rightarrow> string \<Rightarrow> step list \<Rightarrow> judgment_request list \<Rightarrow> answers \<Rightarrow> py_error + judge_outcome" where
  "judge_resolve lib pv backend name ss rs provided =
     (if backend \<notin> {''deterministic'', ''agent'', ''provider'', ''human''} then Inl (KeyError backend)
      else if provided \<noteq> [] then Inr (Answers provided)
      else if backend = ''deterministic'' then deterministic_resolve name ss rs
      else if backend = ''agent'' then agent_resolve name ss rs
      else if backend = ''provider'' then provider_resolve lib pv name ss rs
      else human_resolve name ss rs)"

text \<open>What every backend promises: without requests it answers at once, with nothing.\<close>

locale judge_backend =
  fixes resolve :: "string \<Rightarrow> step list \<Rightarrow> judgment_request list \<Rightarrow> py_error + judge_outcome"
  assumes no_requests: "resolve name ss [] = Inr (Answers [])"
begin

lemma needs_only_with_requests: "resolve name ss rs = Inr NeedsJudgment \<Longrightarrow> rs \<noteq> []"
  using no_requests by auto

end

interpretation agent_judge: judge_backend agent_resolve
  by unfold_locales (simp add: agent_resolve_def)

interpretation human_judge: judge_backend human_resolve
  by unfold_locales (simp add: human_resolve_def)

interpretation deterministic_judge: judge_backend deterministic_resolve
  by unfold_locales (simp add: deterministic_resolve_def)

interpretation provider_judge: judge_backend "provider_resolve lib pv" for lib pv
  by unfold_locales (simp add: provider_resolve_def)

section \<open>Labels\<close>

type_synonym labeler = "string \<Rightarrow> step list \<Rightarrow> trajectory list \<Rightarrow> label list option"

definition apply_labels :: "trajectory list \<Rightarrow> label list \<Rightarrow> trajectory list" where
  "apply_labels ts ls = map (\<lambda>(t, l). \<lparr>t_start = t_start t, t_end = t_end t, t_kind = t_kind t, t_label = l\<rparr>) (zip ts ls)"

section \<open>Envelopes\<close>

record tiling_block =
  tb_valid :: bool
  tb_coverage :: rat
  tb_gaps :: nat
  tb_overlaps :: nat

record slice_envelope =
  se_trace_id :: string
  se_slicer :: string
  se_tier :: string
  se_total_steps :: int
  se_trajectories :: "trajectory list"
  se_tiling :: tiling_block
  se_judge :: "string option"

record needs_envelope =
  nj_trace_id :: string
  nj_slicer :: string
  nj_tier :: string
  nj_total_steps :: int
  nj_requests :: "judgment_request list"

datatype envelope = SliceOk slice_envelope | NeedsAnswers needs_envelope

definition RC_NEEDS_JUDGMENT :: int where
  "RC_NEEDS_JUDGMENT = 10"

definition build_envelope ::
  "string option \<Rightarrow> string \<Rightarrow> string \<Rightarrow> string \<Rightarrow> int \<Rightarrow> trajectory list \<Rightarrow> string option \<Rightarrow> slice_envelope" where
  "build_envelope fault tid name tier tot ts judge =
     (let gap = (fault = Some ''slicer-self-report-valid-gap'');
          emitted = (if gap \<and> length ts > 1 then butlast ts else ts);
          full = recompute_tiling (map span_of emitted) tot;
          tiling = (if gap then \<lparr>tb_valid = True, tb_coverage = 1, tb_gaps = 0, tb_overlaps = 0\<rparr>
                    else \<lparr>tb_valid = tl_valid full, tb_coverage = tl_coverage full,
                          tb_gaps = tl_gaps full, tb_overlaps = tl_overlaps full\<rparr>)
      in \<lparr>se_trace_id = tid, se_slicer = name, se_tier = tier, se_total_steps = tot,
          se_trajectories = emitted, se_tiling = tiling, se_judge = judge\<rparr>)"

definition build_needs_judgment ::
  "string \<Rightarrow> string \<Rightarrow> string \<Rightarrow> int \<Rightarrow> judgment_request list \<Rightarrow> needs_envelope" where
  "build_needs_judgment tid name tier tot rs =
     \<lparr>nj_trace_id = tid, nj_slicer = name, nj_tier = tier, nj_total_steps = tot, nj_requests = rs\<rparr>"

section \<open>The operation\<close>

definition relabel :: "labeler option \<Rightarrow> string \<Rightarrow> step list \<Rightarrow> trajectory list \<Rightarrow> trajectory list" where
  "relabel lb name ss ts =
     (case lb of None \<Rightarrow> ts
      | Some f \<Rightarrow>
          if ts = [] then ts
          else case f name ss ts of None \<Rightarrow> ts
             | Some ls \<Rightarrow> if ls \<noteq> [] \<and> length ls = length ts then apply_labels ts ls else ts)"

definition partition_trace ::
  "py_lib \<Rightarrow> provider \<Rightarrow> string option \<Rightarrow> string \<Rightarrow> string \<Rightarrow> step list \<Rightarrow> string \<Rightarrow> answers \<Rightarrow> labeler option
    \<Rightarrow> py_error + int \<times> envelope" where
  "partition_trace lib pv fault tid name ss judge ans lb =
     (case get_slicer name of Inl e \<Rightarrow> Inl e
      | Inr m \<Rightarrow>
          (let tot = int (length ss); first = sm_slice m fault ans ss in
           case judge_resolve lib pv judge name ss (requests first) ans of
             Inl e \<Rightarrow> Inl e
           | Inr NeedsJudgment \<Rightarrow>
               Inr (RC_NEEDS_JUDGMENT, NeedsAnswers (build_needs_judgment tid name (sm_tier m) tot (requests first)))
           | Inr (Answers a) \<Rightarrow>
               (let final = (if a \<noteq> [] \<and> \<not> dict_eq a ans then sm_slice m fault a ss else first);
                    ts = relabel lb name ss (trajectories final)
                in Inr (0, SliceOk (build_envelope fault tid name (sm_tier m) tot ts (Some judge))))))"

section \<open>Facts\<close>

lemma get_slicer_cases:
  assumes "get_slicer name = Inr m"
  obtains "name = ''s1''" "sm_slice m = s1_slice" "sm_tier m = ''deterministic''"
  | "name = ''s2''" "sm_slice m = s2_slice" "sm_tier m = ''deterministic''"
  | "name = ''s3''" "sm_slice m = s3_slice" "sm_tier m = ''cheap_llm''"
  | "name = ''s4''" "sm_slice m = s4_slice" "sm_tier m = ''cheap_llm''"
  using assms by (auto simp: get_slicer_def SLICERS_def split: if_splits)

text \<open>The contract of a registered slicer, whatever its name.\<close>

lemma registered_valid:
  "get_slicer name = Inr m \<Longrightarrow>
    tl_valid (recompute_tiling (map span_of (trajectories (sm_slice m f a ss))) (int (length ss)))"
  by (erule get_slicer_cases) (simp_all only: s1.slice_valid s2.slice_valid s3.slice_valid s4.slice_valid)

lemma registered_tiles:
  "get_slicer name = Inr m \<Longrightarrow> ss \<noteq> [] \<Longrightarrow>
    tiles (map span_of (trajectories (sm_slice m f a ss))) 0 (int (length ss))"
  by (erule get_slicer_cases) (simp_all add: s1.slice_tiles s2.slice_tiles s3.slice_tiles s4.slice_tiles)

lemma registered_requests:
  "get_slicer name = Inr m \<Longrightarrow> requests (sm_slice m f a ss) = requests (sm_slice m f b ss)"
  by (erule get_slicer_cases)
    (simp_all only: s1.requests_answer_free [of f a ss b] s2.requests_answer_free [of f a ss b]
       s3.requests_answer_free [of f a ss b] s4.requests_answer_free [of f a ss b])

lemma span_apply_labels: "length ls = length ts \<Longrightarrow> map span_of (apply_labels ts ls) = map span_of ts"
  by (induction ts ls rule: list_induct2') (auto simp: apply_labels_def span_of_def)

lemma span_relabel: "map span_of (relabel lb name ss ts) = map span_of ts"
  by (simp add: relabel_def span_apply_labels split: option.splits)

text \<open>A relabelled trajectory list is the sliced one up to labels.\<close>

lemma relabel_kinds: "map t_kind (relabel lb name ss ts) = map t_kind ts"
proof -
  have "map t_kind (apply_labels ts ls) = map t_kind ts" if "length ls = length ts" for ls
    using that by (induction ts ls rule: list_induct2') (auto simp: apply_labels_def)
  then show ?thesis by (simp add: relabel_def split: option.splits)
qed

text \<open>The shape of a completed run.\<close>

lemma partition_ok_shape:
  assumes "partition_trace lib pv fault tid name ss judge ans lb = Inr (0, SliceOk e)"
  obtains m a where "get_slicer name = Inr m"
    "e = build_envelope fault tid name (sm_tier m) (int (length ss))
           (relabel lb name ss (trajectories (sm_slice m fault a ss))) (Some judge)"
  using assms
  by (auto simp: partition_trace_def Let_def RC_NEEDS_JUDGMENT_def split: sum.splits judge_outcome.splits if_splits)

lemma valid_envelope:
  assumes "fault \<noteq> Some ''slicer-self-report-valid-gap''"
    and "tl_valid (recompute_tiling (map span_of ts) tot)"
  shows "tb_valid (se_tiling (build_envelope fault tid name tier tot ts j))"
    and "se_trajectories (build_envelope fault tid name tier tot ts j) = ts"
  using assms by (simp_all add: build_envelope_def Let_def)

lemma starts_of_trajectories: "map t_start ts = map fst (map span_of ts)"
  by (simp add: span_of_def)

text \<open>The two cheap-LLM slicers only ever gain boundaries from answers.\<close>

lemma s4_boundaries_mono: "set (s4_boundaries f [] ss) \<subseteq> set (s4_boundaries f ans ss)"
  by (auto simp: s4_boundaries_def decision_of_def)

lemma s3_cluster_mono:
  assumes "(ci, cl) \<in> set (s3_clusters ss)"
  shows "set (fst (s3_cluster [] ss (ci, cl))) \<subseteq> set (fst (s3_cluster ans ss (ci, cl)))"
proof (cases "length cl < 2")
  case True
  then show ?thesis by (simp add: s3_cluster_def)
next
  case False
  then have l: "last cl \<in> set cl" by (cases cl) auto
  have "set (close_after t (fst (last cl))) \<subseteq> (\<Union>x\<in>set cl. set (close_after t (fst x)))" for t
    using l by auto
  with False show ?thesis
    by (auto simp: s3_cluster_def Let_def decision_of_def case_prod_unfold)
qed

lemma s3_boundaries_mono: "set (s3_boundaries f [] ss) \<subseteq> set (s3_boundaries f ans ss)"
  using s3_cluster_mono unfolding s3_boundaries_def by fastforce

lemma s4_default_spine: "set (s4_boundaries f [] ss) = set (0 # human_ask_starts f ss)"
  by (auto simp: s4_boundaries_def decision_of_def)

section \<open>A sample trace\<close>

text \<open>An ask, two edits of the same file, and the closing answer.\<close>

definition sample_edit :: "int \<Rightarrow> step" where
  "sample_edit i = (mk_step i ''agent'')\<lparr>tool_calls := [mk_tool_call ''c'' ''Edit'' [(''file_path'', JStr ''src/a.py'')]]\<rparr>"

definition sample_steps :: "step list" where
  "sample_steps =
     [(mk_step 0 ''user'')\<lparr>step_content := Some ''fix it''\<rparr>, sample_edit 1, sample_edit 2,
      (mk_step 3 ''agent'')\<lparr>step_content := Some ''fixed''\<rparr>]"

definition sample_lib :: py_lib where
  "sample_lib = \<lparr>lib_repr = (\<lambda>_. []), lib_float = (\<lambda>_. None)\<rparr>"

definition no_provider :: provider where
  "no_provider = \<lparr>pv_detected = False, pv_call = (\<lambda>_ _ _. None)\<rparr>"

lemma sample_successes: "success_steps sample_steps = [(1, ''src/a.py''), (2, ''src/a.py''), (3, ''<answer>'')]"
  by code_simp

lemma sample_requests: "map req_id (requests (s3_slice None [] sample_steps)) = [''s3-same-outcome-0'']"
  by code_simp

section \<open>Properties\<close>

text \<open>
  C6. The one hard contract of slicing: a completed run, whatever slicer, judge, recorded answers and
  labeler, emits trajectories that cover every step of the trace exactly once, and an envelope whose
  tiling block says so.
\<close>

theorem partition_tiles:
  assumes "partition_trace lib pv fault tid name ss judge ans lb = Inr (0, SliceOk e)"
    and "fault \<noteq> Some ''slicer-self-report-valid-gap''"
  shows "exact_cover (map span_of (se_trajectories e)) 0 (int (length ss)) \<and> tb_valid (se_tiling e)"
proof -
  obtain m a where m: "get_slicer name = Inr m" and e: "e = build_envelope fault tid name (sm_tier m)
      (int (length ss)) (relabel lb name ss (trajectories (sm_slice m fault a ss))) (Some judge)"
    by (rule partition_ok_shape [OF assms(1)])
  have v: "tl_valid (recompute_tiling (map span_of (se_trajectories e)) (int (length ss)))"
    using registered_valid [OF m] by (simp add: e valid_envelope(2) [OF assms(2)] span_relabel)
  moreover have "exact_cover (map span_of (se_trajectories e)) 0 (int (length ss))"
  proof (cases "ss = []")
    case True
    then show ?thesis using v by (simp add: recompute_tiling_def Let_def exact_cover_def split: if_splits)
  next
    case False
    then show ?thesis using v valid_iff_exact_cover by simp
  qed
  ultimately show ?thesis
    using assms(2) registered_valid [OF m] by (simp add: e build_envelope_def Let_def span_relabel)
qed

theorem partition_tiles_witness:
  "\<exists>e. partition_trace sample_lib no_provider None ''t'' ''s3'' sample_steps ''deterministic'' [] None = Inr (0, SliceOk e) \<and>
     exact_cover (map span_of (se_trajectories e)) 0 4 \<and> tb_valid (se_tiling e)"
proof -
  obtain e where e: "partition_trace sample_lib no_provider None ''t'' ''s3'' sample_steps ''deterministic'' [] None = Inr (0, SliceOk e)"
    by (simp add: partition_trace_def get_slicer_def SLICERS_def judge_resolve_def deterministic_resolve_def Let_def)
  from partition_tiles [OF e] e show ?thesis by (simp add: sample_steps_def)
qed

text \<open>
  C21. The verifier of the envelope is sound and complete: on a non-empty trace it accepts a list of
  spans exactly when every step lies in one span and no span is empty or leaves the trace.
\<close>

theorem verifier_exact:
  assumes "0 < tot"
  shows "(\<exists>r. assert_tiles raw tot = Inr r) \<longleftrightarrow> exact_cover raw 0 tot"
  using valid_iff_exact_cover [OF assms, of raw] by (simp add: assert_tiles_def Let_def)

theorem verifier_exact_witness:
  "(\<exists>r. assert_tiles [(2, 3), (0, 1)] 4 = Inr r) \<longleftrightarrow> exact_cover [(2, 3), (0, 1)] 0 4"
  by (rule verifier_exact) simp

text \<open>
  The handshake: a run exits with 10 exactly when the agent or the human judge is asked, no answers
  were given and the slicer raised requests; and the same requests are raised again when the run is
  repeated with answers, so the second run has nothing left to ask.
\<close>

theorem handshake:
  assumes "get_slicer name = Inr m"
  shows "((\<exists>e. partition_trace lib pv fault tid name ss judge ans lb = Inr (10, e)) \<longleftrightarrow>
      judge \<in> {''agent'', ''human''} \<and> ans = [] \<and> requests (sm_slice m fault [] ss) \<noteq> []) \<and>
    requests (sm_slice m fault ans ss) = requests (sm_slice m fault [] ss)"
proof
  show "requests (sm_slice m fault ans ss) = requests (sm_slice m fault [] ss)"
    by (rule registered_requests [OF assms])
qed (use assms in \<open>auto simp: partition_trace_def Let_def RC_NEEDS_JUDGMENT_def judge_resolve_def agent_resolve_def
      human_resolve_def deterministic_resolve_def provider_resolve_def
      split: sum.splits judge_outcome.splits if_splits option.splits\<close>)

theorem handshake_witness:
  "(\<exists>e. partition_trace sample_lib no_provider None ''t'' ''s3'' sample_steps ''agent'' [] None = Inr (10, e))"
proof -
  have "get_slicer ''s3'' = Inr \<lparr>sm_name = ''s3'', sm_label = ''milestone'', sm_tier = ''cheap_llm'', sm_slice = s3_slice\<rparr>"
    by (simp add: get_slicer_def SLICERS_def)
  from handshake [OF this, of sample_lib no_provider None "''t''" sample_steps "''agent''" "[]" None] sample_requests
  show ?thesis by auto
qed

text \<open>
  Recorded answers replay: once answers are given, no judge backend is consulted and the run is the
  same for every known judge, up to the name of the judge in the envelope.
\<close>

theorem answers_replay:
  assumes "ans \<noteq> []" "judge \<in> {''deterministic'', ''agent'', ''provider'', ''human''}"
    and "get_slicer name = Inr m"
  shows "partition_trace lib pv fault tid name ss judge ans lb =
    Inr (0, SliceOk (build_envelope fault tid name (sm_tier m) (int (length ss))
          (relabel lb name ss (trajectories (sm_slice m fault ans ss))) (Some judge)))"
  using assms by (auto simp: partition_trace_def Let_def judge_resolve_def)

theorem answers_replay_witness:
  "partition_trace sample_lib no_provider None ''t'' ''s1'' sample_steps ''human'' [(''x'', [])] None =
    Inr (0, SliceOk (build_envelope None ''t'' ''s1'' ''deterministic'' 4
      (trajectories (s1_slice None [(''x'', [])] sample_steps)) (Some ''human'')))"
proof -
  have "get_slicer ''s1'' = Inr \<lparr>sm_name = ''s1'', sm_label = ''user-turn'', sm_tier = ''deterministic'', sm_slice = s1_slice\<rparr>"
    by (simp add: get_slicer_def SLICERS_def)
  from answers_replay [OF _ _ this, of "[(''x'', [])]" "''human''" sample_lib no_provider None "''t''" sample_steps None]
  show ?thesis by (simp add: sample_steps_def relabel_def)
qed

text \<open>
  The judge only chooses boundaries: for the two cheap-LLM slicers every boundary of the
  deterministic default is still a boundary under any answers.
\<close>

theorem answers_refine:
  assumes "ss \<noteq> []" "name \<in> {''s3'', ''s4''}" "get_slicer name = Inr m"
  shows "t_start ` set (trajectories (sm_slice m fault [] ss)) \<subseteq> t_start ` set (trajectories (sm_slice m fault ans ss))"
  using assms(3)
proof (rule get_slicer_cases)
  assume "sm_slice m = s3_slice"
  then show ?thesis
    by (simp only:) (intro subsetI, unfold s3.slice_starts [OF assms(1)], use s3_boundaries_mono [of fault ss ans] in blast)
next
  assume "sm_slice m = s4_slice"
  then show ?thesis
    by (simp only:) (intro subsetI, unfold s4.slice_starts [OF assms(1)], use s4_boundaries_mono [of fault ss ans] in blast)
qed (use assms(2) in auto)

theorem answers_refine_witness:
  "t_start ` set (trajectories (s3_slice None [] sample_steps)) \<subseteq>
   t_start ` set (trajectories (s3_slice None [(''s3-same-outcome-0'', [(''decision'', JStr ''distinct'')])] sample_steps))"
proof -
  have "get_slicer ''s3'' = Inr \<lparr>sm_name = ''s3'', sm_label = ''milestone'', sm_tier = ''cheap_llm'', sm_slice = s3_slice\<rparr>"
    by (simp add: get_slicer_def SLICERS_def)
  from answers_refine [OF _ _ this, of sample_steps None] show ?thesis by (simp add: sample_steps_def)
qed

text \<open>With no answers the subgoal slicer reduces to the user-turn spine: the same spans.\<close>

theorem s4_reduces_to_s1:
  assumes "fault \<noteq> Some ''slicer-boundary-off-by-one''"
  shows "map span_of (trajectories (s4_slice fault [] ss)) = map span_of (trajectories (s1_slice fault ans ss))"
proof (cases "ss = []")
  case True
  then show ?thesis by (simp add: s4_slice_def s1_slice_def trajectories_empty)
next
  case False
  then have t: "0 < int (length ss)" by simp
  have "set (s4_boundaries fault [] ss) = set (s1_boundaries fault ss)"
    using assms by (simp add: s4_default_spine s1_boundaries_def Let_def)
  then have "boundary_list (s4_boundaries fault [] ss) (int (length ss)) =
      boundary_list (s1_boundaries fault ss) (int (length ss))"
    by (intro boundary_list_cong) simp
  then show ?thesis by (simp add: s4_slice_def s1_slice_def spans_of_trajectories [OF t])
qed

theorem s4_reduces_to_s1_witness:
  "map span_of (trajectories (s4_slice None [] sample_steps)) = map span_of (trajectories (s1_slice None [] sample_steps))"
  by (rule s4_reduces_to_s1) simp

text \<open>
  C30. The handshake converges: the requests of every slicer have distinct ids, name a step of the trace,
  number at most half the successes for the milestone slicer and at most the successes for the subgoal
  slicer, and the two deterministic slicers raise none.
\<close>

theorem requests_wellformed:
  assumes "get_slicer name = Inr m"
  shows "distinct (map req_id (requests (sm_slice m fault ans ss))) \<and>
    list_all (\<lambda>r. 0 \<le> req_candidate_step r \<and> req_candidate_step r < int (length ss)) (requests (sm_slice m fault ans ss)) \<and>
    length (requests (sm_slice m fault ans ss)) \<le>
      (if name = ''s3'' then length (success_steps ss) div 2
       else if name = ''s4'' then length (success_steps ss) else 0)"
  using assms
proof (rule get_slicer_cases)
  assume "name = ''s1''" "sm_slice m = s1_slice" then show ?thesis by (simp add: s1_slice_def)
next
  assume "name = ''s2''" "sm_slice m = s2_slice" then show ?thesis by (simp add: s2_slice_def)
next
  assume "name = ''s3''" "sm_slice m = s3_slice"
  then show ?thesis
    using s3.ids_distinct [of fault ans ss] s3.candidates [of fault ans ss] s3_count [of fault ans ss]
    by (simp add: list_all_iff)
next
  assume "name = ''s4''" "sm_slice m = s4_slice"
  then show ?thesis
    using s4.ids_distinct [of fault ans ss] s4.candidates [of fault ans ss] pivot_count [of ss]
    by (simp add: list_all_iff) (simp add: s4_slice_def)
qed

theorem requests_wellformed_witness:
  "length (requests (s3_slice None [] sample_steps)) \<le> 1"
proof -
  have "get_slicer ''s3'' = Inr \<lparr>sm_name = ''s3'', sm_label = ''milestone'', sm_tier = ''cheap_llm'', sm_slice = s3_slice\<rparr>"
    by (simp add: get_slicer_def SLICERS_def)
  from requests_wellformed [OF this, of None "[]" sample_steps] show ?thesis by (simp add: sample_successes)
qed

lemma butlast_not_tiles: "tiles spans lo hi \<Longrightarrow> spans \<noteq> [] \<Longrightarrow> \<not> tiles (butlast spans) lo hi"
proof (induction spans arbitrary: lo)
  case (Cons se ses)
  then show ?case by (cases ses) (auto split: if_splits)
qed simp

lemma tiles_sorted: "tiles spans lo hi \<Longrightarrow> sorted spans"
proof (induction spans arbitrary: lo)
  case (Cons se ses)
  have "se \<le> x" if "x \<in> set ses" for x
    using tiles_spans [of ses "snd se + 1" hi x] Cons.prems that by (cases se; cases x) (auto simp: less_eq_prod_def)
  with Cons show ?case by auto
qed simp

lemma sorted_butlast_list: "sorted xs \<Longrightarrow> sorted (butlast xs)"
  by (simp add: butlast_conv_take sorted_wrt_take)

text \<open>
  The self-report faultpoint is visible to the verifier: with it armed, a run of two trajectories or
  more emits an envelope that claims to be valid while its own spans do not tile the trace.
\<close>

theorem self_report_gap_caught:
  assumes "get_slicer name = Inr m"
    and "fault = Some ''slicer-self-report-valid-gap''"
    and "ts = trajectories (sm_slice m fault ans ss)" "1 < length ts"
    and "e = build_envelope fault tid name (sm_tier m) (int (length ss)) ts j"
  shows "tb_valid (se_tiling e) \<and> \<not> tl_valid (recompute_tiling (map span_of (se_trajectories e)) (int (length ss)))"
proof -
  have "ss \<noteq> []"
  proof
    assume "ss = []"
    then have "tl_valid (recompute_tiling (map span_of ts) 0)"
      using registered_valid [OF assms(1), of fault ans ss] assms(3) by simp
    then show False using assms(4) by (auto simp: recompute_tiling_def Let_def split: if_splits)
  qed
  then have tot: "0 < int (length ss)" by simp
  have t: "tiles (map span_of ts) 0 (int (length ss))"
    unfolding assms(3) by (rule registered_tiles [OF assms(1) \<open>ss \<noteq> []\<close>])
  have "\<not> tiles (butlast (map span_of ts)) 0 (int (length ss))"
    by (rule butlast_not_tiles [OF t]) (use assms(4) in auto)
  then have "\<not> exact_cover (butlast (map span_of ts)) 0 (int (length ss))"
    using exact_cover_tiles sorted_butlast_list [OF tiles_sorted [OF t]] tot by fastforce
  then show ?thesis
    using assms(4) valid_iff_exact_cover [OF tot]
    by (simp add: assms(2,5) build_envelope_def Let_def map_butlast)
qed

theorem self_report_gap_caught_witness:
  "\<not> tl_valid (recompute_tiling (map span_of (se_trajectories
      (build_envelope (Some ''slicer-self-report-valid-gap'') ''t'' ''s2'' ''deterministic'' 4
        (trajectories (s2_slice (Some ''slicer-self-report-valid-gap'') [] sample_steps)) None))) 4)"
proof -
  have m: "get_slicer ''s2'' = Inr \<lparr>sm_name = ''s2'', sm_label = ''change-burst'', sm_tier = ''deterministic'', sm_slice = s2_slice\<rparr>"
    by (simp add: get_slicer_def SLICERS_def)
  have l: "1 < length (trajectories (s2_slice (Some ''slicer-self-report-valid-gap'') [] sample_steps))"
    by code_simp
  have n: "length sample_steps = 4" by (simp add: sample_steps_def)
  from self_report_gap_caught [OF m refl refl, of "[]" sample_steps, simplified, OF l [simplified] refl] n
  show ?thesis by simp
qed

text \<open>
  A malformed reply of the model is not always degraded to the defaults: a confidence that is no
  number raises out of the provider judge, after the call that its handler guards.
\<close>

theorem provider_confidence_raises:
  "\<exists>payload. provider_resolve sample_lib \<lparr>pv_detected = True, pv_call = (\<lambda>_ _ _. Some payload)\<rparr> ''s3'' sample_steps
     [s4_request sample_steps 3] = Inl ValueError"
  by (rule exI [of _ "JObj [(''answers'', JList [JObj [(''id'', JStr ''s4-pivot-3''), (''confidence'', JStr ''high'')]])]"])
    (simp add: provider_resolve_def provider_answers_def provider_item_def py_iter_def py_float_def
      sample_lib_def Let_def jor_def)

text \<open>
  Edited files are read off names and inputs zipped after the nameless calls are dropped from the
  names only, so a nameless call before an edit makes the step report no file.
\<close>

lemma edit_files_misaligned:
  "\<exists>s. map tool_name (tool_calls s) = [[], ''Edit''] \<and>
     map (\<lambda>tc. jget (tool_input tc) ''file_path'') (tool_calls s) = [JNull, JStr ''a.py''] \<and> edit_files s = []"
  by (rule exI [of _ "(mk_step 0 ''agent'')\<lparr>tool_calls := [mk_tool_call ''a'' [] [], mk_tool_call ''b'' ''Edit'' [(''file_path'', JStr ''a.py'')]]\<rparr>"])
    (simp add: mk_step_def mk_tool_call_def edit_files_def tool_names_def tool_inputs_def edit_file_of_def EDIT_TOOLS_def jor_def)

end
