(* ===== verification/Staging.thy ===== *)
theory Staging
  imports Json
begin

text \<open>
  The staging state machine of \<^verbatim>\<open>core/state.py\<close>: the state file as a record, one function per method of
  \<^verbatim>\<open>StateManager\<close>, and the trace lock. The clock, the random id of a commit group and the file system
  (\<^verbatim>\<open>stat\<close> of a session file, existence of a staged trace) are arguments. A key the file may lack
  reads as its default, the way every getter of the class reads it.
\<close>

section \<open>Data\<close>

definition STATE_SCHEMA_VERSION :: string where
  "STATE_SCHEMA_VERSION = ''5''"

datatype trace_status =
    DISCOVERED | PARSED | STAGED | REVIEWING | COMMITTED | APPROVED | UPLOADING | UPLOADED
  | REJECTED | FAILED | BLOCKED

record commit_group =
  cg_commit_id :: string
  cg_trace_ids :: "string list"
  cg_message :: string
  cg_created_at :: string

record processed_file =
  pf_file_path :: string
  pf_inode :: int
  pf_mtime :: rat
  pf_last_byte_offset :: int

record generation_record =
  gen_trace_id :: string
  gen_generation :: int
  gen_captured_size :: int
  gen_captured_mtime :: rat
  gen_schema_version :: string
  gen_security_version :: string
  gen_status_at_capture :: string
  gen_supersedes :: "string option"
  gen_supersedes_reason :: "string option"
  gen_created_at :: string

record session_record =
  sr_session_id :: string
  sr_source_path :: string
  sr_observed_size :: int
  sr_observed_mtime :: rat
  session_end_seen :: bool
  post_commit_triggered :: bool
  parent_session_id :: "string option"
  parent_step_id :: "string option"
  sr_generations :: "generation_record list"

record staging_entry =
  te_trace_id :: string
  te_session_id :: string
  te_status :: trace_status
  te_file_path :: "string option"
  te_error :: "string option"
  te_uploaded_at :: "string option"
  te_created_at :: rat
  te_block_reason :: "string option"
  te_uploaded_to :: "(string, string) dict"

record state =
  st_version :: "string option"
  st_processed_files :: "(string, processed_file) dict"
  st_traces :: "(string, staging_entry) dict"
  st_commit_groups :: "(string, commit_group) dict"
  last_backfilled_commit :: "string option"
  last_backfill_at :: "string option"
  last_watcher_run_at :: "string option"
  st_sessions :: "(string, session_record) dict"
  st_step_labels :: "(string, (string, string) dict) dict"
  st_step_anchors :: "(string, (string, (string, json) dict) dict) dict"

datatype state_error = UnknownRemoteError string | UnknownFlag string | SessionNotFound string

section \<open>Load, migrate, save\<close>

definition empty_state :: state where
  "empty_state = \<lparr>st_version = None, st_processed_files = [], st_traces = [], st_commit_groups = [],
     last_backfilled_commit = None, last_backfill_at = None, last_watcher_run_at = None,
     st_sessions = [], st_step_labels = [], st_step_anchors = []\<rparr>"

definition backfill_uploaded_to :: "staging_entry \<Rightarrow> staging_entry" where
  "backfill_uploaded_to e =
     (if te_status e = UPLOADED \<and> te_uploaded_to e = [] then
        (let ts = (case te_uploaded_at e of None \<Rightarrow> ''1970-01-01T00:00:00Z''
                   | Some t \<Rightarrow> if t = [] then ''1970-01-01T00:00:00Z'' else t)
         in e\<lparr>te_uploaded_to := [(''origin'', ts)]\<rparr>)
      else e)"

definition migrate :: "state \<Rightarrow> state" where
  "migrate st =
     (if st_version st = Some STATE_SCHEMA_VERSION then st
      else
        (let st' = (if st_version st = None \<or> st_version st = Some ''1''
                    then st\<lparr>st_traces := map (\<lambda>(k, e). (k, backfill_uploaded_to e)) (st_traces st)\<rparr>
                    else st)
         in st'\<lparr>st_version := Some STATE_SCHEMA_VERSION\<rparr>))"

text \<open>The file is absent, unreadable (\<^verbatim>\<open>JSONDecodeError\<close>, \<^verbatim>\<open>OSError\<close>), or holds a state.\<close>

datatype state_file = NoFile | Unreadable | Holds state

definition load :: "state_file \<Rightarrow> state" where
  "load f = migrate (case f of NoFile \<Rightarrow> empty_state | Unreadable \<Rightarrow> empty_state | Holds st \<Rightarrow> st)"

definition save :: "state \<Rightarrow> state" where
  "save st = st\<lparr>st_version := Some STATE_SCHEMA_VERSION\<rparr>"

section \<open>Processed files\<close>

record file_stat =
  fs_ino :: int
  fs_size :: int
  fs_mtime :: rat

definition get_processed_file :: "state \<Rightarrow> string \<Rightarrow> processed_file option" where
  "get_processed_file st fp = dget (st_processed_files st) fp"

definition mark_file_processed :: "processed_file \<Rightarrow> state \<Rightarrow> state" where
  "mark_file_processed pf st = save (st\<lparr>st_processed_files := dset (st_processed_files st) (pf_file_path pf) pf\<rparr>)"

definition should_reprocess :: "file_stat option \<Rightarrow> state \<Rightarrow> string \<Rightarrow> bool \<times> int" where
  "should_reprocess stat st fp =
     (case stat of
        None \<Rightarrow> (False, 0)
      | Some s \<Rightarrow>
          (case get_processed_file st fp of
             None \<Rightarrow> (True, 0)
           | Some prev \<Rightarrow>
               if fs_ino s \<noteq> pf_inode prev then (True, 0)
               else if fs_size s < pf_last_byte_offset prev then (True, 0)
               else if fs_mtime s > pf_mtime prev \<or> fs_size s > pf_last_byte_offset prev
               then (True, pf_last_byte_offset prev)
               else (False, 0)))"

section \<open>Traces\<close>

definition get_trace :: "state \<Rightarrow> string \<Rightarrow> staging_entry option" where
  "get_trace st tid = dget (st_traces st) tid"

text \<open>The keyword arguments of \<^verbatim>\<open>set_trace_status\<close>, each the new value of a field of the entry.\<close>

datatype kwarg =
    KSession string
  | KFile "string option"
  | KError "string option"
  | KUploadedAt "string option"
  | KCreated rat
  | KBlockReason "string option"
  | KUploadedTo "(string, string) dict"

fun set_kwarg :: "kwarg \<Rightarrow> staging_entry \<Rightarrow> staging_entry" where
  "set_kwarg (KSession s) e = e\<lparr>te_session_id := s\<rparr>"
| "set_kwarg (KFile f) e = e\<lparr>te_file_path := f\<rparr>"
| "set_kwarg (KError x) e = e\<lparr>te_error := x\<rparr>"
| "set_kwarg (KUploadedAt t) e = e\<lparr>te_uploaded_at := t\<rparr>"
| "set_kwarg (KCreated t) e = e\<lparr>te_created_at := t\<rparr>"
| "set_kwarg (KBlockReason r) e = e\<lparr>te_block_reason := r\<rparr>"
| "set_kwarg (KUploadedTo d) e = e\<lparr>te_uploaded_to := d\<rparr>"

definition fresh_entry :: "string \<Rightarrow> trace_status \<Rightarrow> rat \<Rightarrow> staging_entry" where
  "fresh_entry tid status now = \<lparr>te_trace_id = tid, te_session_id = [], te_status = status, te_file_path = None,
     te_error = None, te_uploaded_at = None, te_created_at = now, te_block_reason = None, te_uploaded_to = []\<rparr>"

text \<open>
  What a call sees of the world: the time, and the path of the staged trace of an id if that file exists.
\<close>

record world =
  w_now :: rat
  w_now_iso :: string
  w_staged :: "string \<Rightarrow> string option"

definition self_heal :: "world \<Rightarrow> string \<Rightarrow> staging_entry \<Rightarrow> staging_entry" where
  "self_heal w tid e =
     (if te_file_path e = None \<or> te_file_path e = Some [] then
        (case w_staged w tid of None \<Rightarrow> e | Some p \<Rightarrow> e\<lparr>te_file_path := Some p\<rparr>)
      else e)"

definition set_trace_status :: "world \<Rightarrow> string \<Rightarrow> trace_status \<Rightarrow> kwarg list \<Rightarrow> state \<Rightarrow> state" where
  "set_trace_status w tid status kws st =
     (let e0 = (case dget (st_traces st) tid of None \<Rightarrow> fresh_entry tid status (w_now w) | Some e \<Rightarrow> e);
          e1 = fold set_kwarg kws (e0\<lparr>te_status := status\<rparr>);
          e2 = self_heal w tid e1
      in save (st\<lparr>st_traces := dset (st_traces st) tid e2\<rparr>))"

definition get_traces_by_status :: "state \<Rightarrow> trace_status \<Rightarrow> staging_entry list" where
  "get_traces_by_status st status = filter (\<lambda>e. te_status e = status) (dvalues (st_traces st))"

definition is_pending_for :: "string \<Rightarrow> staging_entry \<Rightarrow> bool" where
  "is_pending_for remote e =
     (if te_status e = COMMITTED \<or> te_status e = FAILED then True
      else if te_status e = UPLOADED then \<not> dmem (te_uploaded_to e) remote
      else False)"

definition pending_for :: "state \<Rightarrow> string \<Rightarrow> staging_entry list" where
  "pending_for st remote = filter (is_pending_for remote) (dvalues (st_traces st))"

definition get_pending_upload_traces :: "state \<Rightarrow> string option \<Rightarrow> staging_entry list" where
  "get_pending_upload_traces st remote =
     (case remote of
        Some r \<Rightarrow> pending_for st r
      | None \<Rightarrow> filter (\<lambda>e. te_status e = COMMITTED \<or> te_status e = FAILED) (dvalues (st_traces st)))"

definition mark_uploaded_to :: "world \<Rightarrow> string \<Rightarrow> string \<Rightarrow> string option \<Rightarrow> state \<Rightarrow> state" where
  "mark_uploaded_to w tid remote when_at st =
     (let ts = (case when_at of None \<Rightarrow> w_now_iso w | Some t \<Rightarrow> if t = [] then w_now_iso w else t);
          e = (case dget (st_traces st) tid of None \<Rightarrow> fresh_entry tid UPLOADED (w_now w) | Some e \<Rightarrow> e);
          e' = e\<lparr>te_status := UPLOADED, te_uploaded_to := dset (te_uploaded_to e) remote ts, te_uploaded_at := Some ts\<rparr>
      in save (st\<lparr>st_traces := dset (st_traces st) tid e'\<rparr>))"

definition rename_in_entry :: "string \<Rightarrow> string \<Rightarrow> staging_entry \<Rightarrow> staging_entry" where
  "rename_in_entry old new e =
     (case dget (te_uploaded_to e) old of
        None \<Rightarrow> e
      | Some ts \<Rightarrow> e\<lparr>te_uploaded_to := dset (dpop (te_uploaded_to e) old) new ts\<rparr>)"

definition knows_remote :: "string \<Rightarrow> state \<Rightarrow> bool" where
  "knows_remote r st = list_ex (\<lambda>e. dmem (te_uploaded_to e) r) (dvalues (st_traces st))"

definition rename_remote :: "string \<Rightarrow> string \<Rightarrow> state \<Rightarrow> state_error + state" where
  "rename_remote old new st =
     (if \<not> knows_remote old st then Inl (UnknownRemoteError old)
      else Inr (save (st\<lparr>st_traces := map (\<lambda>(k, e). (k, rename_in_entry old new e)) (st_traces st)\<rparr>)))"

definition forget_in_entry :: "string \<Rightarrow> staging_entry \<Rightarrow> staging_entry" where
  "forget_in_entry r e =
     (if dmem (te_uploaded_to e) r then e\<lparr>te_uploaded_to := dpop (te_uploaded_to e) r\<rparr> else e)"

definition forget_remote :: "string \<Rightarrow> state \<Rightarrow> state_error + state" where
  "forget_remote r st =
     (if \<not> knows_remote r st then Inl (UnknownRemoteError r)
      else Inr (save (st\<lparr>st_traces := map (\<lambda>(k, e). (k, forget_in_entry r e)) (st_traces st)\<rparr>)))"

definition block_trace :: "world \<Rightarrow> string \<Rightarrow> string \<Rightarrow> kwarg list \<Rightarrow> state \<Rightarrow> state" where
  "block_trace w tid reason kws st = set_trace_status w tid BLOCKED (KBlockReason (Some reason) # kws) st"

definition get_blocked_traces :: "state \<Rightarrow> staging_entry list" where
  "get_blocked_traces st = get_traces_by_status st BLOCKED"

section \<open>Commit groups\<close>

definition create_commit_group :: "world \<Rightarrow> string \<Rightarrow> string list \<Rightarrow> string \<Rightarrow> state \<Rightarrow> state" where
  "create_commit_group w cid tids msg st =
     (let g = \<lparr>cg_commit_id = cid, cg_trace_ids = tids, cg_message = msg, cg_created_at = w_now_iso w\<rparr>;
          st1 = st\<lparr>st_commit_groups := dset (st_commit_groups st) cid g\<rparr>
      in save (fold (\<lambda>tid s. set_trace_status w tid COMMITTED [] s) tids st1))"

definition get_committed_traces :: "state \<Rightarrow> (string, staging_entry) dict" where
  "get_committed_traces st = filter (\<lambda>(tid, e). te_status e = COMMITTED) (st_traces st)"

definition get_commit_group :: "state \<Rightarrow> string \<Rightarrow> commit_group option" where
  "get_commit_group st cid = dget (st_commit_groups st) cid"

section \<open>Bookmarks\<close>

definition or_now :: "world \<Rightarrow> string option \<Rightarrow> string" where
  "or_now w t = (case t of None \<Rightarrow> w_now_iso w | Some x \<Rightarrow> if x = [] then w_now_iso w else x)"

definition set_last_backfilled_commit :: "world \<Rightarrow> string option \<Rightarrow> string option \<Rightarrow> state \<Rightarrow> state" where
  "set_last_backfilled_commit w sha t st =
     save (st\<lparr>last_backfilled_commit := sha, last_backfill_at := Some (or_now w t)\<rparr>)"

definition set_last_watcher_run_at :: "world \<Rightarrow> string option \<Rightarrow> state \<Rightarrow> state" where
  "set_last_watcher_run_at w t st = save (st\<lparr>last_watcher_run_at := Some (or_now w t)\<rparr>)"

section \<open>Sessions\<close>

definition get_session :: "state \<Rightarrow> string \<Rightarrow> session_record option" where
  "get_session st sid = dget (st_sessions st) sid"

text \<open>An argument left at the sentinel \<^verbatim>\<open>_UNSET\<close> is \<^const>\<open>None\<close>; \<open>Some v\<close> overwrites, with \<open>v\<close> possibly null.\<close>

definition upsert_session ::
  "string \<Rightarrow> string \<Rightarrow> int \<Rightarrow> rat \<Rightarrow> string option option \<Rightarrow> string option option \<Rightarrow> state \<Rightarrow> state" where
  "upsert_session sid src sz mtime parent pstep st =
     (let r0 = (case dget (st_sessions st) sid of
          None \<Rightarrow> \<lparr>sr_session_id = sid, sr_source_path = src, sr_observed_size = sz, sr_observed_mtime = mtime,
             session_end_seen = False, post_commit_triggered = False,
             parent_session_id = (case parent of None \<Rightarrow> None | Some p \<Rightarrow> p),
             parent_step_id = (case pstep of None \<Rightarrow> None | Some p \<Rightarrow> p), sr_generations = []\<rparr>
        | Some r \<Rightarrow>
            (let r1 = r\<lparr>sr_source_path := src, sr_observed_size := sz, sr_observed_mtime := mtime\<rparr>;
                 r2 = (case parent of None \<Rightarrow> r1 | Some p \<Rightarrow> r1\<lparr>parent_session_id := p\<rparr>)
             in (case pstep of None \<Rightarrow> r2 | Some p \<Rightarrow> r2\<lparr>parent_step_id := p\<rparr>)))
      in save (st\<lparr>st_sessions := dset (st_sessions st) sid r0\<rparr>))"

definition set_session_flag :: "string \<Rightarrow> string \<Rightarrow> bool \<Rightarrow> state \<Rightarrow> state_error + state" where
  "set_session_flag sid flag b st =
     (if flag \<notin> {''session_end_seen'', ''post_commit_triggered''} then Inl (UnknownFlag flag)
      else case dget (st_sessions st) sid of
        None \<Rightarrow> Inl (SessionNotFound sid)
      | Some r \<Rightarrow>
          Inr (save (st\<lparr>st_sessions := dset (st_sessions st) sid
            (if flag = ''session_end_seen'' then r\<lparr>session_end_seen := b\<rparr> else r\<lparr>post_commit_triggered := b\<rparr>)\<rparr>)))"

definition append_generation :: "string \<Rightarrow> generation_record \<Rightarrow> state \<Rightarrow> state_error + state" where
  "append_generation sid g st =
     (case dget (st_sessions st) sid of
        None \<Rightarrow> Inl (SessionNotFound sid)
      | Some r \<Rightarrow> Inr (save (st\<lparr>st_sessions := dset (st_sessions st) sid (r\<lparr>sr_generations := sr_generations r @ [g]\<rparr>)\<rparr>)))"

definition latest_generation :: "state \<Rightarrow> string \<Rightarrow> generation_record option" where
  "latest_generation st sid =
     (case get_session st sid of None \<Rightarrow> None
      | Some r \<Rightarrow> if sr_generations r = [] then None else Some (last (sr_generations r)))"

section \<open>Step labels and anchors\<close>

definition get_step_labels :: "state \<Rightarrow> string \<Rightarrow> (string, string) dict" where
  "get_step_labels st tid = (case dget (st_step_labels st) tid of None \<Rightarrow> [] | Some d \<Rightarrow> d)"

definition set_step_label :: "string \<Rightarrow> string \<Rightarrow> string option \<Rightarrow> state \<Rightarrow> state" where
  "set_step_label tid sid lbl st =
     (let cur = get_step_labels st tid;
          clean = strip (case lbl of None \<Rightarrow> [] | Some l \<Rightarrow> l);
          cur' = (if clean \<noteq> [] then dset cur sid clean else dpop cur sid)
      in save (st\<lparr>st_step_labels := (if cur' = [] then dpop (dset (st_step_labels st) tid cur') tid
                                    else dset (st_step_labels st) tid cur')\<rparr>))"

definition get_step_anchor :: "state \<Rightarrow> string \<Rightarrow> int \<Rightarrow> (string, json) dict option" where
  "get_step_anchor st tid i =
     (case dget (st_step_anchors st) tid of None \<Rightarrow> None | Some d \<Rightarrow> dget d (str_of_int i))"

definition set_step_anchors :: "string \<Rightarrow> (int, (string, json) dict) dict \<Rightarrow> state \<Rightarrow> state" where
  "set_step_anchors tid anchors st =
     (let root = st_step_anchors st in
      save (st\<lparr>st_step_anchors := (if anchors = [] then dpop root tid
         else dset root tid (fold (\<lambda>(i, a) d. dset d (str_of_int i) a) anchors []))\<rparr>))"

section \<open>The trace lock\<close>

text \<open>
  The exclusive lock on a project's traces: \<open>held\<close> is the file lock's owner (the operating system's
  side of \<^verbatim>\<open>flock\<close> with \<^verbatim>\<open>LOCK_NB\<close>), \<open>fds\<close> the holders that have the descriptor open.
\<close>

record lock_state =
  lk_held :: "nat option"
  lk_fds :: "nat list"

definition lock_acquire :: "nat \<Rightarrow> lock_state \<Rightarrow> bool \<times> lock_state" where
  "lock_acquire p lk =
     (case lk_held lk of
        None \<Rightarrow> (True, \<lparr>lk_held = Some p, lk_fds = p # removeAll p (lk_fds lk)\<rparr>)
      | Some q \<Rightarrow> (False, lk\<lparr>lk_fds := removeAll p (lk_fds lk)\<rparr>))"

definition lock_release :: "nat \<Rightarrow> lock_state \<Rightarrow> lock_state" where
  "lock_release p lk =
     (if p \<in> set (lk_fds lk) then
        \<lparr>lk_held = (if lk_held lk = Some p then None else lk_held lk), lk_fds = removeAll p (lk_fds lk)\<rparr>
      else lk)"

end
