(* ===== verification/StagingProps.thy ===== *)
theory StagingProps
  imports Staging
begin

text \<open>
  The staging state machine as a transition system: its operations, the states they reach from an
  empty project, the invariant every operation keeps, and what each operation promises about the
  set of traces that wait for an upload.
\<close>

section \<open>Operations\<close>

datatype op =
    OMarkFile processed_file
  | OStatus world string trace_status "kwarg list"
  | OUploaded world string string "string option"
  | ORename string string
  | OForget string
  | OBlock world string string "kwarg list"
  | OCommit world string "string list" string
  | OBackfilled world "string option" "string option"
  | OWatcher world "string option"
  | OSession string string int rat "string option option" "string option option"
  | OFlag string string bool
  | OGeneration string generation_record
  | OLabel string string "string option"
  | OAnchors string "(int, (string, json) dict) dict"

fun apply_op :: "op \<Rightarrow> state \<Rightarrow> state_error + state" where
  "apply_op (OMarkFile pf) st = Inr (mark_file_processed pf st)"
| "apply_op (OStatus w t s ks) st = Inr (set_trace_status w t s ks st)"
| "apply_op (OUploaded w t r x) st = Inr (mark_uploaded_to w t r x st)"
| "apply_op (ORename a b) st = rename_remote a b st"
| "apply_op (OForget r) st = forget_remote r st"
| "apply_op (OBlock w t r ks) st = Inr (block_trace w t r ks st)"
| "apply_op (OCommit w c ts m) st = Inr (create_commit_group w c ts m st)"
| "apply_op (OBackfilled w s t) st = Inr (set_last_backfilled_commit w s t st)"
| "apply_op (OWatcher w t) st = Inr (set_last_watcher_run_at w t st)"
| "apply_op (OSession i p n m a b) st = Inr (upsert_session i p n m a b st)"
| "apply_op (OFlag i f b) st = set_session_flag i f b st"
| "apply_op (OGeneration i g) st = append_generation i g st"
| "apply_op (OLabel t i l) st = Inr (set_step_label t i l st)"
| "apply_op (OAnchors t a) st = Inr (set_step_anchors t a st)"

text \<open>A dict passed as an argument has each key once.\<close>

fun kwarg_ok :: "kwarg \<Rightarrow> bool" where
  "kwarg_ok (KUploadedTo d) = dict_ok d"
| "kwarg_ok _ = True"

fun op_ok :: "op \<Rightarrow> bool" where
  "op_ok (OStatus w t s ks) = list_all kwarg_ok ks"
| "op_ok (OBlock w t r ks) = list_all kwarg_ok ks"
| "op_ok _ = True"

section \<open>The invariant\<close>

definition entries_ok :: "(string, staging_entry) dict \<Rightarrow> bool" where
  "entries_ok d \<longleftrightarrow> dict_ok d \<and> list_all (\<lambda>(k, e). te_trace_id e = k \<and> dict_ok (te_uploaded_to e)) d"

definition sessions_ok :: "(string, session_record) dict \<Rightarrow> bool" where
  "sessions_ok d \<longleftrightarrow> dict_ok d \<and> list_all (\<lambda>(k, r). sr_session_id r = k) d"

definition labels_ok :: "(string, (string, string) dict) dict \<Rightarrow> bool" where
  "labels_ok d \<longleftrightarrow> dict_ok d \<and> list_all (\<lambda>(k, l). dict_ok l \<and> l \<noteq> [] \<and> list_all (\<lambda>(i, x). x \<noteq> []) l) d"

definition staging_ok :: "state \<Rightarrow> bool" where
  "staging_ok st \<longleftrightarrow>
     st_version st = Some STATE_SCHEMA_VERSION \<and> dict_ok (st_processed_files st) \<and>
     entries_ok (st_traces st) \<and> dict_ok (st_commit_groups st) \<and> sessions_ok (st_sessions st) \<and>
     labels_ok (st_step_labels st) \<and> dict_ok (st_step_anchors st)"

text \<open>
  A project starts from its state file: none, one that cannot be read, or one that holds a well-formed state of any
  schema version, which loading migrates.
\<close>

definition file_ok :: "state_file \<Rightarrow> bool" where
  "file_ok f = (case f of Holds st \<Rightarrow> staging_ok (st\<lparr>st_version := Some STATE_SCHEMA_VERSION\<rparr>) | _ \<Rightarrow> True)"

inductive reachable :: "state \<Rightarrow> bool" where
  start: "file_ok f \<Longrightarrow> reachable (load f)"
| op: "reachable st \<Longrightarrow> op_ok x \<Longrightarrow> apply_op x st = Inr st' \<Longrightarrow> reachable st'"
| reload: "reachable st \<Longrightarrow> reachable (load (Holds st))"

text \<open>A property of all entries of a dictionary survives a write of an entry that has it.\<close>

lemma list_all_dset: "list_all P d \<Longrightarrow> P (k, v) \<Longrightarrow> list_all P (dset d k v)"
  by (induction d) (auto simp: dset_def)

lemma list_all_dpop: "list_all P d \<Longrightarrow> list_all P (dpop d k)"
  by (induction d) (auto simp: dpop_def AList.delete_eq)

lemma list_all_dget: "list_all P d \<Longrightarrow> dget d k = Some v \<Longrightarrow> P (k, v)"
  by (auto simp: list_all_iff dest: dget_Some_in)

lemma entries_ok_dset:
  "entries_ok d \<Longrightarrow> te_trace_id e = k \<Longrightarrow> dict_ok (te_uploaded_to e) \<Longrightarrow> entries_ok (dset d k e)"
  by (simp add: entries_ok_def list_all_dset)

lemma entries_okD:
  "entries_ok d \<Longrightarrow> dget d k = Some e \<Longrightarrow> te_trace_id e = k \<and> dict_ok (te_uploaded_to e)"
  unfolding entries_ok_def by (auto dest: list_all_dget)

lemma entries_ok_uploaded: "entries_ok d \<Longrightarrow> dget d k = Some e \<Longrightarrow> dict_ok (te_uploaded_to e)"
  using entries_okD by blast

lemma entries_ok_map:
  assumes "entries_ok d" "\<And>e. te_trace_id (f e) = te_trace_id e"
    and "\<And>e. dict_ok (te_uploaded_to e) \<Longrightarrow> dict_ok (te_uploaded_to (f e))"
  shows "entries_ok (map (\<lambda>(k, e). (k, f e)) d)"
  using assms dict_ok_map_snd [of "\<lambda>_. f" d]
  by (auto simp: entries_ok_def list_all_iff)

lemma save_simps [simp]:
  "st_version (save st) = Some STATE_SCHEMA_VERSION" "st_processed_files (save st) = st_processed_files st"
  "st_traces (save st) = st_traces st" "st_commit_groups (save st) = st_commit_groups st"
  "st_sessions (save st) = st_sessions st" "st_step_labels (save st) = st_step_labels st"
  "st_step_anchors (save st) = st_step_anchors st"
  "last_backfilled_commit (save st) = last_backfilled_commit st" "last_backfill_at (save st) = last_backfill_at st"
  "last_watcher_run_at (save st) = last_watcher_run_at st"
  by (simp_all add: save_def)

lemma set_kwargs_ok:
  "list_all kwarg_ok ks \<Longrightarrow> dict_ok (te_uploaded_to e) \<Longrightarrow> dict_ok (te_uploaded_to (fold set_kwarg ks e))"
proof (induction ks arbitrary: e)
  case (Cons k ks)
  have "dict_ok (te_uploaded_to (set_kwarg k e))" using Cons.prems by (cases k) auto
  with Cons show ?case by simp
qed simp

lemma set_kwargs_id [simp]:
  "te_trace_id (fold set_kwarg ks e) = te_trace_id e" "te_status (fold set_kwarg ks e) = te_status e"
proof (induction ks arbitrary: e)
  case (Cons k ks)
  { case 1 have "te_trace_id (set_kwarg k e) = te_trace_id e" by (cases k) auto with Cons.IH(1) show ?case by simp }
  { case 2 have "te_status (set_kwarg k e) = te_status e" by (cases k) auto with Cons.IH(2) show ?case by simp }
qed simp_all

lemma self_heal_keeps [simp]:
  "te_trace_id (self_heal w t e) = te_trace_id e" "te_status (self_heal w t e) = te_status e"
  "te_uploaded_to (self_heal w t e) = te_uploaded_to e"
  by (simp_all add: self_heal_def split: option.splits)

lemma fresh_entry_simps [simp]:
  "te_trace_id (fresh_entry t s n) = t" "te_status (fresh_entry t s n) = s" "te_uploaded_to (fresh_entry t s n) = []"
  by (simp_all add: fresh_entry_def)

lemma set_trace_status_traces:
  "\<exists>e. st_traces (set_trace_status w t s ks st) = dset (st_traces st) t e \<and> te_status e = s \<and>
     (entries_ok (st_traces st) \<longrightarrow> te_trace_id e = t \<and> (list_all kwarg_ok ks \<longrightarrow> dict_ok (te_uploaded_to e))) \<and>
     (ks = [] \<longrightarrow> te_uploaded_to e = (case dget (st_traces st) t of None \<Rightarrow> [] | Some x \<Rightarrow> te_uploaded_to x))"
  by (intro exI conjI)
    (auto simp: set_trace_status_def Let_def entries_ok_uploaded entries_okD intro!: set_kwargs_ok split: option.split)

lemma set_trace_status_rest [simp]:
  "st_version (set_trace_status w t s ks st) = Some STATE_SCHEMA_VERSION"
  "st_processed_files (set_trace_status w t s ks st) = st_processed_files st"
  "st_commit_groups (set_trace_status w t s ks st) = st_commit_groups st"
  "st_sessions (set_trace_status w t s ks st) = st_sessions st"
  "st_step_labels (set_trace_status w t s ks st) = st_step_labels st"
  "st_step_anchors (set_trace_status w t s ks st) = st_step_anchors st"
  by (simp_all add: set_trace_status_def Let_def)

lemma set_trace_status_ok:
  assumes "staging_ok st" "list_all kwarg_ok ks" shows "staging_ok (set_trace_status w t s ks st)"
proof -
  from assms(1) have "entries_ok (st_traces st)" by (simp add: staging_ok_def)
  with set_trace_status_traces [of w t s ks st] assms(2)
  obtain e where e: "st_traces (set_trace_status w t s ks st) = dset (st_traces st) t e"
    and ok: "te_trace_id e = t" "dict_ok (te_uploaded_to e)" by auto
  have "entries_ok (st_traces (set_trace_status w t s ks st))"
    unfolding e by (rule entries_ok_dset) (use \<open>entries_ok (st_traces st)\<close> ok in auto)
  with assms(1) show ?thesis by (simp add: staging_ok_def)
qed

lemma set_many_ok:
  "staging_ok st \<Longrightarrow> staging_ok (fold (\<lambda>t s. set_trace_status w t COMMITTED [] s) ts st)"
  by (induction ts arbitrary: st) (simp_all add: set_trace_status_ok)

lemma staging_ok_save: "staging_ok st \<Longrightarrow> staging_ok (save st)"
  by (simp add: staging_ok_def)

lemma entries_ok_mark:
  assumes "entries_ok (st_traces st)" shows "entries_ok (st_traces (mark_uploaded_to w t r x st))"
  by (auto simp: mark_uploaded_to_def Let_def intro!: entries_ok_dset [OF assms]
      dest: entries_okD [OF assms] split: option.split)

lemma rename_in_entry_keeps [simp]:
  "te_trace_id (rename_in_entry a b e) = te_trace_id e" "te_status (rename_in_entry a b e) = te_status e"
  by (simp_all add: rename_in_entry_def split: option.split)

lemma forget_in_entry_keeps [simp]:
  "te_trace_id (forget_in_entry r e) = te_trace_id e" "te_status (forget_in_entry r e) = te_status e"
  by (simp_all add: forget_in_entry_def)

lemma labels_ok_set:
  assumes "labels_ok (st_step_labels st)" shows "labels_ok (st_step_labels (set_step_label t i l st))"
proof -
  have cur: "dict_ok (get_step_labels st t) \<and> list_all (\<lambda>(i, x). x \<noteq> []) (get_step_labels st t)"
    using assms unfolding labels_ok_def get_step_labels_def
    by (auto split: option.split dest: list_all_dget)
  let ?c = "strip (case l of None \<Rightarrow> [] | Some l \<Rightarrow> l)"
  let ?n = "if ?c \<noteq> [] then dset (get_step_labels st t) i ?c else dpop (get_step_labels st t) i"
  have n: "dict_ok ?n \<and> list_all (\<lambda>(i, x). x \<noteq> []) ?n"
    using cur by (simp add: list_all_dset list_all_dpop)
  have "dpop (dset d k v) k = dpop d k" for d :: "(string, (string, string) dict) dict" and k v
    by (induction d) (auto simp: dpop_def dset_def AList.delete_eq)
  with assms n show ?thesis
    by (simp add: set_step_label_def Let_def labels_ok_def list_all_dset list_all_dpop)
qed

lemma sessions_ok_dset: "sessions_ok d \<Longrightarrow> sr_session_id r = k \<Longrightarrow> sessions_ok (dset d k r)"
  by (simp add: sessions_ok_def list_all_dset)

lemma sessions_okD: "sessions_ok d \<Longrightarrow> dget d k = Some r \<Longrightarrow> sr_session_id r = k"
  unfolding sessions_ok_def by (auto dest: list_all_dget)

lemma upsert_sessions_ok:
  assumes "sessions_ok (st_sessions st)" shows "sessions_ok (st_sessions (upsert_session i p n m a b st))"
  by (auto simp: upsert_session_def Let_def intro!: sessions_ok_dset [OF assms]
      dest: sessions_okD [OF assms] split: option.split)

lemma apply_op_ok:
  assumes "staging_ok st" "op_ok x" "apply_op x st = Inr st'"
  shows "staging_ok st'"
proof -
  have e: "entries_ok (st_traces st)" and s: "sessions_ok (st_sessions st)" and l: "labels_ok (st_step_labels st)"
    using assms(1) by (simp_all add: staging_ok_def)
  show ?thesis
  proof (cases x)
    case (OCommit w c ts m)
    have "staging_ok (st\<lparr>st_commit_groups := dset (st_commit_groups st) c g\<rparr>)" for g
      using assms(1) by (simp add: staging_ok_def)
    then show ?thesis using assms(3) OCommit
      by (auto simp: create_commit_group_def Let_def intro!: staging_ok_save set_many_ok)
  next
    case (ORename a b)
    have "entries_ok (map (\<lambda>(k, e). (k, rename_in_entry a b e)) (st_traces st))"
      by (rule entries_ok_map [OF e]) (auto simp: rename_in_entry_def split: option.split)
    then show ?thesis using assms ORename
      by (auto simp: rename_remote_def staging_ok_def split: if_splits)
  next
    case (OForget r)
    have "entries_ok (map (\<lambda>(k, e). (k, forget_in_entry r e)) (st_traces st))"
      by (rule entries_ok_map [OF e]) (auto simp: forget_in_entry_def)
    then show ?thesis using assms OForget
      by (auto simp: forget_remote_def staging_ok_def split: if_splits)
  next
    case (OUploaded w t r y)
    then show ?thesis using assms entries_ok_mark [OF e, of w t r y]
      by (auto simp: staging_ok_def) (simp_all add: mark_uploaded_to_def Let_def)
  next
    case (OSession i p n m a b)
    then show ?thesis using assms upsert_sessions_ok [OF s, of i p n m a b]
      by (auto simp: staging_ok_def) (simp_all add: upsert_session_def Let_def)
  next
    case (OLabel t i y)
    then show ?thesis using assms labels_ok_set [OF l, of t i y]
      by (auto simp: staging_ok_def) (simp_all add: set_step_label_def Let_def)
  next
    case (OFlag i f b)
    then show ?thesis using assms sessions_okD [OF s]
      by (auto simp: set_session_flag_def staging_ok_def intro!: sessions_ok_dset split: if_splits option.splits)
  next
    case (OGeneration i g)
    then show ?thesis using assms sessions_okD [OF s]
      by (auto simp: append_generation_def staging_ok_def intro!: sessions_ok_dset split: option.splits)
  next
    case (OAnchors t a)
    then show ?thesis using assms by (auto simp: set_step_anchors_def Let_def staging_ok_def)
  qed (use assms in \<open>auto simp: set_trace_status_ok block_trace_def mark_file_processed_def
      set_last_backfilled_commit_def set_last_watcher_run_at_def staging_ok_def [of "save _"] intro!: set_trace_status_ok\<close>,
      auto simp: staging_ok_def)
qed

lemma backfill_keeps [simp]:
  "te_trace_id (backfill_uploaded_to e) = te_trace_id e" "te_status (backfill_uploaded_to e) = te_status e"
  "dict_ok (te_uploaded_to (backfill_uploaded_to e)) = dict_ok (te_uploaded_to e)"
  by (auto simp: backfill_uploaded_to_def Let_def dict_ok_def dkeys_def)

lemma migrate_ok:
  assumes "staging_ok (st\<lparr>st_version := Some STATE_SCHEMA_VERSION\<rparr>)" shows "staging_ok (migrate st)"
proof -
  have "entries_ok (st_traces st)" using assms by (simp add: staging_ok_def)
  then have "entries_ok (map (\<lambda>(k, e). (k, backfill_uploaded_to e)) (st_traces st))" by (rule entries_ok_map) simp_all
  then show ?thesis using assms by (simp add: migrate_def Let_def staging_ok_def)
qed

lemma load_saved: "st_version st = Some STATE_SCHEMA_VERSION \<Longrightarrow> load (Holds st) = st"
  by (simp add: load_def migrate_def)

section \<open>What waits for an upload\<close>

text \<open>Membership in the pending list, read through the table.\<close>

definition waits :: "state \<Rightarrow> string \<Rightarrow> string \<Rightarrow> bool" where
  "waits st tid r \<longleftrightarrow> tid \<in> set (map te_trace_id (pending_for st r))"

lemma waits_iff:
  assumes "entries_ok (st_traces st)"
  shows "waits st tid r \<longleftrightarrow> (\<exists>e. dget (st_traces st) tid = Some e \<and> is_pending_for r e)"
proof
  assume "waits st tid r"
  then obtain k e where "(k, e) \<in> set (st_traces st)" "is_pending_for r e" "te_trace_id e = tid"
    by (auto simp: waits_def pending_for_def dvalues_def)
  moreover have "dict_ok (st_traces st)" using assms by (simp add: entries_ok_def)
  ultimately show "\<exists>e. dget (st_traces st) tid = Some e \<and> is_pending_for r e"
    using dget_of_in entries_okD [OF assms] by metis
next
  assume "\<exists>e. dget (st_traces st) tid = Some e \<and> is_pending_for r e"
  then obtain e where e: "dget (st_traces st) tid = Some e" "is_pending_for r e" by auto
  then have "te_trace_id e = tid" "(tid, e) \<in> set (st_traces st)"
    using entries_okD [OF assms] dget_Some_in by fastforce+
  with e show "waits st tid r" by (force simp: waits_def pending_for_def dvalues_def)
qed

lemma reachable_ok: "reachable st \<Longrightarrow> staging_ok st"
proof (induction rule: reachable.induct)
  case (start f)
  show ?case
  proof (cases f)
    case (Holds st)
    then show ?thesis using start migrate_ok by (simp add: load_def file_ok_def)
  qed (simp_all add: load_def migrate_def empty_state_def staging_ok_def entries_ok_def sessions_ok_def labels_ok_def STATE_SCHEMA_VERSION_def)
next
  case (op st x st')
  then show ?case by (blast intro: apply_op_ok)
next
  case (reload st)
  then show ?case using load_saved by (simp add: staging_ok_def)
qed

lemma reachable_entries: "reachable st \<Longrightarrow> entries_ok (st_traces st)"
  using reachable_ok by (simp add: staging_ok_def)

lemma pending_rename:
  assumes "\<not> dmem (te_uploaded_to e) new" "old \<noteq> new"
  shows "is_pending_for new (rename_in_entry old new e) = is_pending_for old e"
    and "is_pending_for old (rename_in_entry old new e) \<longleftrightarrow> te_status e \<in> {COMMITTED, FAILED, UPLOADED}"
    and "r \<noteq> old \<Longrightarrow> r \<noteq> new \<Longrightarrow> is_pending_for r (rename_in_entry old new e) = is_pending_for r e"
  using assms by (auto simp: is_pending_for_def rename_in_entry_def dmem_def split: option.split)

lemma rename_moves:
  "old \<noteq> new \<Longrightarrow> \<not> dmem (te_uploaded_to (rename_in_entry old new e)) old"
  "dmem (te_uploaded_to e) old \<Longrightarrow> dmem (te_uploaded_to (rename_in_entry old new e)) new"
  by (auto simp: rename_in_entry_def dmem_def split: option.split)

lemma forget_drops: "\<not> dmem (te_uploaded_to (forget_in_entry r e)) r"
  by (auto simp: forget_in_entry_def dmem_def)

lemma pending_forget:
  "is_pending_for r (forget_in_entry r e) \<longleftrightarrow> te_status e \<in> {COMMITTED, FAILED, UPLOADED}"
  "r' \<noteq> r \<Longrightarrow> is_pending_for r' (forget_in_entry r e) = is_pending_for r' e"
  by (auto simp: is_pending_for_def forget_in_entry_def dmem_def)

lemma knows_remote_dget:
  assumes "dict_ok (st_traces st)"
  shows "knows_remote r st \<longleftrightarrow> (\<exists>tid e. dget (st_traces st) tid = Some e \<and> dmem (te_uploaded_to e) r)"
  using assms by (force simp: knows_remote_def list_ex_iff dvalues_def in_dict_iff [OF assms, symmetric])

definition status_of :: "state \<Rightarrow> string \<Rightarrow> trace_status option" where
  "status_of st tid = map_option te_status (get_trace st tid)"

section \<open>The queues as an abstract state\<close>

text \<open>
  What the state file says of uploads, forgetting how: the status of each trace and the set of remotes it went to. Each
  operation has a counterpart on this view; None says that a remote is unknown.
\<close>

type_synonym upload_view = "string \<Rightarrow> (trace_status \<times> string set) option"

definition upload_view_of :: "state \<Rightarrow> upload_view" where
  "upload_view_of st t = map_option (\<lambda>e. (te_status e, set (dkeys (te_uploaded_to e)))) (dget (st_traces st) t)"

definition uploads_in :: "upload_view \<Rightarrow> string \<Rightarrow> string set" where
  "uploads_in A t = (case A t of None \<Rightarrow> {} | Some (s, U) \<Rightarrow> U)"

definition uploads_after :: "kwarg list \<Rightarrow> string set \<Rightarrow> string set" where
  "uploads_after ks U = fold (\<lambda>k U. case k of KUploadedTo d \<Rightarrow> set (dkeys d) | _ \<Rightarrow> U) ks U"

definition some_went_to :: "string \<Rightarrow> upload_view \<Rightarrow> bool" where
  "some_went_to r A \<longleftrightarrow> (\<exists>t. r \<in> uploads_in A t)"

definition on_uploads :: "(string set \<Rightarrow> string set) \<Rightarrow> upload_view \<Rightarrow> upload_view" where
  "on_uploads f A t = map_option (\<lambda>(s, U). (s, f U)) (A t)"

fun view_op :: "op \<Rightarrow> upload_view \<Rightarrow> upload_view option" where
  "view_op (OStatus w t s ks) A = Some (A(t \<mapsto> (s, uploads_after ks (uploads_in A t))))"
| "view_op (OBlock w t r ks) A = Some (A(t \<mapsto> (BLOCKED, uploads_after ks (uploads_in A t))))"
| "view_op (OUploaded w t r x) A = Some (A(t \<mapsto> (UPLOADED, insert r (uploads_in A t))))"
| "view_op (OCommit w c ts m) A = Some (\<lambda>t. if t \<in> set ts then Some (COMMITTED, uploads_in A t) else A t)"
| "view_op (ORename a b) A =
     (if some_went_to a A then Some (on_uploads (\<lambda>U. if a \<in> U then insert b (U - {a}) else U) A) else None)"
| "view_op (OForget r) A = (if some_went_to r A then Some (on_uploads (\<lambda>U. U - {r}) A) else None)"
| "view_op x A = Some A"

definition awaits :: "upload_view \<Rightarrow> string \<Rightarrow> string \<Rightarrow> bool" where
  "awaits A t r = (case A t of None \<Rightarrow> False | Some (s, U) \<Rightarrow> s \<in> {COMMITTED, FAILED} \<or> s = UPLOADED \<and> r \<notin> U)"

lemma dkeys_dmem: "r \<in> set (dkeys d) \<longleftrightarrow> dmem d r"
  by (induction d) (auto simp: dkeys_def dmem_def dget_def)

lemma view_mem: "r \<in> uploads_in (upload_view_of st) t \<longleftrightarrow> (\<exists>e. dget (st_traces st) t = Some e \<and> dmem (te_uploaded_to e) r)"
  by (simp add: uploads_in_def upload_view_of_def dkeys_dmem split: option.split)

lemma knows_view: "dict_ok (st_traces st) \<Longrightarrow> knows_remote r st \<longleftrightarrow> some_went_to r (upload_view_of st)"
  by (simp add: knows_remote_dget some_went_to_def view_mem)

lemma waits_view: "entries_ok (st_traces st) \<Longrightarrow> waits st t r \<longleftrightarrow> awaits (upload_view_of st) t r"
  by (auto simp: waits_iff awaits_def upload_view_of_def is_pending_for_def dkeys_dmem split: option.splits)

lemma view_cong: "st_traces st' = st_traces st \<Longrightarrow> upload_view_of st' = upload_view_of st"
  by (rule ext) (simp add: upload_view_of_def)

lemma view_groups [simp]: "upload_view_of (st\<lparr>st_commit_groups := g\<rparr>) = upload_view_of st"
  by (rule view_cong) simp

lemma view_save [simp]: "upload_view_of (save st) = upload_view_of st"
  by (rule view_cong) simp

lemma kwargs_uploads:
  "set (dkeys (te_uploaded_to (fold set_kwarg ks e))) = uploads_after ks (set (dkeys (te_uploaded_to e)))"
proof (induction ks arbitrary: e)
  case (Cons k ks)
  then show ?case by (cases k) (simp_all add: uploads_after_def)
qed (simp add: uploads_after_def)

lemma view_status:
  "upload_view_of (set_trace_status w t s ks st) = (upload_view_of st)(t \<mapsto> (s, uploads_after ks (uploads_in (upload_view_of st) t)))"
proof -
  have none: "set (dkeys (te_uploaded_to (fresh_entry t s now))) = {}" for now by (simp add: dkeys_def)
  have fields: "te_uploaded_to (e\<lparr>te_status := s\<rparr>) = te_uploaded_to e" for e :: staging_entry by simp
  show ?thesis
    by (rule ext) (simp add: upload_view_of_def set_trace_status_def Let_def kwargs_uploads uploads_in_def fields none del: fresh_entry_simps(3)
      split: option.split)
qed

lemma view_commit:
  "upload_view_of (fold (\<lambda>t s. set_trace_status w t COMMITTED [] s) ts st) =
     (\<lambda>t. if t \<in> set ts then Some (COMMITTED, uploads_in (upload_view_of st) t) else upload_view_of st t)"
  by (induction ts arbitrary: st) (auto simp: view_status uploads_after_def uploads_in_def fun_eq_iff)

lemma view_map:
  assumes "\<And>e. te_status (f e) = te_status e" "\<And>e. set (dkeys (te_uploaded_to (f e))) = g (set (dkeys (te_uploaded_to e)))"
  shows "upload_view_of (st\<lparr>st_traces := map (\<lambda>(k, e). (k, f e)) (st_traces st)\<rparr>) = on_uploads g (upload_view_of st)"
  using dget_map_snd [of "\<lambda>_. f" "st_traces st"]
  by (auto simp: fun_eq_iff upload_view_of_def on_uploads_def assms option.map_comp comp_def)

lemma rename_uploads:
  "set (dkeys (te_uploaded_to (rename_in_entry a b e))) =
     (let U = set (dkeys (te_uploaded_to e)) in if a \<in> U then insert b (U - {a}) else U)"
  by (auto simp: rename_in_entry_def Let_def dkeys_dmem dmem_def split: option.split if_splits)

lemma forget_uploads: "set (dkeys (te_uploaded_to (forget_in_entry r e))) = set (dkeys (te_uploaded_to e)) - {r}"
  by (auto simp: forget_in_entry_def dkeys_dmem dmem_def split: if_splits)

lemma view_rename:
  "upload_view_of (st\<lparr>st_traces := map (\<lambda>(k, e). (k, rename_in_entry a b e)) (st_traces st)\<rparr>) =
     on_uploads (\<lambda>U. if a \<in> U then insert b (U - {a}) else U) (upload_view_of st)"
  by (rule view_map) (simp_all add: rename_uploads Let_def)

lemma view_forget:
  "upload_view_of (st\<lparr>st_traces := map (\<lambda>(k, e). (k, forget_in_entry r e)) (st_traces st)\<rparr>) =
     on_uploads (\<lambda>U. U - {r}) (upload_view_of st)"
  by (rule view_map) (simp_all add: forget_uploads)

lemma view_op_refines:
  assumes "staging_ok st"
  shows "(view_op x (upload_view_of st) = None \<longleftrightarrow> (\<exists>r. apply_op x st = Inl (UnknownRemoteError r))) \<and>
    (\<forall>st'. apply_op x st = Inr st' \<longrightarrow> view_op x (upload_view_of st) = Some (upload_view_of st'))"
proof -
  have d: "dict_ok (st_traces st)" using assms by (simp add: staging_ok_def entries_ok_def)
  show ?thesis
  proof (cases x)
    case (OCommit w c ts m)
    show ?thesis by (simp add: OCommit create_commit_group_def Let_def view_commit cong: if_cong)
  next
    case (ORename a b)
    then show ?thesis using knows_view [OF d, of a] view_rename [of a b st]
      by (auto simp: rename_remote_def)
  next
    case (OForget r)
    then show ?thesis using knows_view [OF d, of r] view_forget [of r st]
      by (auto simp: forget_remote_def)
  next
    case (OUploaded w t r y)
    then show ?thesis
      by (auto simp: fun_eq_iff mark_uploaded_to_def Let_def upload_view_of_def uploads_in_def dkeys_dmem set_eq_iff dmem_def split: option.split)
  next
    case (OFlag i f b)
    then show ?thesis by (auto simp: set_session_flag_def intro!: view_cong [symmetric] split: if_splits option.splits)
  next
    case (OGeneration i g)
    then show ?thesis by (auto simp: append_generation_def intro!: view_cong [symmetric] split: option.splits)
  next
    case (OLabel t i l)
    then show ?thesis by (auto simp: set_step_label_def Let_def intro!: view_cong [symmetric])
  next
    case (OAnchors t a)
    then show ?thesis by (auto simp: set_step_anchors_def Let_def intro!: view_cong [symmetric])
  next
    case (OSession i p n m a b)
    then show ?thesis by (auto simp: upsert_session_def Let_def intro!: view_cong [symmetric])
  qed (auto simp: view_status block_trace_def uploads_after_def mark_file_processed_def set_last_backfilled_commit_def
      set_last_watcher_run_at_def intro!: view_cong [symmetric])
qed

section \<open>A sample project\<close>

definition sample_world :: world where
  "sample_world = \<lparr>w_now = 0, w_now_iso = ''2026-01-01T00:00:00Z'', w_staged = (\<lambda>_. None)\<rparr>"

text \<open>One trace uploaded to \<^verbatim>\<open>origin\<close>, one blocked.\<close>

definition sample_state :: state where
  "sample_state = block_trace sample_world ''t2'' ''secret'' []
     (mark_uploaded_to sample_world ''t1'' ''origin'' None (load NoFile))"

lemma sample_reachable: "reachable sample_state"
  unfolding sample_state_def
  by (rule reachable.op [OF reachable.op [OF reachable.start [of NoFile], of "OUploaded sample_world ''t1'' ''origin'' None"],
        of _ "OBlock sample_world ''t2'' ''secret'' []"]) (simp_all add: file_ok_def)

lemma sample_remotes: "knows_remote ''origin'' sample_state" "\<not> knows_remote ''backup'' sample_state"
  by code_simp+

lemma sample_status: "status_of sample_state ''t2'' = Some BLOCKED"
  by code_simp

section \<open>Properties\<close>

text \<open>
  C28. The state manager refines the table of uploads. From a well-formed file of any schema version, after any sequence
  of operations and reloads, the next operation is refused for an unknown remote exactly when no trace went to it;
  otherwise it changes the status and the remotes of the traces exactly as its counterpart on the table does, the
  queue of every remote is the one the table gives, and the file stays well formed.
\<close>

theorem staging_refines_table:
  assumes "reachable st" "op_ok x"
  shows "(view_op x (upload_view_of st) = None \<longleftrightarrow> (\<exists>r. apply_op x st = Inl (UnknownRemoteError r))) \<and>
    (\<forall>st'. apply_op x st = Inr st' \<longrightarrow> view_op x (upload_view_of st) = Some (upload_view_of st') \<and> staging_ok st' \<and>
       (\<forall>t r. waits st' t r \<longleftrightarrow> awaits (upload_view_of st') t r))"
proof -
  have ok: "staging_ok st" by (rule reachable_ok [OF assms(1)])
  have keeps: "staging_ok st' \<and> (\<forall>t r. waits st' t r \<longleftrightarrow> awaits (upload_view_of st') t r)" if "apply_op x st = Inr st'" for st'
    using apply_op_ok [OF ok assms(2) that] waits_view by (simp add: staging_ok_def)
  show ?thesis using view_op_refines [OF ok, of x] keeps by blast
qed

theorem staging_refines_table_witness:
  "\<exists>st'. rename_remote ''origin'' ''backup'' sample_state = Inr st' \<and> waits st' ''t1'' ''origin'' \<and> \<not> waits st' ''t1'' ''backup'' \<and>
     upload_view_of st' ''t1'' = Some (UPLOADED, {''backup''})"
proof -
  have view: "upload_view_of sample_state ''t1'' = Some (UPLOADED, {''origin''})" by code_simp
  then have "some_went_to ''origin'' (upload_view_of sample_state)"
    unfolding some_went_to_def by (intro exI [of _ "''t1''"]) (simp add: uploads_in_def)
  moreover obtain st' where st': "rename_remote ''origin'' ''backup'' sample_state = Inr st'"
    using sample_remotes(1) by (simp add: rename_remote_def)
  ultimately have "upload_view_of st' = on_uploads (\<lambda>U. if ''origin'' \<in> U then insert ''backup'' (U - {''origin''}) else U) (upload_view_of sample_state)"
    "\<forall>t r. waits st' t r \<longleftrightarrow> awaits (upload_view_of st') t r"
    using staging_refines_table [OF sample_reachable, of "ORename ''origin'' ''backup''"] by auto
  then show ?thesis using st' view by (simp add: on_uploads_def awaits_def)
qed

text \<open>
  Marking a trace as uploaded to a remote takes it out of that remote's queue, queues it for every
  remote it has not been uploaded to, and leaves the queues of other traces alone.
\<close>

theorem mark_uploaded_queues:
  assumes "reachable st"
  shows "waits (mark_uploaded_to w tid r x st) tid' r' \<longleftrightarrow>
     (if tid' = tid then r' \<noteq> r \<and>
        (case get_trace st tid of None \<Rightarrow> True | Some e \<Rightarrow> \<not> dmem (te_uploaded_to e) r')
      else waits st tid' r')"
proof -
  have e: "entries_ok (st_traces st)" by (rule reachable_entries [OF assms])
  show ?thesis
    unfolding waits_iff [OF entries_ok_mark [OF e]] waits_iff [OF e]
    by (auto simp: mark_uploaded_to_def Let_def get_trace_def is_pending_for_def dmem_def split: option.splits)
qed

theorem mark_uploaded_queues_witness:
  "\<not> waits (mark_uploaded_to sample_world ''t1'' ''backup'' None sample_state) ''t1'' ''backup''"
  by (simp add: mark_uploaded_queues [OF sample_reachable])

text \<open>
  Renaming a remote carries its queue over: when the new name is unused, the queue of the new name
  after the rename is the queue of the old name before it, the old name is back to the full replay,
  and no other remote notices. An unknown name is refused and nothing changes.
\<close>

theorem rename_remote_queues:
  assumes "reachable st" "old \<noteq> new" "\<not> knows_remote new st"
  shows "case rename_remote old new st of
      Inl e \<Rightarrow> e = UnknownRemoteError old \<and> \<not> knows_remote old st
    | Inr st' \<Rightarrow> knows_remote old st \<and> \<not> knows_remote old st' \<and> knows_remote new st' \<and>
        (\<forall>tid r. waits st' tid r \<longleftrightarrow>
          (if r = new then waits st tid old
           else if r = old then (\<exists>e. get_trace st tid = Some e \<and> te_status e \<in> {COMMITTED, FAILED, UPLOADED})
           else waits st tid r))"
proof (cases "knows_remote old st")
  case False
  then show ?thesis by (simp add: rename_remote_def)
next
  case True
  let ?t = "map (\<lambda>(k, e). (k, rename_in_entry old new e)) (st_traces st)"
  let ?st = "save (st\<lparr>st_traces := ?t\<rparr>)"
  have e: "entries_ok (st_traces st)" by (rule reachable_entries [OF assms(1)])
  then have d: "dict_ok (st_traces st)" by (simp add: entries_ok_def)
  have e': "entries_ok (st_traces ?st)"
    unfolding save_simps state.simps
    by (auto intro!: entries_ok_map [OF e] simp: rename_in_entry_def split: option.split)
  have look: "dget ?t tid = map_option (rename_in_entry old new) (dget (st_traces st) tid)" for tid
    by (rule dget_map_snd)
  have new: "\<not> dmem (te_uploaded_to x) new" if "dget (st_traces st) tid = Some x" for tid x
    using assms(3) that knows_remote_dget [OF d] by blast
  have d': "dict_ok (st_traces ?st)" using e' by (simp add: entries_ok_def)
  have look': "dget (st_traces ?st) tid = map_option (rename_in_entry old new) (dget (st_traces st) tid)" for tid
    by (simp add: look)
  have k1: "\<not> knows_remote old ?st"
    unfolding knows_remote_dget [OF d'] look' using rename_moves(1) [OF assms(2)] by auto
  obtain tid x where "dget (st_traces st) tid = Some x" "dmem (te_uploaded_to x) old"
    using True unfolding knows_remote_dget [OF d] by blast
  then have k2: "knows_remote new ?st"
    unfolding knows_remote_dget [OF d'] look' using rename_moves(2) by fastforce
  have w: "waits ?st tid r \<longleftrightarrow> (if r = new then waits st tid old
           else if r = old then (\<exists>e. get_trace st tid = Some e \<and> te_status e \<in> {COMMITTED, FAILED, UPLOADED})
           else waits st tid r)" for tid r
    unfolding waits_iff [OF e'] waits_iff [OF e]
    using new [of tid] pending_rename [OF _ assms(2)] by (auto simp: look get_trace_def)
  show ?thesis using True k1 k2 w by (simp add: rename_remote_def)
qed

theorem rename_remote_queues_witness:
  "case rename_remote ''origin'' ''backup'' sample_state of Inl e \<Rightarrow> False
   | Inr st' \<Rightarrow> \<not> knows_remote ''origin'' st' \<and> knows_remote ''backup'' st'"
  using rename_remote_queues [OF sample_reachable _ sample_remotes(2), of "''origin''"] sample_remotes(1)
  by (auto split: sum.splits)

text \<open>
  Forgetting a remote brings its full history back to its queue: afterwards every committed,
  failed or uploaded trace waits for it, every other queue is unchanged, and a second forget is refused.
\<close>

theorem forget_remote_queues:
  assumes "reachable st"
  shows "case forget_remote r st of
      Inl e \<Rightarrow> e = UnknownRemoteError r \<and> \<not> knows_remote r st
    | Inr st' \<Rightarrow> forget_remote r st' = Inl (UnknownRemoteError r) \<and>
        (\<forall>tid r'. waits st' tid r' \<longleftrightarrow>
          (if r' = r then (\<exists>e. get_trace st tid = Some e \<and> te_status e \<in> {COMMITTED, FAILED, UPLOADED})
           else waits st tid r'))"
proof (cases "knows_remote r st")
  case False
  then show ?thesis by (simp add: forget_remote_def)
next
  case True
  let ?t = "map (\<lambda>(k, e). (k, forget_in_entry r e)) (st_traces st)"
  let ?st = "save (st\<lparr>st_traces := ?t\<rparr>)"
  have e: "entries_ok (st_traces st)" by (rule reachable_entries [OF assms(1)])
  have e': "entries_ok (st_traces ?st)"
    unfolding save_simps state.simps
    by (auto intro!: entries_ok_map [OF e] simp: forget_in_entry_def)
  then have d': "dict_ok (st_traces ?st)" by (simp add: entries_ok_def)
  have look: "dget ?t tid = map_option (forget_in_entry r) (dget (st_traces st) tid)" for tid
    by (rule dget_map_snd)
  have "\<not> knows_remote r ?st"
    unfolding knows_remote_dget [OF d'] using forget_drops [of r] by (auto simp: look)
  moreover have "waits ?st tid r' \<longleftrightarrow>
      (if r' = r then (\<exists>e. get_trace st tid = Some e \<and> te_status e \<in> {COMMITTED, FAILED, UPLOADED})
       else waits st tid r')" for tid r'
    unfolding waits_iff [OF e'] waits_iff [OF e]
    using pending_forget by (auto simp: look get_trace_def)
  ultimately show ?thesis using True by (simp add: forget_remote_def)
qed

theorem forget_remote_queues_witness:
  "case forget_remote ''origin'' sample_state of Inl e \<Rightarrow> False
   | Inr st' \<Rightarrow> forget_remote ''origin'' st' = Inl (UnknownRemoteError ''origin'')"
  using forget_remote_queues [OF sample_reachable, of "''origin''"] sample_remotes(1)
  by (auto split: sum.splits)

fun names_trace :: "op \<Rightarrow> string \<Rightarrow> bool" where
  "names_trace (OStatus w t s ks) tid = (t = tid)"
| "names_trace (OUploaded w t r x) tid = (t = tid)"
| "names_trace (OBlock w t r ks) tid = (t = tid)"
| "names_trace (OCommit w c ts m) tid = (tid \<in> set ts)"
| "names_trace _ tid = False"

lemma status_of_set: "status_of (set_trace_status w t s ks st) tid = (if tid = t then Some s else status_of st tid)"
  using set_trace_status_traces [of w t s ks st] by (auto simp: status_of_def get_trace_def)

lemma status_of_save [simp]: "status_of (save st) tid = status_of st tid"
  by (simp add: status_of_def get_trace_def)

lemma status_of_many:
  "status_of (fold (\<lambda>t s. set_trace_status w t COMMITTED [] s) ts st) tid =
     (if tid \<in> set ts then Some COMMITTED else status_of st tid)"
  by (induction ts arbitrary: st) (auto simp: status_of_set)

lemma status_of_map:
  "(\<And>e. te_status (f e) = te_status e) \<Longrightarrow>
    status_of (st\<lparr>st_traces := map (\<lambda>(k, e). (k, f e)) (st_traces st)\<rparr>) tid = status_of st tid"
  using dget_map_snd [of "\<lambda>_. f" "st_traces st" tid]
  by (simp add: status_of_def get_trace_def option.map_comp comp_def)

lemma status_of_other: "st_traces st' = st_traces st \<Longrightarrow> status_of st' tid = status_of st tid"
  by (simp add: status_of_def get_trace_def)

lemma status_of_commit:
  "status_of (create_commit_group w c ts m st) tid = (if tid \<in> set ts then Some COMMITTED else status_of st tid)"
  by (simp add: create_commit_group_def Let_def status_of_many) (simp add: status_of_def get_trace_def)

lemma status_of_mark: "tid \<noteq> t \<Longrightarrow> status_of (mark_uploaded_to w t r x st) tid = status_of st tid"
  by (simp add: mark_uploaded_to_def Let_def status_of_def get_trace_def)

text \<open>An operation that does not name a trace leaves its status alone.\<close>

lemma status_of_apply:
  assumes "apply_op x st = Inr st'" "\<not> names_trace x tid"
  shows "status_of st' tid = status_of st tid"
proof (cases x)
  case (OUploaded w t r y)
  with assms show ?thesis using status_of_mark by auto
next
  case (ORename a b)
  with assms show ?thesis by (auto simp: rename_remote_def status_of_map split: if_splits)
next
  case (OForget r)
  with assms show ?thesis by (auto simp: forget_remote_def status_of_map split: if_splits)
next
  case (OFlag i f b)
  with assms show ?thesis
    by (auto simp: set_session_flag_def intro!: status_of_other split: if_splits option.splits)
next
  case (OGeneration i g)
  with assms show ?thesis
    by (auto simp: append_generation_def intro!: status_of_other split: option.splits)
next
  case (OStatus w t s ks)
  with assms show ?thesis by (auto simp: status_of_set)
next
  case (OBlock w t r ks)
  with assms show ?thesis by (auto simp: status_of_set block_trace_def)
next
  case (OCommit w c ts m)
  with assms show ?thesis by (auto simp: status_of_commit)
qed (use assms in \<open>auto simp: mark_file_processed_def
      set_last_backfilled_commit_def set_last_watcher_run_at_def upsert_session_def set_step_label_def
      set_step_anchors_def Let_def intro!: status_of_other\<close>)

text \<open>
  A blocked or rejected trace never reaches an upload queue, and stays out of every queue through
  any operation that does not name it.
\<close>

theorem blocked_stays_out:
  assumes "reachable st" "status_of st tid \<in> {Some BLOCKED, Some REJECTED}"
    and "op_ok x" "apply_op x st = Inr st'" "\<not> names_trace x tid"
  shows "\<not> waits st tid r \<and> \<not> waits st' tid r \<and> status_of st' tid = status_of st tid"
proof -
  have same: "status_of st' tid = status_of st tid" by (rule status_of_apply [OF assms(4,5)])
  have "reachable st'" by (rule reachable.op [OF assms(1,3,4)])
  then have e': "entries_ok (st_traces st')" and e: "entries_ok (st_traces st)"
    using reachable_entries assms(1) by blast+
  have out: "\<not> is_pending_for r x" if "te_status x \<in> {BLOCKED, REJECTED}" for x
    using that by (auto simp: is_pending_for_def)
  show ?thesis
    using assms(2) same out unfolding waits_iff [OF e'] waits_iff [OF e]
    by (auto simp: status_of_def get_trace_def)
qed

theorem blocked_stays_out_witness:
  "\<not> waits (mark_uploaded_to sample_world ''t1'' ''backup'' None sample_state) ''t2'' ''backup''"
  using blocked_stays_out [OF sample_reachable, of "''t2''" "OUploaded sample_world ''t1'' ''backup'' None" _ "''backup''"]
  by (simp add: sample_status)

text \<open>
  A commit group is stored under its id and puts every trace it names, whatever its status was,
  into the queue of every remote, and no other trace changes status.
\<close>

theorem commit_group_queues:
  assumes "reachable st"
  shows "map_option cg_trace_ids (get_commit_group (create_commit_group w cid tids msg st) cid) = Some tids \<and>
    status_of (create_commit_group w cid tids msg st) tid = (if tid \<in> set tids then Some COMMITTED else status_of st tid) \<and>
    (tid \<in> set tids \<longrightarrow> waits (create_commit_group w cid tids msg st) tid r)"
proof -
  let ?st = "create_commit_group w cid tids msg st"
  have "st_commit_groups (fold (\<lambda>t s. set_trace_status w t COMMITTED [] s) tids s0) = st_commit_groups s0" for s0
    by (induction tids arbitrary: s0) auto
  then have g: "map_option cg_trace_ids (get_commit_group ?st cid) = Some tids"
    by (simp add: create_commit_group_def Let_def get_commit_group_def)
  have e: "entries_ok (st_traces ?st)"
    using reachable_entries [OF reachable.op [OF assms, of "OCommit w cid tids msg"]] by simp
  have "waits ?st tid r" if "tid \<in> set tids"
    using that status_of_commit [of w cid tids msg st tid] unfolding waits_iff [OF e]
    by (auto simp: status_of_def get_trace_def is_pending_for_def)
  with g show ?thesis by (simp add: status_of_commit)
qed

theorem commit_group_queues_witness:
  "waits (create_commit_group sample_world ''c0'' [''t2''] ''msg'' sample_state) ''t2'' ''origin''"
  using commit_group_queues [OF sample_reachable, of sample_world "''c0''" "[''t2'']" "''msg''" "''t2''" "''origin''"]
  by simp

text \<open>
  Loading migrates once: a second load of what was loaded is the identity, and after loading a
  file of the first schema no trace that was uploaded before remotes were tracked is queued again for
  the remote called origin, while the queue of every other remote replays it.
\<close>

theorem migration_queues:
  assumes "st_version st = None \<or> st_version st = Some ''1''" "entries_ok (st_traces st)"
  shows "load (Holds (load (Holds st))) = load (Holds st) \<and>
    (get_trace st tid = Some e \<and> te_status e = UPLOADED \<and> te_uploaded_to e = [] \<longrightarrow>
      (waits (load (Holds st)) tid r \<longleftrightarrow> r \<noteq> ''origin''))"
proof -
  let ?st = "load (Holds st)"
  have t: "st_traces ?st = map (\<lambda>(k, e). (k, backfill_uploaded_to e)) (st_traces st)"
    and v: "st_version ?st = Some STATE_SCHEMA_VERSION"
    using assms(1) by (auto simp: load_def migrate_def Let_def STATE_SCHEMA_VERSION_def)
  have e': "entries_ok (st_traces ?st)"
    unfolding t by (rule entries_ok_map [OF assms(2)]) (auto simp: backfill_uploaded_to_def Let_def dict_ok_def dkeys_def)
  have "dget (st_traces ?st) tid = map_option backfill_uploaded_to (dget (st_traces st) tid)"
    unfolding t by (rule dget_map_snd)
  then have "waits ?st tid r \<longleftrightarrow> r \<noteq> ''origin''"
    if "get_trace st tid = Some e" "te_status e = UPLOADED" "te_uploaded_to e = []"
    using that unfolding waits_iff [OF e']
    by (simp add: get_trace_def backfill_uploaded_to_def Let_def is_pending_for_def dmem_def)
  with load_saved [OF v] show ?thesis by blast
qed

theorem migration_queues_witness:
  "\<not> waits (load (Holds (empty_state\<lparr>st_traces := [(''t'', fresh_entry ''t'' UPLOADED 0)]\<rparr>))) ''t'' ''origin''"
  using migration_queues [of "empty_state\<lparr>st_traces := [(''t'', fresh_entry ''t'' UPLOADED 0)]\<rparr>" "''t''" "fresh_entry ''t'' UPLOADED 0" "''origin''"]
  by (simp add: empty_state_def entries_ok_def dict_ok_def dkeys_def get_trace_def)

fun sets_lineage :: "op \<Rightarrow> string \<Rightarrow> bool" where
  "sets_lineage (OSession i p n m a b) sid = (i = sid \<and> (a \<noteq> None \<or> b \<noteq> None))"
| "sets_lineage _ sid = False"

lemma sessions_of_many:
  "st_sessions (fold (\<lambda>t s. set_trace_status w t COMMITTED [] s) ts st) = st_sessions st"
  by (induction ts arbitrary: st) auto

lemma sessions_other:
  assumes "apply_op x st = Inr st'"
  shows "st_sessions st' = st_sessions st \<or> (\<exists>i p n m a b. x = OSession i p n m a b) \<or>
    (\<exists>i f b. x = OFlag i f b) \<or> (\<exists>i g. x = OGeneration i g)"
  using assms
  by (cases x) (auto simp: rename_remote_def forget_remote_def create_commit_group_def sessions_of_many
      block_trace_def mark_file_processed_def mark_uploaded_to_def set_last_backfilled_commit_def
      set_last_watcher_run_at_def set_step_label_def set_step_anchors_def Let_def split: if_splits)


text \<open>What a refresh keeps of a session.\<close>

lemma upsert_keeps:
  assumes "get_session st sid = Some r"
  shows "\<exists>r'. get_session (upsert_session i p n m a b st) sid = Some r' \<and> sr_generations r' = sr_generations r \<and>
     (\<not> (i = sid \<and> (a \<noteq> None \<or> b \<noteq> None)) \<longrightarrow>
        parent_session_id r' = parent_session_id r \<and> parent_step_id r' = parent_step_id r)"
  using assms by (auto simp: upsert_session_def Let_def get_session_def split: option.split)

text \<open>
  Sessions only grow: no operation drops a session or a captured generation, and an operation that
  does not pass fork lineage explicitly keeps the lineage recorded before.
\<close>

theorem sessions_only_grow:
  assumes "apply_op x st = Inr st'" "get_session st sid = Some r"
  shows "\<exists>r' gs. get_session st' sid = Some r' \<and> sr_generations r' = sr_generations r @ gs \<and>
     (\<not> sets_lineage x sid \<longrightarrow> parent_session_id r' = parent_session_id r \<and> parent_step_id r' = parent_step_id r)"
proof -
  consider "st_sessions st' = st_sessions st" | i p n m a b where "x = OSession i p n m a b"
    | i f b where "x = OFlag i f b" | i g where "x = OGeneration i g"
    using sessions_other [OF assms(1)] by blast
  then show ?thesis
  proof cases
    case 1
    then show ?thesis using assms(2) by (simp add: get_session_def)
  next
    case 2
    then show ?thesis using assms(1) upsert_keeps [OF assms(2), of i p n m a b] by auto
  next
    case 3
    then show ?thesis using assms
      by (auto simp: set_session_flag_def get_session_def split: if_splits option.splits)
  next
    case 4
    then show ?thesis using assms
      by (auto simp: append_generation_def get_session_def split: option.splits)
  qed
qed

theorem sessions_only_grow_witness:
  "\<exists>r. get_session (upsert_session ''s'' ''p'' 2 0 None None
        (upsert_session ''s'' ''p'' 1 0 (Some (Some ''parent'')) None (load NoFile))) ''s'' = Some r \<and>
     parent_session_id r = Some ''parent''"
proof -
  let ?st = "upsert_session ''s'' ''p'' 1 0 (Some (Some ''parent'')) None (load NoFile)"
  obtain r where "get_session ?st ''s'' = Some r" "parent_session_id r = Some ''parent''"
    by (simp add: upsert_session_def get_session_def load_def migrate_def empty_state_def Let_def STATE_SCHEMA_VERSION_def)
  with sessions_only_grow [of "OSession ''s'' ''p'' 2 0 None None" ?st _ "''s''" r] show ?thesis by auto
qed

text \<open>
  Incremental reprocessing: after a file is marked processed up to some offset, the same file is
  left alone until it is touched or grows, is then resumed from that offset, and is read from the start
  when it was replaced or truncated.
\<close>

theorem reprocess_after_mark:
  "should_reprocess (Some s) (mark_file_processed pf st) (pf_file_path pf) =
     (if fs_ino s = pf_inode pf \<and> pf_last_byte_offset pf \<le> fs_size s then
        (if fs_mtime s \<le> pf_mtime pf \<and> fs_size s = pf_last_byte_offset pf then (False, 0)
         else (True, pf_last_byte_offset pf))
      else (True, 0))"
  by (auto simp: should_reprocess_def get_processed_file_def mark_file_processed_def)

fun lock_run :: "(bool \<times> nat) list \<Rightarrow> lock_state \<Rightarrow> lock_state" where
  "lock_run [] lk = lk"
| "lock_run ((acq, p) # es) lk = lock_run es (if acq then snd (lock_acquire p lk) else lock_release p lk)"

lemma lock_fds: "set (lk_fds lk) \<subseteq> set_option (lk_held lk) \<Longrightarrow>
    set (lk_fds (lock_run es lk)) \<subseteq> set_option (lk_held (lock_run es lk))"
proof (induction es arbitrary: lk)
  case (Cons e es)
  obtain acq p where e: "e = (acq, p)" by (cases e)
  let ?lk = "if acq then snd (lock_acquire p lk) else lock_release p lk"
  have "set (lk_fds ?lk) \<subseteq> set_option (lk_held ?lk)"
    using Cons.prems by (auto simp: lock_acquire_def lock_release_def split: option.split)
  with Cons.IH show ?case by (simp add: e)
qed simp

text \<open>
  The trace lock excludes: from an unlocked project, of the holders that ask for the lock in any
  order, with releases in between, at most one has it, and only a successful acquire gives it.
\<close>

theorem lock_excludes:
  "let lk = lock_run es \<lparr>lk_held = None, lk_fds = []\<rparr> in
     set (lk_fds lk) \<subseteq> set_option (lk_held lk) \<and>
     (fst (lock_acquire p lk) \<longleftrightarrow> lk_held lk = None) \<and>
     \<not> fst (lock_acquire q (snd (lock_acquire p lk)))"
  using lock_fds [of "\<lparr>lk_held = None, lk_fds = []\<rparr>" es]
  by (auto simp: Let_def lock_acquire_def split: option.split)

end
