(* ===== verification/EventModel.thy ===== *)
theory EventModel
  imports Json
begin

text \<open>
  The events of the local log, from \<^verbatim>\<open>core/trails/models.py\<close>: drafts and events as records, the payload
  validators, and the content addresses. The digest \<^verbatim>\<open>sha256\<close> is a parameter \<open>H\<close> applied to the
  canonical form of a JSON value, which is what \<^verbatim>\<open>canonical_json\<close> prints.
\<close>

section \<open>Vocabularies\<close>

definition EVENT_ID_PREFIX :: string where "EVENT_ID_PREFIX = ''trailevent-sha256:''"
definition HASH_PREFIX :: string where "HASH_PREFIX = ''sha256:''"
definition ATTRIBUTION_VERSION :: string where "ATTRIBUTION_VERSION = ''0.1.0''"
definition SCHEMA_VERSION :: string where "SCHEMA_VERSION = ''0.9.0''"
definition SECURITY_VERSION :: string where "SECURITY_VERSION = ''0.8.0''"

definition GIT_OBJECT_KEYS :: "string list" where
  "GIT_OBJECT_KEYS = [''blob_id'', ''tree_id'', ''commit_id'', ''git_head'', ''git_head_id'', ''before_blob_id'',
     ''after_blob_id'', ''parent_id'', ''base_tree_id'']"

definition BARE_GIT_SHA_KEYS :: "string list" where
  "BARE_GIT_SHA_KEYS = [''blob_sha'', ''tree_sha'', ''commit_sha'', ''before_blob_sha'', ''after_blob_sha'', ''parent_sha'']"

definition CAPTURE_LIMITATIONS :: "string list" where
  "CAPTURE_LIMITATIONS = [''concurrent_writer_overlap'', ''unbounded_mutation_window'', ''background_process_overlap'',
     ''hook_only'', ''hook_payload_state_mismatch'', ''session_terminated_unexpectedly'', ''watcher_buffer_overflow'',
     ''incomplete_step_window_capture'', ''context_tree_not_captured'', ''transcript_modified'']"

section \<open>Git object identities\<close>

definition is_hex :: "char \<Rightarrow> bool" where
  "is_hex c = (let n = ord_of c in 48 \<le> n \<and> n \<le> 57 \<or> 65 \<le> n \<and> n \<le> 70 \<or> 97 \<le> n \<and> n \<le> 102)"

text \<open>\<^verbatim>\<open>^[0-9a-fA-F]{40}$|^[0-9a-fA-F]{64}$\<close>; the anchor \<^verbatim>\<open>$\<close> also stands before a final newline.\<close>

definition git_sha_of_length :: "nat \<Rightarrow> string \<Rightarrow> bool" where
  "git_sha_of_length n s \<longleftrightarrow> n \<le> length s \<and> list_all is_hex (take n s) \<and> (drop n s = [] \<or> drop n s = [CHR 10])"

definition is_git_sha :: "string \<Rightarrow> bool" where
  "is_git_sha s \<longleftrightarrow> git_sha_of_length 40 s \<or> git_sha_of_length 64 s"

text \<open>\<^verbatim>\<open>GitObjectID.model_validate\<close> on a dict: \<^verbatim>\<open>algo\<close> defaults to \<^verbatim>\<open>sha1\<close>, \<^verbatim>\<open>hex\<close> is required.\<close>

definition git_object_id_ok :: "(string, json) dict \<Rightarrow> bool" where
  "git_object_id_ok d =
     ((case dget d ''algo'' of None \<Rightarrow> True | Some (JStr a) \<Rightarrow> a \<in> {''sha1'', ''sha256''} | Some _ \<Rightarrow> False) \<and>
      (case dget d ''hex'' of Some (JStr h) \<Rightarrow> is_git_sha h | _ \<Rightarrow> False))"

section \<open>Payload validators\<close>

text \<open>\<open>git_ids_ok\<close> is False where \<^verbatim>\<open>_reject_bare_git_object_ids\<close> raises.\<close>

fun git_ids_ok :: "string option \<Rightarrow> json \<Rightarrow> bool" where
  "git_ids_ok key (JObj kvs) =
     ((case key of Some k \<Rightarrow> k \<in> set GIT_OBJECT_KEYS \<longrightarrow> git_object_id_ok kvs | None \<Rightarrow> True) \<and>
      (\<forall>(k, v) \<in> set kvs. git_ids_ok (Some k) v))"
| "git_ids_ok key (JList xs) = (\<forall>x \<in> set xs. git_ids_ok key x)"
| "git_ids_ok key (JStr s) =
     (\<not> (is_git_sha s \<and> (case key of Some k \<Rightarrow> k \<in> set BARE_GIT_SHA_KEYS \<or> ends_with k ''_sha'' | None \<Rightarrow> False)))"
| "git_ids_ok key v = True"

definition known_limitation :: "json \<Rightarrow> bool" where
  "known_limitation v = (case v of JStr s \<Rightarrow> s \<in> set CAPTURE_LIMITATIONS | _ \<Rightarrow> False)"

text \<open>\<open>limitations_ok\<close> is False where \<^verbatim>\<open>_reject_unknown_capture_limitations\<close> raises.\<close>

fun limitations_ok :: "string option \<Rightarrow> json \<Rightarrow> bool" where
  "limitations_ok key (JObj kvs) =
     (key \<noteq> Some ''capture_limitations'' \<and> (\<forall>(k, v) \<in> set kvs. limitations_ok (Some k) v))"
| "limitations_ok key (JList xs) =
     (if key = Some ''capture_limitations'' then list_all known_limitation xs
      else (\<forall>x \<in> set xs. limitations_ok key x))"
| "limitations_ok key v = True"

definition payload_ok :: "(string, json) dict \<Rightarrow> bool" where
  "payload_ok p \<longleftrightarrow> git_ids_ok None (JObj p) \<and> limitations_ok None (JObj p)"

definition capture_method_ok :: "string list \<Rightarrow> bool" where
  "capture_method_ok ms \<longleftrightarrow> ms \<noteq> [] \<and> [] \<notin> set ms"

section \<open>Drafts and events\<close>

record event_draft =
  dr_event_type :: string
  dr_payload :: "(string, json) dict"
  dr_trace_id :: "string option"
  dr_generation_index :: "int option"
  dr_step_index :: "int option"
  dr_event_time :: "string option"
  dr_capture_method :: "string list"
  dr_schema_version :: "string option"
  dr_security_version :: "string option"
  dr_attribution_version :: "string option"

record trail_event =
  ev_id :: string
  ev_seq :: int
  ev_time :: string
  ev_prev :: "string option"
  ev_trace :: "string option"
  ev_gen :: "int option"
  ev_step :: "int option"
  ev_batch :: string
  ev_writer :: string
  ev_capture :: "string list"
  ev_type :: string
  ev_payload :: "(string, json) dict"
  ev_content_hash :: string
  ev_schema :: string
  ev_security :: string
  ev_attribution :: string

definition draft_ok :: "event_draft \<Rightarrow> bool" where
  "draft_ok d \<longleftrightarrow> capture_method_ok (dr_capture_method d) \<and> payload_ok (dr_payload d)"

definition event_ok :: "trail_event \<Rightarrow> bool" where
  "event_ok e \<longleftrightarrow> 1 \<le> ev_seq e \<and> capture_method_ok (ev_capture e) \<and> payload_ok (ev_payload e)"

definition material_fields :: "trail_event \<Rightarrow> (string, json) dict" where
  "material_fields e =
     [(''event_sequence'', JInt (ev_seq e)),
      (''previous_event_id'', of_opt_str (ev_prev e)),
      (''trace_id'', of_opt_str (ev_trace e)),
      (''generation_index'', of_opt_int (ev_gen e)),
      (''step_index'', of_opt_int (ev_step e)),
      (''capture_method'', JList (map JStr (ev_capture e))),
      (''event_type'', JStr (ev_type e)),
      (''payload'', JObj (ev_payload e)),
      (''content_hash'', JStr (ev_content_hash e)),
      (''SCHEMA_VERSION'', JStr (ev_schema e)),
      (''SECURITY_VERSION'', JStr (ev_security e)),
      (''ATTRIBUTION_VERSION'', JStr (ev_attribution e))]"

definition canonical_event_material :: "trail_event \<Rightarrow> json" where
  "canonical_event_material e = JObj (material_fields e)"

section \<open>Content addresses\<close>

definition sha256_hex :: "(json \<Rightarrow> string) \<Rightarrow> json \<Rightarrow> string" where
  "sha256_hex H data = H (canon data)"

definition payload_content_hash :: "(json \<Rightarrow> string) \<Rightarrow> (string, json) dict \<Rightarrow> string" where
  "payload_content_hash H p = HASH_PREFIX @ sha256_hex H (JObj p)"

definition event_id_for :: "(json \<Rightarrow> string) \<Rightarrow> json \<Rightarrow> string" where
  "event_id_for H m = EVENT_ID_PREFIX @ sha256_hex H m"

definition expected_event_id :: "(json \<Rightarrow> string) \<Rightarrow> trail_event \<Rightarrow> string" where
  "expected_event_id H e = event_id_for H (canonical_event_material e)"

text \<open>
  The data a caller hands to \<^verbatim>\<open>finalize_event\<close>, after it dropped the entries that are null: a missing
  entry, \<^const>\<open>None\<close>, takes the default of the model.
\<close>

record event_data =
  da_seq :: int
  da_time :: string
  da_prev :: "string option"
  da_trace :: "string option"
  da_gen :: "int option"
  da_step :: "int option"
  da_batch :: string
  da_writer :: string
  da_capture :: "string list"
  da_type :: string
  da_payload :: "(string, json) dict"
  da_schema :: "string option"
  da_security :: "string option"
  da_attribution :: "string option"

definition or_default :: "'a \<Rightarrow> 'a option \<Rightarrow> 'a" where
  "or_default d x = (case x of None \<Rightarrow> d | Some v \<Rightarrow> v)"

definition provisional :: "(json \<Rightarrow> string) \<Rightarrow> event_data \<Rightarrow> trail_event" where
  "provisional H d =
     \<lparr>ev_id = EVENT_ID_PREFIX @ replicate 64 (CHR ''0''), ev_seq = da_seq d, ev_time = da_time d,
      ev_prev = da_prev d, ev_trace = da_trace d, ev_gen = Some (or_default 0 (da_gen d)),
      ev_step = da_step d, ev_batch = da_batch d, ev_writer = da_writer d, ev_capture = da_capture d,
      ev_type = da_type d, ev_payload = da_payload d,
      ev_content_hash = payload_content_hash H (da_payload d),
      ev_schema = or_default SCHEMA_VERSION (da_schema d),
      ev_security = or_default SECURITY_VERSION (da_security d),
      ev_attribution = or_default ATTRIBUTION_VERSION (da_attribution d)\<rparr>"

definition finalized :: "(json \<Rightarrow> string) \<Rightarrow> event_data \<Rightarrow> trail_event" where
  "finalized H d = (provisional H d)\<lparr>ev_id := event_id_for H (canonical_event_material (provisional H d))\<rparr>"

definition finalize_event :: "(json \<Rightarrow> string) \<Rightarrow> event_data \<Rightarrow> py_error + trail_event" where
  "finalize_event H d = (let e = finalized H d in if event_ok e then Inr e else Inl ValueError)"

section \<open>Facts\<close>

lemma material_ev_id [simp]: "canonical_event_material (e\<lparr>ev_id := i\<rparr>) = canonical_event_material e"
  by (simp add: canonical_event_material_def material_fields_def)

lemma finalized_simps [simp]:
  "ev_seq (finalized H d) = da_seq d" "ev_prev (finalized H d) = da_prev d" "ev_time (finalized H d) = da_time d"
  "ev_trace (finalized H d) = da_trace d" "ev_gen (finalized H d) = Some (or_default 0 (da_gen d))"
  "ev_step (finalized H d) = da_step d" "ev_batch (finalized H d) = da_batch d" "ev_writer (finalized H d) = da_writer d"
  "ev_capture (finalized H d) = da_capture d" "ev_type (finalized H d) = da_type d"
  "ev_payload (finalized H d) = da_payload d"
  "ev_content_hash (finalized H d) = payload_content_hash H (da_payload d)"
  "ev_schema (finalized H d) = or_default SCHEMA_VERSION (da_schema d)"
  "ev_security (finalized H d) = or_default SECURITY_VERSION (da_security d)"
  "ev_attribution (finalized H d) = or_default ATTRIBUTION_VERSION (da_attribution d)"
  by (simp_all add: finalized_def provisional_def)

lemma finalized_addresses:
  "ev_id (finalized H d) = expected_event_id H (finalized H d)"
  "ev_content_hash (finalized H d) = payload_content_hash H (ev_payload (finalized H d))"
  by (simp_all add: expected_event_id_def) (simp add: finalized_def)

lemma finalize_event_Inr: "finalize_event H d = Inr e \<longleftrightarrow> e = finalized H d \<and> event_ok e"
  by (auto simp: finalize_event_def Let_def)

lemma or_default_Some [simp]: "or_default d (Some x) = x"
  by (simp add: or_default_def)

text \<open>Reordering the entries of a payload does not change its address.\<close>

lemma payload_hash_perm:
  "set p = set q \<Longrightarrow> dict_ok p \<Longrightarrow> dict_ok q \<Longrightarrow> payload_content_hash H p = payload_content_hash H q"
  unfolding payload_content_hash_def sha256_hex_def using canon_JObj_perm [of p q] by metis

text \<open>
  The material determines the fields it lists, the payload up to the order of its entries.
\<close>

definition same_content :: "trail_event \<Rightarrow> trail_event \<Rightarrow> bool" where
  "same_content a b \<longleftrightarrow> canon (canonical_event_material a) = canon (canonical_event_material b)"

lemma material_lookup:
  assumes "same_content a b"
  shows "map_option canon (dget (material_fields a) k) = map_option canon (dget (material_fields b) k)"
proof -
  have ok: "dict_ok (material_fields e)" for e
    by (simp add: material_fields_def dict_ok_def dkeys_def)
  show ?thesis
    by (rule canon_JObj_dget [OF _ ok ok]) (use assms in \<open>simp only: same_content_def canonical_event_material_def\<close>)
qed

lemma canon_opt [simp]: "canon (of_opt_str x) = of_opt_str x" "canon (of_opt_int i) = of_opt_int i"
  by (cases x; simp) (cases i; simp)

lemma material_gets:
  "dget (material_fields e) ''event_sequence'' = Some (JInt (ev_seq e))"
  "dget (material_fields e) ''previous_event_id'' = Some (of_opt_str (ev_prev e))"
  "dget (material_fields e) ''trace_id'' = Some (of_opt_str (ev_trace e))"
  "dget (material_fields e) ''generation_index'' = Some (of_opt_int (ev_gen e))"
  "dget (material_fields e) ''step_index'' = Some (of_opt_int (ev_step e))"
  "dget (material_fields e) ''event_type'' = Some (JStr (ev_type e))"
  "dget (material_fields e) ''payload'' = Some (JObj (ev_payload e))"
  by (simp_all add: material_fields_def)

lemma same_content_fields:
  assumes "same_content a b"
  shows "ev_seq a = ev_seq b" "ev_prev a = ev_prev b" "ev_type a = ev_type b" "ev_trace a = ev_trace b"
    "ev_step a = ev_step b" "ev_gen a = ev_gen b" "canon (JObj (ev_payload a)) = canon (JObj (ev_payload b))"
proof -
  show "ev_seq a = ev_seq b" using material_lookup [OF assms, of "''event_sequence''"] by (simp add: material_gets)
  show "ev_prev a = ev_prev b" using material_lookup [OF assms, of "''previous_event_id''"] by (simp add: material_gets)
  show "ev_type a = ev_type b" using material_lookup [OF assms, of "''event_type''"] by (simp add: material_gets)
  show "ev_trace a = ev_trace b" using material_lookup [OF assms, of "''trace_id''"] by (simp add: material_gets)
  show "ev_step a = ev_step b" using material_lookup [OF assms, of "''step_index''"] by (simp add: material_gets)
  show "ev_gen a = ev_gen b" using material_lookup [OF assms, of "''generation_index''"] by (simp add: material_gets)
  show "canon (JObj (ev_payload a)) = canon (JObj (ev_payload b))"
    using material_lookup [OF assms, of "''payload''"] by (simp only: material_gets option.map option.inject)
qed

end
