(* ===== verification/EventLog.thy ===== *)
theory EventLog
  imports EventModel
begin

text \<open>
  The append-only event log of \<^verbatim>\<open>core/trails/event_log.py\<close>: building a batch on the tail of the head
  commit, the compare-and-swap of the ref with its retries, the import of a foreign stream, the chain
  check, the incremental verification from a watermark and the incremental read from a snapshot.

  A Git commit id names the commit and all its ancestors, so the ref is modelled as the list of the
  commits it reaches, oldest first; the empty list is the missing ref. Ids of batches, the clock and what
  other processes do to the ref between the read and the swap are arguments.
\<close>

section \<open>The ref\<close>

record log_commit =
  lc_batch_id :: string
  lc_writer :: string
  lc_events :: "trail_event list"

type_synonym log_head = "log_commit list"

definition events_in_range :: "log_commit list \<Rightarrow> trail_event list" where
  "events_in_range cs = concat (map lc_events cs)"

definition read_events_from_head :: "log_head \<Rightarrow> trail_event list" where
  "read_events_from_head h = sort_key ev_seq (events_in_range h)"

text \<open>\<^verbatim>\<open>merge-base --is-ancestor\<close>.\<close>

fun is_ancestor :: "log_head \<Rightarrow> log_head \<Rightarrow> bool" where
  "is_ancestor [] h = True"
| "is_ancestor (c # cs) [] = False"
| "is_ancestor (c # cs) (d # ds) = (c = d \<and> is_ancestor cs ds)"

text \<open>\<^verbatim>\<open>_read_head_batch_tail\<close>: the event with the greatest sequence of the head commit's own batch.\<close>

definition head_batch_tail :: "log_head \<Rightarrow> (int \<times> string) option" where
  "head_batch_tail h =
     (if h = [] then None
      else let es = sort_key ev_seq (lc_events (last h))
           in if es = [] then None else Some (ev_seq (last es), ev_id (last es)))"

section \<open>Append\<close>

datatype log_error =
    InvalidModel py_error
  | RefMovedDuringAppend
  | RefMovedDuringImport
  | ImportNotContiguous int int
  | ImportBadPrevious int
  | ImportBadId int
  | ImportBadHash int
  | EventLogHeadMoved
  | LogExistsAndDiffers

definition draft_data :: "string \<Rightarrow> string \<Rightarrow> string \<Rightarrow> int \<Rightarrow> string option \<Rightarrow> event_draft \<Rightarrow> event_data" where
  "draft_data now batch writer seq prev d =
     \<lparr>da_seq = seq,
      da_time = (case dr_event_time d of None \<Rightarrow> now | Some t \<Rightarrow> if t = [] then now else t),
      da_prev = prev, da_trace = dr_trace_id d, da_gen = dr_generation_index d, da_step = dr_step_index d,
      da_batch = batch, da_writer = writer, da_capture = dr_capture_method d, da_type = dr_event_type d,
      da_payload = dr_payload d, da_schema = dr_schema_version d, da_security = dr_security_version d,
      da_attribution = dr_attribution_version d\<rparr>"

fun build_events ::
  "(json \<Rightarrow> string) \<Rightarrow> string \<Rightarrow> string \<Rightarrow> string \<Rightarrow> int \<Rightarrow> string option \<Rightarrow> event_draft list \<Rightarrow> py_error + trail_event list" where
  "build_events H now batch writer seq prev [] = Inr []"
| "build_events H now batch writer seq prev (d # ds) =
     (case finalize_event H (draft_data now batch writer seq prev d) of Inl e \<Rightarrow> Inl e
      | Inr ev \<Rightarrow> (case build_events H now batch writer (seq + 1) (Some (ev_id ev)) ds of
          Inl e \<Rightarrow> Inl e | Inr es \<Rightarrow> Inr (ev # es)))"

text \<open>One attempt: the batch a writer builds on the head it read.\<close>

definition build_on_head ::
  "(json \<Rightarrow> string) \<Rightarrow> string \<Rightarrow> string \<Rightarrow> string \<Rightarrow> log_head \<Rightarrow> event_draft list \<Rightarrow> py_error + trail_event list" where
  "build_on_head H now batch writer h ds =
     (let tail = head_batch_tail h;
          next_sequence = (case tail of None \<Rightarrow> 1 | Some t \<Rightarrow> fst t + 1);
          prev = (case tail of None \<Rightarrow> None | Some t \<Rightarrow> Some (snd t))
      in build_events H now batch writer next_sequence prev ds)"

text \<open>\<^verbatim>\<open>git update-ref REF new old\<close>: the swap happens only if the ref still is what was read.\<close>

definition update_event_log_ref :: "log_head \<Rightarrow> log_head \<Rightarrow> log_commit \<Rightarrow> log_head option" where
  "update_event_log_ref current expected c = (if current = expected then Some (expected @ [c]) else None)"

definition EVENT_LOG_APPEND_MAX_RETRIES :: nat where
  "EVENT_LOG_APPEND_MAX_RETRIES = 5"

text \<open>\<open>others n h\<close> is the ref at the swap of the attempt with \<open>n\<close> attempts left, when \<open>h\<close> was read.\<close>

fun append_loop ::
  "(json \<Rightarrow> string) \<Rightarrow> string \<Rightarrow> (nat \<Rightarrow> string) \<Rightarrow> string \<Rightarrow> (nat \<Rightarrow> log_head \<Rightarrow> log_head) \<Rightarrow> nat \<Rightarrow> log_head \<Rightarrow>
    event_draft list \<Rightarrow> log_error + trail_event list \<times> log_head" where
  "append_loop H now batch writer others 0 h ds = Inl RefMovedDuringAppend"
| "append_loop H now batch writer others (Suc n) h ds =
     (case build_on_head H now (batch n) writer h ds of
        Inl e \<Rightarrow> Inl (InvalidModel e)
      | Inr es \<Rightarrow>
          (case update_event_log_ref (others n h) h \<lparr>lc_batch_id = batch n, lc_writer = writer, lc_events = es\<rparr> of
             Some h' \<Rightarrow> Inr (es, h')
           | None \<Rightarrow> append_loop H now batch writer others n (others n h) ds))"

definition append_event_batch ::
  "(json \<Rightarrow> string) \<Rightarrow> string \<Rightarrow> (nat \<Rightarrow> string) \<Rightarrow> string \<Rightarrow> (nat \<Rightarrow> log_head \<Rightarrow> log_head) \<Rightarrow> log_head \<Rightarrow>
    event_draft list \<Rightarrow> log_error + trail_event list \<times> log_head" where
  "append_event_batch H now batch writer others h ds =
     (if ds = [] then Inr ([], h)
      else if \<not> list_all draft_ok ds then Inl (InvalidModel ValueError)
      else append_loop H now batch writer others EVENT_LOG_APPEND_MAX_RETRIES h ds)"

section \<open>Import\<close>

fun validate_run :: "(json \<Rightarrow> string) \<Rightarrow> int \<Rightarrow> string option \<Rightarrow> trail_event list \<Rightarrow> log_error option" where
  "validate_run H i prev [] = None"
| "validate_run H i prev (e # es) =
     (if ev_seq e \<noteq> i then Some (ImportNotContiguous (ev_seq e) i)
      else if ev_prev e \<noteq> prev then Some (ImportBadPrevious (ev_seq e))
      else if ev_id e \<noteq> expected_event_id H e then Some (ImportBadId (ev_seq e))
      else if ev_content_hash e \<noteq> payload_content_hash H (ev_payload e) then Some (ImportBadHash (ev_seq e))
      else validate_run H (i + 1) (Some (ev_id e)) es)"

definition validate_import_events :: "(json \<Rightarrow> string) \<Rightarrow> trail_event list \<Rightarrow> log_error + trail_event list" where
  "validate_import_events H es =
     (let ordered = sort_key ev_seq es in
      case validate_run H 1 None ordered of Some e \<Rightarrow> Inl e | None \<Rightarrow> Inr ordered)"

datatype import_state = ImportCurrent | Imported

record import_result =
  im_state :: import_state
  im_event_count :: nat
  im_events_imported :: nat
  im_head :: log_head

text \<open>
  \<open>expected\<close> is the caller's snapshot of the head, if it passed one; \<open>at_swap\<close> the ref when the swap runs.
\<close>

definition import_event_log ::
  "(json \<Rightarrow> string) \<Rightarrow> string \<Rightarrow> string \<Rightarrow> bool \<Rightarrow> log_head option \<Rightarrow> log_head \<Rightarrow> log_head \<Rightarrow> trail_event list \<Rightarrow>
    log_error + import_result" where
  "import_event_log H batch writer force expected h at_swap es =
     (if \<not> list_all event_ok es then Inl (InvalidModel ValueError)
      else case validate_import_events H es of Inl e \<Rightarrow> Inl e
      | Inr ordered \<Rightarrow>
          (if expected \<noteq> None \<and> expected \<noteq> Some h then Inl EventLogHeadMoved
           else if h \<noteq> [] \<and> map ev_id (read_events_from_head h) = map ev_id ordered
           then Inr \<lparr>im_state = ImportCurrent, im_event_count = length (read_events_from_head h),
                     im_events_imported = 0, im_head = h\<rparr>
           else if h \<noteq> [] \<and> \<not> force then Inl LogExistsAndDiffers
           else if at_swap \<noteq> h then Inl RefMovedDuringImport
           else Inr \<lparr>im_state = Imported, im_event_count = length ordered, im_events_imported = length ordered,
                     im_head = [\<lparr>lc_batch_id = batch, lc_writer = writer, lc_events = ordered\<rparr>]\<rparr>))"

section \<open>Verification\<close>

datatype chain_error =
    ContentHashMismatch int
  | EventIdMismatch int
  | NonContiguousSequence int
  | PreviousMismatch int

definition event_errors :: "(json \<Rightarrow> string) \<Rightarrow> int \<Rightarrow> string option \<Rightarrow> trail_event \<Rightarrow> chain_error list" where
  "event_errors H seq prev e =
     (if ev_content_hash e \<noteq> payload_content_hash H (ev_payload e) then [ContentHashMismatch (ev_seq e)] else []) @
     (if ev_id e \<noteq> expected_event_id H e then [EventIdMismatch (ev_seq e)] else []) @
     (if ev_seq e \<noteq> seq then [NonContiguousSequence (ev_seq e)] else []) @
     (if ev_prev e \<noteq> prev then [PreviousMismatch (ev_seq e)] else [])"

fun chain_step :: "(json \<Rightarrow> string) \<Rightarrow> trail_event \<Rightarrow> bool \<times> bool \<times> chain_error list \<times> string option \<times> int \<Rightarrow>
    bool \<times> bool \<times> chain_error list \<times> string option \<times> int" where
  "chain_step H e (content_ok, chain_ok, errs, prev, seq) =
     (content_ok \<and> ev_content_hash e = payload_content_hash H (ev_payload e) \<and> ev_id e = expected_event_id H e,
      chain_ok \<and> ev_seq e = seq \<and> ev_prev e = prev,
      errs @ event_errors H seq prev e, Some (ev_id e), seq + 1)"

definition check_event_chain ::
  "(json \<Rightarrow> string) \<Rightarrow> trail_event list \<Rightarrow> int \<Rightarrow> string option \<Rightarrow> bool \<times> bool \<times> chain_error list \<times> string option" where
  "check_event_chain H es seq prev =
     (case fold (chain_step H) es (True, True, [], prev, seq) of
        (content_ok, chain_ok, errs, last_id, _) \<Rightarrow> (content_ok, chain_ok, errs, last_id))"

text \<open>\<^verbatim>\<open>rev-list --reverse --parents\<close>: each line a commit and its parents.\<close>

fun linear_errors :: "string option \<Rightarrow> bool \<Rightarrow> (string \<times> string list) list \<Rightarrow> string list" where
  "linear_errors prev is_first [] = []"
| "linear_errors prev is_first ((c, ps) # ls) =
     (if is_first then (if length ps > 1 then [c] else [])
      else if ps \<noteq> (case prev of None \<Rightarrow> [] | Some p \<Rightarrow> [p]) then [c] else []) @
     linear_errors (Some c) False ls"

definition parents_are_linear :: "(string \<times> string list) list \<Rightarrow> bool \<times> string list \<times> nat" where
  "parents_are_linear ls = (let errs = linear_errors None True ls in (errs = [], errs, length ls))"

definition events_contiguous :: "trail_event list \<Rightarrow> bool" where
  "events_contiguous es = (if es = [] then True else sort (map ev_seq es) = [1 .. int (length es)])"

record watermark =
  wm_head :: log_head
  wm_last_seq :: int
  wm_last_id :: "string option"
  wm_event_count :: int

record verify_result =
  vr_event_count :: int
  vr_parents_linear :: bool
  vr_content_valid :: bool
  vr_chain_valid :: bool
  vr_errors :: "chain_error list"
  vr_parent_errors :: "string list"

fun contiguous_from :: "int \<Rightarrow> trail_event list \<Rightarrow> bool" where
  "contiguous_from i [] = True"
| "contiguous_from i (e # es) = (ev_seq e = i \<and> contiguous_from (i + 1) es)"

text \<open>\<^verbatim>\<open>read_events_since\<close>: the sorted suffix, if the old head is an ancestor.\<close>

definition read_events_since :: "log_head \<Rightarrow> log_head \<Rightarrow> trail_event list option" where
  "read_events_since since h =
     (if h = [] then None
      else if h = since then Some []
      else if \<not> is_ancestor since h then None
      else Some (sort_key ev_seq (events_in_range (drop (length since) h))))"

definition try_incremental_verify ::
  "(json \<Rightarrow> string) \<Rightarrow> (string \<times> string list) list \<Rightarrow> log_head \<Rightarrow> watermark \<Rightarrow> (verify_result \<times> watermark) option" where
  "try_incremental_verify H ls h wm =
     (if \<not> fst (parents_are_linear ls) then None
      else case read_events_since (wm_head wm) h of None \<Rightarrow> None
      | Some new0 \<Rightarrow>
          (let new = sort_key ev_seq new0 in
           if \<not> contiguous_from (wm_last_seq wm + 1) new then None
           else (case check_event_chain H new (wm_last_seq wm + 1) (wm_last_id wm) of
             (content_ok, chain_ok, errs, last_eid) \<Rightarrow>
               if errs \<noteq> [] \<or> \<not> content_ok \<or> \<not> chain_ok then None
               else Some
                 (\<lparr>vr_event_count = wm_last_seq wm + int (length new), vr_parents_linear = True,
                   vr_content_valid = True, vr_chain_valid = True, vr_errors = [], vr_parent_errors = []\<rparr>,
                  \<lparr>wm_head = h, wm_last_seq = (if new = [] then wm_last_seq wm else ev_seq (last new)),
                   wm_last_id = (if new = [] then wm_last_id wm else last_eid),
                   wm_event_count = wm_last_seq wm + int (length new)\<rparr>))))"

definition full_verify :: "(json \<Rightarrow> string) \<Rightarrow> (string \<times> string list) list \<Rightarrow> trail_event list \<Rightarrow> verify_result" where
  "full_verify H ls es =
     (case check_event_chain H (sort_key ev_seq es) 1 None of
        (content_ok, chain_ok, errs, _) \<Rightarrow>
          (case parents_are_linear ls of (lin, perrs, _) \<Rightarrow>
            \<lparr>vr_event_count = int (length es), vr_parents_linear = lin, vr_content_valid = content_ok,
             vr_chain_valid = chain_ok, vr_errors = errs, vr_parent_errors = perrs\<rparr>))"

definition clean :: "verify_result \<Rightarrow> bool" where
  "clean r \<longleftrightarrow> vr_errors r = [] \<and> vr_parent_errors r = [] \<and> vr_content_valid r \<and> vr_chain_valid r \<and> vr_parents_linear r"

text \<open>
  \<^verbatim>\<open>verify_event_log\<close> on the whole log: a watermark at the head answers, one at an ancestor is extended,
  everything else is a full pass that leaves a watermark when it is clean.
\<close>

definition verify_event_log ::
  "(json \<Rightarrow> string) \<Rightarrow> (string \<times> string list) list \<Rightarrow> log_head \<Rightarrow> watermark option \<Rightarrow> verify_result option \<times> watermark option" where
  "verify_event_log H ls h wmo =
     (if h = [] then (None, wmo)
      else
        let full = (let es = read_events_from_head h; r = full_verify H ls es; s = sort_key ev_seq es in
              (Some r, if clean r \<and> s \<noteq> [] then
                 Some \<lparr>wm_head = h, wm_last_seq = ev_seq (last s), wm_last_id = Some (ev_id (last s)),
                   wm_event_count = int (length es)\<rparr> else wmo))
        in case wmo of None \<Rightarrow> full
         | Some wm \<Rightarrow>
             if wm_head wm = h then
               (Some \<lparr>vr_event_count = wm_event_count wm, vr_parents_linear = True, vr_content_valid = True,
                      vr_chain_valid = True, vr_errors = [], vr_parent_errors = []\<rparr>, wmo)
             else if is_ancestor (wm_head wm) h then
               (case try_incremental_verify H ls h wm of Some (r, wm') \<Rightarrow> (Some r, Some wm') | None \<Rightarrow> full)
             else full)"

section \<open>Incremental read\<close>

text \<open>The snapshot is the head it was taken at and its events. The result says whether it is rewritten.\<close>

definition SNAPSHOT_REFRESH_MIN_DELTA :: nat where
  "SNAPSHOT_REFRESH_MIN_DELTA = 2000"

definition read_events_incremental ::
  "(log_head \<times> trail_event list) option \<Rightarrow> log_head \<Rightarrow> trail_event list \<times> (log_head \<times> trail_event list) option" where
  "read_events_incremental snap h =
     (let full = (let es = read_events_from_head h in (es, Some (h, es))) in
      case snap of None \<Rightarrow> full
      | Some (sh, ses) \<Rightarrow>
          if sh = h then (if events_contiguous ses then (ses, snap) else full)
          else if is_ancestor sh h then
            (let new = events_in_range (drop (length sh) h); merged = sort_key ev_seq (ses @ new) in
             if events_contiguous merged then
               (merged, if length new \<ge> SNAPSHOT_REFRESH_MIN_DELTA then Some (h, merged) else snap)
             else full)
          else full)"

section \<open>Valid runs\<close>

text \<open>The specification: addresses and order of a run that continues a chain at \<open>seq\<close> after \<open>prev\<close>.\<close>

definition sealed :: "(json \<Rightarrow> string) \<Rightarrow> trail_event \<Rightarrow> bool" where
  "sealed H e \<longleftrightarrow> ev_content_hash e = payload_content_hash H (ev_payload e) \<and> ev_id e = expected_event_id H e"

fun valid_run :: "(json \<Rightarrow> string) \<Rightarrow> int \<Rightarrow> string option \<Rightarrow> trail_event list \<Rightarrow> bool" where
  "valid_run H seq prev [] = True"
| "valid_run H seq prev (e # es) =
     (sealed H e \<and> ev_seq e = seq \<and> ev_prev e = prev \<and> valid_run H (seq + 1) (Some (ev_id e)) es)"

text \<open>The pointer a run leaves for its successor.\<close>

fun run_tail :: "string option \<Rightarrow> trail_event list \<Rightarrow> string option" where
  "run_tail prev [] = prev"
| "run_tail prev (e # es) = run_tail (Some (ev_id e)) es"

lemma run_tail_last: "run_tail prev es = (if es = [] then prev else Some (ev_id (last es)))"
  by (induction es arbitrary: prev) auto

lemma valid_run_append [chain_simps]:
  "valid_run H seq prev (xs @ ys) \<longleftrightarrow>
     valid_run H seq prev xs \<and> valid_run H (seq + int (length xs)) (run_tail prev xs) ys"
  by (induction xs arbitrary: seq prev) (auto simp: algebra_simps)

lemma run_tail_append [chain_simps]: "run_tail prev (xs @ ys) = run_tail (run_tail prev xs) ys"
  by (induction xs arbitrary: prev) auto

lemma valid_run_seqs: "valid_run H seq prev es \<Longrightarrow> map ev_seq es = map (\<lambda>i. seq + int i) [0 ..< length es]"
proof (induction es arbitrary: seq prev)
  case (Cons e es)
  have "map ev_seq es = map (\<lambda>i. (seq + 1) + int i) [0 ..< length es]" using Cons by auto
  also have "\<dots> = map (\<lambda>i. seq + int i) (map Suc [0 ..< length es])" by (simp add: algebra_simps)
  finally have "map ev_seq es = map (\<lambda>i. seq + int i) [Suc 0 ..< Suc (length es)]" by (simp only: map_Suc_upt)
  moreover have "[0 ..< Suc (length es)] = 0 # [Suc 0 ..< Suc (length es)]" by (rule upt_conv_Cons) simp
  ultimately show ?case using Cons.prems by (simp del: upt_Suc)
qed simp

lemma seqs_sorted: "sorted (map (\<lambda>i. seq + int i) [0 ..< n])"
  by (simp add: sorted_map sorted_wrt_mono_rel [OF _ sorted_upt])

lemma valid_run_sorted: "valid_run H seq prev es \<Longrightarrow> sorted (map ev_seq es)"
  by (drule valid_run_seqs) (simp only: seqs_sorted)

lemma valid_run_sort_id: "valid_run H seq prev es \<Longrightarrow> sort_key ev_seq es = es"
  by (rule sort_key_sorted_id [OF valid_run_sorted])

lemma valid_run_last_seq: "valid_run H seq prev es \<Longrightarrow> es \<noteq> [] \<Longrightarrow> ev_seq (last es) = seq + int (length es) - 1"
  by (induction es arbitrary: seq prev) auto

section \<open>The checkers decide valid runs\<close>

lemma validate_run_iff: "validate_run H i prev es = None \<longleftrightarrow> valid_run H i prev es"
  by (induction H i prev es rule: validate_run.induct) (auto simp: sealed_def)

lemma event_errors_iff: "event_errors H seq prev e = [] \<longleftrightarrow> sealed H e \<and> ev_seq e = seq \<and> ev_prev e = prev"
  by (simp add: event_errors_def sealed_def)

fun linked :: "int \<Rightarrow> string option \<Rightarrow> trail_event list \<Rightarrow> bool" where
  "linked seq prev [] = True"
| "linked seq prev (e # es) = (ev_seq e = seq \<and> ev_prev e = prev \<and> linked (seq + 1) (Some (ev_id e)) es)"

fun run_errors :: "(json \<Rightarrow> string) \<Rightarrow> int \<Rightarrow> string option \<Rightarrow> trail_event list \<Rightarrow> chain_error list" where
  "run_errors H seq prev [] = []"
| "run_errors H seq prev (e # es) = event_errors H seq prev e @ run_errors H (seq + 1) (Some (ev_id e)) es"

lemma check_fold:
  "fold (chain_step H) es (c, k, errs, prev, seq) =
     (c \<and> list_all (sealed H) es, k \<and> linked seq prev es, errs @ run_errors H seq prev es, run_tail prev es,
      seq + int (length es))"
  by (induction es arbitrary: c k errs prev seq) (auto simp: sealed_def)

lemma valid_run_split: "valid_run H seq prev es \<longleftrightarrow> list_all (sealed H) es \<and> linked seq prev es"
  by (induction es arbitrary: seq prev) auto

lemma run_errors_iff: "run_errors H seq prev es = [] \<longleftrightarrow> valid_run H seq prev es"
  by (induction es arbitrary: seq prev) (auto simp: event_errors_iff)

lemma check_event_chain_eq:
  "check_event_chain H es seq prev =
     (list_all (sealed H) es, linked seq prev es, run_errors H seq prev es, run_tail prev es)"
  by (simp add: check_event_chain_def check_fold)

end
