(* ===== verification/EventLogProps.thy ===== *)
theory EventLogProps
  imports EventLog
begin

text \<open>
  What the event log guarantees: appends keep the chain valid whatever other writers do, imports accept
  exactly the valid chains, verifying or reading only what is new gives what a full pass would give, and a
  valid chain fixes its content up to a collision of the digest.
\<close>

section \<open>The invariant of the log\<close>

definition log_ok :: "(json \<Rightarrow> string) \<Rightarrow> log_head \<Rightarrow> bool" where
  "log_ok H h \<longleftrightarrow> valid_run H 1 None (events_in_range h) \<and> list_all (\<lambda>c. lc_events c \<noteq> []) h"

lemma events_in_range_append [simp]: "events_in_range (xs @ ys) = events_in_range xs @ events_in_range ys"
  by (simp add: events_in_range_def)

lemma events_in_range_single [simp]: "events_in_range [c] = lc_events c" "events_in_range [] = []"
  by (simp_all add: events_in_range_def)

lemma log_ok_Nil [simp]: "log_ok H []"
  by (simp add: log_ok_def)

lemma log_ok_read: "log_ok H h \<Longrightarrow> read_events_from_head h = events_in_range h"
  by (auto simp: log_ok_def read_events_from_head_def dest: valid_run_sort_id)

lemma log_ok_snoc:
  "log_ok H (h @ [c]) \<longleftrightarrow> log_ok H h \<and> lc_events c \<noteq> [] \<and>
     valid_run H (1 + int (length (events_in_range h))) (run_tail None (events_in_range h)) (lc_events c)"
  by (auto simp: log_ok_def chain_simps)

text \<open>The tail of the head commit is the tail of the whole log.\<close>

lemma head_tail:
  assumes "log_ok H h" "h \<noteq> []"
  shows "head_batch_tail h = Some (int (length (events_in_range h)), the (run_tail None (events_in_range h))) \<and>
    run_tail None (events_in_range h) \<noteq> None"
proof -
  obtain h0 c where h: "h = h0 @ [c]" using assms(2) by (cases h rule: rev_cases) auto
  let ?es = "lc_events c"
  have ne: "?es \<noteq> []" and v: "valid_run H (1 + int (length (events_in_range h0))) (run_tail None (events_in_range h0)) ?es"
    using assms(1) unfolding h log_ok_snoc by auto
  have "head_batch_tail h = Some (ev_seq (last ?es), ev_id (last ?es))"
    using ne valid_run_sort_id [OF v] by (simp add: head_batch_tail_def h Let_def)
  with valid_run_last_seq [OF v ne] ne show ?thesis
    by (simp add: h run_tail_append run_tail_last algebra_simps)
qed

section \<open>Appending\<close>

lemma build_events_valid:
  "build_events H now b w seq prev ds = Inr es \<Longrightarrow> valid_run H seq prev es \<and> length es = length ds"
proof (induction ds arbitrary: seq prev es)
  case (Cons d ds)
  let ?e = "finalized H (draft_data now b w seq prev d)"
  from Cons.prems obtain es' where ok: "event_ok ?e" and es: "es = ?e # es'"
    and rest: "build_events H now b w (seq + 1) (Some (ev_id ?e)) ds = Inr es'"
    by (auto simp: finalize_event_def Let_def split: sum.splits if_splits)
  have "sealed H ?e" using finalized_addresses [of H "draft_data now b w seq prev d"] by (simp add: sealed_def)
  with Cons.IH [OF rest] show ?case by (simp add: es draft_data_def)
qed auto

lemma build_events_total:
  "list_all draft_ok ds \<Longrightarrow> 1 \<le> seq \<Longrightarrow> \<exists>es. build_events H now b w seq prev ds = Inr es"
proof (induction ds arbitrary: seq prev)
  case (Cons d ds)
  let ?e = "finalized H (draft_data now b w seq prev d)"
  have "event_ok ?e" using Cons.prems by (simp add: event_ok_def draft_ok_def draft_data_def)
  moreover obtain es where "build_events H now b w (seq + 1) (Some (ev_id ?e)) ds = Inr es"
    using Cons.IH [of "seq + 1"] Cons.prems by auto
  ultimately show ?case by (simp add: finalize_event_def Let_def)
qed simp

lemma build_on_head_valid:
  assumes "log_ok H h" "build_on_head H now b w h ds = Inr es" "ds \<noteq> []"
  shows "log_ok H (h @ [\<lparr>lc_batch_id = b, lc_writer = w, lc_events = es\<rparr>])"
proof -
  have es: "es \<noteq> []" using assms(2,3) build_events_valid by (fastforce simp: build_on_head_def Let_def)
  have "valid_run H (1 + int (length (events_in_range h))) (run_tail None (events_in_range h)) es"
  proof (cases "h = []")
    case True
    then show ?thesis using assms(2) build_events_valid
      by (fastforce simp: build_on_head_def Let_def head_batch_tail_def)
  next
    case False
    from head_tail [OF assms(1) False] have t: "head_batch_tail h = Some (int (length (events_in_range h)), the (run_tail None (events_in_range h)))"
      and n: "Some (the (run_tail None (events_in_range h))) = run_tail None (events_in_range h)" by auto
    from assms(2) have "valid_run H (int (length (events_in_range h)) + 1) (Some (the (run_tail None (events_in_range h)))) es"
      unfolding build_on_head_def t Let_def option.case fst_conv snd_conv by (rule build_events_valid [THEN conjunct1])
    then show ?thesis by (simp only: n add.commute)
  qed
  with assms(1) es show ?thesis by (simp add: log_ok_snoc)
qed

lemma build_on_head_total:
  assumes "log_ok H h" "list_all draft_ok ds"
  shows "\<exists>es. build_on_head H now b w h ds = Inr es"
proof (cases "h = []")
  case True
  then show ?thesis using build_events_total [OF assms(2), of 1] by (simp add: build_on_head_def head_batch_tail_def)
next
  case False
  with head_tail [OF assms(1) False] build_events_total [OF assms(2)] show ?thesis
    by (simp add: build_on_head_def Let_def)
qed

lemma is_ancestor_iff: "is_ancestor xs ys \<longleftrightarrow> (\<exists>zs. ys = xs @ zs)"
  by (induction xs ys rule: is_ancestor.induct) auto

text \<open>What the attempt with \<open>k\<close> attempts left reads, of \<open>n\<close>, when those before it have lost the race.\<close>

definition ref_read :: "(nat \<Rightarrow> log_head \<Rightarrow> log_head) \<Rightarrow> nat \<Rightarrow> nat \<Rightarrow> log_head \<Rightarrow> log_head" where
  "ref_read others n k h = fold others (rev [Suc k..<n]) h"

lemma ref_read_simps: "ref_read others (Suc n) n h = h" "k < n \<Longrightarrow> ref_read others (Suc n) k h = ref_read others n k (others n h)"
  by (simp_all add: ref_read_def)

text \<open>What the loop returns: the batch it built on the head that was current when the swap ran.\<close>

lemma append_loop_result:
  assumes "log_ok H h" "\<And>n g. log_ok H g \<Longrightarrow> log_ok H (others n g) \<and> is_ancestor g (others n g)" "ds \<noteq> []"
    "append_loop H now batch w others n h ds = Inr (es, h')"
  shows "\<exists>k<n. let base = ref_read others n k h in others k base = base \<and> is_ancestor h base \<and>
    build_on_head H now (batch k) w base ds = Inr es \<and> length es = length ds \<and>
    h' = base @ [\<lparr>lc_batch_id = batch k, lc_writer = w, lc_events = es\<rparr>] \<and> log_ok H h'"
  using assms(1,4)
proof (induction n arbitrary: h)
  case (Suc n)
  from Suc.prems(2) obtain bs where b: "build_on_head H now (batch n) w h ds = Inr bs"
    by (auto split: sum.splits)
  show ?case
  proof (cases "others n h = h")
    case True
    then have "es = bs" "h' = h @ [\<lparr>lc_batch_id = batch n, lc_writer = w, lc_events = bs\<rparr>]"
      using Suc.prems(2) b by (auto simp: update_event_log_ref_def)
    moreover have "length bs = length ds"
      using b build_events_valid by (fastforce simp: build_on_head_def Let_def)
    ultimately show ?thesis using build_on_head_valid [OF Suc.prems(1) b assms(3)] True b
      by (intro exI [of _ n]) (simp add: ref_read_simps is_ancestor_iff)
  next
    case False
    then have loop: "append_loop H now batch w others n (others n h) ds = Inr (es, h')"
      using Suc.prems(2) b by (simp add: update_event_log_ref_def)
    have moved: "log_ok H (others n h)" "is_ancestor h (others n h)" using assms(2) [OF Suc.prems(1)] by simp_all
    from Suc.IH [OF moved(1) loop] obtain k where k: "k < n" "let base = ref_read others n k (others n h) in others k base = base \<and>
        is_ancestor (others n h) base \<and> build_on_head H now (batch k) w base ds = Inr es \<and> length es = length ds \<and>
        h' = base @ [\<lparr>lc_batch_id = batch k, lc_writer = w, lc_events = es\<rparr>] \<and> log_ok H h'" by blast
    have "is_ancestor h g" if "is_ancestor (others n h) g" for g
      using moved(2) that unfolding is_ancestor_iff by force
    with k show ?thesis by (intro exI [of _ k]) (auto simp: ref_read_simps Let_def)
  qed
qed simp

section \<open>Concurrent writers\<close>

text \<open>
  The ref and, for each writer, the head it read with the commit it built on it. A writer begins by
  building on the current ref, then swaps: the swap goes through or the attempt is lost.
\<close>

type_synonym shared = "log_head \<times> (nat \<Rightarrow> (log_head \<times> log_commit) option)"

inductive log_step :: "(json \<Rightarrow> string) \<Rightarrow> shared \<Rightarrow> shared \<Rightarrow> bool" for H where
  begin_attempt: "ds \<noteq> [] \<Longrightarrow> build_on_head H now b name r ds = Inr es \<Longrightarrow>
     log_step H (r, p) (r, p(w \<mapsto> (r, \<lparr>lc_batch_id = b, lc_writer = name, lc_events = es\<rparr>)))"
| swap: "p w = Some (h, c) \<Longrightarrow> update_event_log_ref r h c = Some r' \<Longrightarrow> log_step H (r, p) (r', p(w := None))"
| lost: "p w = Some (h, c) \<Longrightarrow> update_event_log_ref r h c = None \<Longrightarrow> log_step H (r, p) (r, p(w := None))"

inductive_cases log_stepE: "log_step H s s'"

definition shared_ok :: "(json \<Rightarrow> string) \<Rightarrow> shared \<Rightarrow> bool" where
  "shared_ok H s \<longleftrightarrow> log_ok H (fst s) \<and> (\<forall>w h c. snd s w = Some (h, c) \<longrightarrow> log_ok H (h @ [c]))"

lemma shared_ok_step: "log_step H s s' \<Longrightarrow> shared_ok H s \<Longrightarrow> shared_ok H s'"
proof (induction rule: log_step.induct)
  case (begin_attempt ds now b name r es p w)
  then show ?case using build_on_head_valid unfolding shared_ok_def by (auto split: if_splits)
next
  case (swap p w h c r r')
  then have "r' = h @ [c]" by (auto simp: update_event_log_ref_def split: if_splits)
  with swap show ?case by (auto simp: shared_ok_def split: if_splits)
next
  case (lost p w h c r)
  then show ?case by (auto simp: shared_ok_def split: if_splits)
qed

lemma step_extends: "log_step H s s' \<Longrightarrow> is_ancestor (fst s) (fst s')"
  by (auto simp: is_ancestor_iff update_event_log_ref_def elim!: log_stepE split: if_splits)

lemma steps_ok: "(log_step H)\<^sup>*\<^sup>* s s' \<Longrightarrow> shared_ok H s \<Longrightarrow> shared_ok H s'"
  by (induction rule: rtranclp_induct) (auto intro: shared_ok_step)

lemma steps_extend: "(log_step H)\<^sup>*\<^sup>* s s' \<Longrightarrow> is_ancestor (fst s) (fst s')"
proof (induction rule: rtranclp_induct)
  case (step y z)
  then show ?case using step_extends [OF step(2)] unfolding is_ancestor_iff by auto
qed (simp add: is_ancestor_iff)

section \<open>Sorted logs\<close>

lemma events_contiguous_iff: "events_contiguous es \<longleftrightarrow> mset (map ev_seq es) = mset [1 .. int (length es)]"
proof
  assume "events_contiguous es"
  then have "sort (map ev_seq es) = [1 .. int (length es)]" by (auto simp: events_contiguous_def split: if_splits)
  then show "mset (map ev_seq es) = mset [1 .. int (length es)]" by (metis mset_sort)
next
  assume m: "mset (map ev_seq es) = mset [1 .. int (length es)]"
  have "sort (map ev_seq es) = [1 .. int (length es)]"
    by (rule properties_for_sort [OF m [symmetric]]) simp
  then show "events_contiguous es" by (simp add: events_contiguous_def)
qed

lemma valid_run_contiguous: "valid_run H i prev es \<Longrightarrow> contiguous_from i es"
  by (induction es arbitrary: i prev) auto

lemma valid_run_bounds: "valid_run H i prev es \<Longrightarrow> e \<in> set es \<Longrightarrow> i \<le> ev_seq e \<and> ev_seq e < i + int (length es)"
  by (induction es arbitrary: i prev) fastforce+

lemma valid_run_distinct: "valid_run H i prev es \<Longrightarrow> distinct (map ev_seq es)"
proof (induction es arbitrary: i prev)
  case (Cons e es)
  then have "ev_seq e \<noteq> ev_seq x" if "x \<in> set es" for x
    using valid_run_bounds [of H "i + 1" "Some (ev_id e)" es x] that by auto
  with Cons show ?case by auto
qed simp

lemma contiguous_from_bounds: "contiguous_from i es \<Longrightarrow> e \<in> set es \<Longrightarrow> i \<le> ev_seq e"
  by (induction es arbitrary: i) fastforce+

text \<open>
  The suffix of a log whose prefix is a valid chain: the whole sorts into a valid chain exactly when the
  suffix alone sorts into a run that continues the prefix.
\<close>

lemma valid_suffix:
  assumes "valid_run H 1 None xs"
  shows "valid_run H 1 None (sort_key ev_seq (xs @ ys)) \<longleftrightarrow>
     valid_run H (1 + int (length xs)) (run_tail None xs) (sort_key ev_seq ys)"
proof -
  have split: "sort_key ev_seq (xs @ ys) = xs @ sort_key ev_seq ys"
    if "\<And>b. b \<in> set ys \<Longrightarrow> 1 + int (length xs) \<le> ev_seq b"
  proof -
    have "ev_seq a \<le> ev_seq b" if "a \<in> set xs" "b \<in> set ys" for a b
      using valid_run_bounds [OF assms that(1)] \<open>\<And>b. b \<in> set ys \<Longrightarrow> 1 + int (length xs) \<le> ev_seq b\<close> [OF that(2)] by simp
    then show ?thesis by (simp add: sort_key_append_le valid_run_sort_id [OF assms])
  qed
  show ?thesis
  proof
    assume v: "valid_run H 1 None (sort_key ev_seq (xs @ ys))"
    have d: "distinct (map ev_seq (xs @ ys))"
    proof -
      have "mset (map ev_seq (sort_key ev_seq (xs @ ys))) = mset (map ev_seq (xs @ ys))" by simp
      with valid_run_distinct [OF v] show ?thesis by (rule mset_eq_imp_distinct_iff [THEN iffD1, rotated])
    qed
    have low: "1 \<le> ev_seq b" if "b \<in> set ys" for b
      using valid_run_bounds [OF v, of b] that by simp
    have "1 + int (length xs) \<le> ev_seq b" if b: "b \<in> set ys" for b
    proof (rule ccontr)
      assume "\<not> 1 + int (length xs) \<le> ev_seq b"
      with low [OF b] have "ev_seq b \<in> (\<lambda>i. 1 + int i) ` {0 ..< length xs}"
        by (intro image_eqI [of _ _ "nat (ev_seq b - 1)"]) auto
      then have "ev_seq b \<in> set (map ev_seq xs)"
        unfolding valid_run_seqs [OF assms] by simp
      with d b show False by auto
    qed
    from split [OF this] v show "valid_run H (1 + int (length xs)) (run_tail None xs) (sort_key ev_seq ys)"
      by (simp add: chain_simps)
  next
    assume v: "valid_run H (1 + int (length xs)) (run_tail None xs) (sort_key ev_seq ys)"
    have "1 + int (length xs) \<le> ev_seq b" if "b \<in> set ys" for b
      using valid_run_bounds [OF v, of b] that by simp
    from split [OF this] v assms show "valid_run H 1 None (sort_key ev_seq (xs @ ys))"
      by (simp add: chain_simps)
  qed
qed

lemma read_since:
  assumes "is_ancestor s h" "h \<noteq> []"
  shows "read_events_since s h = Some (sort_key ev_seq (events_in_range (drop (length s) h)))"
  using assms by (auto simp: read_events_since_def is_ancestor_iff)

lemma full_verify_clean:
  "clean (full_verify H ls es) \<longleftrightarrow> valid_run H 1 None (sort_key ev_seq es) \<and> fst (parents_are_linear ls)"
  by (auto simp: full_verify_def check_event_chain_eq clean_def run_errors_iff valid_run_split parents_are_linear_def Let_def)

text \<open>A watermark is genuine if the log at its head verified clean and it records that log's end.\<close>

definition genuine :: "(json \<Rightarrow> string) \<Rightarrow> watermark \<Rightarrow> bool" where
  "genuine H wm \<longleftrightarrow> valid_run H 1 None (read_events_from_head (wm_head wm)) \<and>
     wm_last_seq wm = int (length (events_in_range (wm_head wm))) \<and>
     wm_last_id wm = run_tail None (read_events_from_head (wm_head wm)) \<and>
     wm_event_count wm = wm_last_seq wm"

lemma length_read [simp]: "length (read_events_from_head h) = length (events_in_range h)"
  by (simp add: read_events_from_head_def)

lemma read_split:
  "is_ancestor s h \<Longrightarrow> read_events_from_head h =
     sort_key ev_seq (read_events_from_head s @ events_in_range (drop (length s) h))"
  by (auto simp: is_ancestor_iff read_events_from_head_def sort_key_sort_append)

lemma incremental_iff:
  assumes "genuine H wm" "is_ancestor (wm_head wm) h" "h \<noteq> []"
  shows "(\<exists>wm'. try_incremental_verify H ls h wm = Some (r, wm')) \<longleftrightarrow>
      r = full_verify H ls (read_events_from_head h) \<and> clean r"
    and "try_incremental_verify H ls h wm = Some (r, wm') \<Longrightarrow> genuine H wm' \<and> wm_head wm' = h"
proof -
  let ?p = "read_events_from_head (wm_head wm)" and ?new = "sort_key ev_seq (events_in_range (drop (length (wm_head wm)) h))"
  let ?seq = "wm_last_seq wm + 1"
  have p: "valid_run H 1 None ?p" and ls: "wm_last_seq wm = int (length ?p)" and lid: "wm_last_id wm = run_tail None ?p"
    using assms(1) by (simp_all add: genuine_def)
  have all: "read_events_from_head h = sort_key ev_seq (?p @ events_in_range (drop (length (wm_head wm)) h))"
    by (rule read_split [OF assms(2)])
  have run: "valid_run H 1 None (read_events_from_head h) \<longleftrightarrow> valid_run H ?seq (wm_last_id wm) ?new"
    unfolding all valid_suffix [OF p] ls lid by (simp add: add.commute)
  have whole: "read_events_from_head h = ?p @ ?new" if v: "valid_run H ?seq (wm_last_id wm) ?new"
  proof -
    have "a \<in> set ?p \<Longrightarrow> b \<in> set (events_in_range (drop (length (wm_head wm)) h)) \<Longrightarrow> ev_seq a \<le> ev_seq b" for a b
      using valid_run_bounds [OF p, of a] valid_run_bounds [OF v, of b] ls by simp
    from sort_key_append_le [of ?p _ ev_seq, OF this] show ?thesis
      unfolding all by (simp add: valid_run_sort_id [OF p])
  qed
  have inc: "try_incremental_verify H ls h wm =
     (if fst (parents_are_linear ls) \<and> valid_run H ?seq (wm_last_id wm) ?new then
        Some (\<lparr>vr_event_count = wm_last_seq wm + int (length ?new), vr_parents_linear = True,
               vr_content_valid = True, vr_chain_valid = True, vr_errors = [], vr_parent_errors = []\<rparr>,
              \<lparr>wm_head = h, wm_last_seq = (if ?new = [] then wm_last_seq wm else ev_seq (last ?new)),
               wm_last_id = (if ?new = [] then wm_last_id wm else run_tail (wm_last_id wm) ?new),
               wm_event_count = wm_last_seq wm + int (length ?new)\<rparr>)
      else None)"
    unfolding try_incremental_verify_def read_since [OF assms(2,3)] option.case Let_def check_event_chain_eq prod.case
    using valid_run_contiguous [of H ?seq "wm_last_id wm" ?new] run_errors_iff [of H ?seq "wm_last_id wm" ?new]
      valid_run_split [of H ?seq "wm_last_id wm" ?new]
    by (simp add: sort_key_sorted_id)
  have sorted_all: "valid_run H 1 None (sort_key ev_seq (read_events_from_head h)) \<longleftrightarrow> valid_run H ?seq (wm_last_id wm) ?new"
    unfolding run [symmetric] by (simp add: read_events_from_head_def sort_key_sorted_id)
  have eq: "full_verify H ls (read_events_from_head h) =
      \<lparr>vr_event_count = wm_last_seq wm + int (length ?new), vr_parents_linear = True,
       vr_content_valid = True, vr_chain_valid = True, vr_errors = [], vr_parent_errors = []\<rparr>"
    if "clean (full_verify H ls (read_events_from_head h))"
  proof -
    from that have v: "valid_run H ?seq (wm_last_id wm) ?new" by (simp add: full_verify_clean sorted_all)
    have "vr_event_count (full_verify H ls (read_events_from_head h)) = wm_last_seq wm + int (length ?new)"
      using whole [OF v] ls by (simp add: full_verify_def check_event_chain_eq parents_are_linear_def Let_def)
    with that show ?thesis by (cases "full_verify H ls (read_events_from_head h)") (simp add: clean_def)
  qed
  show "(\<exists>wm'. try_incremental_verify H ls h wm = Some (r, wm')) \<longleftrightarrow>
      r = full_verify H ls (read_events_from_head h) \<and> clean r"
  proof
    assume "\<exists>wm'. try_incremental_verify H ls h wm = Some (r, wm')"
    then have l: "fst (parents_are_linear ls)" "valid_run H ?seq (wm_last_id wm) ?new"
      and r: "r = \<lparr>vr_event_count = wm_last_seq wm + int (length ?new), vr_parents_linear = True,
         vr_content_valid = True, vr_chain_valid = True, vr_errors = [], vr_parent_errors = []\<rparr>"
      unfolding inc by (auto split: if_splits)
    from l have c: "clean (full_verify H ls (read_events_from_head h))" by (simp add: full_verify_clean sorted_all)
    with eq [OF c] r show "r = full_verify H ls (read_events_from_head h) \<and> clean r" by simp
  next
    assume "r = full_verify H ls (read_events_from_head h) \<and> clean r"
    then have r: "r = full_verify H ls (read_events_from_head h)" and c: "clean (full_verify H ls (read_events_from_head h))"
      by auto
    from c have "fst (parents_are_linear ls)" "valid_run H ?seq (wm_last_id wm) ?new"
      by (simp_all add: full_verify_clean sorted_all)
    then show "\<exists>wm'. try_incremental_verify H ls h wm = Some (r, wm')"
      unfolding inc r eq [OF c] by simp
  qed
  show "genuine H wm' \<and> wm_head wm' = h" if "try_incremental_verify H ls h wm = Some (r, wm')"
  proof -
    from that have v: "valid_run H ?seq (wm_last_id wm) ?new"
      and wm: "wm' = \<lparr>wm_head = h, wm_last_seq = (if ?new = [] then wm_last_seq wm else ev_seq (last ?new)),
               wm_last_id = (if ?new = [] then wm_last_id wm else run_tail (wm_last_id wm) ?new),
               wm_event_count = wm_last_seq wm + int (length ?new)\<rparr>"
      unfolding inc by (auto split: if_splits)
    have len: "int (length (events_in_range h)) = wm_last_seq wm + int (length ?new)"
      using arg_cong [OF whole [OF v], of length] ls by simp
    have seq: "(if ?new = [] then wm_last_seq wm else ev_seq (last ?new)) = wm_last_seq wm + int (length ?new)"
    proof (cases "?new = []")
      case True
      show ?thesis unfolding True by simp
    next
      case False
      then show ?thesis using valid_run_last_seq [OF v False] by simp
    qed
    have tail: "run_tail None (read_events_from_head h) = (if ?new = [] then wm_last_id wm else run_tail (wm_last_id wm) ?new)"
      unfolding whole [OF v] run_tail_append lid by simp
    show ?thesis
      unfolding genuine_def using v run
      by (simp only: wm watermark.select_convs seq tail len)
  qed
qed

section \<open>A sample log\<close>

definition sample_digest :: "json \<Rightarrow> string" where
  "sample_digest v = (case v of JObj kvs \<Rightarrow> concat (map fst kvs) | _ \<Rightarrow> [])"

definition sample_draft :: event_draft where
  "sample_draft = \<lparr>dr_event_type = ''trace_patch_created'', dr_payload = [(''trace_patch_id'', JStr ''p1'')],
     dr_trace_id = Some ''t1'', dr_generation_index = Some 0, dr_step_index = None, dr_event_time = Some ''now'',
     dr_capture_method = [''hook''], dr_schema_version = None, dr_security_version = None, dr_attribution_version = None\<rparr>"

definition quiet :: "nat \<Rightarrow> log_head \<Rightarrow> log_head" where
  "quiet n h = h"

lemma sample_draft_ok: "draft_ok sample_draft"
  by code_simp

text \<open>A log of one batch of one event.\<close>

definition sample_log :: log_head where
  "sample_log = [\<lparr>lc_batch_id = ''b'', lc_writer = ''w'',
     lc_events = [finalized sample_digest (draft_data ''now'' ''b'' ''w'' 1 None sample_draft)]\<rparr>]"

lemma sample_log_facts:
  "log_ok sample_digest sample_log" "list_all event_ok (events_in_range sample_log)" "sample_log \<noteq> []"
  "length (events_in_range sample_log) = 1"
proof -
  let ?e = "finalized sample_digest (draft_data ''now'' ''b'' ''w'' 1 None sample_draft)"
  have "sealed sample_digest ?e"
    using finalized_addresses [of sample_digest "draft_data ''now'' ''b'' ''w'' 1 None sample_draft"] by (simp add: sealed_def)
  then show "log_ok sample_digest sample_log"
    by (simp add: log_ok_def sample_log_def events_in_range_def draft_data_def)
  show "list_all event_ok (events_in_range sample_log)"
    using sample_draft_ok by (simp add: sample_log_def events_in_range_def event_ok_def draft_ok_def draft_data_def)
  show "sample_log \<noteq> []" "length (events_in_range sample_log) = 1"
    by (simp_all add: sample_log_def events_in_range_def)
qed

lemma sample_watermark:
  "genuine sample_digest \<lparr>wm_head = sample_log, wm_last_seq = 1,
     wm_last_id = run_tail None (events_in_range sample_log), wm_event_count = 1\<rparr>"
  using sample_log_facts by (simp add: genuine_def log_ok_read [OF sample_log_facts(1)]) (simp add: log_ok_def)

section \<open>Properties\<close>

text \<open>
  C8. Appending to the log: from a valid log, and whatever valid batches other processes append in the
  meantime, a successful append extends the ref as its last attempt read it, with everything the others had appended by
  then, and as it still was at the swap, by exactly its own batch: one event per draft, built on that ref. The chain stays valid.
\<close>

theorem append_keeps_chain:
  assumes "log_ok H h" "\<And>n g. log_ok H g \<Longrightarrow> log_ok H (others n g) \<and> is_ancestor g (others n g)" "ds \<noteq> []"
    and "append_event_batch H now batch w others h ds = Inr (es, h')"
  shows "\<exists>k<EVENT_LOG_APPEND_MAX_RETRIES. let base = ref_read others EVENT_LOG_APPEND_MAX_RETRIES k h in
    others k base = base \<and> is_ancestor h base \<and> build_on_head H now (batch k) w base ds = Inr es \<and> length es = length ds \<and>
    h' = base @ [\<lparr>lc_batch_id = batch k, lc_writer = w, lc_events = es\<rparr>] \<and> log_ok H h'"
  using assms(3,4) append_loop_result [OF assms(1,2,3)] by (auto simp: append_event_batch_def split: if_splits)

theorem append_keeps_chain_witness:
  "\<exists>es h'. append_event_batch sample_digest ''now'' (\<lambda>_. ''b2'') ''w'' quiet sample_log [sample_draft] = Inr (es, h') \<and>
     log_ok sample_digest h' \<and> length es = 1"
proof -
  obtain es where "build_on_head sample_digest ''now'' ''b2'' ''w'' sample_log [sample_draft] = Inr es"
    using build_on_head_total [OF sample_log_facts(1)] sample_draft_ok by fastforce
  then have a: "append_event_batch sample_digest ''now'' (\<lambda>_. ''b2'') ''w'' quiet sample_log [sample_draft] =
      Inr (es, sample_log @ [\<lparr>lc_batch_id = ''b2'', lc_writer = ''w'', lc_events = es\<rparr>])"
    by (simp add: append_event_batch_def EVENT_LOG_APPEND_MAX_RETRIES_def quiet_def sample_draft_ok
      update_event_log_ref_def eval_nat_numeral)
  have "log_ok sample_digest g \<Longrightarrow> log_ok sample_digest (quiet n g) \<and> is_ancestor g (quiet n g)" for n g
    by (simp add: quiet_def is_ancestor_iff)
  from append_keeps_chain [OF sample_log_facts(1) this _ a] a show ?thesis by (auto simp: Let_def)
qed

text \<open>
  An append that no other process disturbs succeeds at once: for validated drafts and a valid log
  the batch is built and swapped in on the first of the five attempts.
\<close>

theorem append_undisturbed_succeeds:
  assumes "log_ok H h" "list_all draft_ok ds" "ds \<noteq> []"
  shows "\<exists>es. append_event_batch H now batch w quiet h ds =
      Inr (es, h @ [\<lparr>lc_batch_id = batch 4, lc_writer = w, lc_events = es\<rparr>])"
proof -
  obtain es where "build_on_head H now (batch 4) w h ds = Inr es"
    using build_on_head_total [OF assms(1,2)] by blast
  then show ?thesis
    using assms(2,3) by (simp add: append_event_batch_def EVENT_LOG_APPEND_MAX_RETRIES_def quiet_def
      update_event_log_ref_def eval_nat_numeral)
qed

theorem append_undisturbed_succeeds_witness:
  "\<exists>es. append_event_batch sample_digest ''now'' (\<lambda>_. ''b2'') ''w'' quiet [] [sample_draft] =
     Inr (es, [\<lparr>lc_batch_id = ''b2'', lc_writer = ''w'', lc_events = es\<rparr>])"
  using append_undisturbed_succeeds [of sample_digest "[]" "[sample_draft]" "''now''" "\<lambda>_. ''b2''" "''w''"]
  by (simp add: sample_draft_ok)

text \<open>
  C3. Concurrent writers: in every interleaving of attempts and swaps of any number of writers on the
  log, the log stays a valid chain without empty batches, and no batch that was once swapped in is ever
  lost: each state of the ref is an ancestor of every later one.
\<close>

theorem concurrent_appends_safe:
  assumes "(log_step H)\<^sup>*\<^sup>* ([], \<lambda>_. None) s" "(log_step H)\<^sup>*\<^sup>* s s'"
  shows "log_ok H (fst s') \<and> is_ancestor (fst s) (fst s')"
proof -
  have "shared_ok H s" by (rule steps_ok [OF assms(1)]) (simp add: shared_ok_def)
  then have "shared_ok H s'" by (rule steps_ok [OF assms(2)])
  then show ?thesis using steps_extend [OF assms(2)] by (simp add: shared_ok_def)
qed

theorem concurrent_appends_safe_witness:
  "\<exists>es p. (log_step sample_digest)\<^sup>*\<^sup>* ([], \<lambda>_. None) ([\<lparr>lc_batch_id = ''b'', lc_writer = ''w'', lc_events = es\<rparr>], p) \<and>
     log_ok sample_digest [\<lparr>lc_batch_id = ''b'', lc_writer = ''w'', lc_events = es\<rparr>]"
proof -
  obtain es where b: "build_on_head sample_digest ''now'' ''b'' ''w'' [] [sample_draft] = Inr es"
    using build_on_head_total [of sample_digest "[]" "[sample_draft]"] sample_draft_ok by fastforce
  let ?c = "\<lparr>lc_batch_id = ''b'', lc_writer = ''w'', lc_events = es\<rparr>"
  have 1: "log_step sample_digest ([], \<lambda>_. None) ([], [0 \<mapsto> ([], ?c)])"
    by (rule log_step.begin_attempt [OF _ b]) simp
  have 2: "log_step sample_digest ([], [0 \<mapsto> ([], ?c)]) ([?c], [0 \<mapsto> ([], ?c)](0 := None))"
    by (rule log_step.swap [where w = 0 and h = "[]" and c = ?c]) (simp_all add: update_event_log_ref_def)
  from 1 2 have "(log_step sample_digest)\<^sup>*\<^sup>* ([], \<lambda>_. None) ([?c], [0 \<mapsto> ([], ?c)](0 := None))"
    by (meson converse_rtranclp_into_rtranclp r_into_rtranclp)
  with concurrent_appends_safe [OF rtranclp.rtrancl_refl this] show ?thesis by auto
qed

text \<open>
  The import accepts exactly the streams that sort into a valid chain from sequence 1, and hands
  them on in that order.
\<close>

lemma import_accepts_valid_chains:
  "(validate_import_events H es = Inr ordered) = (valid_run H 1 None (sort_key ev_seq es) \<and> ordered = sort_key ev_seq es)"
  by (auto simp: validate_import_events_def Let_def validate_run_iff [symmetric] split: option.splits)

text \<open>
  Export and import: the events read from a valid log import into an empty repository, and the log
  they give reads back as the same events; importing them again changes nothing.
\<close>

theorem import_round_trip:
  assumes "log_ok H h" "list_all event_ok (events_in_range h)" "h \<noteq> []"
  shows "case import_event_log H b w False None [] [] (read_events_from_head h) of
      Inl e \<Rightarrow> False
    | Inr r \<Rightarrow> im_state r = Imported \<and> log_ok H (im_head r) \<and>
        read_events_from_head (im_head r) = read_events_from_head h \<and>
        map_sum id im_state (import_event_log H b w False None h h (read_events_from_head h)) = Inr ImportCurrent"
proof -
  have v: "valid_run H 1 None (events_in_range h)" using assms(1) by (simp add: log_ok_def)
  have r: "read_events_from_head h = events_in_range h" by (rule log_ok_read [OF assms(1)])
  have ne: "events_in_range h \<noteq> []" using assms(1,3) by (cases h) (auto simp: log_ok_def events_in_range_def)
  have imp: "validate_import_events H (events_in_range h) = Inr (events_in_range h)"
    using v by (simp add: import_accepts_valid_chains valid_run_sort_id)
  show ?thesis
    using imp v ne assms(2,3) by (simp add: import_event_log_def r log_ok_def read_events_from_head_def valid_run_sort_id)
qed

theorem import_round_trip_witness:
  "\<exists>r. import_event_log sample_digest ''b2'' ''w'' False None [] [] (read_events_from_head sample_log) = Inr r \<and>
     read_events_from_head (im_head r) = read_events_from_head sample_log"
  using import_round_trip [OF sample_log_facts(1-3), of "''b2''" "''w''"] by (auto split: sum.splits)

text \<open>
  C20. Verifying only what is new is enough: from a watermark left by a clean verification at an
  ancestor, the incremental pass succeeds exactly when a full pass over the whole log is clean, it
  returns the same report, and the watermark it leaves is again that of a clean verification.
\<close>

theorem incremental_verify_agrees:
  assumes "genuine H wm" "is_ancestor (wm_head wm) h" "h \<noteq> []"
  shows "case try_incremental_verify H ls h wm of
      None \<Rightarrow> \<not> clean (full_verify H ls (read_events_from_head h))
    | Some (r, wm') \<Rightarrow> r = full_verify H ls (read_events_from_head h) \<and> clean r \<and> genuine H wm' \<and> wm_head wm' = h"
  using incremental_iff [OF assms, where ls = ls] by (fastforce split: option.splits)

theorem incremental_verify_agrees_witness:
  "case try_incremental_verify sample_digest [(''c'', [])] sample_log \<lparr>wm_head = sample_log, wm_last_seq = 1,
       wm_last_id = run_tail None (events_in_range sample_log), wm_event_count = 1\<rparr> of
     None \<Rightarrow> \<not> clean (full_verify sample_digest [(''c'', [])] (read_events_from_head sample_log))
   | Some (r, wm') \<Rightarrow> clean r"
  using incremental_verify_agrees [OF sample_watermark, of sample_log "[(''c'', [])]"] sample_log_facts(3)
  by (fastforce simp: is_ancestor_iff split: option.splits)

text \<open>
  Reading through a snapshot is reading the log: a snapshot taken at any head, current, older or
  on a rewritten history, never changes the events returned, and the snapshot kept is again true.
\<close>

theorem snapshot_read_agrees:
  assumes "case snap of None \<Rightarrow> True | Some (sh, es) \<Rightarrow> es = read_events_from_head sh"
  shows "case read_events_incremental snap h of (es, snap') \<Rightarrow>
      es = read_events_from_head h \<and>
      (case snap' of None \<Rightarrow> True | Some (sh, ses) \<Rightarrow> ses = read_events_from_head sh)"
proof (cases snap)
  case None
  then show ?thesis by (simp add: read_events_incremental_def Let_def)
next
  case (Some p)
  obtain sh ses where p: "p = (sh, ses)" by (cases p)
  have ses: "ses = read_events_from_head sh" using assms Some p by simp
  have "is_ancestor sh h \<Longrightarrow> sort_key ev_seq (ses @ events_in_range (drop (length sh) h)) = read_events_from_head h"
    unfolding ses by (rule read_split [symmetric])
  then show ?thesis using ses by (auto simp: Some p read_events_incremental_def Let_def)
qed

theorem snapshot_read_agrees_witness:
  "fst (read_events_incremental (Some ([], [])) sample_log) = read_events_from_head sample_log"
  using snapshot_read_agrees [of "Some ([], [])" sample_log]
  by (simp add: read_events_from_head_def split: prod.splits)

text \<open>
  A snapshot that is not a gap-free sequence from 1, a duplicate offset by a gap included, is
  never served: the events returned are then those of the log itself.
\<close>

lemma corrupt_snapshot_rejected:
  assumes "mset (map ev_seq ses) \<noteq> mset [1 .. int (length ses)]"
  shows "fst (read_events_incremental (Some (h, ses)) h) = read_events_from_head h"
  using assms unfolding events_contiguous_iff [symmetric] by (simp add: read_events_incremental_def Let_def)

lemma corrupt_snapshot_rejected_witness:
  "fst (read_events_incremental (Some (sample_log, events_in_range sample_log @ events_in_range sample_log)) sample_log) =
     read_events_from_head sample_log"
proof (rule corrupt_snapshot_rejected)
  have "mset (map ev_seq (events_in_range sample_log @ events_in_range sample_log)) = {#1, 1#}"
    by (simp add: sample_log_def draft_data_def)
  moreover have "mset [1 .. int (length (events_in_range sample_log @ events_in_range sample_log))] = {#1, 2#}"
    using sample_log_facts(4) by (simp add: upto_rec1)
  ultimately show "mset (map ev_seq (events_in_range sample_log @ events_in_range sample_log)) \<noteq>
      mset [1 .. int (length (events_in_range sample_log @ events_in_range sample_log))]" by simp
qed

text \<open>Two events of different content that the digest cannot tell apart.\<close>

definition digest_clash :: "(json \<Rightarrow> string) \<Rightarrow> trail_event \<Rightarrow> trail_event \<Rightarrow> bool" where
  "digest_clash H a b \<longleftrightarrow> canon (canonical_event_material a) \<noteq> canon (canonical_event_material b) \<and>
     H (canon (canonical_event_material a)) = H (canon (canonical_event_material b))"

lemma sealed_same:
  assumes "sealed H a" "sealed H b" "ev_id a = ev_id b" "\<not> digest_clash H a b" shows "same_content a b"
proof -
  have "H (canon (canonical_event_material a)) = H (canon (canonical_event_material b))"
    using assms(1-3) by (simp add: sealed_def expected_event_id_def event_id_for_def sha256_hex_def)
  then show ?thesis using assms(4) by (simp add: digest_clash_def same_content_def)
qed

lemma run_content:
  "valid_run H i prev es \<Longrightarrow> valid_run H i prev' fs \<Longrightarrow> length es = length fs \<Longrightarrow> run_tail prev es = run_tail prev' fs \<Longrightarrow>
    (\<And>a b. a \<in> set es \<Longrightarrow> b \<in> set fs \<Longrightarrow> \<not> digest_clash H a b) \<Longrightarrow> list_all2 same_content es fs \<and> prev = prev'"
proof (induction es arbitrary: i prev prev' fs)
  case Nil
  then show ?case by simp
next
  case (Cons e es)
  then obtain f fs' where fs: "fs = f # fs'" by (cases fs) auto
  have "list_all2 same_content es fs' \<and> Some (ev_id e) = Some (ev_id f)"
    by (rule Cons.IH [of "i + 1"]) (use Cons.prems in \<open>simp_all add: fs\<close>)
  then have rest: "list_all2 same_content es fs'" and "ev_id e = ev_id f" by auto
  then have sc: "same_content e f" using Cons.prems(1,2) Cons.prems(5) [of e f] by (intro sealed_same [of H]) (simp_all add: fs)
  then have "prev = prev'" using same_content_fields(2) [OF sc] Cons.prems(1,2) by (simp add: fs)
  with rest sc show ?case by (simp add: fs)
qed

lemma tails_length:
  assumes "valid_run H i None es" "valid_run H i None fs" "run_tail None es = run_tail None fs"
    and "\<And>a b. a \<in> set es \<Longrightarrow> b \<in> set fs \<Longrightarrow> \<not> digest_clash H a b"
  shows "length es = length fs"
proof (cases "es = [] \<or> fs = []")
  case True
  then show ?thesis using assms(3) by (auto simp: run_tail_last split: if_splits)
next
  case False
  then have "ev_id (last es) = ev_id (last fs)" using assms(3) by (simp add: run_tail_last)
  moreover have "sealed H (last es)" "sealed H (last fs)" using assms(1,2) False by (simp_all add: valid_run_split list_all_iff)
  ultimately have "same_content (last es) (last fs)" using assms(4) [of "last es" "last fs"] False by (intro sealed_same) simp_all
  then have "ev_seq (last es) = ev_seq (last fs)" by (rule same_content_fields(1))
  then show ?thesis using valid_run_last_seq [OF assms(1)] valid_run_last_seq [OF assms(2)] False by simp
qed

text \<open>
  C29. The chain is tamper evident: two valid logs that end in the same event id have the same number of events and
  agree on the content of each, or two of their own events, one from each, differ in content and have the same digest.
\<close>

theorem chain_tamper_evident:
  assumes "log_ok H h" "log_ok H g" "run_tail None (events_in_range h) = run_tail None (events_in_range g)"
  shows "list_all2 same_content (events_in_range h) (events_in_range g) \<or>
    (\<exists>a\<in>set (events_in_range h). \<exists>b\<in>set (events_in_range g). digest_clash H a b)"
proof -
  note runs = assms(1,2) [unfolded log_ok_def, THEN conjunct1]
  show ?thesis using run_content [OF runs tails_length [OF runs assms(3)] assms(3)] by blast
qed

text \<open>Under a digest that is constant, two logs with different payloads end in the same id; they are the clash.\<close>

definition twin_log :: "string \<Rightarrow> log_head" where
  "twin_log p = [\<lparr>lc_batch_id = ''b'', lc_writer = ''w'',
     lc_events = [finalized (\<lambda>_. ''0'') (draft_data ''now'' ''b'' ''w'' 1 None (sample_draft\<lparr>dr_payload := [(''trace_patch_id'', JStr p)]\<rparr>))]\<rparr>]"

theorem chain_tamper_evident_witness:
  "\<exists>a\<in>set (events_in_range (twin_log ''p1'')). \<exists>b\<in>set (events_in_range (twin_log ''p2'')). digest_clash (\<lambda>_. ''0'') a b"
proof -
  let ?e = "\<lambda>p. finalized (\<lambda>_. ''0'') (draft_data ''now'' ''b'' ''w'' 1 None (sample_draft\<lparr>dr_payload := [(''trace_patch_id'', JStr p)]\<rparr>))"
  have seal: "sealed (\<lambda>_. ''0'') (?e p)" for p by (simp add: sealed_def finalized_addresses)
  have ok: "log_ok (\<lambda>_. ''0'') (twin_log p)" for p
    using seal by (simp add: log_ok_def twin_log_def events_in_range_def draft_data_def)
  have tails: "run_tail None (events_in_range (twin_log p)) = Some (EVENT_ID_PREFIX @ ''0'')" for p
    using seal by (simp add: twin_log_def sealed_def expected_event_id_def event_id_for_def sha256_hex_def)
  have "\<not> same_content (?e ''p1'') (?e ''p2'')"
    using same_content_fields(7) [of "?e ''p1''" "?e ''p2''"] by (auto simp: draft_data_def)
  then have "\<not> list_all2 same_content (events_in_range (twin_log ''p1'')) (events_in_range (twin_log ''p2''))"
    by (simp add: twin_log_def)
  then show ?thesis using chain_tamper_evident [OF ok ok, of "''p1''" "''p2''"] by (simp add: tails)
qed

end
