(* ===== verification/Ids.thy ===== *)
theory Ids
  imports Json
begin

text \<open>
  Object identity and resource references, from \<^verbatim>\<open>core/trails/ids.py\<close>, with the part of
  \<^verbatim>\<open>urllib.parse\<close> it uses: percent quoting of texts below code point 256 (one escape for ASCII, the two
  bytes of UTF-8 otherwise) and the split of an \<^verbatim>\<open>ot://\<close> reference. The digest is a parameter.
\<close>

section \<open>Percent quoting\<close>

definition hex_digit :: "nat \<Rightarrow> char" where
  "hex_digit n = (if n < 10 then char_of (48 + n) else char_of (55 + n))"

definition hex_value :: "char \<Rightarrow> nat option" where
  "hex_value c = (let n = ord_of c in
     if 48 \<le> n \<and> n \<le> 57 then Some (n - 48)
     else if 65 \<le> n \<and> n \<le> 70 then Some (n - 55)
     else if 97 \<le> n \<and> n \<le> 102 then Some (n - 87) else None)"

definition unreserved :: "char \<Rightarrow> bool" where
  "unreserved c = (let n = ord_of c in
     48 \<le> n \<and> n \<le> 57 \<or> 65 \<le> n \<and> n \<le> 90 \<or> 97 \<le> n \<and> n \<le> 122 \<or> c \<in> set ''-._~'')"

definition escape_byte :: "nat \<Rightarrow> string" where
  "escape_byte b = [CHR ''%'', hex_digit (b div 16), hex_digit (b mod 16)]"

definition quote_char :: "char \<Rightarrow> string" where
  "quote_char c =
     (if unreserved c then [c]
      else let n = ord_of c in
        if n < 128 then escape_byte n else escape_byte (192 + n div 64) @ escape_byte (128 + n mod 64))"

definition quote :: "string \<Rightarrow> string" where
  "quote s = concat (map quote_char s)"

text \<open>The bytes of a quoted text: an escape is a byte, any other character itself.\<close>

fun unescape :: "string \<Rightarrow> nat list" where
  "unescape (p # a # b # cs) =
     (if p = CHR ''%'' then
        (case (hex_value a, hex_value b) of
           (Some x, Some y) \<Rightarrow> (16 * x + y) # unescape cs
         | _ \<Rightarrow> ord_of p # unescape (a # b # cs))
      else ord_of p # unescape (a # b # cs))"
| "unescape [c, d] = [ord_of c, ord_of d]"
| "unescape [c] = [ord_of c]"
| "unescape [] = []"

text \<open>UTF-8 of code points below 256; other sequences do not occur in quoted texts of the domain.\<close>

fun utf8_decode :: "nat list \<Rightarrow> string" where
  "utf8_decode (a # b # bs) =
     (if 192 \<le> a \<and> a \<le> 195 \<and> 128 \<le> b \<and> b \<le> 191 then char_of (64 * (a - 192) + (b - 128)) # utf8_decode bs
      else char_of a # utf8_decode (b # bs))"
| "utf8_decode [a] = [char_of a]"
| "utf8_decode [] = []"

definition unquote :: "string \<Rightarrow> string" where
  "unquote s = utf8_decode (unescape s)"

section \<open>Splitting a reference\<close>

definition until :: "char list \<Rightarrow> string \<Rightarrow> string" where
  "until stops s = takeWhile (\<lambda>c. c \<notin> set stops) s"

text \<open>\<^verbatim>\<open>urlparse\<close> drops tabs and line breaks, then splits off the authority, query and fragment.\<close>

definition url_rest :: "string \<Rightarrow> string" where
  "url_rest raw = drop 5 (filter (\<lambda>c. c \<notin> {CHR 9, CHR 10, CHR 13}) raw)"

definition url_netloc :: "string \<Rightarrow> string" where
  "url_netloc raw = until ''/?#'' (url_rest raw)"

definition url_path :: "string \<Rightarrow> string" where
  "url_path raw = until ''?#'' (drop (length (url_netloc raw)) (url_rest raw))"

section \<open>Identifiers\<close>

definition ID_ALGORITHM :: string where "ID_ALGORITHM = ''sha256''"
definition TRACE_PATCH_CANONICALIZATION :: string where "TRACE_PATCH_CANONICALIZATION = ''opentraces.trace_patch.v1''"
definition GIT_ANCHOR_CANONICALIZATION :: string where "GIT_ANCHOR_CANONICALIZATION = ''opentraces.git_anchor.v1''"
definition TRACE_SLICE_CANONICALIZATION :: string where "TRACE_SLICE_CANONICALIZATION = ''opentraces.trace_slice.v1''"
definition SNAPSHOT_CANONICALIZATION :: string where "SNAPSHOT_CANONICALIZATION = ''opentraces.trace_snapshot.v1''"

definition DISPLAY_PREFIX :: "(string, string) dict" where
  "DISPLAY_PREFIX = [(''trace'', ''t''), (''trace_step'', ''step''), (''trace_patch'', ''tp''), (''git_anchor'', ''ga''),
     (''trace_slice'', ''ts''), (''trace_snapshot'', ''snap''), (''git_commit'', ''c''), (''source_session'', ''s'')]"

definition under_to_dash :: "string \<Rightarrow> string" where
  "under_to_dash s = replace_char (CHR ''_'') ''-'' s"

definition resource_ref ::
  "string \<Rightarrow> string \<Rightarrow> string option \<Rightarrow> string option \<Rightarrow> string option \<Rightarrow> string option \<Rightarrow> py_error + string" where
  "resource_ref kind i id_format algorithm repo_ref parent_ref =
     (let safe_id = quote i; alg = (case algorithm of None \<Rightarrow> ID_ALGORITHM | Some a \<Rightarrow> if a = [] then ID_ALGORITHM else a) in
      if kind = ''trace'' then Inr (''ot://trace/'' @ safe_id)
      else if kind = ''trace_step'' then
        (case parent_ref of
           Some p \<Rightarrow> if p = [] then Inl ValueError else Inr (p @ ''/steps/'' @ safe_id)
         | None \<Rightarrow> Inl ValueError)
      else if kind = ''source_session'' then Inr (''ot://source-session/'' @ safe_id)
      else if kind = ''trace_patch'' then Inr (''ot://trace-patch/'' @ alg @ ''/'' @ safe_id)
      else if kind = ''git_anchor'' then Inr (''ot://git-anchor/'' @ alg @ ''/'' @ safe_id)
      else if kind = ''trace_slice'' then Inr (''ot://trace-slice/'' @ alg @ ''/'' @ safe_id)
      else if kind = ''trace_snapshot'' then Inr (''ot://trace-snapshot/'' @ alg @ ''/'' @ safe_id)
      else if kind = ''git_commit'' then
        (let root = (case repo_ref of None \<Rightarrow> ''ot://repo/local'' | Some r \<Rightarrow> if r = [] then ''ot://repo/local'' else r);
             calg = (case algorithm of None \<Rightarrow> ''sha1'' | Some a \<Rightarrow> if a = [] then ''sha1'' else a)
         in Inr (root @ ''/git/commit/'' @ calg @ ''/'' @ safe_id))
      else if id_format = Some ''digest'' then Inr (''ot://'' @ under_to_dash kind @ ''/'' @ alg @ ''/'' @ safe_id)
      else Inr (''ot://'' @ under_to_dash kind @ ''/'' @ safe_id))"

definition display_id :: "string \<Rightarrow> string \<Rightarrow> string" where
  "display_id kind i =
     (case dget DISPLAY_PREFIX kind of None \<Rightarrow> under_to_dash kind | Some p \<Rightarrow> p) @ '':'' @ take 8 i"

definition opt_field :: "string \<Rightarrow> string option \<Rightarrow> (string, json) dict" where
  "opt_field k v = (case v of None \<Rightarrow> [] | Some x \<Rightarrow> if x = [] then [] else [(k, JStr x)])"

record ref_args =
  ra_algorithm :: "string option"
  ra_canonicalization :: "string option"
  ra_provider :: "string option"
  ra_relation :: "string option"
  ra_repo_ref :: "string option"
  ra_parent_ref :: "string option"
  ra_index :: "int option"

definition no_args :: ref_args where
  "no_args = \<lparr>ra_algorithm = None, ra_canonicalization = None, ra_provider = None, ra_relation = None,
     ra_repo_ref = None, ra_parent_ref = None, ra_index = None\<rparr>"

definition object_ref :: "string \<Rightarrow> string \<Rightarrow> string \<Rightarrow> ref_args \<Rightarrow> py_error + json" where
  "object_ref kind i id_format args =
     (case resource_ref kind i (Some id_format) (ra_algorithm args) (ra_repo_ref args) (ra_parent_ref args) of
        Inl e \<Rightarrow> Inl e
      | Inr r \<Rightarrow> Inr (JObj (
          [(''kind'', JStr kind), (''id'', JStr i), (''id_format'', JStr id_format), (''ref'', JStr r),
           (''display_id'', JStr (display_id kind i))] @
          opt_field ''algorithm'' (ra_algorithm args) @ opt_field ''canonicalization'' (ra_canonicalization args) @
          opt_field ''provider'' (ra_provider args) @ opt_field ''relation'' (ra_relation args) @
          opt_field ''repo_ref'' (ra_repo_ref args) @ opt_field ''parent_ref'' (ra_parent_ref args) @
          (case ra_index args of None \<Rightarrow> [] | Some n \<Rightarrow> [(''index'', JInt n)]))))"

definition content_digest :: "(string \<Rightarrow> json \<Rightarrow> string) \<Rightarrow> string \<Rightarrow> json \<Rightarrow> string" where
  "content_digest D canonicalization material = D canonicalization (canon material)"

definition content_ref ::
  "(string \<Rightarrow> json \<Rightarrow> string) \<Rightarrow> string \<Rightarrow> string \<Rightarrow> json \<Rightarrow> string option \<Rightarrow> py_error + json" where
  "content_ref D kind canonicalization material relation =
     object_ref kind (content_digest D canonicalization material) ''digest''
       (no_args\<lparr>ra_algorithm := Some ID_ALGORITHM, ra_canonicalization := Some canonicalization, ra_relation := relation\<rparr>)"

definition last_after_colon :: "string \<Rightarrow> string" where
  "last_after_colon s = last (split_on (CHR '':'') s)"

definition normalize_text :: "string \<Rightarrow> string" where
  "normalize_text raw =
     (let segments = map unquote (filter (\<lambda>w. w \<noteq> []) (split_on (CHR ''/'') (url_path raw)));
          tail = (if CHR '':'' \<in> set raw then lower (last_after_colon raw) else lower raw)
      in if starts_with raw ''ot://'' then
           (if url_netloc raw \<in> {''trace-patch'', ''git-anchor'', ''trace-slice'', ''trace-snapshot''} \<and> length segments \<ge> 2
            then lower (segments ! 1)
            else if url_netloc raw = ''repo'' \<and> length segments \<ge> 5 \<and> segments ! (length segments - 3) = ''commit''
            then lower (last segments)
            else if segments \<noteq> [] then lower (last segments)
            else tail)
         else tail)"

definition normalize_id :: "(json \<Rightarrow> string) \<Rightarrow> json \<Rightarrow> string" where
  "normalize_id repr v =
     normalize_text (py_str repr (case v of JObj d \<Rightarrow> jor (jor (jget d ''id'') (jget d ''hex'')) (JStr []) | _ \<Rightarrow> jor v (JStr [])))"

definition id_from_payload :: "(json \<Rightarrow> string) \<Rightarrow> (string, json) dict \<Rightarrow> string \<Rightarrow> string option" where
  "id_from_payload repr payload kind =
     (let ref = jget payload (kind @ ''_ref''); i = jget payload (kind @ ''_id'') in
      if is_jobj ref \<and> truthy (jfield ref ''id'') then Some (normalize_id repr (jfield ref ''id''))
      else if truthy i then Some (normalize_id repr i) else None)"

definition digest_ref :: "(json \<Rightarrow> string) \<Rightarrow> string \<Rightarrow> string \<Rightarrow> string option \<Rightarrow> json \<Rightarrow> py_error + json" where
  "digest_ref repr kind canonicalization relation i =
     object_ref kind (normalize_id repr i) ''digest''
       (no_args\<lparr>ra_algorithm := Some ID_ALGORITHM, ra_canonicalization := Some canonicalization, ra_relation := relation\<rparr>)"

definition trace_patch_ref :: "(json \<Rightarrow> string) \<Rightarrow> json \<Rightarrow> py_error + json" where
  "trace_patch_ref repr i = digest_ref repr ''trace_patch'' TRACE_PATCH_CANONICALIZATION None i"

definition git_anchor_ref :: "(json \<Rightarrow> string) \<Rightarrow> json \<Rightarrow> string \<Rightarrow> py_error + json" where
  "git_anchor_ref repr i relation = digest_ref repr ''git_anchor'' GIT_ANCHOR_CANONICALIZATION (Some relation) i"

definition trace_slice_ref :: "(json \<Rightarrow> string) \<Rightarrow> json \<Rightarrow> py_error + json" where
  "trace_slice_ref repr i = digest_ref repr ''trace_slice'' TRACE_SLICE_CANONICALIZATION None i"

definition trace_snapshot_ref :: "(json \<Rightarrow> string) \<Rightarrow> json \<Rightarrow> py_error + json" where
  "trace_snapshot_ref repr i = digest_ref repr ''trace_snapshot'' SNAPSHOT_CANONICALIZATION None i"

text \<open>A relation that is not a text is not written by any caller; its text is used.\<close>

definition ref_from_payload :: "(json \<Rightarrow> string) \<Rightarrow> (string, json) dict \<Rightarrow> string \<Rightarrow> py_error + json option" where
  "ref_from_payload repr payload kind =
     (let existing = jget payload (kind @ ''_ref'') in
      if is_jobj existing \<and> truthy (jfield existing ''kind'') \<and> truthy (jfield existing ''id'') then Inr (Some existing)
      else case id_from_payload repr payload kind of None \<Rightarrow> Inr None
        | Some i \<Rightarrow>
            if i = [] then Inr None
            else if kind = ''trace_patch'' then map_sum id Some (trace_patch_ref repr (JStr i))
            else if kind = ''git_anchor'' then
              map_sum id Some (git_anchor_ref repr (JStr i)
                (py_str repr (jor (jget payload ''relation'') (JStr ''anchored_in_git''))))
            else if kind = ''trace_slice'' then map_sum id Some (trace_slice_ref repr (JStr i))
            else if kind = ''trace_snapshot'' then map_sum id Some (trace_snapshot_ref repr (JStr i))
            else Inr None)"

definition is_lower_hex :: "char \<Rightarrow> bool" where
  "is_lower_hex c = (let n = ord_of c in 48 \<le> n \<and> n \<le> 57 \<or> 97 \<le> n \<and> n \<le> 102)"

definition is_digest :: "string \<Rightarrow> bool" where
  "is_digest s \<longleftrightarrow> length s = 64 \<and> list_all is_lower_hex s"

definition assert_digest :: "(json \<Rightarrow> string) \<Rightarrow> json \<Rightarrow> py_error + string" where
  "assert_digest repr v = (let x = normalize_id repr v in if is_digest x then Inr x else Inl ValueError)"

section \<open>Facts\<close>

lemma hex_round_trip: "n < 16 \<Longrightarrow> hex_value (hex_digit n) = Some n"
  by (auto simp: hex_value_def hex_digit_def ord_of_def Let_def)

lemma ord_of_less [simp]: "ord_of c < 256"
  by (simp add: ord_of_def)

lemma char_of_ord [simp]: "char_of (ord_of c) = c"
  by (simp add: ord_of_def)

lemma unescape_plain: "c \<noteq> CHR ''%'' \<Longrightarrow> unescape (c # cs) = ord_of c # unescape cs"
  by (cases cs rule: list.exhaust; cases "tl cs") auto

lemma unescape_byte: "b < 256 \<Longrightarrow> unescape (escape_byte b @ cs) = b # unescape cs"
  by (simp add: escape_byte_def hex_round_trip)

lemma unreserved_not_percent: "unreserved c \<Longrightarrow> c \<noteq> CHR ''%''"
  by (auto simp: unreserved_def ord_of_def)

definition char_bytes :: "char \<Rightarrow> nat list" where
  "char_bytes c = (let n = ord_of c in if n < 128 then [n] else [192 + n div 64, 128 + n mod 64])"

lemma unreserved_ascii: "unreserved c \<Longrightarrow> ord_of c < 128"
  by (auto simp: unreserved_def ord_of_def Let_def)

lemma unescape_quote_char: "unescape (quote_char c @ cs) = char_bytes c @ unescape cs"
proof (cases "unreserved c")
  case True
  then show ?thesis
    using unescape_plain [OF unreserved_not_percent [OF True]] unreserved_ascii [OF True]
    by (simp add: quote_char_def char_bytes_def)
next
  case False
  have "ord_of c div 64 < 4" by (rule less_mult_imp_div_less) simp
  moreover have "ord_of c mod 64 < 64" by simp
  ultimately have "192 + ord_of c div 64 < 256" "128 + ord_of c mod 64 < 256" by linarith+
  then show ?thesis using False
    by (simp add: quote_char_def char_bytes_def Let_def unescape_byte)
qed

lemma utf8_bytes: "utf8_decode (char_bytes c @ bs) = c # utf8_decode bs"
proof (cases "ord_of c < 128")
  case True
  then show ?thesis by (cases bs) (auto simp: char_bytes_def)
next
  case False
  let ?n = "ord_of c"
  have "?n div 64 < 4" by (rule less_mult_imp_div_less) simp
  moreover have "?n mod 64 < 64" "64 * (?n div 64) + ?n mod 64 = ?n" by simp_all
  ultimately have "?n div 64 \<le> 3" "?n mod 64 \<le> 63" "64 * (?n div 64) + ?n mod 64 = ?n" by linarith+
  then show ?thesis using False by (simp add: char_bytes_def Let_def)
qed

lemma unescape_quote: "unescape (quote s) = concat (map char_bytes s)"
  by (induction s) (auto simp: quote_def unescape_quote_char)

lemma utf8_concat: "utf8_decode (concat (map char_bytes s)) = s"
  by (induction s) (auto simp: utf8_bytes)

lemma unquote_quote [simp]: "unquote (quote s) = s"
  by (simp add: unquote_def unescape_quote utf8_concat)

text \<open>A quoted text has none of the characters that structure a reference.\<close>

definition structural :: "char \<Rightarrow> bool" where
  "structural c \<longleftrightarrow> c \<in> {CHR 9, CHR 10, CHR 13} \<union> set ''/?#:''"

lemma hex_digits_plain: "list_all (\<lambda>n. \<not> structural (hex_digit n)) [0 ..< 16]"
  by code_simp

lemma hex_digit_not_structural: "n < 16 \<Longrightarrow> \<not> structural (hex_digit n)"
  using hex_digits_plain by (simp add: list_all_iff)

lemma unreserved_not_structural: "unreserved c \<Longrightarrow> \<not> structural c"
  by (auto simp: structural_def unreserved_def ord_of_def)

lemma quote_char_not_structural: "d \<in> set (quote_char c) \<Longrightarrow> \<not> structural d"
proof -
  have byte: "d \<in> set (escape_byte b) \<Longrightarrow> b < 256 \<Longrightarrow> \<not> structural d" for b
  proof -
    assume d: "d \<in> set (escape_byte b)" and "b < 256"
    then have "b div 16 < 16" "b mod 16 < 16" by (simp_all add: less_mult_imp_div_less)
    with d hex_digit_not_structural show "\<not> structural d"
      by (auto simp: escape_byte_def) (simp add: structural_def)
  qed
  have "ord_of c div 64 < 4" by (rule less_mult_imp_div_less) simp
  moreover have "ord_of c mod 64 < 64" by simp
  ultimately have "192 + ord_of c div 64 < 256" "128 + ord_of c mod 64 < 256" by linarith+
  moreover assume "d \<in> set (quote_char c)"
  then consider "unreserved c" "d = c" | "ord_of c < 128" "d \<in> set (escape_byte (ord_of c))"
    | "d \<in> set (escape_byte (192 + ord_of c div 64))" | "d \<in> set (escape_byte (128 + ord_of c mod 64))"
    by (auto simp: quote_char_def Let_def split: if_splits)
  ultimately show ?thesis
    using byte unreserved_not_structural ord_of_less by metis
qed

lemma quote_not_structural: "d \<in> set (quote s) \<Longrightarrow> \<not> structural d"
  by (auto simp: quote_def dest: quote_char_not_structural)

lemma quote_char_nonempty: "quote_char c \<noteq> []"
  by (simp add: quote_char_def escape_byte_def Let_def)

lemma quote_Nil_iff [simp]: "quote s = [] \<longleftrightarrow> s = []"
  by (cases s) (simp_all add: quote_def quote_char_nonempty)

lemma split_on_plain: "d \<notin> set s \<Longrightarrow> split_on d s = [s]"
  by (induction s) auto

lemma split_on_append: "d \<notin> set s \<Longrightarrow> split_on d (s @ d # t) = s # split_on d t"
  by (induction s) auto

lemma takeWhile_stop: "(\<forall>c\<in>set s. P c) \<Longrightarrow> \<not> P d \<Longrightarrow> takeWhile P (s @ d # t) = s"
  by (induction s) auto

text \<open>The reference of an object of one of the four digest kinds names the identifier it was built from.\<close>

lemma normalize_ref_text:
  assumes "i \<noteq> []" "net \<in> {''trace-patch'', ''git-anchor'', ''trace-slice'', ''trace-snapshot''}"
  shows "normalize_text (''ot://'' @ net @ ''/sha256/'' @ quote i) = lower i"
proof -
  let ?raw = "''ot://'' @ net @ ''/sha256/'' @ quote i"
  have q: "d \<notin> set (quote i)" if "structural d" for d using quote_not_structural that by blast
  have plain: "filter (\<lambda>c. c \<notin> {CHR 9, CHR 10, CHR 13}) (quote i) = quote i"
    by (rule filter_True) (use q in \<open>auto simp: structural_def\<close>)
  have rest: "url_rest ?raw = net @ ''/sha256/'' @ quote i"
    using assms(2) plain by (auto simp: url_rest_def)
  have net: "url_netloc ?raw = net"
    unfolding url_netloc_def rest until_def using assms(2) by auto
  have "takeWhile (\<lambda>c. c \<notin> set ''?#'') (''/sha256/'' @ quote i) = ''/sha256/'' @ quote i"
    using q by (auto simp: structural_def takeWhile_eq_all_conv)
  then have path: "url_path ?raw = ''/sha256/'' @ quote i"
    unfolding url_path_def rest net until_def by simp
  have "split_on (CHR ''/'') (''/sha256/'' @ quote i) = [[], ''sha256'', quote i]"
    using q [of "CHR ''/''"] split_on_plain by (simp add: structural_def)
  then have "map unquote (filter (\<lambda>w. w \<noteq> []) (split_on (CHR ''/'') (url_path ?raw))) = [unquote ''sha256'', i]"
    using assms(1) unfolding path by simp
  moreover have "starts_with ?raw ''ot://''" by (simp add: starts_with_def)
  ultimately show ?thesis using net assms(2)
    unfolding normalize_text_def Let_def by (simp only: if_True) simp
qed

lemma ref_shape:
  assumes "kind \<in> {''trace_patch'', ''git_anchor'', ''trace_slice'', ''trace_snapshot''}"
  shows "resource_ref kind i f None rr pr = Inr (''ot://'' @ under_to_dash kind @ ''/sha256/'' @ quote i)"
    and "under_to_dash kind \<in> {''trace-patch'', ''git-anchor'', ''trace-slice'', ''trace-snapshot''}"
  using assms by (elim insertE emptyE; simp add: resource_ref_def ID_ALGORITHM_def under_to_dash_def replace_char_def)+

section \<open>Properties\<close>

text \<open>
  References resolve to what they were built from: the resource reference of a patch, an anchor, a
  slice or a snapshot, whatever characters its identifier has, normalises back to that identifier in
  lower case.
\<close>

theorem ref_round_trip:
  assumes "kind \<in> {''trace_patch'', ''git_anchor'', ''trace_slice'', ''trace_snapshot''}" "i \<noteq> []"
    and "resource_ref kind i f None rr pr = Inr r"
  shows "normalize_id repr (JStr r) = lower i"
proof -
  let ?net = "under_to_dash kind"
  have net: "?net \<in> {''trace-patch'', ''git-anchor'', ''trace-slice'', ''trace-snapshot''}"
    and r: "r = ''ot://'' @ ?net @ ''/sha256/'' @ quote i"
    using ref_shape(1) [OF assms(1), of i f rr pr] ref_shape(2) [OF assms(1)] assms(3) by simp_all
  have "r \<noteq> []" unfolding r by simp
  then have "normalize_id repr (JStr r) = normalize_text r"
    by (simp add: normalize_id_def jor_def)
  also have "\<dots> = lower i" unfolding r by (rule normalize_ref_text [OF assms(2) net])
  finally show ?thesis .
qed

theorem ref_round_trip_witness:
  "normalize_id (\<lambda>_. []) (JStr ''ot://trace-patch/sha256/a%2Fb'') = ''a/b''"
proof -
  have "resource_ref ''trace_patch'' ''a/b'' None None None None = Inr ''ot://trace-patch/sha256/a%2Fb''"
    by code_simp
  from ref_round_trip [OF _ _ this, of "\<lambda>_. []"]
  have "normalize_id (\<lambda>_. []) (JStr ''ot://trace-patch/sha256/a%2Fb'') = lower ''a/b''" by simp
  also have "lower ''a/b'' = ''a/b''" by code_simp
  finally show ?thesis .
qed

end
