(* ===== verification/SearchRecords.thy ===== *)
theory SearchRecords
  imports EventModel Ids
begin

text \<open>
  The one reader and writer of anchor-search events, from \<^verbatim>\<open>core/trails/search_records.py\<close>: the legacy
  per-patch event, the mixed summary and the two compact summaries, the coverage claims, and the
  keep-first index that resolves them.
\<close>

definition ANCHOR_SEARCH_EVENT_TYPE :: string where
  "ANCHOR_SEARCH_EVENT_TYPE = ''git_anchor_search_completed''"

definition ANCHOR_SEARCH_COVERAGE_SCHEMA_VERSION :: string where
  "ANCHOR_SEARCH_COVERAGE_SCHEMA_VERSION = ''opentraces.trail.anchor_search.v3''"

definition is_summary_payload :: "(string, json) dict \<Rightarrow> bool" where
  "is_summary_payload p \<longleftrightarrow> jget p ''summary'' = JBool True \<or> is_jlist (jget p ''results'')"

definition is_summary_search_event :: "trail_event \<Rightarrow> bool" where
  "is_summary_search_event e \<longleftrightarrow> ev_type e = ANCHOR_SEARCH_EVENT_TYPE \<and> is_summary_payload (ev_payload e)"

text \<open>\<^verbatim>\<open>any(...)\<close> over the entries stops at the first hit; no entry raises.\<close>

definition summary_search_touches_trace :: "trail_event \<Rightarrow> string \<Rightarrow> py_error + bool" where
  "summary_search_touches_trace e tid =
     (if \<not> is_summary_search_event e then Inr False
      else case iter_or_empty (jget (ev_payload e) ''results'') of Inl err \<Rightarrow> Inl err
      | Inr xs \<Rightarrow> Inr (list_ex (\<lambda>x. is_jobj x \<and> jfield x ''trace_id'' = JStr tid) xs))"

section \<open>The writer\<close>

type_synonym entry = "(string, json) dict"

definition is_anchored :: "entry \<Rightarrow> bool" where
  "is_anchored r \<longleftrightarrow> jget r ''result'' = JStr ''anchored''"

definition build_anchor_search_summary_payload ::
  "string \<Rightarrow> json \<Rightarrow> json list \<Rightarrow> entry list \<Rightarrow> json option \<Rightarrow> string list option \<Rightarrow> py_error + (string, json) dict" where
  "build_anchor_search_summary_payload schema search_head algorithms results coverage unanchored =
     (if coverage \<noteq> None \<and> unanchored \<noteq> None then Inl AssertionError
      else
        (let anchored_only = (coverage \<noteq> None \<or> unanchored \<noteq> None);
             anchored = filter is_anchored results
         in Inr (
           [(''schema_version'', JStr schema), (''summary'', JBool True), (''search_head'', search_head),
            (''algorithms_attempted'', JList algorithms), (''searched'', JInt (int (length results))),
            (''anchored'', JInt (int (length anchored))),
            (''unknown'', JInt (int (length results) - int (length anchored))),
            (''results'', JList (map JObj (if anchored_only then anchored else results)))] @
           (case coverage of None \<Rightarrow> [] | Some c \<Rightarrow> [(''coverage'', c)]) @
           (case unanchored of None \<Rightarrow> [] | Some ids \<Rightarrow> [(''unanchored_trace_patch_ids'', JList (map JStr ids))]))))"

section \<open>The reader\<close>

record search_record =
  pr_patch_id :: "string option"
  pr_patch_ref :: "json option"
  pr_trace :: json
  pr_step :: json
  pr_gen :: json
  pr_head :: json
  pr_head_sha :: json
  pr_algorithms :: "json list"
  pr_result :: json
  pr_anchor_ids :: "string list"
  pr_attribution :: string
  pr_event_id :: string
  pr_event_seq :: int
  pr_event_type :: string
  pr_capture :: "string list"
  pr_event_time :: string

definition head_hex :: "json \<Rightarrow> json" where
  "head_hex search_head = jfield search_head ''hex''"

definition normalized_anchor_ids :: "(json \<Rightarrow> string) \<Rightarrow> json \<Rightarrow> py_error + string list" where
  "normalized_anchor_ids repr raw =
     (case iter_or_empty raw of Inl e \<Rightarrow> Inl e | Inr xs \<Rightarrow> Inr (map (normalize_id repr) (filter truthy xs)))"

definition mk_record ::
  "(json \<Rightarrow> string) \<Rightarrow> trail_event \<Rightarrow> string option \<Rightarrow> json \<Rightarrow> json \<Rightarrow> json \<Rightarrow> json \<Rightarrow> json \<Rightarrow> json \<Rightarrow> json \<Rightarrow>
    py_error + search_record" where
  "mk_record repr e pid trace stp gen result created search_head algorithms =
     (case iter_or_empty algorithms of Inl err \<Rightarrow> Inl err
      | Inr algs \<Rightarrow> (case normalized_anchor_ids repr created of Inl err \<Rightarrow> Inl err
      | Inr anchors \<Rightarrow>
          (case (case pid of None \<Rightarrow> Inr None
                 | Some p \<Rightarrow> if p = [] then Inr None else map_sum id Some (trace_patch_ref repr (JStr p))) of
             Inl err \<Rightarrow> Inl err
           | Inr ref \<Rightarrow> Inr
              \<lparr>pr_patch_id = pid, pr_patch_ref = ref, pr_trace = trace, pr_step = stp, pr_gen = gen,
               pr_head = search_head, pr_head_sha = head_hex search_head, pr_algorithms = algs, pr_result = result,
               pr_anchor_ids = anchors, pr_attribution = ev_attribution e, pr_event_id = ev_id e,
               pr_event_seq = ev_seq e, pr_event_type = ev_type e, pr_capture = ev_capture e,
               pr_event_time = ev_time e\<rparr>)))"

definition result_record :: "(json \<Rightarrow> string) \<Rightarrow> trail_event \<Rightarrow> json \<Rightarrow> py_error + search_record list" where
  "result_record repr e x =
     (case x of
        JObj d \<Rightarrow> map_sum id (\<lambda>r. [r])
          (mk_record repr e (if truthy (jget d ''trace_patch_id'') then Some (normalize_id repr (jget d ''trace_patch_id'')) else None)
            (jget d ''trace_id'') (jget d ''step_index'') (jget d ''generation_index'') (jget d ''result'')
            (jget d ''created_anchor_ids'') (jget (ev_payload e) ''search_head'')
            (jget (ev_payload e) ''algorithms_attempted''))
      | _ \<Rightarrow> Inr [])"

definition unanchored_record :: "(json \<Rightarrow> string) \<Rightarrow> trail_event \<Rightarrow> json \<Rightarrow> py_error + search_record list" where
  "unanchored_record repr e x =
     (if \<not> truthy x then Inr []
      else map_sum id (\<lambda>r. [r])
        (mk_record repr e (Some (normalize_id repr x)) JNull JNull JNull (JStr ''unknown'') JNull
          (jget (ev_payload e) ''search_head'') (jget (ev_payload e) ''algorithms_attempted'')))"

definition concat_err :: "('a \<Rightarrow> 'e + 'b list) \<Rightarrow> 'a list \<Rightarrow> 'e + 'b list" where
  "concat_err f xs = map_sum id concat (map_err f xs)"

definition iter_search_records :: "(json \<Rightarrow> string) \<Rightarrow> trail_event \<Rightarrow> py_error + search_record list" where
  "iter_search_records repr e =
     (if ev_type e \<noteq> ANCHOR_SEARCH_EVENT_TYPE then Inr []
      else
        (let p = ev_payload e in
         if is_summary_search_event e then
           (case iter_or_empty (jget p ''results'') of Inl err \<Rightarrow> Inl err
            | Inr xs \<Rightarrow> (case concat_err (result_record repr e) xs of Inl err \<Rightarrow> Inl err
            | Inr rs \<Rightarrow> (case iter_or_empty (jget p ''unanchored_trace_patch_ids'') of Inl err \<Rightarrow> Inl err
            | Inr us \<Rightarrow> (case concat_err (unanchored_record repr e) us of Inl err \<Rightarrow> Inl err
            | Inr rs' \<Rightarrow> Inr (rs @ rs')))))
         else map_sum id (\<lambda>r. [r])
           (mk_record repr e (id_from_payload repr p ''trace_patch'') (of_opt_str (ev_trace e)) (of_opt_int (ev_step e))
             (of_opt_int (ev_gen e)) (jget p ''result'') (jget p ''created_anchor_ids'') (jget p ''search_head'')
             (jget p ''algorithms_attempted''))))"

section \<open>Coverage claims\<close>

record coverage_claim =
  cc_head_sha :: json
  cc_scope :: json
  cc_through :: string
  cc_attribution :: string

definition iter_coverage_claims :: "(json \<Rightarrow> string) \<Rightarrow> trail_event \<Rightarrow> coverage_claim list" where
  "iter_coverage_claims repr e =
     (if ev_type e \<noteq> ANCHOR_SEARCH_EVENT_TYPE then []
      else case jget (ev_payload e) ''coverage'' of
        JObj c \<Rightarrow>
          (if truthy (jget c ''through_trace_patch_id'') then
             [\<lparr>cc_head_sha = head_hex (jget (ev_payload e) ''search_head''), cc_scope = jget c ''scope_trace_id'',
               cc_through = normalize_id repr (jget c ''through_trace_patch_id''), cc_attribution = ev_attribution e\<rparr>]
           else [])
      | _ \<Rightarrow> [])"

fun position_index :: "(json \<Rightarrow> string) \<Rightarrow> int \<Rightarrow> trail_event list \<Rightarrow> (string, int) dict \<Rightarrow> (string, int) dict" where
  "position_index repr n [] idx = idx"
| "position_index repr n (e # es) idx =
     position_index repr (n + 1) es
       (case id_from_payload repr (ev_payload e) ''trace_patch'' of
          None \<Rightarrow> idx
        | Some p \<Rightarrow> if p \<noteq> [] \<and> \<not> dmem idx p then dset idx p n else idx)"

definition build_patch_position_index :: "(json \<Rightarrow> string) \<Rightarrow> trail_event list \<Rightarrow> (string, int) dict" where
  "build_patch_position_index repr es = position_index repr 0 es []"

definition resolve_coverage_claims :: "coverage_claim list \<Rightarrow> (string \<Rightarrow> int option) \<Rightarrow> (coverage_claim \<times> int) list" where
  "resolve_coverage_claims claims position_of =
     concat (map (\<lambda>c. case position_of (cc_through c) of None \<Rightarrow> [] | Some p \<Rightarrow> [(c, p)]) claims)"

definition covered_by_claim :: "int \<Rightarrow> string option \<Rightarrow> (coverage_claim \<times> int) list \<Rightarrow> bool" where
  "covered_by_claim position trace resolved =
     list_ex (\<lambda>(c, b). position \<le> b \<and> (cc_scope c = JNull \<or> cc_scope c = of_opt_str trace)) resolved"

section \<open>Properties of the index\<close>

text \<open>An event adds its own id at its rank, unless it has none or the id is known.\<close>

definition patch_id_of :: "(json \<Rightarrow> string) \<Rightarrow> trail_event \<Rightarrow> string option" where
  "patch_id_of repr e =
     (case id_from_payload repr (ev_payload e) ''trace_patch'' of None \<Rightarrow> None | Some p \<Rightarrow> if p = [] then None else Some p)"

lemma position_index_keeps:
  "dget idx p = Some n \<Longrightarrow> dget (position_index repr k es idx) p = Some n"
  by (induction es arbitrary: k idx) (auto simp: dmem_def split: option.split)

lemma position_index_get:
  "dget idx p = None \<Longrightarrow> dget (position_index repr k es idx) p =
     map_option (\<lambda>j. k + int j) (case find (\<lambda>j. patch_id_of repr (es ! j) = Some p) [0 ..< length es] of None \<Rightarrow> None | Some j \<Rightarrow> Some j)"
proof (induction es arbitrary: k idx)
  case Nil
  then show ?case by simp
next
  case (Cons e es)
  have shift: "find (\<lambda>j. patch_id_of repr ((e # es) ! j) = Some p) [0 ..< length (e # es)] =
      (if patch_id_of repr e = Some p then Some 0
       else map_option Suc (find (\<lambda>j. patch_id_of repr (es ! j) = Some p) [0 ..< length es]))"
  proof -
    have "[0 ..< length (e # es)] = 0 # map Suc [0 ..< length es]"
      by (simp add: upt_conv_Cons map_Suc_upt del: upt_Suc)
    moreover have "find P (map Suc xs) = map_option Suc (find (\<lambda>j. P (Suc j)) xs)" for P xs
      by (induction xs) auto
    ultimately show ?thesis by simp
  qed
  show ?case
  proof (cases "patch_id_of repr e = Some p")
    case True
    then have "position_index repr k (e # es) idx = position_index repr (k + 1) es (dset idx p k)"
      using Cons.prems by (auto simp: patch_id_of_def dmem_def split: option.splits if_splits)
    then show ?thesis
      unfolding shift using True position_index_keeps [of "dset idx p k" p k] by simp
  next
    case False
    let ?idx = "case id_from_payload repr (ev_payload e) ''trace_patch'' of None \<Rightarrow> idx
        | Some q \<Rightarrow> if q \<noteq> [] \<and> \<not> dmem idx q then dset idx q k else idx"
    have "dget ?idx p = None"
      using False Cons.prems by (auto simp: patch_id_of_def split: option.split)
    from Cons.IH [OF this, of "k + 1"] show ?thesis
      unfolding shift using False by (simp add: option.map_comp comp_def algebra_simps split: option.split)
  qed
qed

lemma build_index_get:
  "dget (build_patch_position_index repr es) p =
     map_option int (find (\<lambda>j. patch_id_of repr (es ! j) = Some p) [0 ..< length es])"
  unfolding build_patch_position_index_def by (subst position_index_get) (auto split: option.split)

lemma find_prefix:
  "find P [0 ..< n] = Some j \<Longrightarrow> n \<le> m \<Longrightarrow> find P [0 ..< m] = Some j"
proof -
  assume f: "find P [0 ..< n] = Some j" and "n \<le> m"
  then have "[0 ..< m] = [0 ..< n] @ [n ..< m]" by (metis le0 le_add_diff_inverse upt_add_eq_append)
  moreover have "find P (xs @ ys) = (case find P xs of None \<Rightarrow> find P ys | Some x \<Rightarrow> Some x)" for xs ys :: "nat list"
    by (induction xs) auto
  ultimately show ?thesis using f by simp
qed

lemma find_cong_upto: "(\<And>j. j < n \<Longrightarrow> P j = Q j) \<Longrightarrow> find P [0 ..< n] = find Q [0 ..< n]"
  by (rule find_cong) auto

text \<open>A position, once assigned, never moves as the log grows, and lies before what is appended.\<close>

lemma index_stable:
  assumes "dget (build_patch_position_index repr es) p = Some b"
  shows "dget (build_patch_position_index repr (es @ fs)) p = Some b" and "b < int (length es)"
proof -
  from assms obtain j where j: "find (\<lambda>j. patch_id_of repr (es ! j) = Some p) [0 ..< length es] = Some j" "b = int j"
    by (auto simp: build_index_get)
  have "find (\<lambda>j. patch_id_of repr ((es @ fs) ! j) = Some p) [0 ..< length es] =
      find (\<lambda>j. patch_id_of repr (es ! j) = Some p) [0 ..< length es]"
    by (rule find_cong_upto) (simp add: nth_append)
  with j(1) have "find (\<lambda>j. patch_id_of repr ((es @ fs) ! j) = Some p) [0 ..< length es] = Some j" by simp
  from find_prefix [OF this, of "length (es @ fs)"] j(2)
  show "dget (build_patch_position_index repr (es @ fs)) p = Some b" by (simp add: build_index_get)
  show "b < int (length es)" using j by (auto simp: find_Some_iff)
qed

text \<open>
  Coverage never creeps: the boundary of a claim, once its patch is in the log, stays where it is
  however many patches, duplicates of its own included, are appended later, and no patch ingested after
  it is ever covered by it. A claim whose patch is unknown covers nothing.
\<close>

theorem coverage_never_creeps:
  "case dget (build_patch_position_index repr es) (cc_through c) of
     None \<Rightarrow> resolve_coverage_claims [c] (dget (build_patch_position_index repr es)) = []
   | Some b \<Rightarrow> resolve_coverage_claims [c] (dget (build_patch_position_index repr (es @ fs))) = [(c, b)] \<and>
       \<not> covered_by_claim (int (length es) + int k) tr [(c, b)]"
  using index_stable(1) [where es = es and fs = fs and p = "cc_through c" and repr = repr]
    index_stable(2) [where es = es and p = "cc_through c" and repr = repr]
  by (auto simp: resolve_coverage_claims_def covered_by_claim_def split: option.split)

end
