(* ===== verification/SearchCompaction.thy ===== *)
theory SearchCompaction
  imports SearchRecords EventLogProps
begin

text \<open>
  The rewrite of \<^verbatim>\<open>core/trails/search_compaction.py\<close>: legacy per-patch search events of one
  (batch, head) are folded into one compact summary at the place of the first, mixed summaries are
  rewritten in place, everything else passes through, and the chain is sealed anew. In memory, streaming
  batch by batch, and as an extension of a compacted base.
\<close>

definition COMPACTION_BATCH_ID :: string where "COMPACTION_BATCH_ID = ''anchor-search-compaction''"
definition COMPACTION_WRITER :: string where "COMPACTION_WRITER = ''anchor-search-compaction''"

record compaction_stats =
  cs_events_in :: nat
  cs_events_out :: nat
  cs_legacy_in :: nat
  cs_summary_in :: nat
  cs_summary_out :: nat
  cs_groups_collapsed :: nat
  cs_fat_rewritten :: nat
  cs_non_search :: nat

definition zero_stats :: compaction_stats where
  "zero_stats = \<lparr>cs_events_in = 0, cs_events_out = 0, cs_legacy_in = 0, cs_summary_in = 0, cs_summary_out = 0,
     cs_groups_collapsed = 0, cs_fat_rewritten = 0, cs_non_search = 0\<rparr>"

record summary_slot =
  sl_head :: json
  sl_algorithms :: "json list"
  sl_capture :: "string list"
  sl_schema :: string
  sl_security :: string
  sl_attribution :: string
  sl_time :: string
  sl_results :: "entry list"

datatype slot = PassSlot trail_event | SumSlot summary_slot

definition is_legacy_search :: "trail_event \<Rightarrow> bool" where
  "is_legacy_search e \<longleftrightarrow> ev_type e = ANCHOR_SEARCH_EVENT_TYPE \<and> \<not> is_summary_search_event e"

definition is_already_v3_shaped :: "(string, json) dict \<Rightarrow> bool" where
  "is_already_v3_shaped p \<longleftrightarrow> dmem p ''coverage'' \<or> dmem p ''unanchored_trace_patch_ids''"

definition result_entry_from_legacy :: "trail_event \<Rightarrow> entry" where
  "result_entry_from_legacy e =
     [(''trace_patch_id'', jget (ev_payload e) ''trace_patch_id''),
      (''trace_id'', of_opt_str (ev_trace e)),
      (''step_index'', of_opt_int (ev_step e)),
      (''generation_index'', of_opt_int (ev_gen e)),
      (''result'', jget (ev_payload e) ''result''),
      (''created_anchor_ids'', jor (jget (ev_payload e) ''created_anchor_ids'') (JList []))]"

definition slot_of :: "trail_event \<Rightarrow> json list \<Rightarrow> entry list \<Rightarrow> summary_slot" where
  "slot_of e algs results =
     \<lparr>sl_head = jget (ev_payload e) ''search_head'', sl_algorithms = algs, sl_capture = ev_capture e,
      sl_schema = ev_schema e, sl_security = ev_security e, sl_attribution = ev_attribution e,
      sl_time = ev_time e, sl_results = results\<rparr>"

section \<open>The plan\<close>

text \<open>
  What one event asks of the plan. The key of a legacy group must be hashable: a list or a dict as the
  head's hex raises.
\<close>

type_synonym group_key = "string \<times> json"

datatype action = Pass trail_event | PassV3 trail_event | Fat summary_slot | Legacy group_key trail_event

definition entry_dicts :: "json list \<Rightarrow> entry list" where
  "entry_dicts xs = concat (map (\<lambda>x. case x of JObj d \<Rightarrow> [d] | _ \<Rightarrow> []) xs)"

definition classify :: "trail_event \<Rightarrow> py_error + action" where
  "classify e =
     (let p = ev_payload e in
      if is_summary_search_event e then
        (if is_already_v3_shaped p then Inr (PassV3 e)
         else (case iter_or_empty (jget p ''algorithms_attempted'') of Inl err \<Rightarrow> Inl err
           | Inr algs \<Rightarrow> (case iter_or_empty (jget p ''results'') of Inl err \<Rightarrow> Inl err
             | Inr xs \<Rightarrow> Inr (Fat (slot_of e algs (entry_dicts xs))))))
      else if is_legacy_search e then
        (if is_jlist (head_hex (jget p ''search_head'')) \<or> is_jobj (head_hex (jget p ''search_head'')) then Inl TypeError
         else Inr (Legacy (ev_batch e, head_hex (jget p ''search_head'')) e))
      else Inr (Pass e))"

text \<open>An open summary carries its group key; the fold keeps the slots in output order.\<close>

type_synonym plan_slot = "group_key option \<times> slot"

definition add_result :: "entry \<Rightarrow> slot \<Rightarrow> slot" where
  "add_result r s = (case s of PassSlot e \<Rightarrow> PassSlot e | SumSlot sl \<Rightarrow> SumSlot (sl\<lparr>sl_results := sl_results sl @ [r]\<rparr>))"

definition add_legacy :: "group_key \<Rightarrow> trail_event \<Rightarrow> plan_slot list \<Rightarrow> py_error + plan_slot list" where
  "add_legacy k e slots =
     (if Some k \<in> set (map fst slots) then
        Inr (map (\<lambda>(k', s). if k' = Some k then (k', add_result (result_entry_from_legacy e) s) else (k', s)) slots)
      else (case iter_or_empty (jget (ev_payload e) ''algorithms_attempted'') of Inl err \<Rightarrow> Inl err
        | Inr algs \<Rightarrow> Inr (slots @ [(Some k, SumSlot (slot_of e algs [result_entry_from_legacy e]))])))"

fun apply_actions :: "action list \<Rightarrow> plan_slot list \<Rightarrow> py_error + plan_slot list" where
  "apply_actions [] slots = Inr slots"
| "apply_actions (Pass e # as) slots = apply_actions as (slots @ [(None, PassSlot e)])"
| "apply_actions (PassV3 e # as) slots = apply_actions as (slots @ [(None, PassSlot e)])"
| "apply_actions (Fat s # as) slots = apply_actions as (slots @ [(None, SumSlot s)])"
| "apply_actions (Legacy k e # as) slots =
     (case add_legacy k e slots of Inl err \<Rightarrow> Inl err | Inr slots' \<Rightarrow> apply_actions as slots')"

definition count_where :: "('a \<Rightarrow> bool) \<Rightarrow> 'a list \<Rightarrow> nat" where
  "count_where P xs = length (filter P xs)"

definition plan_stats :: "trail_event list \<Rightarrow> plan_slot list \<Rightarrow> compaction_stats" where
  "plan_stats es slots =
     zero_stats\<lparr>cs_events_in := length es,
       cs_summary_in := count_where is_summary_search_event es,
       cs_fat_rewritten := count_where (\<lambda>e. is_summary_search_event e \<and> \<not> is_already_v3_shaped (ev_payload e)) es,
       cs_legacy_in := count_where is_legacy_search es,
       cs_non_search := count_where (\<lambda>e. \<not> is_summary_search_event e \<and> \<not> is_legacy_search e) es,
       cs_groups_collapsed := count_where (\<lambda>s. fst s \<noteq> None) slots\<rparr>"

definition plan_slots :: "trail_event list \<Rightarrow> py_error + plan_slot list" where
  "plan_slots es =
     (case map_err classify (sort_key ev_seq es) of Inl err \<Rightarrow> Inl err | Inr as \<Rightarrow> apply_actions as [])"

definition plan_compacted_stream :: "trail_event list \<Rightarrow> py_error + slot list \<times> compaction_stats" where
  "plan_compacted_stream es =
     (case plan_slots es of Inl err \<Rightarrow> Inl err
      | Inr slots \<Rightarrow> Inr (map snd slots, plan_stats es slots))"

section \<open>Sealing the chain\<close>

definition unanchored_ids :: "(json \<Rightarrow> string) \<Rightarrow> entry list \<Rightarrow> string list" where
  "unanchored_ids repr results =
     map (\<lambda>r. py_str repr (jget r ''trace_patch_id''))
       (filter (\<lambda>r. \<not> is_anchored r \<and> truthy (jget r ''trace_patch_id'')) results)"

definition pass_data :: "trail_event \<Rightarrow> int \<Rightarrow> string option \<Rightarrow> event_data" where
  "pass_data src index prev =
     \<lparr>da_seq = index, da_time = ev_time src, da_prev = prev, da_trace = ev_trace src, da_gen = ev_gen src,
      da_step = ev_step src, da_batch = COMPACTION_BATCH_ID, da_writer = COMPACTION_WRITER,
      da_capture = ev_capture src, da_type = ev_type src, da_payload = ev_payload src,
      da_schema = Some (ev_schema src), da_security = Some (ev_security src),
      da_attribution = Some (ev_attribution src)\<rparr>"

definition summary_payload :: "(json \<Rightarrow> string) \<Rightarrow> summary_slot \<Rightarrow> py_error + (string, json) dict" where
  "summary_payload repr s =
     build_anchor_search_summary_payload ANCHOR_SEARCH_COVERAGE_SCHEMA_VERSION (sl_head s) (sl_algorithms s)
       (sl_results s) None (Some (unanchored_ids repr (sl_results s)))"

definition summary_data :: "string \<Rightarrow> summary_slot \<Rightarrow> (string, json) dict \<Rightarrow> int \<Rightarrow> string option \<Rightarrow> event_data" where
  "summary_data now s payload index prev =
     \<lparr>da_seq = index, da_time = (if sl_time s = [] then now else sl_time s), da_prev = prev, da_trace = None,
      da_gen = Some 0, da_step = None, da_batch = COMPACTION_BATCH_ID, da_writer = COMPACTION_WRITER,
      da_capture = sl_capture s, da_type = ANCHOR_SEARCH_EVENT_TYPE, da_payload = payload,
      da_schema = Some (sl_schema s), da_security = Some (sl_security s), da_attribution = Some (sl_attribution s)\<rparr>"

record sealing =
  se_H :: "json \<Rightarrow> string"
  se_repr :: "json \<Rightarrow> string"
  se_now :: string

definition finalize_slot :: "sealing \<Rightarrow> slot \<Rightarrow> int \<Rightarrow> string option \<Rightarrow> py_error + trail_event" where
  "finalize_slot S slot index prev =
     (case slot of
        PassSlot src \<Rightarrow> finalize_event (se_H S) (pass_data src index prev)
      | SumSlot s \<Rightarrow> (case summary_payload (se_repr S) s of Inl err \<Rightarrow> Inl err
          | Inr p \<Rightarrow> finalize_event (se_H S) (summary_data (se_now S) s p index prev)))"

fun refinalize :: "sealing \<Rightarrow> slot list \<Rightarrow> int \<Rightarrow> string option \<Rightarrow> py_error + trail_event list" where
  "refinalize S [] index prev = Inr []"
| "refinalize S (s # ss) index prev =
     (case finalize_slot S s index prev of Inl err \<Rightarrow> Inl err
      | Inr e \<Rightarrow> (case refinalize S ss (index + 1) (Some (ev_id e)) of Inl err \<Rightarrow> Inl err | Inr es \<Rightarrow> Inr (e # es)))"

definition with_output :: "compaction_stats \<Rightarrow> trail_event list \<Rightarrow> compaction_stats" where
  "with_output st out =
     st\<lparr>cs_events_out := length out, cs_summary_out := count_where is_summary_search_event out\<rparr>"

definition compact_search_events :: "sealing \<Rightarrow> trail_event list \<Rightarrow> py_error + trail_event list \<times> compaction_stats" where
  "compact_search_events S es =
     (case plan_compacted_stream es of Inl err \<Rightarrow> Inl err
      | Inr (slots, st) \<Rightarrow> (case refinalize S slots 1 None of Inl err \<Rightarrow> Inl err
          | Inr out \<Rightarrow> Inr (out, with_output st out)))"

section \<open>Streaming\<close>

text \<open>
  The state of the generator: the pointer and index of the chain, the buffered batch, the events
  yielded so far and the running statistics.
\<close>

record stream_state =
  ss_prev :: "string option"
  ss_next :: int
  ss_buffer :: "trail_event list"
  ss_out :: "trail_event list"
  ss_stats :: compaction_stats

definition add_batch_stats :: "compaction_stats \<Rightarrow> compaction_stats \<Rightarrow> compaction_stats" where
  "add_batch_stats st b =
     st\<lparr>cs_legacy_in := cs_legacy_in st + cs_legacy_in b, cs_summary_in := cs_summary_in st + cs_summary_in b,
        cs_fat_rewritten := cs_fat_rewritten st + cs_fat_rewritten b,
        cs_non_search := cs_non_search st + cs_non_search b,
        cs_groups_collapsed := cs_groups_collapsed st + cs_groups_collapsed b\<rparr>"

definition flush :: "sealing \<Rightarrow> stream_state \<Rightarrow> py_error + stream_state" where
  "flush S st =
     (if ss_buffer st = [] then Inr st
      else case plan_compacted_stream (ss_buffer st) of Inl err \<Rightarrow> Inl err
      | Inr (slots, b) \<Rightarrow> (case refinalize S slots (ss_next st) (ss_prev st) of Inl err \<Rightarrow> Inl err
          | Inr out \<Rightarrow> Inr
              \<lparr>ss_prev = run_tail (ss_prev st) out, ss_next = ss_next st + int (length out), ss_buffer = [],
               ss_out = ss_out st @ out,
               ss_stats = (add_batch_stats (ss_stats st) b)\<lparr>cs_summary_out :=
                  cs_summary_out (ss_stats st) + count_where is_summary_search_event out\<rparr>\<rparr>))"

fun stream_loop :: "sealing \<Rightarrow> trail_event list \<Rightarrow> stream_state \<Rightarrow> py_error + stream_state" where
  "stream_loop S [] st = flush S st"
| "stream_loop S (e # es) st =
     (let st1 = st\<lparr>ss_stats := (ss_stats st)\<lparr>cs_events_in := cs_events_in (ss_stats st) + 1\<rparr>\<rparr> in
      case (if ss_buffer st1 \<noteq> [] \<and> ev_batch e \<noteq> ev_batch (hd (ss_buffer st1)) then flush S st1 else Inr st1) of
        Inl err \<Rightarrow> Inl err
      | Inr st2 \<Rightarrow> stream_loop S es (st2\<lparr>ss_buffer := ss_buffer st2 @ [e]\<rparr>))"

definition stream_compact_events ::
  "sealing \<Rightarrow> trail_event list \<Rightarrow> compaction_stats \<Rightarrow> int \<Rightarrow> string option \<Rightarrow> py_error + trail_event list \<times> compaction_stats" where
  "stream_compact_events S es st start prev =
     (case stream_loop S es \<lparr>ss_prev = prev, ss_next = start, ss_buffer = [], ss_out = [], ss_stats = st\<rparr> of
        Inl err \<Rightarrow> Inl err
      | Inr s \<Rightarrow> Inr (ss_out s, (ss_stats s)\<lparr>cs_events_out := cs_events_out (ss_stats s) + nat (ss_next s - start)\<rparr>))"

section \<open>Extending a compacted chain\<close>

definition compact_and_append ::
  "sealing \<Rightarrow> trail_event list \<Rightarrow> trail_event list \<Rightarrow> py_error + trail_event list \<times> compaction_stats" where
  "compact_and_append S base delta =
     (if delta = [] then Inr (base, zero_stats)
      else case plan_compacted_stream delta of Inl err \<Rightarrow> Inl err
      | Inr (slots, st) \<Rightarrow>
          (let tail_seq = (if base = [] then 0 else ev_seq (last base));
               tail_id = (if base = [] then None else Some (ev_id (last base)))
           in case refinalize S slots (tail_seq + 1) tail_id of Inl err \<Rightarrow> Inl err
              | Inr app \<Rightarrow> Inr (base @ app, with_output st app)))"

end
