(* ===== verification/CompactionProps.thy ===== *)
theory CompactionProps
  imports SearchCompaction
begin

text \<open>
  What compaction guarantees: a valid chain, a second pass that changes nothing, and a streaming form
  that gives exactly the output and the statistics of the in-memory one.
\<close>

section \<open>Results as a monad\<close>

text \<open>The sequencing of fallible steps that the definitions spell out case by case.\<close>

definition bindr :: "'e + 'a \<Rightarrow> ('a \<Rightarrow> 'e + 'b) \<Rightarrow> 'e + 'b" where
  "bindr x f = (case x of Inl e \<Rightarrow> Inl e | Inr a \<Rightarrow> f a)"

lemma bindr_simps [simp]: "bindr (Inl e) f = Inl e" "bindr (Inr a) f = f a"
  by (simp_all add: bindr_def)

lemma bindr_Inr_iff: "bindr x f = Inr b \<longleftrightarrow> (\<exists>a. x = Inr a \<and> f a = Inr b)"
  by (cases x) auto

lemma map_err_append: "map_err f (xs @ ys) = bindr (map_err f xs) (\<lambda>a. bindr (map_err f ys) (\<lambda>b. Inr (a @ b)))"
  by (induction xs) (auto simp: bindr_def split: sum.splits)

lemma apply_actions_append: "apply_actions (as @ bs) slots = bindr (apply_actions as slots) (apply_actions bs)"
  by (induction as slots rule: apply_actions.induct) (auto split: sum.split)

lemma refinalize_append:
  "refinalize S (xs @ ys) i prev =
     bindr (refinalize S xs i prev) (\<lambda>a. bindr (refinalize S ys (i + int (length xs)) (run_tail prev a)) (\<lambda>b. Inr (a @ b)))"
  by (induction xs arbitrary: i prev) (auto simp: bindr_def algebra_simps split: sum.splits)

section \<open>The rewritten chain is valid\<close>

lemma finalize_slot_facts:
  assumes "finalize_slot S s i prev = Inr e"
  shows "sealed (se_H S) e" "ev_seq e = i" "ev_prev e = prev" "ev_batch e = COMPACTION_BATCH_ID"
    "ev_writer e = COMPACTION_WRITER" "event_ok e" "\<exists>d. e = finalized (se_H S) d"
  using assms finalized_addresses
  by (auto simp: finalize_slot_def finalize_event_Inr sealed_def pass_data_def summary_data_def
      split: slot.splits sum.splits)

lemma refinalize_valid:
  "refinalize S slots i prev = Inr out \<Longrightarrow> valid_run (se_H S) i prev out \<and> length out = length slots"
proof (induction slots arbitrary: i prev out)
  case (Cons s slots)
  then obtain e es where e: "finalize_slot S s i prev = Inr e"
    and es: "refinalize S slots (i + 1) (Some (ev_id e)) = Inr es" "out = e # es"
    by (auto split: sum.splits)
  from Cons.IH [OF es(1)] finalize_slot_facts [OF e] es(2) show ?case by simp
qed simp

lemma compact_parts:
  "compact_search_events S es = Inr (out, st) \<longleftrightarrow>
     (\<exists>slots. plan_slots es = Inr slots \<and> refinalize S (map snd slots) 1 None = Inr out \<and>
       st = with_output (plan_stats es slots) out)"
  by (auto simp: compact_search_events_def plan_compacted_stream_def split: sum.splits)

section \<open>A compacted stream is settled\<close>

text \<open>A settled event passes through the plan.\<close>

definition settled :: "trail_event \<Rightarrow> bool" where
  "settled e \<longleftrightarrow> (if is_summary_search_event e then is_already_v3_shaped (ev_payload e) else \<not> is_legacy_search e)"

definition settled_slot :: "slot \<Rightarrow> bool" where
  "settled_slot s = (case s of PassSlot e \<Rightarrow> settled e | SumSlot _ \<Rightarrow> True)"

fun settled_action :: "action \<Rightarrow> bool" where
  "settled_action (Pass e) = settled e"
| "settled_action (PassV3 e) = settled e"
| "settled_action _ = True"

lemma classify_settled: "classify e = Inr a \<Longrightarrow> settled_action a"
  by (auto simp: classify_def settled_def Let_def split: if_splits sum.splits)

lemma map_err_all: "map_err f xs = Inr ys \<Longrightarrow> (\<And>x y. f x = Inr y \<Longrightarrow> P y) \<Longrightarrow> list_all P ys"
  by (induction xs arbitrary: ys) (auto split: sum.splits)

lemma settled_add: "settled_slot (add_result r s) = settled_slot s"
  by (simp add: settled_slot_def add_result_def split: slot.split)

lemma settled_SumSlot: "settled_slot (SumSlot s)"
  by (simp add: settled_slot_def)

lemma apply_settled:
  "apply_actions as slots = Inr out \<Longrightarrow> list_all settled_action as \<Longrightarrow> list_all (\<lambda>s. settled_slot (snd s)) slots \<Longrightarrow>
    list_all (\<lambda>s. settled_slot (snd s)) out"
proof (induction as slots rule: apply_actions.induct)
  case (5 k e as slots)
  then obtain slots' where s: "add_legacy k e slots = Inr slots'" "apply_actions as slots' = Inr out"
    by (auto split: sum.splits)
  have "list_all (\<lambda>s. settled_slot (snd s)) slots'"
    using s(1) 5(4)
    by (fastforce simp: add_legacy_def list_all_iff settled_add settled_SumSlot split: if_splits sum.splits)
  with 5 s show ?case by simp
qed (auto simp: settled_slot_def)

lemma plan_settled: "plan_slots es = Inr slots \<Longrightarrow> list_all (\<lambda>s. settled_slot (snd s)) slots"
  using apply_settled [of _ "[]"] map_err_all [OF _ classify_settled]
  by (fastforce simp: plan_slots_def split: sum.splits)

lemma summary_event_settled:
  assumes "ev_type e = ANCHOR_SEARCH_EVENT_TYPE" "summary_payload repr s = Inr (ev_payload e)"
  shows "settled e"
proof -
  have "jget (ev_payload e) ''summary'' = JBool True" "dmem (ev_payload e) ''unanchored_trace_patch_ids''"
    using assms(2) by (auto simp: summary_payload_def build_anchor_search_summary_payload_def Let_def dmem_def eq_commute [of _ "ev_payload e"])
  then show ?thesis
    using assms(1) by (simp add: settled_def is_summary_search_event_def is_summary_payload_def is_already_v3_shaped_def)
qed

lemma settled_cong: "ev_type a = ev_type b \<Longrightarrow> ev_payload a = ev_payload b \<Longrightarrow> settled a = settled b"
  by (simp add: settled_def is_summary_search_event_def is_legacy_search_def)

lemma finalize_slot_settled:
  assumes "finalize_slot S s i prev = Inr e" "settled_slot s" shows "settled e"
proof (cases s)
  case (PassSlot src)
  with assms have e: "e = finalized (se_H S) (pass_data src i prev)" "settled src"
    by (auto simp: finalize_slot_def finalize_event_Inr settled_slot_def)
  have "settled e = settled src" by (rule settled_cong) (simp_all add: e pass_data_def)
  with e show ?thesis by simp
next
  case (SumSlot s')
  with assms obtain p where p: "summary_payload (se_repr S) s' = Inr p"
    and e: "e = finalized (se_H S) (summary_data (se_now S) s' p i prev)"
    by (auto simp: finalize_slot_def finalize_event_Inr split: sum.splits)
  show ?thesis by (rule summary_event_settled) (use p in \<open>simp_all add: e summary_data_def\<close>)
qed

text \<open>Sealing a sealed event of the compacted chain again, at its place, gives it back.\<close>

lemma reseal:
  assumes "finalize_slot S s i prev = Inr e"
  shows "finalize_slot S (PassSlot e) i prev = Inr e"
proof -
  obtain d where d: "e = finalized (se_H S) d" using finalize_slot_facts(7) [OF assms] by blast
  have "finalized (se_H S) (pass_data e i prev) = e"
  proof -
    have "provisional (se_H S) (pass_data e i prev) = provisional (se_H S) d"
      using finalize_slot_facts(2-5) [OF assms] d by (simp add: provisional_def pass_data_def)
    then show ?thesis unfolding d finalized_def by simp
  qed
  with finalize_slot_facts(6) [OF assms] show ?thesis
    by (simp add: finalize_slot_def finalize_event_Inr)
qed

lemma refinalize_again:
  "refinalize S slots i prev = Inr out \<Longrightarrow> list_all settled_slot slots \<Longrightarrow>
    refinalize S (map PassSlot out) i prev = Inr out \<and> list_all settled out"
proof (induction slots arbitrary: i prev out)
  case (Cons s slots)
  then obtain e es where e: "finalize_slot S s i prev = Inr e"
    and es: "refinalize S slots (i + 1) (Some (ev_id e)) = Inr es" "out = e # es"
    by (auto split: sum.splits)
  from Cons.IH [OF es(1)] Cons.prems(2) reseal [OF e] finalize_slot_settled [OF e] es(2) show ?case by simp
qed simp

lemma settled_classify: "settled e \<Longrightarrow> classify e = Inr (Pass e) \<or> classify e = Inr (PassV3 e)"
  by (auto simp: classify_def settled_def Let_def)

lemma plan_of_settled:
  assumes "list_all settled es" "sorted (map ev_seq es)"
  shows "plan_slots es = Inr (map (\<lambda>e. (None, PassSlot e)) es)"
proof -
  have "\<exists>as. map_err classify xs = Inr as \<and> (\<forall>slots. apply_actions as slots = Inr (slots @ map (\<lambda>e. (None, PassSlot e)) xs))"
    if "list_all settled xs" for xs
    using that
  proof (induction xs)
    case (Cons x xs)
    then obtain as where as: "map_err classify xs = Inr as"
      "\<And>slots. apply_actions as slots = Inr (slots @ map (\<lambda>e. (None, PassSlot e)) xs)" by auto
    from Cons.prems settled_classify [of x] obtain a where a: "classify x = Inr a" "a = Pass x \<or> a = PassV3 x" by auto
    have "apply_actions (a # as) slots = Inr (slots @ map (\<lambda>e. (None, PassSlot e)) (x # xs))" for slots
      using a(2) as(2) by auto
    with a(1) as(1) show ?case by (intro exI [of _ "a # as"]) simp
  qed simp
  from this [OF assms(1)] show ?thesis
    by (auto simp: plan_slots_def sort_key_sorted_id [OF assms(2)])
qed

section \<open>Splitting the plan at batch boundaries\<close>

fun action_keys :: "action \<Rightarrow> group_key set" where
  "action_keys (Legacy k e) = {k}"
| "action_keys _ = {}"

lemma add_legacy_prefix:
  assumes "Some k \<notin> fst ` set pre"
  shows "add_legacy k e (pre @ slots) = bindr (add_legacy k e slots) (\<lambda>r. Inr (pre @ r))"
proof -
  have "map (\<lambda>(k', s). if k' = Some k then (k', add_result r s) else (k', s)) pre = pre" for r
    by (rule map_idI) (use assms in force)
  then show ?thesis using assms by (auto simp: add_legacy_def bindr_def split: sum.split)
qed

lemma apply_actions_prefix:
  "(\<forall>a\<in>set as. \<forall>k\<in>action_keys a. Some k \<notin> fst ` set pre) \<Longrightarrow>
    apply_actions as (pre @ slots) = bindr (apply_actions as slots) (\<lambda>r. Inr (pre @ r))"
proof (induction as slots rule: apply_actions.induct)
  case (5 k e as slots)
  then have "add_legacy k e (pre @ slots) = bindr (add_legacy k e slots) (\<lambda>r. Inr (pre @ r))"
    by (intro add_legacy_prefix) simp
  then show ?case using 5 by (cases "add_legacy k e slots") auto
qed (simp_all add: bindr_def flip: append_assoc)

lemma add_legacy_keys: "add_legacy k e slots = Inr out \<Longrightarrow> fst ` set out \<subseteq> insert (Some k) (fst ` set slots)"
  by (force simp: add_legacy_def split: if_splits sum.splits)

lemma apply_actions_keys:
  "apply_actions as slots = Inr out \<Longrightarrow>
    fst ` set out \<subseteq> insert None (fst ` set slots) \<union> Some ` (\<Union>a\<in>set as. action_keys a)"
proof (induction as slots rule: apply_actions.induct)
  case (5 k e as slots)
  then obtain slots' where s: "add_legacy k e slots = Inr slots'" "apply_actions as slots' = Inr out"
    by (auto split: sum.splits)
  have "fst ` set out \<subseteq> insert None (fst ` set slots') \<union> Some ` (\<Union>a\<in>set as. action_keys a)"
    using 5(1) [OF s(1) s(2)] .
  also have "\<dots> \<subseteq> insert None (insert (Some k) (fst ` set slots)) \<union> Some ` (\<Union>a\<in>set as. action_keys a)"
    using add_legacy_keys [OF s(1)] by (intro Un_mono insert_mono order_refl)
  finally show ?case by simp (simp add: insert_commute)
qed auto

lemma classify_keys: "classify e = Inr a \<Longrightarrow> k \<in> action_keys a \<Longrightarrow> fst k = ev_batch e"
  by (auto simp: classify_def Let_def split: if_splits sum.splits)

lemma map_err_keys: "map_err classify es = Inr as \<Longrightarrow> a \<in> set as \<Longrightarrow> k \<in> action_keys a \<Longrightarrow> fst k \<in> ev_batch ` set es"
  by (induction es arbitrary: as) (auto split: sum.splits dest: classify_keys)

lemma plan_append:
  assumes "sorted (map ev_seq (xs @ ys))" "ev_batch ` set xs \<inter> ev_batch ` set ys = {}"
  shows "plan_slots (xs @ ys) = bindr (plan_slots xs) (\<lambda>a. bindr (plan_slots ys) (\<lambda>b. Inr (a @ b)))
    \<or> ((\<exists>e. plan_slots (xs @ ys) = Inl e) \<and> (\<exists>e. bindr (plan_slots xs) (\<lambda>a. bindr (plan_slots ys) (\<lambda>b. Inr (a @ b))) = Inl e))"
proof -
  have sx: "sorted (map ev_seq xs)" and sy: "sorted (map ev_seq ys)" using assms(1) by (auto simp: sorted_append)
  have plan: "plan_slots zs = bindr (map_err classify zs) (\<lambda>as. apply_actions as [])" if "sorted (map ev_seq zs)" for zs
    by (simp add: plan_slots_def bindr_def sort_key_sorted_id [OF that])
  show ?thesis
  proof (cases "map_err classify xs")
    case (Inl e)
    then show ?thesis by (simp add: plan [OF assms(1)] plan [OF sx] map_err_append)
  next
    case (Inr as)
    show ?thesis
    proof (cases "map_err classify ys")
      case (Inl e)
      then show ?thesis using Inr
        by (cases "apply_actions as []") (simp_all add: plan [OF assms(1)] plan [OF sx] plan [OF sy] map_err_append)
    next
      case bs: (Inr bs)
      show ?thesis
      proof (cases "apply_actions as []")
        case (Inl e)
        then show ?thesis using Inr bs
          by (simp add: plan [OF assms(1)] plan [OF sx] map_err_append apply_actions_append)
      next
        case sl: (Inr slots)
        have "Some k \<notin> fst ` set slots" if "b \<in> set bs" "k \<in> action_keys b" for b k
        proof
          assume "Some k \<in> fst ` set slots"
          then have "Some k \<in> Some ` (\<Union>a\<in>set as. action_keys a)"
            using apply_actions_keys [OF sl] by auto
          then have "fst k \<in> ev_batch ` set xs" using map_err_keys [OF Inr] by auto
          moreover have "fst k \<in> ev_batch ` set ys" by (rule map_err_keys [OF bs that])
          ultimately show False using assms(2) by blast
        qed
        then have "apply_actions bs (slots @ []) = bindr (apply_actions bs []) (\<lambda>r. Inr (slots @ r))"
          by (intro apply_actions_prefix) blast
        then show ?thesis using Inr bs sl
          by (simp add: plan [OF assms(1)] plan [OF sx] plan [OF sy] map_err_append apply_actions_append)
      qed
    qed
  qed
qed

lemma plan_append_Inr:
  assumes "sorted (map ev_seq (xs @ ys))" "ev_batch ` set xs \<inter> ev_batch ` set ys = {}"
  shows "plan_slots (xs @ ys) = Inr s \<longleftrightarrow> (\<exists>a b. plan_slots xs = Inr a \<and> plan_slots ys = Inr b \<and> s = a @ b)"
proof -
  have "plan_slots (xs @ ys) = Inr s \<longleftrightarrow> bindr (plan_slots xs) (\<lambda>a. bindr (plan_slots ys) (\<lambda>b. Inr (a @ b))) = Inr s"
    using plan_append [OF assms] by auto
  then show ?thesis by (auto simp: bindr_Inr_iff)
qed

section \<open>Streaming batch by batch\<close>

text \<open>Batches are contiguous: an id that was left never comes back.\<close>

definition batches_contiguous :: "trail_event list \<Rightarrow> bool" where
  "batches_contiguous es \<longleftrightarrow> distinct (remdups_adj (map ev_batch es))"

lemma remdups_adj_run:
  "xs \<noteq> [] \<Longrightarrow> (\<forall>x\<in>set xs. x = b) \<Longrightarrow> b \<noteq> y \<Longrightarrow> remdups_adj (xs @ y # ys) = b # remdups_adj (y # ys)"
proof (induction xs)
  case (Cons x xs)
  then show ?case by (cases xs) auto
qed simp

lemma contiguous_split:
  assumes "batches_contiguous (buf @ e # es)" "buf \<noteq> []" "\<forall>x\<in>set buf. ev_batch x = b" "b \<noteq> ev_batch e"
  shows "ev_batch ` set buf \<inter> ev_batch ` set (e # es) = {}" "batches_contiguous (e # es)"
proof -
  have "remdups_adj (map ev_batch (buf @ e # es)) = b # remdups_adj (map ev_batch (e # es))"
    using remdups_adj_run [of "map ev_batch buf" b "ev_batch e" "map ev_batch es"] assms(2-4) by simp
  with assms(1) have "b \<notin> set (remdups_adj (map ev_batch (e # es)))" and d: "distinct (remdups_adj (map ev_batch (e # es)))"
    unfolding batches_contiguous_def by simp_all
  then have "b \<notin> ev_batch ` set (e # es)" unfolding remdups_adj_set set_map by blast
  then show "ev_batch ` set buf \<inter> ev_batch ` set (e # es) = {}" using assms(3) by auto
  from d show "batches_contiguous (e # es)" unfolding batches_contiguous_def .
qed

definition merged :: "stream_state \<Rightarrow> nat \<Rightarrow> trail_event list \<Rightarrow> plan_slot list \<Rightarrow> trail_event list \<Rightarrow> stream_state" where
  "merged st n es slots out =
     \<lparr>ss_prev = run_tail (ss_prev st) out, ss_next = ss_next st + int (length out), ss_buffer = [],
      ss_out = ss_out st @ out,
      ss_stats = (add_batch_stats (ss_stats st) (plan_stats es slots))
        \<lparr>cs_events_in := cs_events_in (ss_stats st) + n,
         cs_summary_out := cs_summary_out (ss_stats st) + count_where is_summary_search_event out\<rparr>\<rparr>"

lemma count_append [simp]: "count_where P (xs @ ys) = count_where P xs + count_where P ys" "count_where P [] = 0"
  by (simp_all add: count_where_def)

definition emitted :: "sealing \<Rightarrow> stream_state \<Rightarrow> nat \<Rightarrow> trail_event list \<Rightarrow> stream_state \<Rightarrow> bool" where
  "emitted S st n es st' \<longleftrightarrow>
     (\<exists>slots out. plan_slots es = Inr slots \<and> refinalize S (map snd slots) (ss_next st) (ss_prev st) = Inr out \<and>
       st' = merged st n es slots out)"

lemma emitted_Nil: "ss_buffer st = [] \<Longrightarrow> emitted S st 0 [] st' = (st' = st)"
  by (auto simp: emitted_def plan_slots_def merged_def add_batch_stats_def plan_stats_def zero_stats_def)

lemma flush_emitted: "flush S st = Inr st' \<longleftrightarrow> emitted S st 0 (ss_buffer st) st'"
proof (cases "ss_buffer st = []")
  case True
  then show ?thesis by (auto simp: flush_def emitted_Nil)
next
  case False
  then show ?thesis
    by (auto simp: flush_def plan_compacted_stream_def emitted_def merged_def add_batch_stats_def split: sum.splits)
qed

lemma merged_merged:
  "merged (merged st m xs a out\<lparr>ss_buffer := c\<rparr>) n ys b out' = merged st (m + n) (xs @ ys) (a @ b) (out @ out')"
  by (simp add: merged_def add_batch_stats_def plan_stats_def run_tail_append zero_stats_def)

lemma merged_fields:
  "ss_next (merged st n es slots out) = ss_next st + int (length out)"
  "ss_prev (merged st n es slots out) = run_tail (ss_prev st) out" "ss_buffer (merged st n es slots out) = []"
  by (simp_all add: merged_def)

lemma emitted_append:
  assumes "sorted (map ev_seq (xs @ ys))" "ev_batch ` set xs \<inter> ev_batch ` set ys = {}"
  shows "emitted S st (m + n) (xs @ ys) st' \<longleftrightarrow>
    (\<exists>s. emitted S st m xs s \<and> emitted S (s\<lparr>ss_buffer := c\<rparr>) n ys st')"
proof
  assume "emitted S st (m + n) (xs @ ys) st'"
  then obtain slots out where p: "plan_slots (xs @ ys) = Inr slots"
    and r: "refinalize S (map snd slots) (ss_next st) (ss_prev st) = Inr out" and st': "st' = merged st (m + n) (xs @ ys) slots out"
    by (auto simp: emitted_def)
  from p obtain a b where ab: "plan_slots xs = Inr a" "plan_slots ys = Inr b" "slots = a @ b"
    unfolding plan_append_Inr [OF assms] by blast
  from r obtain o1 o2 where o: "refinalize S (map snd a) (ss_next st) (ss_prev st) = Inr o1"
    "refinalize S (map snd b) (ss_next st + int (length a)) (run_tail (ss_prev st) o1) = Inr o2" "out = o1 @ o2"
    by (auto simp: ab(3) refinalize_append bindr_Inr_iff)
  have l: "length o1 = length a" using refinalize_valid [OF o(1)] by simp
  show "\<exists>s. emitted S st m xs s \<and> emitted S (s\<lparr>ss_buffer := c\<rparr>) n ys st'"
    by (rule exI [of _ "merged st m xs a o1"])
      (use ab o l st' in \<open>auto simp: emitted_def merged_fields merged_merged\<close>)
next
  assume "\<exists>s. emitted S st m xs s \<and> emitted S (s\<lparr>ss_buffer := c\<rparr>) n ys st'"
  then obtain a o1 b o2 where ab: "plan_slots xs = Inr a" "plan_slots ys = Inr b"
    and o: "refinalize S (map snd a) (ss_next st) (ss_prev st) = Inr o1"
      "refinalize S (map snd b) (ss_next st + int (length o1)) (run_tail (ss_prev st) o1) = Inr o2"
    and st': "st' = merged st (m + n) (xs @ ys) (a @ b) (o1 @ o2)"
    by (auto simp: emitted_def merged_fields merged_merged)
  have "length o1 = length a" using refinalize_valid [OF o(1)] by simp
  with ab o st' plan_append_Inr [OF assms, of "a @ b"] show "emitted S st (m + n) (xs @ ys) st'"
    unfolding emitted_def by (intro exI [of _ "a @ b"] exI [of _ "o1 @ o2"]) (simp add: refinalize_append)
qed

lemma emitted_buffer: "emitted S st n es s \<Longrightarrow> ss_buffer s = []"
  by (auto simp: emitted_def merged_fields)

lemma stream_loop_emitted:
  "sorted (map ev_seq (ss_buffer st @ es)) \<Longrightarrow> batches_contiguous (ss_buffer st @ es) \<Longrightarrow>
    (\<forall>x\<in>set (ss_buffer st). ev_batch x = ev_batch (hd (ss_buffer st))) \<Longrightarrow>
    stream_loop S es st = Inr st' \<longleftrightarrow> emitted S st (length es) (ss_buffer st @ es) st'"
proof (induction es arbitrary: st)
  case Nil
  then show ?case by (simp add: flush_emitted)
next
  case (Cons e es)
  let ?st = "st\<lparr>ss_stats := (ss_stats st)\<lparr>cs_events_in := cs_events_in (ss_stats st) + 1\<rparr>\<rparr>"
  have one: "emitted S ?st n xs s \<longleftrightarrow> emitted S st (n + 1) xs s" for n xs s
    by (simp add: emitted_def merged_def add_batch_stats_def)
  show ?case
  proof (cases "ss_buffer st \<noteq> [] \<and> ev_batch e \<noteq> ev_batch (hd (ss_buffer st))")
    case True
    then have ne: "ss_buffer st \<noteq> []" "ev_batch (hd (ss_buffer st)) \<noteq> ev_batch e" by auto
    note split = contiguous_split [OF Cons.prems(2) ne(1) Cons.prems(3) ne(2)]
    have sorted: "sorted (map ev_seq (e # es))" using Cons.prems(1) by (simp add: sorted_append)
    have "stream_loop S (e # es) st =
        bindr (flush S ?st) (\<lambda>s. stream_loop S es (s\<lparr>ss_buffer := ss_buffer s @ [e]\<rparr>))"
      using True by (simp add: Let_def bindr_def)
    then have "stream_loop S (e # es) st = Inr st' \<longleftrightarrow>
        (\<exists>s. flush S ?st = Inr s \<and> stream_loop S es (s\<lparr>ss_buffer := ss_buffer s @ [e]\<rparr>) = Inr st')"
      by (simp only: bindr_Inr_iff)
    also have "\<dots> \<longleftrightarrow> (\<exists>s. emitted S st 1 (ss_buffer st) s \<and> stream_loop S es (s\<lparr>ss_buffer := ss_buffer s @ [e]\<rparr>) = Inr st')"
      using one [of 0 "ss_buffer st"] by (simp add: flush_emitted)
    also have "\<dots> \<longleftrightarrow> (\<exists>s. emitted S st 1 (ss_buffer st) s \<and> stream_loop S es (s\<lparr>ss_buffer := [e]\<rparr>) = Inr st')"
      by (intro iff_exI conj_cong refl) (simp add: emitted_buffer)
    also have "\<dots> \<longleftrightarrow> (\<exists>s. emitted S st 1 (ss_buffer st) s \<and> emitted S (s\<lparr>ss_buffer := [e]\<rparr>) (length es) (e # es) st')"
      using Cons.IH [of "s\<lparr>ss_buffer := [e]\<rparr>" for s] sorted split(2) by simp
    also have "\<dots> \<longleftrightarrow> emitted S st (1 + length es) (ss_buffer st @ e # es) st'"
      by (rule emitted_append [symmetric]) (use Cons.prems(1) split(1) in simp_all)
    finally show ?thesis by simp
  next
    case False
    let ?st2 = "?st\<lparr>ss_buffer := ss_buffer st @ [e]\<rparr>"
    have same: "\<forall>x\<in>set (ss_buffer st @ [e]). ev_batch x = ev_batch (hd (ss_buffer st @ [e]))"
    proof (cases "ss_buffer st = []")
      case True
      then show ?thesis by simp
    next
      case ne: False
      then have "hd (ss_buffer st @ [e]) = hd (ss_buffer st)" "ev_batch e = ev_batch (hd (ss_buffer st))"
        using False by simp_all
      with Cons.prems(3) show ?thesis by (metis UnE empty_set list.simps(15) set_append singletonD)
    qed
    have buf: "emitted S ?st2 n xs s = emitted S ?st n xs s" for n xs s
      by (simp add: emitted_def merged_def)
    have "stream_loop S (e # es) st = stream_loop S es ?st2"
      using False by (auto simp: Let_def)
    also have "(stream_loop S es ?st2 = Inr st') \<longleftrightarrow> emitted S ?st2 (length es) (ss_buffer st @ e # es) st'"
      using Cons.IH [of ?st2] Cons.prems(1,2) same by simp
    finally show ?thesis unfolding buf one by simp
  qed
qed

lemma stream_agrees:
  assumes "sorted (map ev_seq es)" "batches_contiguous es"
  shows "stream_compact_events S es zero_stats 1 None = Inr r \<longleftrightarrow> compact_search_events S es = Inr r"
proof -
  let ?st = "\<lparr>ss_prev = None, ss_next = 1, ss_buffer = [], ss_out = [], ss_stats = zero_stats\<rparr>"
  let ?result = "\<lambda>s. (ss_out s, (ss_stats s)\<lparr>cs_events_out := cs_events_out (ss_stats s) + nat (ss_next s - 1)\<rparr>)"
  have "stream_compact_events S es zero_stats 1 None = Inr r \<longleftrightarrow> (\<exists>s. stream_loop S es ?st = Inr s \<and> r = ?result s)"
    unfolding stream_compact_events_def by (cases "stream_loop S es ?st") auto
  also have "\<dots> \<longleftrightarrow> (\<exists>s. emitted S ?st (length es) es s \<and> r = ?result s)"
    using stream_loop_emitted [of ?st es S] assms by simp
  also have "\<dots> \<longleftrightarrow> (\<exists>slots out. plan_slots es = Inr slots \<and> refinalize S (map snd slots) 1 None = Inr out \<and>
      r = ?result (merged ?st (length es) es slots out))"
    by (auto simp: emitted_def)
  also have "\<dots> \<longleftrightarrow> (\<exists>slots out. plan_slots es = Inr slots \<and> refinalize S (map snd slots) 1 None = Inr out \<and>
      r = (out, with_output (plan_stats es slots) out))"
    by (simp add: merged_def with_output_def add_batch_stats_def plan_stats_def zero_stats_def)
  also have "\<dots> \<longleftrightarrow> compact_search_events S es = Inr r"
    by (cases r) (auto simp: compact_parts)
  finally show ?thesis .
qed

section \<open>A sample log\<close>

definition sample_sealing :: sealing where
  "sample_sealing = \<lparr>se_H = sample_digest, se_repr = (\<lambda>_. []), se_now = ''now''\<rparr>"

definition sample_search :: "string \<Rightarrow> string \<Rightarrow> (string, json) dict" where
  "sample_search patch result =
     [(''trace_patch_id'', JStr patch), (''search_head'', JObj [(''algorithm'', JStr ''sha1''), (''hex'', JStr (replicate 40 CHR ''a''))]),
      (''algorithms_attempted'', JList [JStr ''exact'']), (''result'', JStr result)]"

definition sample_event :: "int \<Rightarrow> string \<Rightarrow> string \<Rightarrow> (string, json) dict \<Rightarrow> trail_event" where
  "sample_event seq batch ty p = finalized sample_digest
     \<lparr>da_seq = seq, da_time = ''then'', da_prev = None, da_trace = Some ''t'', da_gen = Some 0, da_step = Some 1,
      da_batch = batch, da_writer = ''w'', da_capture = [''hook''], da_type = ty, da_payload = p, da_schema = None,
      da_security = None, da_attribution = None\<rparr>"

definition sample_searches :: "trail_event list" where
  "sample_searches =
     [sample_event 1 ''a'' ''trace_slice_created'' [], sample_event 2 ''b'' ANCHOR_SEARCH_EVENT_TYPE (sample_search ''p1'' ''unknown''),
      sample_event 3 ''b'' ANCHOR_SEARCH_EVENT_TYPE (sample_search ''p2'' ''anchored'')]"

definition sample_compacted :: "py_error + trail_event list \<times> compaction_stats" where
  "sample_compacted = compact_search_events sample_sealing sample_searches"

lemma sample_compacts:
  "case sample_compacted of Inl _ \<Rightarrow> False | Inr (out, st) \<Rightarrow> length out = 2 \<and> cs_groups_collapsed st = 1 \<and>
     map (\<lambda>e. jget (ev_payload e) ''unanchored_trace_patch_ids'') out = [JNull, JList [JStr ''p1'']]"
  by code_simp

lemma sample_compacted_ex:
  "\<exists>out st. compact_search_events sample_sealing sample_searches = Inr (out, st) \<and> length out = 2 \<and> cs_groups_collapsed st = 1"
  using sample_compacts unfolding sample_compacted_def by (auto split: sum.splits)

section \<open>Properties\<close>

lemma apply_actions_length: "apply_actions as slots = Inr out \<Longrightarrow> length out \<le> length slots + length as"
  by (induction as slots rule: apply_actions.induct)
    (fastforce simp: add_legacy_def split: if_splits sum.splits)+

lemma map_err_length: "map_err f xs = Inr ys \<Longrightarrow> length ys = length xs"
  by (induction xs arbitrary: ys) (auto split: sum.splits)

lemma plan_length: "plan_slots es = Inr slots \<Longrightarrow> length slots \<le> length es"
  using apply_actions_length [of _ "[]"] map_err_length [of classify]
  by (fastforce simp: plan_slots_def split: sum.splits)



text \<open>
  Compaction is idempotent: run again on its own output it returns that output, event ids included,
  and finds nothing to collapse or rewrite.
\<close>

theorem compaction_idempotent:
  assumes "compact_search_events S es = Inr (out, st)"
  shows "map_sum id (\<lambda>(again, st'). (again, cs_groups_collapsed st', cs_fat_rewritten st', cs_legacy_in st'))
    (compact_search_events S out) = Inr (out, 0, 0, 0)"
proof -
  from assms obtain slots where s: "plan_slots es = Inr slots" "refinalize S (map snd slots) 1 None = Inr out"
    by (auto simp: compact_parts)
  have "list_all settled_slot (map snd slots)" using plan_settled [OF s(1)] by (simp add: list_all_iff)
  from refinalize_again [OF s(2) this] have again: "refinalize S (map PassSlot out) 1 None = Inr out"
    and settled: "list_all settled out" by auto
  have "sorted (map ev_seq out)" using refinalize_valid [OF s(2)] valid_run_sorted by blast
  from plan_of_settled [OF settled this] have p: "plan_slots out = Inr (map (\<lambda>e. (None, PassSlot e)) out)" .
  have "compact_search_events S out = Inr (out, with_output (plan_stats out (map (\<lambda>e. (None, PassSlot e)) out)) out)"
    unfolding compact_parts using p again by (simp add: comp_def)
  moreover have "\<forall>e\<in>set out. \<not> is_legacy_search e \<and> \<not> (is_summary_search_event e \<and> \<not> is_already_v3_shaped (ev_payload e))"
    using settled unfolding list_all_iff settled_def is_legacy_search_def by (metis (full_types))
  then have "count_where (\<lambda>e. is_summary_search_event e \<and> \<not> is_already_v3_shaped (ev_payload e)) out = 0"
    "count_where is_legacy_search out = 0"
    unfolding count_where_def length_0_conv filter_empty_conv by blast+
  ultimately show ?thesis by (simp add: with_output_def plan_stats_def) (simp add: count_where_def comp_def)
qed

theorem compaction_idempotent_witness:
  "\<exists>out st. compact_search_events sample_sealing sample_searches = Inr (out, st) \<and> cs_groups_collapsed st = 1 \<and>
     map_sum id fst (compact_search_events sample_sealing out) = Inr out"
proof -
  obtain out st where c: "compact_search_events sample_sealing sample_searches = Inr (out, st)" "cs_groups_collapsed st = 1"
    using sample_compacted_ex by blast
  with compaction_idempotent [OF c(1)] show ?thesis
    by (cases "compact_search_events sample_sealing out") auto
qed

text \<open>
  C19. Streaming is compaction: over a log in sequence order whose batches are contiguous, the
  bounded-memory form and the in-memory one succeed on the same logs, with the same events and the same
  statistics.
\<close>

theorem streaming_agrees:
  assumes "sorted (map ev_seq es)" "batches_contiguous es"
  shows "(stream_compact_events S es zero_stats 1 None = Inr r) = (compact_search_events S es = Inr r)"
  by (rule stream_agrees [OF assms])

theorem streaming_agrees_witness:
  "\<exists>out st. stream_compact_events sample_sealing sample_searches zero_stats 1 None = Inr (out, st) \<and> length out = 2"
proof -
  have "sorted (map ev_seq sample_searches)" "batches_contiguous sample_searches"
    by (simp_all add: sample_searches_def sample_event_def batches_contiguous_def)
  from streaming_agrees [OF this, of sample_sealing] sample_compacted_ex show ?thesis by metis
qed

text \<open>
  Extending a compacted chain keeps it: new events compacted onto a valid base give a valid chain
  that begins with the base, untouched.
\<close>

theorem extension_keeps_base:
  assumes "valid_run (se_H S) 1 None base" "compact_and_append S base delta = Inr (out, st)"
  shows "validate_import_events (se_H S) out = Inr out \<and> take (length base) out = base"
proof -
  have "valid_run (se_H S) 1 None out \<and> take (length base) out = base"
  proof (cases "delta = []")
    case True
    then show ?thesis using assms by (simp add: compact_and_append_def)
  next
    case False
    let ?seq = "if base = [] then 0 else ev_seq (last base)"
    let ?id = "if base = [] then None else Some (ev_id (last base))"
    from assms(2) False obtain slots app where r: "refinalize S slots (?seq + 1) ?id = Inr app" "out = base @ app"
      by (auto simp: compact_and_append_def Let_def split: sum.splits prod.splits)
    have "?seq + 1 = 1 + int (length base)" using valid_run_last_seq [OF assms(1)] by auto
    moreover have "?id = run_tail None base" by (simp add: run_tail_last)
    ultimately show ?thesis
      using refinalize_valid [OF r(1)] assms(1) r(2) by (simp add: valid_run_append add.commute)
  qed
  then show ?thesis
    by (auto simp: validate_import_events_def Let_def valid_run_sort_id validate_run_iff [symmetric] split: option.split)
qed

lemma sample_extends:
  "case compact_and_append sample_sealing (events_in_range sample_log) sample_searches of Inl _ \<Rightarrow> False
   | Inr (out, st) \<Rightarrow> length out = 3"
  by code_simp

theorem extension_keeps_base_witness:
  "\<exists>out st. compact_and_append sample_sealing (events_in_range sample_log) sample_searches = Inr (out, st) \<and>
     length out = 3 \<and> take 1 out = events_in_range sample_log"
proof -
  obtain out st where c: "compact_and_append sample_sealing (events_in_range sample_log) sample_searches = Inr (out, st)"
    "length out = 3"
    using sample_extends by (auto split: sum.splits)
  have "valid_run (se_H sample_sealing) 1 None (events_in_range sample_log)"
    using sample_log_facts(1) by (simp add: log_ok_def sample_sealing_def)
  from extension_keeps_base [OF this c(1)] c sample_log_facts(4) show ?thesis by simp
qed

end
