(* ===== verification/CompactionReads.thy ===== *)
theory CompactionReads
  imports CompactionProps
begin

text \<open>
  What a reader sees before and after compaction: the outcome of every search, the key a reader
  deduplicates on, is the same in the rewritten log.
\<close>

section \<open>The outcomes a log reports\<close>

text \<open>Patch, head, attribution version and result; a log that cannot be read gives the error.\<close>

type_synonym outcome = "string option \<times> json \<times> string \<times> json"

definition record_outcome :: "search_record \<Rightarrow> outcome" where
  "record_outcome r = (pr_patch_id r, pr_head_sha r, pr_attribution r, pr_result r)"

definition event_outcomes :: "(json \<Rightarrow> string) \<Rightarrow> trail_event \<Rightarrow> py_error + outcome list" where
  "event_outcomes repr e = map_sum id (map record_outcome) (iter_search_records repr e)"

definition log_outcomes :: "(json \<Rightarrow> string) \<Rightarrow> trail_event list \<Rightarrow> py_error + outcome list" where
  "log_outcomes repr es = concat_err (event_outcomes repr) es"

lemma concat_err_Inr: "concat_err f xs = Inr ys \<longleftrightarrow> list_all (\<lambda>x. \<not> isl (f x)) xs \<and> ys = concat (map (\<lambda>x. projr (f x)) xs)"
proof (induction xs arbitrary: ys)
  case Nil
  then show ?case by (auto simp: concat_err_def)
next
  case (Cons x xs)
  then show ?case
    by (cases "f x"; cases "map_err f xs") (auto simp: concat_err_def isl_def)
qed

text \<open>
  A mixed or legacy entry that the rewrite can fold: its id is a non-empty string, and its result one
  of the two the search reports.
\<close>

definition entry_foldable :: "entry \<Rightarrow> bool" where
  "entry_foldable d \<longleftrightarrow>
     (case jget d ''trace_patch_id'' of JStr p \<Rightarrow> p \<noteq> [] | _ \<Rightarrow> False) \<and>
     (jget d ''result'' = JStr ''anchored'' \<or> jget d ''result'' = JStr ''unknown'')"

text \<open>
  An event the rewrite can fold. A legacy event names its patch by id, not by a reference to another
  one; an event it passes through asks for nothing.
\<close>

definition event_foldable :: "string \<Rightarrow> trail_event \<Rightarrow> bool" where
  "event_foldable attribution e =
     (if is_legacy_search e then
        ev_attribution e = attribution \<and> entry_foldable (ev_payload e) \<and>
        \<not> truthy (jfield (jget (ev_payload e) ''trace_patch_ref'') ''id'')
      else if is_summary_search_event e \<and> \<not> is_already_v3_shaped (ev_payload e) then
        (case iter_or_empty (jget (ev_payload e) ''results'') of Inl _ \<Rightarrow> False
         | Inr xs \<Rightarrow> list_all entry_foldable (entry_dicts xs))
      else True)"

section \<open>Reading one record\<close>

definition ref_ok :: "(json \<Rightarrow> string) \<Rightarrow> string option \<Rightarrow> bool" where
  "ref_ok repr pid = (case pid of None \<Rightarrow> True | Some p \<Rightarrow> p = [] \<or> \<not> isl (trace_patch_ref repr (JStr p)))"

lemma map_sum_cases: "map_sum f g x = (case x of Inl a \<Rightarrow> Inl (f a) | Inr b \<Rightarrow> Inr (g b))"
  by (cases x) auto

lemma mk_record_outcome:
  "map_sum id record_outcome (mk_record repr e pid tr stp gen result created head algs) = Inr k \<longleftrightarrow>
     \<not> isl (iter_or_empty algs) \<and> \<not> isl (iter_or_empty created) \<and> ref_ok repr pid \<and>
     k = (pid, head_hex head, ev_attribution e, result)"
proof (cases "iter_or_empty algs")
  case algs: (Inr a)
  show ?thesis
  proof (cases "iter_or_empty created")
    case created: (Inr c)
    show ?thesis
    proof (cases pid)
      case (Some p)
      then show ?thesis using algs created
        by (cases "trace_patch_ref repr (JStr p)")
          (auto simp: mk_record_def normalized_anchor_ids_def ref_ok_def record_outcome_def isl_def)
    qed (use algs created in \<open>auto simp: mk_record_def normalized_anchor_ids_def ref_ok_def record_outcome_def isl_def\<close>)
  qed (use algs in \<open>auto simp: mk_record_def normalized_anchor_ids_def isl_def\<close>)
qed (auto simp: mk_record_def isl_def)

text \<open>The outcomes of a summary, entry by entry.\<close>

definition result_outcome :: "(json \<Rightarrow> string) \<Rightarrow> trail_event \<Rightarrow> json \<Rightarrow> py_error + outcome list" where
  "result_outcome repr e x = map_sum id (map record_outcome) (result_record repr e x)"

definition unanchored_outcome :: "(json \<Rightarrow> string) \<Rightarrow> trail_event \<Rightarrow> json \<Rightarrow> py_error + outcome list" where
  "unanchored_outcome repr e x = map_sum id (map record_outcome) (unanchored_record repr e x)"

lemma concat_err_map: "map_sum id (map f) (concat_err g xs) = concat_err (\<lambda>x. map_sum id (map f) (g x)) xs"
proof -
  have "map_err (\<lambda>x. map_sum id (map f) (g x)) xs = map_sum id (map (map f)) (map_err g xs)"
  proof (induction xs)
    case (Cons x xs)
    then show ?case by (cases "g x"; cases "map_err g xs") simp_all
  qed simp
  then show ?thesis by (simp add: concat_err_def sum.map_comp comp_def map_concat id_def)
qed

lemma event_outcomes_summary:
  assumes "is_summary_search_event e"
  shows "event_outcomes repr e =
    bindr (iter_or_empty (jget (ev_payload e) ''results'')) (\<lambda>xs. bindr (concat_err (result_outcome repr e) xs) (\<lambda>ks.
    bindr (iter_or_empty (jget (ev_payload e) ''unanchored_trace_patch_ids'')) (\<lambda>us.
    bindr (concat_err (unanchored_outcome repr e) us) (\<lambda>ks'. Inr (ks @ ks')))))"
proof -
  have "concat_err (result_outcome repr e) xs = map_sum id (map record_outcome) (concat_err (result_record repr e) xs)"
    "concat_err (unanchored_outcome repr e) xs = map_sum id (map record_outcome) (concat_err (unanchored_record repr e) xs)" for xs
    unfolding concat_err_map result_outcome_def unanchored_outcome_def by simp_all
  moreover have "ev_type e = ANCHOR_SEARCH_EVENT_TYPE" using assms by (simp add: is_summary_search_event_def)
  ultimately show ?thesis
    using assms by (simp add: event_outcomes_def iter_search_records_def Let_def bindr_def split: sum.split)
qed

definition entry_outcome :: "(json \<Rightarrow> string) \<Rightarrow> string \<Rightarrow> json \<Rightarrow> entry \<Rightarrow> outcome" where
  "entry_outcome repr attribution hex d =
     (Some (normalize_id repr (jget d ''trace_patch_id'')), hex, attribution, jget d ''result'')"

definition entry_readable :: "(json \<Rightarrow> string) \<Rightarrow> entry \<Rightarrow> bool" where
  "entry_readable repr d \<longleftrightarrow> entry_foldable d \<and> \<not> isl (iter_or_empty (jget d ''created_anchor_ids'')) \<and>
     ref_ok repr (Some (normalize_id repr (jget d ''trace_patch_id'')))"

lemma foldable_id:
  assumes "entry_foldable d" obtains p where "jget d ''trace_patch_id'' = JStr p" "p \<noteq> []"
  using assms by (auto simp: entry_foldable_def split: json.splits)

lemma result_outcome_Inr:
  assumes "entry_foldable d"
  shows "result_outcome repr e (JObj d) = Inr ks \<longleftrightarrow>
    \<not> isl (iter_or_empty (jget (ev_payload e) ''algorithms_attempted'')) \<and> entry_readable repr d \<and>
    ks = [entry_outcome repr (ev_attribution e) (head_hex (jget (ev_payload e) ''search_head'')) d]"
proof -
  let ?r = "mk_record repr e (Some (normalize_id repr (jget d ''trace_patch_id'')))
      (jget d ''trace_id'') (jget d ''step_index'') (jget d ''generation_index'') (jget d ''result'')
      (jget d ''created_anchor_ids'') (jget (ev_payload e) ''search_head'') (jget (ev_payload e) ''algorithms_attempted'')"
  have "truthy (jget d ''trace_patch_id'')" using foldable_id [OF assms] by (metis truthy.simps(5))
  then have "result_outcome repr e (JObj d) = map_sum id (\<lambda>k. [k]) (map_sum id record_outcome ?r)"
    by (simp add: result_outcome_def result_record_def sum.map_comp comp_def id_def)
  then have "result_outcome repr e (JObj d) = Inr ks \<longleftrightarrow> (\<exists>k. map_sum id record_outcome ?r = Inr k \<and> ks = [k])"
    by (cases "map_sum id record_outcome ?r") auto
  also have "\<dots> \<longleftrightarrow> \<not> isl (iter_or_empty (jget (ev_payload e) ''algorithms_attempted'')) \<and> entry_readable repr d \<and>
      ks = [entry_outcome repr (ev_attribution e) (head_hex (jget (ev_payload e) ''search_head'')) d]"
    unfolding mk_record_outcome entry_readable_def entry_outcome_def using assms by auto
  finally show ?thesis .
qed

lemma unanchored_outcome_Inr:
  assumes "p \<noteq> []"
  shows "unanchored_outcome repr e (JStr p) = Inr ks \<longleftrightarrow>
    \<not> isl (iter_or_empty (jget (ev_payload e) ''algorithms_attempted'')) \<and> ref_ok repr (Some (normalize_id repr (JStr p))) \<and>
    ks = [(Some (normalize_id repr (JStr p)), head_hex (jget (ev_payload e) ''search_head''), ev_attribution e, JStr ''unknown'')]"
proof -
  let ?r = "mk_record repr e (Some (normalize_id repr (JStr p))) JNull JNull JNull (JStr ''unknown'') JNull
      (jget (ev_payload e) ''search_head'') (jget (ev_payload e) ''algorithms_attempted'')"
  have "unanchored_outcome repr e (JStr p) = map_sum id (\<lambda>k. [k]) (map_sum id record_outcome ?r)"
    using assms by (simp add: unanchored_outcome_def unanchored_record_def sum.map_comp comp_def id_def)
  then have "unanchored_outcome repr e (JStr p) = Inr ks \<longleftrightarrow> (\<exists>k. map_sum id record_outcome ?r = Inr k \<and> ks = [k])"
    by (cases "map_sum id record_outcome ?r") auto
  also have "\<dots> \<longleftrightarrow> \<not> isl (iter_or_empty (jget (ev_payload e) ''algorithms_attempted'')) \<and>
      ref_ok repr (Some (normalize_id repr (JStr p))) \<and>
      ks = [(Some (normalize_id repr (JStr p)), head_hex (jget (ev_payload e) ''search_head''), ev_attribution e, JStr ''unknown'')]"
    unfolding mk_record_outcome by (auto simp: iter_or_empty_def)
  finally show ?thesis .
qed

section \<open>What the plan and the sealing preserve\<close>

definition slot_outcomes :: "(json \<Rightarrow> string) \<Rightarrow> slot \<Rightarrow> outcome list" where
  "slot_outcomes repr s = (case s of PassSlot e \<Rightarrow> projr (event_outcomes repr e)
     | SumSlot sl \<Rightarrow> map (entry_outcome repr (sl_attribution sl) (head_hex (sl_head sl))) (sl_results sl))"

definition slot_readable :: "(json \<Rightarrow> string) \<Rightarrow> slot \<Rightarrow> bool" where
  "slot_readable repr s = (case s of PassSlot e \<Rightarrow> \<not> isl (event_outcomes repr e)
     | SumSlot sl \<Rightarrow> list_all (entry_readable repr) (sl_results sl))"

text \<open>The outcomes depend on the type, the payload and the attribution version alone.\<close>

definition args_outcome ::
  "(json \<Rightarrow> string) \<Rightarrow> string \<Rightarrow> string option \<Rightarrow> json \<Rightarrow> json \<Rightarrow> json \<Rightarrow> json \<Rightarrow> py_error + outcome" where
  "args_outcome repr attribution pid result created head algs =
     bindr (iter_or_empty algs) (\<lambda>_. bindr (iter_or_empty created) (\<lambda>_.
     bindr (case pid of None \<Rightarrow> Inr () | Some p \<Rightarrow> if p = [] then Inr () else map_sum id (\<lambda>_. ()) (trace_patch_ref repr (JStr p)))
       (\<lambda>_. Inr (pid, head_hex head, attribution, result))))"

lemma mk_record_args:
  "map_sum id record_outcome (mk_record repr e pid tr stp gen r c h al) = args_outcome repr (ev_attribution e) pid r c h al"
  by (simp add: mk_record_def normalized_anchor_ids_def record_outcome_def map_sum_cases args_outcome_def bindr_def
    split: sum.split option.split)

lemma single_outcome: "map_sum id (map record_outcome) (map_sum id (\<lambda>r. [r]) m) = map_sum id (\<lambda>k. [k]) (map_sum id record_outcome m)"
  by (cases m) simp_all

lemma outcomes_cong:
  assumes "ev_type a = ev_type b" "ev_payload a = ev_payload b" "ev_attribution a = ev_attribution b"
  shows "event_outcomes repr a = event_outcomes repr b"
proof (cases "is_summary_search_event b")
  case True
  have res: "result_outcome repr a x = result_outcome repr b x" for x
    by (cases x) (simp_all add: result_outcome_def result_record_def single_outcome mk_record_args assms del: sum.map_comp)
  have una: "unanchored_outcome repr a x = unanchored_outcome repr b x" for x
    by (simp add: unanchored_outcome_def unanchored_record_def single_outcome mk_record_args assms del: sum.map_comp)
  have "is_summary_search_event a" using True assms(1,2) by (simp add: is_summary_search_event_def)
  have eqs: "result_outcome repr a = result_outcome repr b" "unanchored_outcome repr a = unanchored_outcome repr b"
    using res una by auto
  show ?thesis unfolding event_outcomes_summary [OF True] event_outcomes_summary [OF \<open>is_summary_search_event a\<close>] eqs assms(2) ..
next
  case False
  then have "\<not> is_summary_search_event a" using assms(1,2) by (simp add: is_summary_search_event_def)
  with False show ?thesis
    by (simp add: event_outcomes_def iter_search_records_def Let_def single_outcome mk_record_args assms del: sum.map_comp)
qed

text \<open>One slot: the sealed event reports the outcomes of the slot, in some order.\<close>

lemma pass_outcomes:
  assumes "finalize_slot S (PassSlot src) i prev = Inr e"
  shows "event_outcomes repr e = event_outcomes repr src"
  using assms by (intro outcomes_cong) (auto simp: finalize_slot_def finalize_event_Inr pass_data_def)

lemma unanchored_foldable:
  assumes "list_all entry_foldable ds"
  shows "map JStr (unanchored_ids repr ds) = map (\<lambda>d. jget d ''trace_patch_id'') (filter (\<lambda>d. \<not> is_anchored d) ds)"
  using assms
proof (induction ds)
  case (Cons d ds)
  then have "entry_foldable d" by simp
  then obtain p where "jget d ''trace_patch_id'' = JStr p" "p \<noteq> []" by (rule foldable_id)
  with Cons show ?case by (simp add: unanchored_ids_def)
qed (simp add: unanchored_ids_def)

lemma mset_split: "mset (map f (filter P xs) @ map f (filter (\<lambda>x. \<not> P x) xs)) = mset (map f xs)"
  by (induction xs) auto

lemma list_iter [simp]: "iter_or_empty (JList xs) = Inr xs"
  by (simp add: iter_or_empty_def py_iter_def)

lemma concat_singletons: "(\<And>x. x \<in> set xs \<Longrightarrow> f x = Inr [g x]) \<Longrightarrow> concat_err f xs = Inr (map g xs)"
  by (induction xs) (auto simp: concat_err_def map_sum_cases split: sum.splits)

lemma sum_outcomes:
  assumes "finalize_slot S (SumSlot sl) i prev = Inr e" "list_all (entry_readable repr) (sl_results sl)"
  shows "\<exists>ks. event_outcomes repr e = Inr ks \<and> mset ks = mset (slot_outcomes repr (SumSlot sl))"
proof -
  let ?ds = "sl_results sl" and ?hex = "head_hex (sl_head sl)"
  let ?out = "entry_outcome repr (sl_attribution sl) ?hex"
  from assms(1) obtain p where p: "summary_payload (se_repr S) sl = Inr p"
    and e: "e = finalized (se_H S) (summary_data (se_now S) sl p i prev)"
    by (auto simp: finalize_slot_def finalize_event_Inr split: sum.splits)
  from assms(2) have fold: "list_all entry_foldable ?ds" by (simp add: list_all_iff entry_readable_def)
  have ev: "ev_payload e = p" "ev_attribution e = sl_attribution sl" "ev_type e = ANCHOR_SEARCH_EVENT_TYPE"
    by (simp_all add: e summary_data_def)
  have get: "jget p ''results'' = JList (map JObj (filter is_anchored ?ds))" "jget p ''summary'' = JBool True"
    "jget p ''unanchored_trace_patch_ids'' = JList (map JStr (unanchored_ids (se_repr S) ?ds))"
    "jget p ''algorithms_attempted'' = JList (sl_algorithms sl)" "jget p ''search_head'' = sl_head sl"
    using p by (auto simp: summary_payload_def build_anchor_search_summary_payload_def Let_def jget_def)
  note ids = unanchored_foldable [OF fold, of "se_repr S"]
  have "is_summary_search_event e" using ev get(2) by (simp add: is_summary_search_event_def is_summary_payload_def)
  moreover have "concat_err (result_outcome repr e) (map JObj (filter is_anchored ?ds)) = Inr (map ?out (filter is_anchored ?ds))"
  proof -
    have "result_outcome repr e (JObj d) = Inr [?out d]" if "d \<in> set ?ds" for d
    proof -
      from that assms(2) have "entry_readable repr d" "entry_foldable d" by (auto simp: list_all_iff entry_readable_def)
      then show ?thesis unfolding result_outcome_Inr [OF \<open>entry_foldable d\<close>] by (simp add: ev get)
    qed
    then have "concat_err (result_outcome repr e) (map JObj (filter is_anchored ?ds)) =
        Inr (map (\<lambda>x. ?out (case x of JObj d \<Rightarrow> d)) (map JObj (filter is_anchored ?ds)))"
      by (intro concat_singletons) auto
    then show ?thesis by (simp add: comp_def)
  qed
  moreover have "concat_err (unanchored_outcome repr e) (map (\<lambda>d. jget d ''trace_patch_id'') (filter (\<lambda>d. \<not> is_anchored d) ?ds)) =
      Inr (map ?out (filter (\<lambda>d. \<not> is_anchored d) ?ds))"
  proof -
    let ?un = "\<lambda>x. (Some (normalize_id repr x), ?hex, sl_attribution sl, JStr ''unknown'')"
    have un: "unanchored_outcome repr e (jget d ''trace_patch_id'') = Inr [?un (jget d ''trace_patch_id'')] \<and>
        (\<not> is_anchored d \<longrightarrow> ?un (jget d ''trace_patch_id'') = ?out d)" if "d \<in> set ?ds" for d
    proof -
      from that assms(2) have r: "entry_readable repr d" and f: "entry_foldable d" by (auto simp: list_all_iff entry_readable_def)
      from f obtain q where q: "jget d ''trace_patch_id'' = JStr q" "q \<noteq> []" by (rule foldable_id)
      have "unanchored_outcome repr e (JStr q) = Inr [?un (JStr q)]"
        unfolding unanchored_outcome_Inr [OF q(2)] using r q by (simp add: ev get entry_readable_def)
      then show ?thesis using f q by (auto simp: entry_outcome_def entry_foldable_def is_anchored_def)
    qed
    then have "concat_err (unanchored_outcome repr e) (map (\<lambda>d. jget d ''trace_patch_id'') (filter (\<lambda>d. \<not> is_anchored d) ?ds)) =
        Inr (map ?un (map (\<lambda>d. jget d ''trace_patch_id'') (filter (\<lambda>d. \<not> is_anchored d) ?ds)))"
      by (intro concat_singletons) auto
    then show ?thesis using un by (auto simp: comp_def)
  qed
  ultimately have "event_outcomes repr e = Inr (map ?out (filter is_anchored ?ds) @ map ?out (filter (\<lambda>d. \<not> is_anchored d) ?ds))"
    by (simp add: event_outcomes_summary ev get ids)
  then show ?thesis using mset_split [of ?out is_anchored ?ds] by (simp add: slot_outcomes_def)
qed

lemma finalize_outcomes:
  assumes "finalize_slot S s i prev = Inr e" "slot_readable repr s"
  shows "\<exists>ks. event_outcomes repr e = Inr ks \<and> mset ks = mset (slot_outcomes repr s)"
proof (cases s)
  case (PassSlot src)
  with assms pass_outcomes show ?thesis
    by (cases "event_outcomes repr src") (auto simp: slot_outcomes_def slot_readable_def)
next
  case (SumSlot sl)
  with assms sum_outcomes show ?thesis by (simp add: slot_readable_def)
qed

lemma refinalize_outcomes:
  "refinalize S slots i prev = Inr out \<Longrightarrow> list_all (slot_readable repr) slots \<Longrightarrow>
    \<exists>ks. log_outcomes repr out = Inr ks \<and> mset ks = mset (concat (map (slot_outcomes repr) slots))"
proof (induction slots arbitrary: i prev out)
  case Nil
  then show ?case by (simp add: log_outcomes_def concat_err_def)
next
  case (Cons s slots)
  then obtain e es where e: "finalize_slot S s i prev = Inr e"
    and es: "refinalize S slots (i + 1) (Some (ev_id e)) = Inr es" "out = e # es"
    by (auto split: sum.splits)
  from finalize_outcomes [OF e] Cons.prems(2) obtain ks where
    k: "event_outcomes repr e = Inr ks" "mset ks = mset (slot_outcomes repr s)" by auto
  from Cons.IH [OF es(1)] Cons.prems(2) obtain ks' where
    k': "log_outcomes repr es = Inr ks'" "mset ks' = mset (concat (map (slot_outcomes repr) slots))" by auto
  have "log_outcomes repr out = Inr (ks @ ks')"
    using k(1) k'(1) by (auto simp: es(2) log_outcomes_def concat_err_Inr)
  with k k' show ?case by simp
qed

text \<open>What one action adds to the outcomes of the plan.\<close>

definition action_readable :: "(json \<Rightarrow> string) \<Rightarrow> string \<Rightarrow> action \<Rightarrow> bool" where
  "action_readable repr attribution a = (case a of
     Pass e \<Rightarrow> \<not> isl (event_outcomes repr e) | PassV3 e \<Rightarrow> \<not> isl (event_outcomes repr e)
   | Fat sl \<Rightarrow> slot_readable repr (SumSlot sl)
   | Legacy k e \<Rightarrow> entry_readable repr (result_entry_from_legacy e) \<and> ev_attribution e = attribution \<and>
       head_hex (jget (ev_payload e) ''search_head'') = snd k)"

definition action_outcomes :: "(json \<Rightarrow> string) \<Rightarrow> action \<Rightarrow> outcome list" where
  "action_outcomes repr a = (case a of
     Pass e \<Rightarrow> projr (event_outcomes repr e) | PassV3 e \<Rightarrow> projr (event_outcomes repr e)
   | Fat sl \<Rightarrow> slot_outcomes repr (SumSlot sl)
   | Legacy k e \<Rightarrow> [entry_outcome repr (ev_attribution e) (snd k) (result_entry_from_legacy e)])"

lemma result_outcomes_entries:
  "concat_err (result_outcome repr e) xs = Inr ks \<Longrightarrow> list_all entry_foldable (entry_dicts xs) \<Longrightarrow>
    list_all (entry_readable repr) (entry_dicts xs) \<and>
    ks = map (entry_outcome repr (ev_attribution e) (head_hex (jget (ev_payload e) ''search_head''))) (entry_dicts xs)"
proof (induction xs arbitrary: ks)
  case Nil
  then show ?case by (simp add: concat_err_def entry_dicts_def)
next
  case (Cons x xs)
  from Cons.prems(1) obtain k ks' where k: "result_outcome repr e x = Inr k" "concat_err (result_outcome repr e) xs = Inr ks'"
    "ks = k @ ks'"
    by (cases "result_outcome repr e x") (auto simp: concat_err_Inr)
  show ?case
  proof (cases "\<exists>d. x = JObj d")
    case True
    then obtain d where d: "x = JObj d" by blast
    with Cons.prems(2) have "entry_foldable d" by (simp add: entry_dicts_def)
    from Cons.IH [OF k(2)] Cons.prems(2) k(1,3) show ?thesis
      unfolding d result_outcome_Inr [OF \<open>entry_foldable d\<close>] by (simp add: entry_dicts_def d)
  next
    case False
    then have "k = []" "entry_dicts (x # xs) = entry_dicts xs"
      using k(1) by (cases x; simp add: result_outcome_def result_record_def entry_dicts_def)+
    with Cons.IH [OF k(2)] Cons.prems(2) k(3) show ?thesis by simp
  qed
qed

lemma legacy_entry:
  "jget (result_entry_from_legacy e) ''trace_patch_id'' = jget (ev_payload e) ''trace_patch_id''"
  "jget (result_entry_from_legacy e) ''result'' = jget (ev_payload e) ''result''"
  "iter_or_empty (jget (result_entry_from_legacy e) ''created_anchor_ids'') = iter_or_empty (jget (ev_payload e) ''created_anchor_ids'')"
  by (simp_all add: result_entry_from_legacy_def jget_def jor_def iter_or_empty_def)

lemma legacy_outcomes:
  assumes "is_legacy_search e" "event_foldable attribution e" "event_outcomes repr e = Inr ks"
  shows "entry_readable repr (result_entry_from_legacy e) \<and>
    ks = [entry_outcome repr (ev_attribution e) (head_hex (jget (ev_payload e) ''search_head'')) (result_entry_from_legacy e)]"
proof -
  let ?p = "ev_payload e"
  have f: "entry_foldable ?p" and noref: "\<not> truthy (jfield (jget ?p ''trace_patch_ref'') ''id'')"
    using assms(1,2) by (simp_all add: event_foldable_def)
  have "truthy (jget ?p ''trace_patch_id'')" using foldable_id [OF f] by (metis truthy.simps(5))
  with noref have pid: "id_from_payload repr ?p ''trace_patch'' = Some (normalize_id repr (jget ?p ''trace_patch_id''))"
    by (simp add: id_from_payload_def Let_def)
  let ?m = "mk_record repr e (Some (normalize_id repr (jget ?p ''trace_patch_id''))) (of_opt_str (ev_trace e))
      (of_opt_int (ev_step e)) (of_opt_int (ev_gen e)) (jget ?p ''result'') (jget ?p ''created_anchor_ids'')
      (jget ?p ''search_head'') (jget ?p ''algorithms_attempted'')"
  have "event_outcomes repr e = map_sum id (\<lambda>k. [k]) (map_sum id record_outcome ?m)"
    using assms(1) pid
    by (simp add: event_outcomes_def iter_search_records_def Let_def is_legacy_search_def single_outcome del: sum.map_comp)
  with assms(3) obtain k where k: "map_sum id record_outcome ?m = Inr k" "ks = [k]"
    by (cases "map_sum id record_outcome ?m") auto
  from k(1) f show ?thesis
    unfolding mk_record_outcome k(2) entry_readable_def entry_outcome_def legacy_entry entry_foldable_def by auto
qed

lemma classify_outcomes:
  assumes "classify e = Inr a" "event_foldable attribution e" "event_outcomes repr e = Inr ks"
  shows "action_readable repr attribution a \<and> action_outcomes repr a = ks"
proof (cases "is_summary_search_event e")
  case summary: True
  show ?thesis
  proof (cases "is_already_v3_shaped (ev_payload e)")
    case True
    with summary assms show ?thesis
      by (auto simp: classify_def Let_def action_readable_def action_outcomes_def)
  next
    case False
    with summary assms(1) obtain algs xs where x: "iter_or_empty (jget (ev_payload e) ''results'') = Inr xs"
      and a: "a = Fat (slot_of e algs (entry_dicts xs))"
      by (auto simp: classify_def Let_def split: sum.splits)
    have "jget (ev_payload e) ''unanchored_trace_patch_ids'' = JNull"
      using False by (simp add: is_already_v3_shaped_def dmem_def jget_def)
    then have "iter_or_empty (jget (ev_payload e) ''unanchored_trace_patch_ids'') = Inr []" by (simp add: iter_or_empty_def)
    moreover have "concat_err (unanchored_outcome repr e) [] = Inr []" by (simp add: concat_err_def)
    ultimately have "concat_err (result_outcome repr e) xs = Inr ks"
      using assms(3) unfolding event_outcomes_summary [OF summary] bindr_Inr_iff by (auto simp: x)
    moreover have "list_all entry_foldable (entry_dicts xs)"
      using assms(2) False summary by (simp add: event_foldable_def is_legacy_search_def x)
    ultimately show ?thesis
      using result_outcomes_entries by (simp add: a action_readable_def action_outcomes_def slot_readable_def slot_outcomes_def slot_of_def)
  qed
next
  case False
  show ?thesis
  proof (cases "is_legacy_search e")
    case True
    with False assms(1) have "a = Legacy (ev_batch e, head_hex (jget (ev_payload e) ''search_head'')) e"
      by (auto simp: classify_def Let_def split: if_splits)
    with legacy_outcomes [OF True assms(2,3)] True assms(2) show ?thesis
      by (simp add: action_readable_def action_outcomes_def event_foldable_def)
  next
    case nl: False
    with False assms show ?thesis
      by (auto simp: classify_def Let_def action_readable_def action_outcomes_def)
  qed
qed

text \<open>The open groups carry the key and the version of their events; no key is open twice.\<close>

definition group_ok :: "string \<Rightarrow> plan_slot \<Rightarrow> bool" where
  "group_ok attribution ks = (case ks of (None, _) \<Rightarrow> True | (Some k, PassSlot _) \<Rightarrow> False
     | (Some k, SumSlot sl) \<Rightarrow> head_hex (sl_head sl) = snd k \<and> sl_attribution sl = attribution)"

definition plan_ok :: "(json \<Rightarrow> string) \<Rightarrow> string \<Rightarrow> plan_slot list \<Rightarrow> bool" where
  "plan_ok repr attribution slots \<longleftrightarrow> list_all (\<lambda>s. slot_readable repr (snd s)) slots \<and>
     list_all (group_ok attribution) slots \<and> distinct (filter (\<lambda>k. k \<noteq> None) (map fst slots))"

definition plan_outcomes :: "(json \<Rightarrow> string) \<Rightarrow> plan_slot list \<Rightarrow> outcome list" where
  "plan_outcomes repr slots = concat (map (\<lambda>s. slot_outcomes repr (snd s)) slots)"

lemma add_legacy_outcomes:
  assumes "add_legacy k e slots = Inr out" "plan_ok repr A slots" "action_readable repr A (Legacy k e)"
  shows "plan_ok repr A out \<and> mset (plan_outcomes repr out) = mset (plan_outcomes repr slots) + mset (action_outcomes repr (Legacy k e))"
proof (cases "Some k \<in> set (map fst slots)")
  case True
  then obtain s0 where "(Some k, s0) \<in> set slots" by auto
  then obtain pre s post where s: "slots = pre @ (Some k, s) # post" by (metis split_list)
  from assms(2) have d: "Some k \<notin> fst ` set pre" "Some k \<notin> fst ` set post"
    by (auto simp: plan_ok_def s)
  let ?r = "result_entry_from_legacy e" and ?f = "\<lambda>r (k', s). if k' = Some k then (k', add_result r s) else (k', s)"
  have same: "map (?f ?r) pre = pre" "map (?f ?r) post = post" by (rule map_idI; use d in force)+
  from assms(2) obtain sl where sl: "s = SumSlot sl" "head_hex (sl_head sl) = snd k" "sl_attribution sl = A"
    by (cases s) (auto simp: plan_ok_def s group_ok_def)
  have out: "out = pre @ (Some k, SumSlot (sl\<lparr>sl_results := sl_results sl @ [?r]\<rparr>)) # post"
    using assms(1) True same by (simp add: add_legacy_def s sl add_result_def)
  show ?thesis
    using assms(2,3) sl
    by (simp add: out s plan_ok_def slot_readable_def group_ok_def plan_outcomes_def slot_outcomes_def action_readable_def
        action_outcomes_def)
next
  case False
  with assms(1) obtain algs where out: "out = slots @ [(Some k, SumSlot (slot_of e algs [result_entry_from_legacy e]))]"
    by (auto simp: add_legacy_def split: sum.splits)
  show ?thesis
    using assms(2,3) False
    by (simp add: out plan_ok_def slot_readable_def group_ok_def plan_outcomes_def slot_outcomes_def action_readable_def
        action_outcomes_def slot_of_def)
qed

lemma apply_outcomes:
  "apply_actions as slots = Inr out \<Longrightarrow> plan_ok repr A slots \<Longrightarrow> list_all (action_readable repr A) as \<Longrightarrow>
    plan_ok repr A out \<and> mset (plan_outcomes repr out) =
      mset (plan_outcomes repr slots) + mset (concat (map (action_outcomes repr) as))"
proof (induction as slots rule: apply_actions.induct)
  case (5 k e as slots)
  then obtain slots' where s: "add_legacy k e slots = Inr slots'" "apply_actions as slots' = Inr out"
    by (auto split: sum.splits)
  from add_legacy_outcomes [OF s(1) 5(3)] 5(4) have "plan_ok repr A slots'"
    "mset (plan_outcomes repr slots') = mset (plan_outcomes repr slots) + mset (action_outcomes repr (Legacy k e))" by auto
  with 5(1) [OF s] 5(4) show ?case by simp
qed (auto simp: plan_ok_def group_ok_def slot_readable_def plan_outcomes_def slot_outcomes_def action_readable_def action_outcomes_def)

lemma map_classify_outcomes:
  "map_err classify es = Inr as \<Longrightarrow> list_all (event_foldable A) es \<Longrightarrow> log_outcomes repr es = Inr ks \<Longrightarrow>
    list_all (action_readable repr A) as \<and> concat (map (action_outcomes repr) as) = ks"
proof (induction es arbitrary: as ks)
  case Nil
  then show ?case by (simp add: log_outcomes_def concat_err_def)
next
  case (Cons e es)
  then obtain a as' where a: "classify e = Inr a" "map_err classify es = Inr as'" "as = a # as'"
    by (auto split: sum.splits)
  from Cons.prems(3) obtain k where k: "event_outcomes repr e = Inr k"
    and rest: "log_outcomes repr es = Inr (concat (map (\<lambda>x. projr (event_outcomes repr x)) es))"
    and ks: "ks = k @ concat (map (\<lambda>x. projr (event_outcomes repr x)) es)"
    by (cases "event_outcomes repr e") (auto simp: log_outcomes_def concat_err_Inr)
  have "event_foldable A e" "list_all (event_foldable A) es" using Cons.prems(2) by simp_all
  with Cons.IH [OF a(2) _ rest] classify_outcomes [OF a(1) _ k, of A] show ?case
    by (simp add: a(3) ks)
qed

lemma mset_concat_cong: "mset xs = mset ys \<Longrightarrow> mset (concat (map f xs)) = mset (concat (map f ys))"
proof -
  have "mset (concat (map f zs)) = (\<Sum>z\<in>#mset zs. mset (f z))" for zs
    by (induction zs) auto
  then show "mset xs = mset ys \<Longrightarrow> ?thesis" by simp
qed

lemma sorted_outcomes:
  assumes "log_outcomes repr es = Inr ks"
  shows "\<exists>ks'. log_outcomes repr (sort_key f es) = Inr ks' \<and> mset ks' = mset ks"
  using assms mset_concat_cong [of "sort_key f es" es] by (auto simp: log_outcomes_def concat_err_Inr list_all_iff)

section \<open>Property\<close>

text \<open>
  C5. Compaction loses no search outcome: if a log reads, and its legacy and mixed search events name
  their patches by non-empty ids and report one of the two results under one attribution version, then
  the compacted log reads too and reports the same outcomes, each as often as before.
\<close>

theorem compaction_keeps_outcomes:
  assumes "compact_search_events S es = Inr (out, st)" "log_outcomes repr es = Inr ks" "list_all (event_foldable A) es"
  shows "\<exists>ks'. log_outcomes repr out = Inr ks' \<and> mset ks' = mset ks"
proof -
  from assms(1) obtain slots where s: "plan_slots es = Inr slots" "refinalize S (map snd slots) 1 None = Inr out"
    by (auto simp: compact_parts)
  from s(1) obtain as where as: "map_err classify (sort_key ev_seq es) = Inr as" "apply_actions as [] = Inr slots"
    by (auto simp: plan_slots_def split: sum.splits)
  obtain ks1 where ks1: "log_outcomes repr (sort_key ev_seq es) = Inr ks1" "mset ks1 = mset ks"
    using sorted_outcomes [OF assms(2)] by blast
  have "list_all (event_foldable A) (sort_key ev_seq es)" using assms(3) by (simp add: list_all_iff)
  from map_classify_outcomes [OF as(1) this ks1(1)] have act: "list_all (action_readable repr A) as"
    "concat (map (action_outcomes repr) as) = ks1" by auto
  have "plan_ok repr A slots \<and> mset (plan_outcomes repr slots) = mset ks1"
    using apply_outcomes [OF as(2) _ act(1)] act(2) by (simp add: plan_ok_def plan_outcomes_def)
  then have p: "list_all (slot_readable repr) (map snd slots)" "mset (plan_outcomes repr slots) = mset ks"
    using ks1(2) by (simp_all add: plan_ok_def list_all_iff)
  from refinalize_outcomes [OF s(2) p(1)] p(2) show ?thesis by (simp add: plan_outcomes_def comp_def)
qed

lemma sample_outcomes:
  "log_outcomes (\<lambda>_. []) sample_searches =
     Inr [(Some ''p1'', JStr (replicate 40 CHR ''a''), ATTRIBUTION_VERSION, JStr ''unknown''),
          (Some ''p2'', JStr (replicate 40 CHR ''a''), ATTRIBUTION_VERSION, JStr ''anchored'')]"
  by code_simp

theorem compaction_keeps_outcomes_witness:
  "\<exists>out st ks. compact_search_events sample_sealing sample_searches = Inr (out, st) \<and>
     log_outcomes (\<lambda>_. []) out = Inr ks \<and> length ks = 2"
proof -
  obtain out st where c: "compact_search_events sample_sealing sample_searches = Inr (out, st)"
    using sample_compacted_ex by blast
  have "list_all (event_foldable ATTRIBUTION_VERSION) sample_searches" by code_simp
  from compaction_keeps_outcomes [OF c sample_outcomes this] obtain ks where
    "log_outcomes (\<lambda>_. []) out = Inr ks"
    "mset ks = mset [(Some ''p1'', JStr (replicate 40 CHR ''a''), ATTRIBUTION_VERSION, JStr ''unknown''),
          (Some ''p2'', JStr (replicate 40 CHR ''a''), ATTRIBUTION_VERSION, JStr ''anchored'')]" by blast
  with c show ?thesis by (metis length_Cons list.size(3) numeral_2_eq_2 size_mset)
qed

end
