(* ===== verification/ContextModel.thy ===== *)
theory ContextModel
  imports EventModel "HOL-Library.Monad_Syntax"
begin

text \<open>
  The records of the context tree, from \<^verbatim>\<open>core/context_tree/models.py\<close> and \<^verbatim>\<open>contract.py\<close>: layers and
  nodes, their validators, their content addresses and their constructors. The conversion of a JSON
  value to an integer that the validation library performs is the parameter \<open>cint\<close>.
\<close>

definition CONTEXT_TREE_VERSION :: string where "CONTEXT_TREE_VERSION = ''0.1.0''"
definition CONTEXT_NODE_SCHEMA_VERSION :: string where "CONTEXT_NODE_SCHEMA_VERSION = ''opentraces.context_node.v1''"
definition CONTEXT_LAYER_SCHEMA_VERSION :: string where "CONTEXT_LAYER_SCHEMA_VERSION = ''opentraces.context_layer.v1''"

definition CONTEXT_LAYER_CAPTURED :: string where "CONTEXT_LAYER_CAPTURED = ''context_layer_captured''"
definition CONTEXT_NODE_OBSERVED :: string where "CONTEXT_NODE_OBSERVED = ''context_node_observed''"
definition CONTEXT_COMPACTION_OBSERVED :: string where "CONTEXT_COMPACTION_OBSERVED = ''context_compaction_observed''"
definition CONTEXT_TREE_RECONCILED :: string where "CONTEXT_TREE_RECONCILED = ''context_tree_reconciled''"

definition LAYER_TYPES :: "string list" where
  "LAYER_TYPES = [''system'', ''messages'', ''tool_registry'', ''runtime_state'']"

definition BRANCH_TYPES :: "string list" where
  "BRANCH_TYPES = [''root'', ''linear'', ''compaction_fork'', ''subagent_fork'', ''rewind_branch'', ''manual_branch'']"

definition COMPLETENESS_VALUES :: "string list" where
  "COMPLETENESS_VALUES = [''full'', ''approximated'', ''stub'']"

definition CAPTURE_METHOD_VALUES :: "string list" where
  "CAPTURE_METHOD_VALUES = [''live_capture'', ''transcript_reconstruction'', ''hardcoded_template'', ''proxy'', ''otel'']"

definition sha256_id :: "(json \<Rightarrow> string) \<Rightarrow> json \<Rightarrow> string" where
  "sha256_id H v = HASH_PREFIX @ sha256_hex H v"

definition hash_id_ok :: "string \<Rightarrow> bool" where
  "hash_id_ok v \<longleftrightarrow> starts_with v HASH_PREFIX \<and> length v = length HASH_PREFIX + 64"

section \<open>Fields of a payload\<close>

text \<open>A text, a text or null, an integer, an object; a default stands for a missing entry.\<close>

definition p_str :: "(string, json) dict \<Rightarrow> string \<Rightarrow> string option" where
  "p_str d k = (case dget d k of Some (JStr s) \<Rightarrow> Some s | _ \<Rightarrow> None)"

definition p_nullable :: "(json \<Rightarrow> 'a option) \<Rightarrow> 'a option option \<Rightarrow> (string, json) dict \<Rightarrow> string \<Rightarrow> 'a option option" where
  "p_nullable conv missing d k = (case dget d k of None \<Rightarrow> missing
     | Some v \<Rightarrow> if v = JNull then Some None else map_option Some (conv v))"

definition p_int :: "(json \<Rightarrow> int option) \<Rightarrow> (string, json) dict \<Rightarrow> string \<Rightarrow> int option" where
  "p_int cint d k = Option.bind (dget d k) cint"

definition p_str_default :: "string \<Rightarrow> (string, json) dict \<Rightarrow> string \<Rightarrow> string option" where
  "p_str_default dflt d k = (if dget d k = None then Some dflt else p_str d k)"

definition jobj_opt :: "json \<Rightarrow> (string, json) dict option" where
  "jobj_opt v = (case v of JObj d \<Rightarrow> Some d | _ \<Rightarrow> None)"

section \<open>Layers\<close>

record context_layer =
  cl_id :: string
  cl_type :: string
  cl_content :: "(string, json) dict"
  cl_completeness :: string
  cl_capture :: string
  cl_version :: string

definition canonical_layer_material :: "string \<Rightarrow> (string, json) dict \<Rightarrow> string \<Rightarrow> string \<Rightarrow> json" where
  "canonical_layer_material layer_type content completeness capture_method = JObj
     [(''schema_version'', JStr CONTEXT_LAYER_SCHEMA_VERSION), (''context_tree_version'', JStr CONTEXT_TREE_VERSION),
      (''layer_type'', JStr layer_type), (''completeness'', JStr completeness),
      (''capture_method'', JStr capture_method), (''content'', JObj content)]"

definition compute_layer_id :: "(json \<Rightarrow> string) \<Rightarrow> string \<Rightarrow> (string, json) dict \<Rightarrow> string \<Rightarrow> string \<Rightarrow> string" where
  "compute_layer_id H layer_type content completeness capture_method =
     sha256_id H (canonical_layer_material layer_type content completeness capture_method)"

definition layer_ok :: "(json \<Rightarrow> string) \<Rightarrow> context_layer \<Rightarrow> bool" where
  "layer_ok H l \<longleftrightarrow> hash_id_ok (cl_id l) \<and> cl_type l \<in> set LAYER_TYPES \<and>
     cl_completeness l \<in> set COMPLETENESS_VALUES \<and> cl_capture l \<in> set CAPTURE_METHOD_VALUES \<and>
     cl_id l = compute_layer_id H (cl_type l) (cl_content l) (cl_completeness l) (cl_capture l)"

definition parse_layer :: "(string, json) dict \<Rightarrow> context_layer option" where
  "parse_layer p = do {
     i \<leftarrow> p_str p ''layer_id''; ty \<leftarrow> p_str p ''layer_type''; c \<leftarrow> Option.bind (dget p ''content'') jobj_opt;
     co \<leftarrow> p_str p ''completeness''; ca \<leftarrow> p_str p ''capture_method'';
     v \<leftarrow> p_str_default CONTEXT_TREE_VERSION p ''CONTEXT_TREE_VERSION'';
     Some \<lparr>cl_id = i, cl_type = ty, cl_content = c, cl_completeness = co, cl_capture = ca, cl_version = v\<rparr> }"

definition validate_layer :: "(json \<Rightarrow> string) \<Rightarrow> (string, json) dict \<Rightarrow> context_layer option" where
  "validate_layer H p = do { l \<leftarrow> parse_layer p; if layer_ok H l then Some l else None }"

definition build_layer :: "(json \<Rightarrow> string) \<Rightarrow> string \<Rightarrow> (string, json) dict \<Rightarrow> string \<Rightarrow> string \<Rightarrow> context_layer option" where
  "build_layer H layer_type content completeness capture_method =
     (let l = \<lparr>cl_id = compute_layer_id H layer_type content completeness capture_method, cl_type = layer_type,
               cl_content = content, cl_completeness = completeness, cl_capture = capture_method,
               cl_version = CONTEXT_TREE_VERSION\<rparr>
      in if layer_ok H l then Some l else None)"

section \<open>Nodes\<close>

record context_node =
  cn_id :: string
  cn_parent :: "string option"
  cn_branch :: string
  cn_trace :: string
  cn_step :: "int option"
  cn_uuid :: string
  cn_parent_uuid :: "string option"
  cn_offset :: int
  cn_system :: string
  cn_messages :: string
  cn_tools :: string
  cn_runtime :: string
  cn_subagent :: "string option"
  cn_anchor :: "(string, json) dict option"
  cn_completeness :: string
  cn_version :: string

definition of_opt_obj :: "(string, json) dict option \<Rightarrow> json" where
  "of_opt_obj d = (case d of None \<Rightarrow> JNull | Some x \<Rightarrow> JObj x)"

definition canonical_node_material :: "context_node \<Rightarrow> json" where
  "canonical_node_material n = JObj
     [(''schema_version'', JStr CONTEXT_NODE_SCHEMA_VERSION), (''context_tree_version'', JStr (cn_version n)),
      (''parent_node_id'', of_opt_str (cn_parent n)), (''branch_type'', JStr (cn_branch n)),
      (''trace_id'', JStr (cn_trace n)), (''step_index'', of_opt_int (cn_step n)),
      (''transcript_uuid'', JStr (cn_uuid n)), (''transcript_parent_uuid'', of_opt_str (cn_parent_uuid n)),
      (''transcript_offset'', JInt (cn_offset n)), (''system_layer_id'', JStr (cn_system n)),
      (''messages_layer_id'', JStr (cn_messages n)), (''tool_registry_layer_id'', JStr (cn_tools n)),
      (''runtime_state_layer_id'', JStr (cn_runtime n)), (''subagent_session_id'', of_opt_str (cn_subagent n)),
      (''trail_anchor_hint'', of_opt_obj (cn_anchor n)), (''capture_completeness'', JStr (cn_completeness n))]"

definition compute_node_id :: "(json \<Rightarrow> string) \<Rightarrow> json \<Rightarrow> string" where
  "compute_node_id H material = sha256_id H material"

definition parent_ok :: "context_node \<Rightarrow> bool" where
  "parent_ok n \<longleftrightarrow> (if cn_branch n = ''root'' then cn_parent n = None else cn_parent n \<noteq> None)"

definition node_ok :: "(json \<Rightarrow> string) \<Rightarrow> context_node \<Rightarrow> bool" where
  "node_ok H n \<longleftrightarrow>
     hash_id_ok (cn_id n) \<and> (case cn_parent n of None \<Rightarrow> True | Some p \<Rightarrow> hash_id_ok p) \<and>
     hash_id_ok (cn_system n) \<and> hash_id_ok (cn_messages n) \<and> hash_id_ok (cn_tools n) \<and> hash_id_ok (cn_runtime n) \<and>
     cn_branch n \<in> set BRANCH_TYPES \<and> cn_completeness n \<in> set COMPLETENESS_VALUES \<and> 0 \<le> cn_offset n \<and>
     parent_ok n \<and> (cn_branch n = ''subagent_fork'' \<longrightarrow> cn_subagent n \<noteq> None) \<and>
     cn_id n = compute_node_id H (canonical_node_material n)"

definition parse_node :: "(json \<Rightarrow> int option) \<Rightarrow> (string, json) dict \<Rightarrow> context_node option" where
  "parse_node cint p = do {
     i \<leftarrow> p_str p ''node_id''; pa \<leftarrow> p_nullable jstr_opt None p ''parent_node_id''; br \<leftarrow> p_str p ''branch_type'';
     tr \<leftarrow> p_str p ''trace_id''; st \<leftarrow> p_nullable cint (Some None) p ''step_index'';
     uu \<leftarrow> p_str p ''transcript_uuid''; pu \<leftarrow> p_nullable jstr_opt (Some None) p ''transcript_parent_uuid'';
     off \<leftarrow> p_int cint p ''transcript_offset'';
     sy \<leftarrow> p_str p ''system_layer_id''; me \<leftarrow> p_str p ''messages_layer_id'';
     tl \<leftarrow> p_str p ''tool_registry_layer_id''; ru \<leftarrow> p_str p ''runtime_state_layer_id'';
     su \<leftarrow> p_nullable jstr_opt (Some None) p ''subagent_session_id'';
     an \<leftarrow> p_nullable jobj_opt (Some None) p ''trail_anchor_hint'';
     co \<leftarrow> p_str p ''capture_completeness'';
     v \<leftarrow> p_str_default CONTEXT_TREE_VERSION p ''CONTEXT_TREE_VERSION'';
     Some \<lparr>cn_id = i, cn_parent = pa, cn_branch = br, cn_trace = tr, cn_step = st, cn_uuid = uu, cn_parent_uuid = pu,
           cn_offset = off, cn_system = sy, cn_messages = me, cn_tools = tl, cn_runtime = ru, cn_subagent = su,
           cn_anchor = an, cn_completeness = co, cn_version = v\<rparr> }"

definition validate_node :: "(json \<Rightarrow> string) \<Rightarrow> (json \<Rightarrow> int option) \<Rightarrow> (string, json) dict \<Rightarrow> context_node option" where
  "validate_node H cint p = do { n \<leftarrow> parse_node cint p; if node_ok H n then Some n else None }"

text \<open>The constructor takes a node without id and version and computes both.\<close>

definition build_node :: "(json \<Rightarrow> string) \<Rightarrow> context_node \<Rightarrow> context_node option" where
  "build_node H n =
     (let n1 = n\<lparr>cn_version := CONTEXT_TREE_VERSION\<rparr>;
          n2 = n1\<lparr>cn_id := compute_node_id H (canonical_node_material n1)\<rparr>
      in if node_ok H n2 then Some n2 else None)"

section \<open>Payloads\<close>

text \<open>What the capture writes into the log for a layer and for a node.\<close>

definition layer_payload :: "context_layer \<Rightarrow> (string, json) dict" where
  "layer_payload l =
     [(''layer_id'', JStr (cl_id l)), (''layer_type'', JStr (cl_type l)), (''content'', JObj (cl_content l)),
      (''completeness'', JStr (cl_completeness l)), (''capture_method'', JStr (cl_capture l)),
      (''CONTEXT_TREE_VERSION'', JStr (cl_version l))]"

definition node_payload :: "context_node \<Rightarrow> (string, json) dict" where
  "node_payload n =
     [(''node_id'', JStr (cn_id n)), (''parent_node_id'', of_opt_str (cn_parent n)), (''branch_type'', JStr (cn_branch n)),
      (''trace_id'', JStr (cn_trace n)), (''step_index'', of_opt_int (cn_step n)),
      (''transcript_uuid'', JStr (cn_uuid n)), (''transcript_parent_uuid'', of_opt_str (cn_parent_uuid n)),
      (''transcript_offset'', JInt (cn_offset n)), (''system_layer_id'', JStr (cn_system n)),
      (''messages_layer_id'', JStr (cn_messages n)), (''tool_registry_layer_id'', JStr (cn_tools n)),
      (''runtime_state_layer_id'', JStr (cn_runtime n)), (''subagent_session_id'', of_opt_str (cn_subagent n)),
      (''trail_anchor_hint'', of_opt_obj (cn_anchor n)), (''capture_completeness'', JStr (cn_completeness n)),
      (''CONTEXT_TREE_VERSION'', JStr (cn_version n))]"

text \<open>What the library promises about the one conversion: an integer is itself.\<close>

definition keeps_ints :: "(json \<Rightarrow> int option) \<Rightarrow> bool" where
  "keeps_ints cint \<longleftrightarrow> (\<forall>i. cint (JInt i) = Some i)"

lemma nullable_str: "p_nullable jstr_opt m ((k, of_opt_str x) # d) k = Some x"
  by (cases x) (simp_all add: p_nullable_def jstr_opt_def)

lemma nullable_obj: "p_nullable jobj_opt m ((k, of_opt_obj x) # d) k = Some x"
  by (cases x) (simp_all add: p_nullable_def of_opt_obj_def jobj_opt_def)

lemma nullable_int: "keeps_ints cint \<Longrightarrow> p_nullable cint m ((k, of_opt_int x) # d) k = Some x"
  by (cases x) (simp_all add: p_nullable_def keeps_ints_def)

lemma nullable_skip: "k \<noteq> k' \<Longrightarrow> p_nullable conv m ((k', v) # d) k = p_nullable conv m d k"
  by (simp add: p_nullable_def)

lemma parse_node_payload:
  assumes "keeps_ints cint" shows "parse_node cint (node_payload n) = Some n"
  using assms
  by (simp add: parse_node_def node_payload_def nullable_skip nullable_str nullable_obj nullable_int p_str_def p_int_def
      p_str_default_def keeps_ints_def)

lemma validate_built_node:
  assumes "keeps_ints cint" "build_node H n = Some b" shows "validate_node H cint (node_payload b) = Some b"
  using assms by (auto simp: validate_node_def parse_node_payload build_node_def Let_def split: if_splits)

lemma validate_built_layer:
  "build_layer H ty c co ca = Some l \<Longrightarrow> validate_layer H (layer_payload l) = Some l"
  by (auto simp: validate_layer_def parse_layer_def layer_payload_def build_layer_def Let_def p_str_def p_str_default_def
      jobj_opt_def split: if_splits)

lemma validate_node_ok: "validate_node H cint p = Some n \<Longrightarrow> node_ok H n"
  by (auto simp: validate_node_def split: bind_splits if_splits)

end
