(* ===== verification/Walk.thy ===== *)
theory Walk
  imports Prelude
begin

text \<open>
  The stack walk with a visited set that the graph queries of the code use: an id is popped, skipped if
  it was seen, and otherwise reported and replaced on the stack by its successors, the last on top.
  Ids outside the finite table \<open>dom\<close> have no successors.
\<close>

function visit :: "'a list \<Rightarrow> ('a \<Rightarrow> 'a list) \<Rightarrow> 'a list \<Rightarrow> 'a list \<Rightarrow> 'a list" where
  "visit dm succ [] seen = []"
| "visit dm succ (c # stack) seen =
     (if c \<in> set seen then visit dm succ stack seen
      else c # visit dm succ ((if c \<in> set dm then rev (succ c) else []) @ stack) (c # seen))"
  by pat_completeness auto
termination
proof (relation "measures [\<lambda>(dm, succ, stack, seen). card (set dm - set seen), \<lambda>(dm, succ, stack, seen). length stack]")
  fix dm :: "'a list" and succ :: "'a \<Rightarrow> 'a list" and c and stack seen :: "'a list"
  assume c: "c \<notin> set seen"
  show "((dm, succ, (if c \<in> set dm then rev (succ c) else []) @ stack, c # seen), dm, succ, c # stack, seen)
      \<in> measures [\<lambda>(dm, succ, stack, seen). card (set dm - set seen), \<lambda>(dm, succ, stack, seen). length stack]"
  proof (cases "c \<in> set dm")
    case True
    with c have "card (set dm - set (c # seen)) < card (set dm - set seen)"
      by (intro psubset_card_mono) auto
    then show ?thesis by simp
  next
    case False
    then have "set dm - set (c # seen) = set dm - set seen" by auto
    with False show ?thesis by simp
  qed
qed auto

definition edges :: "'a list \<Rightarrow> ('a \<Rightarrow> 'a list) \<Rightarrow> ('a \<times> 'a) set" where
  "edges dm succ = {(x, y). x \<in> set dm \<and> y \<in> set (succ x)}"

lemma visit_new: "distinct (visit dm succ stack seen) \<and> set (visit dm succ stack seen) \<inter> set seen = {}"
  by (induction dm succ stack seen rule: visit.induct) auto

lemma visit_stack: "set stack \<subseteq> set (visit dm succ stack seen) \<union> set seen"
  by (induction dm succ stack seen rule: visit.induct) auto

lemma visit_sound: "x \<in> set (visit dm succ stack seen) \<Longrightarrow> \<exists>s\<in>set stack. (s, x) \<in> (edges dm succ)\<^sup>*"
proof (induction dm succ stack seen rule: visit.induct)
  case (2 dm succ c stack seen)
  show ?case
  proof (cases "c \<in> set seen \<or> x = c")
    case True
    with 2 show ?thesis by (auto split: if_splits)
  next
    case False
    with 2 obtain s where s: "s \<in> set ((if c \<in> set dm then rev (succ c) else []) @ stack)" "(s, x) \<in> (edges dm succ)\<^sup>*"
      by auto
    show ?thesis
    proof (cases "s \<in> set stack")
      case True
      with s(2) show ?thesis by auto
    next
      case False
      with s(1) have "(c, s) \<in> edges dm succ" by (auto simp: edges_def split: if_splits)
      with s(2) show ?thesis by (meson converse_rtrancl_into_rtrancl list.set_intros(1))
    qed
  qed
qed simp

lemma visit_closed:
  "edges dm succ `` set seen \<subseteq> set stack \<union> set seen \<Longrightarrow>
    edges dm succ `` (set (visit dm succ stack seen) \<union> set seen) \<subseteq> set (visit dm succ stack seen) \<union> set seen"
proof (induction dm succ stack seen rule: visit.induct)
  case (2 dm succ c stack seen)
  show ?case
  proof (cases "c \<in> set seen")
    case True
    with 2(1) 2(3) show ?thesis by auto
  next
    case False
    let ?next = "(if c \<in> set dm then rev (succ c) else []) @ stack"
    have "edges dm succ `` set (c # seen) \<subseteq> set ?next \<union> set (c # seen)"
      using 2(3) by (auto simp: edges_def)
    from 2(2) [OF False this] False show ?thesis by auto
  qed
qed simp

lemma closed_reach: "(s, x) \<in> r\<^sup>* \<Longrightarrow> s \<in> A \<Longrightarrow> r `` A \<subseteq> A \<Longrightarrow> x \<in> A"
  by (induction rule: rtrancl_induct) auto

text \<open>From an empty visited set the walk reports exactly what can be reached, once each.\<close>

theorem visit_reachable: "set (visit dm succ stack []) = {x. \<exists>s\<in>set stack. (s, x) \<in> (edges dm succ)\<^sup>*}" (is "?V = ?R")
proof
  show "?V \<subseteq> ?R" using visit_sound by fast
  have closed: "edges dm succ `` ?V \<subseteq> ?V" using visit_closed [of dm succ "[]" stack] by simp
  have "set stack \<subseteq> ?V" using visit_stack [of stack dm succ "[]"] by simp
  then show "?R \<subseteq> ?V" using closed_reach [OF _ _ closed] by blast
qed

declare visit.simps [simp del]

end
