(* ===== verification/ContextTree.thy ===== *)
theory ContextTree
  imports ContextModel Walk
begin

text \<open>
  The projection of \<^verbatim>\<open>core/context_tree/query.py\<close>: the tables built in one pass over the event log, and
  the queries over them. Layers are materialised (the eager mode).
\<close>

record projection =
  pj_nodes :: "(string, context_node) dict"
  pj_layers :: "(string, context_layer) dict"
  pj_by_trace :: "(string, string list) dict"
  pj_leaves :: "(json, json) dict"
  pj_children :: "(string, string list) dict"
  pj_compactions :: "(json, (json \<times> json) list) dict"
  pj_compaction_events :: "(json, (string, json) dict list) dict"
  pj_orphans :: "(string, string list) dict"
  pj_subagents :: "(string, string list) dict"
  pj_limitations :: "(json, string list) dict"

definition empty_projection :: projection where
  "empty_projection = \<lparr>pj_nodes = [], pj_layers = [], pj_by_trace = [], pj_leaves = [], pj_children = [],
     pj_compactions = [], pj_compaction_events = [], pj_orphans = [], pj_subagents = [], pj_limitations = []\<rparr>"

definition dget_list :: "('k, 'v list) dict \<Rightarrow> 'k \<Rightarrow> 'v list" where
  "dget_list d k = (case dget d k of None \<Rightarrow> [] | Some xs \<Rightarrow> xs)"

definition nonempty_str :: "string option \<Rightarrow> bool" where
  "nonempty_str s = (case s of None \<Rightarrow> False | Some x \<Rightarrow> x \<noteq> [])"

section \<open>Building\<close>

text \<open>\<^verbatim>\<open>event.trace_id or payload.get("trace_id")\<close>.\<close>

definition event_trace :: "trail_event \<Rightarrow> json" where
  "event_trace e = jor (of_opt_str (ev_trace e)) (jget (ev_payload e) ''trace_id'')"

text \<open>A list or a dict is no key of a table.\<close>

definition hashable :: "json \<Rightarrow> bool" where
  "hashable v \<longleftrightarrow> \<not> is_jlist v \<and> \<not> is_jobj v"

definition add_node :: "context_node \<Rightarrow> projection \<Rightarrow> projection" where
  "add_node n pj =
     (let nodes = dsetdefault (pj_nodes pj) (cn_id n) n;
          parent = (if nonempty_str (cn_parent n) then dget nodes (the (cn_parent n)) else None);
          orphan = (cn_branch n = ''rewind_branch'' \<and>
            (case parent of None \<Rightarrow> True | Some p \<Rightarrow> cn_branch p \<noteq> ''rewind_branch''))
      in pj\<lparr>pj_nodes := nodes,
            pj_by_trace := dappend (pj_by_trace pj) (cn_trace n) (cn_id n),
            pj_children := (if nonempty_str (cn_parent n) then dappend (pj_children pj) (the (cn_parent n)) (cn_id n)
              else pj_children pj),
            pj_orphans := (if orphan then dappend (pj_orphans pj) (cn_trace n) (cn_id n) else pj_orphans pj),
            pj_subagents := (if nonempty_str (cn_subagent n) then dappend (pj_subagents pj) (cn_trace n) (the (cn_subagent n))
              else pj_subagents pj)\<rparr>)"

definition add_layer :: "context_layer \<Rightarrow> projection \<Rightarrow> projection" where
  "add_layer l pj = pj\<lparr>pj_layers := dsetdefault (pj_layers pj) (cl_id l) l\<rparr>"

definition add_compaction :: "json \<Rightarrow> (string, json) dict \<Rightarrow> projection \<Rightarrow> projection" where
  "add_compaction t p pj =
     pj\<lparr>pj_compactions := (if truthy (jget p ''pre_node_id'') \<and> truthy (jget p ''post_node_id'')
            then dappend (pj_compactions pj) t (jget p ''pre_node_id'', jget p ''post_node_id'') else pj_compactions pj),
        pj_compaction_events := dappend (pj_compaction_events pj) t p\<rparr>"

definition add_limitation :: "json \<Rightarrow> json \<Rightarrow> projection \<Rightarrow> projection" where
  "add_limitation t v pj = (case v of JStr s \<Rightarrow> pj\<lparr>pj_limitations := dappend (pj_limitations pj) t s\<rparr> | _ \<Rightarrow> pj)"

definition add_reconciled :: "json \<Rightarrow> (string, json) dict \<Rightarrow> projection \<Rightarrow> py_error + projection" where
  "add_reconciled t p pj =
     (case iter_or_empty (jget p ''capture_limitations'') of Inl err \<Rightarrow> Inl err
      | Inr lims \<Rightarrow> Inr (fold (add_limitation t) lims
          (pj\<lparr>pj_leaves := dset (pj_leaves pj) t (jget p ''active_path_leaf_id'')\<rparr>)))"

record parsing =
  pa_H :: "json \<Rightarrow> string"
  pa_cint :: "json \<Rightarrow> int option"

definition project_event :: "parsing \<Rightarrow> json option \<Rightarrow> trail_event \<Rightarrow> projection \<Rightarrow> py_error + projection" where
  "project_event P only e pj =
     (if only \<noteq> None \<and> only \<noteq> Some (event_trace e) then Inr pj
      else if ev_type e = CONTEXT_LAYER_CAPTURED then
        Inr (case validate_layer (pa_H P) (ev_payload e) of None \<Rightarrow> pj | Some l \<Rightarrow> add_layer l pj)
      else if ev_type e = CONTEXT_NODE_OBSERVED then
        Inr (case validate_node (pa_H P) (pa_cint P) (ev_payload e) of None \<Rightarrow> pj | Some n \<Rightarrow> add_node n pj)
      else if ev_type e = CONTEXT_COMPACTION_OBSERVED then
        (if \<not> truthy (event_trace e) then Inr pj
         else if \<not> hashable (event_trace e) then Inl TypeError
         else Inr (add_compaction (event_trace e) (ev_payload e) pj))
      else if ev_type e = CONTEXT_TREE_RECONCILED then
        (if \<not> truthy (event_trace e) then Inr pj
         else if \<not> hashable (event_trace e) then Inl TypeError
         else add_reconciled (event_trace e) (ev_payload e) pj)
      else Inr pj)"

fun project_events :: "parsing \<Rightarrow> json option \<Rightarrow> trail_event list \<Rightarrow> projection \<Rightarrow> py_error + projection" where
  "project_events P only [] pj = Inr pj"
| "project_events P only (e # es) pj =
     (case project_event P only e pj of Inl err \<Rightarrow> Inl err | Inr pj' \<Rightarrow> project_events P only es pj')"

definition build_context_tree_projection :: "parsing \<Rightarrow> json option \<Rightarrow> trail_event list \<Rightarrow> py_error + projection" where
  "build_context_tree_projection P only es = project_events P only es empty_projection"

section \<open>Queries\<close>

definition trace_nodes :: "projection \<Rightarrow> string \<Rightarrow> context_node list" where
  "trace_nodes pj tid = concat (map (\<lambda>i. case dget (pj_nodes pj) i of None \<Rightarrow> [] | Some n \<Rightarrow> [n]) (dget_list (pj_by_trace pj) tid))"

definition node_for_step :: "projection \<Rightarrow> string \<Rightarrow> int \<Rightarrow> context_node option" where
  "node_for_step pj tid step_index = find (\<lambda>n. cn_step n = Some step_index) (trace_nodes pj tid)"

definition node_for_transcript_uuid :: "projection \<Rightarrow> string \<Rightarrow> json \<Rightarrow> context_node option" where
  "node_for_transcript_uuid pj tid uuid = find (\<lambda>n. JStr (cn_uuid n) = uuid) (trace_nodes pj tid)"

text \<open>The walk from a node towards the root, leaf first; a visited id stops it.\<close>

function walk_up :: "(string, context_node) dict \<Rightarrow> string list \<Rightarrow> context_node \<Rightarrow> context_node list" where
  "walk_up nodes visited n =
     (if cn_id n \<in> set visited then []
      else n # (case (if nonempty_str (cn_parent n) then dget nodes (the (cn_parent n)) else None) of
          None \<Rightarrow> [] | Some m \<Rightarrow> walk_up nodes (cn_id n # visited) m))"
  by pat_completeness auto
termination
proof (relation "measure (\<lambda>(nodes, visited, n). card (insert (cn_id n) (cn_id ` snd ` set nodes) - set visited))")
  fix nodes :: "(string, context_node) dict" and visited and n m :: context_node
  assume n: "cn_id n \<notin> set visited" and "(if nonempty_str (cn_parent n) then dget nodes (the (cn_parent n)) else None) = Some m"
  then have "m \<in> snd ` set nodes" by (force split: if_splits dest: dget_Some_in)
  then have "insert (cn_id m) (cn_id ` snd ` set nodes) - set (cn_id n # visited) \<subseteq> cn_id ` snd ` set nodes - set visited" by auto
  moreover have "cn_id n \<notin> insert (cn_id m) (cn_id ` snd ` set nodes) - set (cn_id n # visited)" by simp
  ultimately have "insert (cn_id m) (cn_id ` snd ` set nodes) - set (cn_id n # visited) \<subset>
      insert (cn_id n) (cn_id ` snd ` set nodes) - set visited" using n by blast
  then have "card (insert (cn_id m) (cn_id ` snd ` set nodes) - set (cn_id n # visited)) <
      card (insert (cn_id n) (cn_id ` snd ` set nodes) - set visited)" by (intro psubset_card_mono) auto
  then show "((nodes, cn_id n # visited, m), nodes, visited, n)
      \<in> measure (\<lambda>(nodes, visited, n). card (insert (cn_id n) (cn_id ` snd ` set nodes) - set visited))" by simp
qed simp

declare walk_up.simps [simp del]

definition target_leaf :: "projection \<Rightarrow> string \<Rightarrow> string option \<Rightarrow> context_node option" where
  "target_leaf pj tid leaf_id =
     (case leaf_id of
        Some i \<Rightarrow> dget (pj_nodes pj) i
      | None \<Rightarrow>
          (let active = (case dget (pj_leaves pj) (JStr tid) of None \<Rightarrow> JNull | Some v \<Rightarrow> v);
               byuuid = (if truthy active then node_for_transcript_uuid pj tid active else None)
           in case byuuid of
                Some n \<Rightarrow> Some n
              | None \<Rightarrow> find (\<lambda>n. cn_branch n \<in> {''root'', ''linear'', ''compaction_fork''}) (rev (trace_nodes pj tid))))"

definition active_path :: "projection \<Rightarrow> string \<Rightarrow> string option \<Rightarrow> context_node list" where
  "active_path pj tid leaf_id =
     (case target_leaf pj tid leaf_id of None \<Rightarrow> [] | Some n \<Rightarrow> rev (walk_up (pj_nodes pj) [] n))"

definition layer_refs :: "context_node \<Rightarrow> string list" where
  "layer_refs n = [cn_system n, cn_messages n, cn_tools n, cn_runtime n]"

definition nodes_referencing_layer :: "projection \<Rightarrow> string \<Rightarrow> context_node list" where
  "nodes_referencing_layer pj lid = filter (\<lambda>n. lid \<in> set (layer_refs n)) (dvalues (pj_nodes pj))"

text \<open>The two subtree queries: a stack with its top at the head, and the ids seen so far.\<close>

definition known_children :: "projection \<Rightarrow> string \<Rightarrow> context_node list" where
  "known_children pj i = concat (map (\<lambda>c. case dget (pj_nodes pj) c of None \<Rightarrow> [] | Some n \<Rightarrow> [n]) (dget_list (pj_children pj) i))"

definition known_child_ids :: "projection \<Rightarrow> string \<Rightarrow> string list" where
  "known_child_ids pj i = filter (dmem (pj_nodes pj)) (dget_list (pj_children pj) i)"

definition parent_ids :: "projection \<Rightarrow> string list" where
  "parent_ids pj = dkeys (pj_children pj)"

definition subagent_subtree :: "projection \<Rightarrow> string \<Rightarrow> context_node list" where
  "subagent_subtree pj parent =
     concat (map (\<lambda>i. filter (\<lambda>n. cn_branch n = ''subagent_fork'') (known_children pj i))
       (visit (parent_ids pj) (known_child_ids pj) [parent] []))"

definition orphan_member :: "projection \<Rightarrow> string \<Rightarrow> string \<Rightarrow> bool" where
  "orphan_member pj start i =
     (case dget (pj_nodes pj) i of None \<Rightarrow> False | Some n \<Rightarrow> i = start \<or> cn_branch n = ''rewind_branch'')"

definition orphan_children :: "projection \<Rightarrow> string \<Rightarrow> string \<Rightarrow> string list" where
  "orphan_children pj start i = (if orphan_member pj start i then dget_list (pj_children pj) i else [])"

definition orphan_subtree :: "projection \<Rightarrow> string \<Rightarrow> context_node list" where
  "orphan_subtree pj start =
     concat (map (\<lambda>i. case dget (pj_nodes pj) i of None \<Rightarrow> [] | Some n \<Rightarrow> [n])
       (filter (orphan_member pj start) (visit (parent_ids pj) (orphan_children pj start) [start] [])))"

section \<open>Differences and histories\<close>

record layer_change =
  lg_type :: string
  lg_before :: string
  lg_after :: string
  lg_keys :: "(string list \<times> string list) option"

definition layer_fields :: "(string \<times> (context_node \<Rightarrow> string)) list" where
  "layer_fields = [(''system'', cn_system), (''messages'', cn_messages), (''tool_registry'', cn_tools),
     (''runtime_state'', cn_runtime)]"

definition keys_minus :: "(string, json) dict \<Rightarrow> (string, json) dict \<Rightarrow> string list" where
  "keys_minus a b = sort (remdups (filter (\<lambda>k. k \<notin> set (dkeys b)) (dkeys a)))"

definition layer_change_of :: "projection \<Rightarrow> string \<Rightarrow> string \<Rightarrow> string \<Rightarrow> layer_change" where
  "layer_change_of pj ty a b =
     \<lparr>lg_type = ty, lg_before = a, lg_after = b,
      lg_keys = (case (dget (pj_layers pj) a, dget (pj_layers pj) b) of
        (Some la, Some lb) \<Rightarrow> Some (keys_minus (cl_content lb) (cl_content la), keys_minus (cl_content la) (cl_content lb))
      | _ \<Rightarrow> None)\<rparr>"

text \<open>No node is the error report of the code.\<close>

definition layer_diff :: "projection \<Rightarrow> string \<Rightarrow> string \<Rightarrow> layer_change list option" where
  "layer_diff pj a b =
     (case (dget (pj_nodes pj) a, dget (pj_nodes pj) b) of
        (Some na, Some nb) \<Rightarrow>
          Some (map (\<lambda>(ty, f). layer_change_of pj ty (f na) (f nb)) (filter (\<lambda>(ty, f). f na \<noteq> f nb) layer_fields))
      | _ \<Rightarrow> None)"

record compaction_loss =
  lo_pre :: json
  lo_post :: json
  lo_first :: json
  lo_last :: json
  lo_hash :: json
  lo_removed :: json

definition compaction_loss_of :: "projection \<Rightarrow> string \<Rightarrow> int \<Rightarrow> compaction_loss option" where
  "compaction_loss_of pj tid index =
     (let es = dget_list (pj_compaction_events pj) (JStr tid) in
      if es = [] \<or> index < 0 \<or> int (length es) \<le> index then None
      else let e = es ! nat index in
        Some \<lparr>lo_pre = jget e ''pre_node_id'', lo_post = jget e ''post_node_id'',
              lo_first = jget e ''compacted_span_first_uuid'', lo_last = jget e ''compacted_span_last_uuid'',
              lo_hash = jget e ''summary_text_hash'',
              lo_removed = (if dmem e ''lossy_diff_removed_uuids'' then jget e ''lossy_diff_removed_uuids'' else JList [])\<rparr>)"

record io_entry =
  io_step :: "int option"
  io_node :: string
  io_uuid :: json
  io_role :: json
  io_hash :: json
  io_offset :: "int option"

definition io_of_message :: "bool \<Rightarrow> context_node \<Rightarrow> json \<Rightarrow> py_error + io_entry list" where
  "io_of_message reads n msg =
     (case msg of
        JObj m \<Rightarrow> Inr (if jget m ''role'' = JStr (if reads then ''user'' else ''assistant'')
          then [\<lparr>io_step = cn_step n, io_node = cn_id n, io_uuid = jget m ''uuid'', io_role = jget m ''role'',
                 io_hash = jget m ''content_hash'', io_offset = (if reads then None else Some (cn_offset n))\<rparr>] else [])
      | _ \<Rightarrow> Inl AttributeError)"

definition in_steps :: "int option \<Rightarrow> int option \<Rightarrow> context_node \<Rightarrow> bool" where
  "in_steps from_step to_step n \<longleftrightarrow>
     (let s = (case cn_step n of None \<Rightarrow> 0 | Some i \<Rightarrow> i) in
      (case from_step of None \<Rightarrow> True | Some f \<Rightarrow> f \<le> s) \<and> (case to_step of None \<Rightarrow> True | Some t \<Rightarrow> s \<le> t))"

fun io_of_nodes :: "projection \<Rightarrow> bool \<Rightarrow> string list \<Rightarrow> context_node list \<Rightarrow> py_error + io_entry list" where
  "io_of_nodes pj reads seen [] = Inr []"
| "io_of_nodes pj reads seen (n # ns) =
     (if cn_messages n \<in> set seen then io_of_nodes pj reads seen ns
      else case (case dget (pj_layers pj) (cn_messages n) of None \<Rightarrow> Inr []
          | Some l \<Rightarrow> (case iter_or_empty (jget (cl_content l) ''messages'') of Inl err \<Rightarrow> Inl err
              | Inr msgs \<Rightarrow> map_sum id concat (map_err (io_of_message reads n) msgs))) of
        Inl err \<Rightarrow> Inl err
      | Inr here \<Rightarrow> (case io_of_nodes pj reads (cn_messages n # seen) ns of Inl err \<Rightarrow> Inl err | Inr rest \<Rightarrow> Inr (here @ rest)))"

definition project_io_for_trace :: "projection \<Rightarrow> string \<Rightarrow> int option \<Rightarrow> int option \<Rightarrow> bool \<Rightarrow> py_error + io_entry list" where
  "project_io_for_trace pj tid from_step to_step reads =
     io_of_nodes pj reads [] (filter (in_steps from_step to_step) (trace_nodes pj tid))"

record tree_summary =
  ts_traces :: nat
  ts_nodes :: nat
  ts_layers :: nat
  ts_compactions :: nat
  ts_orphans :: nat
  ts_subagents :: nat
  ts_limitations :: "string list"

definition deduped_limitations :: "string list list \<Rightarrow> string list" where
  "deduped_limitations seqs = sort (remdups (filter (\<lambda>s. s \<noteq> []) (concat seqs)))"

definition projection_summary :: "projection \<Rightarrow> tree_summary" where
  "projection_summary pj =
     \<lparr>ts_traces = length (pj_by_trace pj), ts_nodes = length (pj_nodes pj), ts_layers = length (pj_layers pj),
      ts_compactions = sum_list (map length (dvalues (pj_compactions pj))),
      ts_orphans = sum_list (map length (dvalues (pj_orphans pj))),
      ts_subagents = sum_list (map length (dvalues (pj_subagents pj))),
      ts_limitations = deduped_limitations (dvalues (pj_limitations pj))\<rparr>"

section \<open>Owners of nodes\<close>

text \<open>The trace of each wanted node, from the node events alone; the scan stops when all are found.\<close>

fun resolve_loop :: "trail_event list \<Rightarrow> json list \<Rightarrow> (json, json) dict \<Rightarrow> py_error + (json, json) dict" where
  "resolve_loop [] remaining out = Inr out"
| "resolve_loop (e # es) remaining out =
     (let nid = jget (ev_payload e) ''node_id''; tid = jor (jget (ev_payload e) ''trace_id'') (of_opt_str (ev_trace e)) in
      if ev_payload e = [] then resolve_loop es remaining out
      else if \<not> hashable nid then Inl TypeError
      else if nid \<notin> set remaining \<or> \<not> truthy tid then resolve_loop es remaining out
      else let rest = filter (\<lambda>r. r \<noteq> nid) remaining in
        if rest = [] then Inr (dset out nid tid) else resolve_loop es rest (dset out nid tid))"

definition resolve_node_traces :: "trail_event list \<Rightarrow> string list \<Rightarrow> py_error + (json, json) dict" where
  "resolve_node_traces es ids =
     (if ids = [] then Inr [] else resolve_loop (filter (\<lambda>e. ev_type e = CONTEXT_NODE_OBSERVED) es) (map JStr ids) [])"

end
