(* ===== verification/ContextPrune.thy ===== *)
theory ContextPrune
  imports ContextTree
begin

text \<open>
  The consumers of the projection: the pruner of \<^verbatim>\<open>core/context_tree/prune.py\<close>, which rewrites a
  session transcript down to one path, and the resume packet of \<^verbatim>\<open>resume.py\<close>. The file system is a
  dictionary from paths to contents, as the text mode reads and writes them; the JSON decoder of a line
  is the parameter \<open>loads\<close>, the fresh part of an anonymous session id the parameter \<open>fresh\<close>.
\<close>

section \<open>The transcript\<close>

text \<open>The lines of a text file, each with its line end.\<close>

fun file_lines :: "string \<Rightarrow> string list" where
  "file_lines [] = []"
| "file_lines (c # cs) =
     (if c = CHR 10 then [c] # file_lines cs
      else (case file_lines cs of [] \<Rightarrow> [[c]] | l # ls \<Rightarrow> (c # l) # ls))"

text \<open>The first line of each wanted uuid; a line that does not decode is skipped.\<close>

fun scan_lines :: "(string \<Rightarrow> json option) \<Rightarrow> string list \<Rightarrow> string list \<Rightarrow> (string, string) dict \<Rightarrow> py_error + (string, string) dict" where
  "scan_lines loads wanted [] found = Inr found"
| "scan_lines loads wanted (raw # ls) found =
     (if strip raw = [] then scan_lines loads wanted ls found
      else case loads (strip raw) of
        None \<Rightarrow> scan_lines loads wanted ls found
      | Some (JObj d) \<Rightarrow>
          (case jget d ''uuid'' of
             JStr u \<Rightarrow> scan_lines loads wanted ls (if u \<in> set wanted then dsetdefault found u raw else found)
           | JList _ \<Rightarrow> Inl TypeError
           | JObj _ \<Rightarrow> Inl TypeError
           | _ \<Rightarrow> scan_lines loads wanted ls found)
      | Some _ \<Rightarrow> Inl AttributeError)"

definition wanted_uuids :: "context_node list \<Rightarrow> string list" where
  "wanted_uuids path = filter (\<lambda>u. u \<noteq> []) (map cn_uuid path)"

definition read_records_for_active_path ::
  "(string \<Rightarrow> json option) \<Rightarrow> string option \<Rightarrow> context_node list \<Rightarrow> py_error + string list \<times> string list" where
  "read_records_for_active_path loads source path =
     (case source of
        None \<Rightarrow> Inr ([], [])
      | Some text \<Rightarrow>
          (if wanted_uuids path = [] then Inr ([], [])
           else case scan_lines loads (wanted_uuids path) (file_lines text) [] of Inl err \<Rightarrow> Inl err
             | Inr found \<Rightarrow>
                 (let ordered = filter (dmem found) (map cn_uuid path)
                  in Inr (map (\<lambda>u. the (dget found u)) ordered, ordered))))"

section \<open>Pruning\<close>

definition sanitize :: "string \<Rightarrow> string" where
  "sanitize s = map (\<lambda>c. if is_alnum c \<or> c \<in> set ''-_'' then c else CHR ''-'') s"

definition new_session_id :: "string \<Rightarrow> string option \<Rightarrow> string" where
  "new_session_id fresh to_session =
     (case to_session of None \<Rightarrow> ''sess-'' @ fresh | Some s \<Rightarrow> if s = [] then ''sess-'' @ fresh else sanitize s)"

definition with_newline :: "string \<Rightarrow> string" where
  "with_newline raw = (if ends_with raw [CHR 10] then raw else raw @ [CHR 10])"

record prune_packet =
  pp_node :: string
  pp_session :: string
  pp_path :: string
  pp_count :: nat
  pp_source :: string
  pp_path_length :: nat
  pp_wrote :: bool
  pp_uuids :: "string list"
  pp_uuids_sorted :: "string list"

datatype prune_result = NodeNotFound string | PathEmpty string | Pruned prune_packet

datatype prune_error = FileExists string | PruneError py_error

type_synonym files = "(string, string) dict"

definition dest_path :: "string \<Rightarrow> string \<Rightarrow> string" where
  "dest_path dir session = dir @ ''/'' @ session @ ''.jsonl''"

text \<open>Written beside the destination, then renamed over it.\<close>

definition write_atomically :: "string \<Rightarrow> string \<Rightarrow> files \<Rightarrow> files" where
  "write_atomically path text fs = dset (dpop (dset fs (path @ ''.tmp'') text) (path @ ''.tmp'')) path text"

definition write_pruned :: "string \<Rightarrow> string list \<Rightarrow> files \<Rightarrow> prune_error + files" where
  "write_pruned path records fs =
     (if dmem fs path then Inl (FileExists path)
      else Inr (write_atomically path (concat (map with_newline records)) fs))"

definition owner_projection :: "parsing \<Rightarrow> trail_event list \<Rightarrow> string \<Rightarrow> py_error + projection option" where
  "owner_projection P es node_id =
     (case resolve_node_traces es [node_id] of Inl err \<Rightarrow> Inl err
      | Inr owners \<Rightarrow> (case dget owners (JStr node_id) of None \<Rightarrow> Inr None
          | Some owner \<Rightarrow> map_sum id Some (build_context_tree_projection P (Some owner) es)))"

definition find_node :: "projection option \<Rightarrow> string \<Rightarrow> (projection \<times> context_node) option" where
  "find_node pj node_id =
     (case pj of None \<Rightarrow> None | Some q \<Rightarrow> map_option (\<lambda>n. (q, n)) (dget (pj_nodes q) node_id))"

record prune_env =
  pe_parsing :: parsing
  pe_loads :: "string \<Rightarrow> json option"
  pe_fresh :: string
  pe_dir :: string
  pe_source :: string

definition prune_session_to_node ::
  "prune_env \<Rightarrow> trail_event list \<Rightarrow> string \<Rightarrow> string option \<Rightarrow> bool \<Rightarrow> files \<Rightarrow> prune_error + prune_result \<times> files" where
  "prune_session_to_node E es node_id to_session write fs =
     (case owner_projection (pe_parsing E) es node_id of Inl err \<Rightarrow> Inl (PruneError err)
      | Inr opj \<Rightarrow> (case find_node opj node_id of None \<Rightarrow> Inr (NodeNotFound node_id, fs)
      | Some (pj, n) \<Rightarrow>
          (let path = active_path pj (cn_trace n) (Some node_id);
               session = new_session_id (pe_fresh E) to_session;
               dest = dest_path (pe_dir E) session
           in if path = [] then Inr (PathEmpty node_id, fs)
           else case read_records_for_active_path (pe_loads E) (dget fs (pe_source E)) path of Inl err \<Rightarrow> Inl (PruneError err)
           | Inr (records, uuids) \<Rightarrow>
               (case (if write then write_pruned dest records fs else Inr fs) of Inl err \<Rightarrow> Inl err
                | Inr fs' \<Rightarrow> Inr (Pruned
                    \<lparr>pp_node = node_id, pp_session = session, pp_path = dest, pp_count = length records,
                     pp_source = pe_source E, pp_path_length = length path, pp_wrote = write, pp_uuids = uuids,
                     pp_uuids_sorted = sort uuids\<rparr>, fs')))))"

section \<open>The resume packet\<close>

record resume_packet =
  rp_node :: context_node
  rp_system :: "context_layer option"
  rp_messages_layer :: "context_layer option"
  rp_tools :: "context_layer option"
  rp_runtime :: "context_layer option"
  rp_messages :: json
  rp_env :: "(string, json) dict"
  rp_mcp :: json
  rp_limitations :: "string list"

definition layer_content :: "context_layer option \<Rightarrow> (string, json) dict" where
  "layer_content l = (case l of None \<Rightarrow> [] | Some x \<Rightarrow> cl_content x)"

definition jget_default :: "json \<Rightarrow> (string, json) dict \<Rightarrow> string \<Rightarrow> json" where
  "jget_default v d k = (if dmem d k then jget d k else v)"

definition resume_limitations :: "projection \<Rightarrow> context_node \<Rightarrow> string list" where
  "resume_limitations pj n =
     (let known = dget_list (pj_limitations pj) (JStr (cn_trace n));
          missing = list_ex (\<lambda>i. dget (pj_layers pj) i = None) (layer_refs n)
      in sort (remdups (known @ (if missing then [''context_layer_unavailable''] else []))))"

definition packet_of :: "projection \<Rightarrow> context_node \<Rightarrow> resume_packet" where
  "packet_of pj n =
     (let sy = dget (pj_layers pj) (cn_system n); me = dget (pj_layers pj) (cn_messages n);
          tl = dget (pj_layers pj) (cn_tools n); ru = dget (pj_layers pj) (cn_runtime n);
          rt = layer_content ru
      in \<lparr>rp_node = n, rp_system = sy, rp_messages_layer = me, rp_tools = tl, rp_runtime = ru,
          rp_messages = jget_default (JList []) (layer_content me) ''messages'',
          rp_env = [(''cwd'', jget rt ''cwd''), (''permission_mode'', jget rt ''permission_mode''),
                    (''model'', jget rt ''model''), (''effort_level'', jget rt ''effort_level'')],
          rp_mcp = jget_default (JObj []) rt ''mcp_servers'', rp_limitations = resume_limitations pj n\<rparr>)"

text \<open>No packet is the error envelope of the code.\<close>

definition context_resume_packet ::
  "parsing \<Rightarrow> trail_event list \<Rightarrow> string \<Rightarrow> string option \<Rightarrow> py_error + resume_packet option" where
  "context_resume_packet P es node_id trace_id =
     (case (case trace_id of None \<Rightarrow> owner_projection P es node_id
            | Some t \<Rightarrow> map_sum id Some (build_context_tree_projection P (Some (JStr t)) es)) of
        Inl err \<Rightarrow> Inl err
      | Inr opj \<Rightarrow> Inr (map_option (\<lambda>(pj, n). packet_of pj n) (find_node opj node_id)))"

end
