(* ===== verification/ContextProps.thy ===== *)
theory ContextProps
  imports ContextPrune
begin

text \<open>
  The tables of the projection as functions of the node events, and what the queries, the scoped
  projection and the pruner guarantee.
\<close>

section \<open>The tables, from the nodes of the log\<close>

definition event_node :: "parsing \<Rightarrow> json option \<Rightarrow> trail_event \<Rightarrow> context_node list" where
  "event_node P only e =
     (if (only \<noteq> None \<and> only \<noteq> Some (event_trace e)) \<or> ev_type e \<noteq> CONTEXT_NODE_OBSERVED then []
      else case validate_node (pa_H P) (pa_cint P) (ev_payload e) of None \<Rightarrow> [] | Some n \<Rightarrow> [n])"

definition log_nodes :: "parsing \<Rightarrow> json option \<Rightarrow> trail_event list \<Rightarrow> context_node list" where
  "log_nodes P only es = concat (map (event_node P only) es)"

lemma context_types_distinct [simp]:
  "CONTEXT_NODE_OBSERVED \<noteq> CONTEXT_LAYER_CAPTURED" "CONTEXT_COMPACTION_OBSERVED \<noteq> CONTEXT_NODE_OBSERVED"
  "CONTEXT_TREE_RECONCILED \<noteq> CONTEXT_NODE_OBSERVED" "CONTEXT_LAYER_CAPTURED \<noteq> CONTEXT_NODE_OBSERVED"
  "CONTEXT_COMPACTION_OBSERVED \<noteq> CONTEXT_LAYER_CAPTURED" "CONTEXT_TREE_RECONCILED \<noteq> CONTEXT_LAYER_CAPTURED"
  "CONTEXT_TREE_RECONCILED \<noteq> CONTEXT_COMPACTION_OBSERVED" "CONTEXT_NODE_OBSERVED \<noteq> CONTEXT_COMPACTION_OBSERVED"
  "CONTEXT_NODE_OBSERVED \<noteq> CONTEXT_TREE_RECONCILED" "CONTEXT_LAYER_CAPTURED \<noteq> CONTEXT_COMPACTION_OBSERVED"
  "CONTEXT_LAYER_CAPTURED \<noteq> CONTEXT_TREE_RECONCILED" "CONTEXT_COMPACTION_OBSERVED \<noteq> CONTEXT_TREE_RECONCILED"
  by (simp_all add: CONTEXT_NODE_OBSERVED_def CONTEXT_LAYER_CAPTURED_def CONTEXT_COMPACTION_OBSERVED_def
      CONTEXT_TREE_RECONCILED_def)

definition add_child :: "context_node \<Rightarrow> (string, string list) dict \<Rightarrow> (string, string list) dict" where
  "add_child n d = (if nonempty_str (cn_parent n) then dappend d (the (cn_parent n)) (cn_id n) else d)"

lemma add_node_tables:
  "pj_nodes (add_node n pj) = dsetdefault (pj_nodes pj) (cn_id n) n"
  "pj_by_trace (add_node n pj) = dappend (pj_by_trace pj) (cn_trace n) (cn_id n)"
  "pj_children (add_node n pj) = add_child n (pj_children pj)"
  "pj_leaves (add_node n pj) = pj_leaves pj" "pj_compactions (add_node n pj) = pj_compactions pj"
  "pj_limitations (add_node n pj) = pj_limitations pj" "pj_layers (add_node n pj) = pj_layers pj"
  by (simp_all add: add_node_def Let_def add_child_def)

lemma fold_limitation_tables:
  "pj_nodes (fold (add_limitation t) vs pj) = pj_nodes pj" "pj_by_trace (fold (add_limitation t) vs pj) = pj_by_trace pj"
  "pj_children (fold (add_limitation t) vs pj) = pj_children pj" "pj_leaves (fold (add_limitation t) vs pj) = pj_leaves pj"
  "pj_compactions (fold (add_limitation t) vs pj) = pj_compactions pj" "pj_layers (fold (add_limitation t) vs pj) = pj_layers pj"
  by (induction vs arbitrary: pj) (auto simp: add_limitation_def split: json.split)

lemma project_event_nodes:
  assumes "project_event P only e pj = Inr pj'"
  shows "pj_nodes pj' = fold (\<lambda>n d. dsetdefault d (cn_id n) n) (event_node P only e) (pj_nodes pj)"
    "pj_by_trace pj' = fold (\<lambda>n d. dappend d (cn_trace n) (cn_id n)) (event_node P only e) (pj_by_trace pj)"
    "pj_children pj' = fold add_child (event_node P only e) (pj_children pj)"
  using assms
  by (auto simp: project_event_def event_node_def add_node_tables add_layer_def add_compaction_def add_reconciled_def
      fold_limitation_tables split: if_splits option.splits sum.splits)

lemma project_events_nodes:
  "project_events P only es pj = Inr pj' \<Longrightarrow>
    pj_nodes pj' = fold (\<lambda>n d. dsetdefault d (cn_id n) n) (log_nodes P only es) (pj_nodes pj) \<and>
    pj_by_trace pj' = fold (\<lambda>n d. dappend d (cn_trace n) (cn_id n)) (log_nodes P only es) (pj_by_trace pj) \<and>
    pj_children pj' = fold add_child (log_nodes P only es) (pj_children pj)"
proof (induction es arbitrary: pj)
  case Nil
  then show ?case by (simp add: log_nodes_def)
next
  case (Cons e es)
  then obtain pj1 where p: "project_event P only e pj = Inr pj1" "project_events P only es pj1 = Inr pj'"
    by (auto split: sum.splits)
  from Cons.IH [OF p(2)] project_event_nodes [OF p(1)] show ?case by (simp add: log_nodes_def)
qed

lemma dget_fold_setdefault:
  "dget (fold (\<lambda>n d. dsetdefault d (f n) n) ns d) k =
     (case dget d k of Some v \<Rightarrow> Some v | None \<Rightarrow> find (\<lambda>n. f n = k) ns)"
  by (induction ns arbitrary: d) (auto split: option.splits)

lemma dget_list_fold_append:
  "dget_list (fold (\<lambda>n d. dappend d (f n) (g n)) ns d) k = dget_list d k @ map g (filter (\<lambda>n. f n = k) ns)"
  by (induction ns arbitrary: d) (auto simp: dget_list_def split: option.splits)

lemma dget_list_fold_child:
  "dget_list (fold add_child ns d) k =
     dget_list d k @ map cn_id (filter (\<lambda>n. nonempty_str (cn_parent n) \<and> the (cn_parent n) = k) ns)"
  by (induction ns arbitrary: d) (auto simp: add_child_def dget_list_def split: option.splits)

lemma projection_tables:
  assumes "build_context_tree_projection P only es = Inr pj"
  shows "dget (pj_nodes pj) i = find (\<lambda>n. cn_id n = i) (log_nodes P only es)"
    "dget_list (pj_by_trace pj) t = map cn_id (filter (\<lambda>n. cn_trace n = t) (log_nodes P only es))"
    "dget_list (pj_children pj) p =
       map cn_id (filter (\<lambda>n. nonempty_str (cn_parent n) \<and> the (cn_parent n) = p) (log_nodes P only es))"
  using assms project_events_nodes [of P only es empty_projection pj]
  by (simp_all add: build_context_tree_projection_def dget_fold_setdefault dget_list_fold_append dget_list_fold_child
      empty_projection_def) (simp_all add: dget_list_def)

lemma node_key:
  assumes "build_context_tree_projection P only es = Inr pj" "dget (pj_nodes pj) i = Some n"
  shows "cn_id n = i"
  using assms(2) unfolding projection_tables(1) [OF assms(1)] by (auto simp: find_Some_iff)

section \<open>The active path\<close>

text \<open>A node and the node its parent id names.\<close>

definition parent_in :: "(string, context_node) dict \<Rightarrow> context_node \<Rightarrow> context_node option" where
  "parent_in nodes n = (if nonempty_str (cn_parent n) then dget nodes (the (cn_parent n)) else None)"

lemma walk_up_unfold:
  "walk_up nodes visited n =
     (if cn_id n \<in> set visited then []
      else n # (case parent_in nodes n of None \<Rightarrow> [] | Some m \<Rightarrow> walk_up nodes (cn_id n # visited) m))"
  by (subst walk_up.simps) (simp add: parent_in_def)

text \<open>A path leaf first: each node is followed by its parent; the last has none, or one that was visited.\<close>

fun climbs :: "(string, context_node) dict \<Rightarrow> string list \<Rightarrow> context_node list \<Rightarrow> bool" where
  "climbs nodes visited [] = True"
| "climbs nodes visited [n] = (case parent_in nodes n of None \<Rightarrow> True | Some m \<Rightarrow> cn_id m \<in> set (cn_id n # visited))"
| "climbs nodes visited (n # m # ns) = (parent_in nodes n = Some m \<and> climbs nodes (cn_id n # visited) (m # ns))"

lemma walk_up_spec:
  "climbs nodes visited (walk_up nodes visited n) \<and> distinct (map cn_id (walk_up nodes visited n)) \<and>
    set (map cn_id (walk_up nodes visited n)) \<inter> set visited = {} \<and>
    (walk_up nodes visited n = [] \<longleftrightarrow> cn_id n \<in> set visited) \<and>
    (cn_id n \<notin> set visited \<longrightarrow> hd (walk_up nodes visited n) = n)"
proof (induction nodes visited n rule: walk_up.induct)
  case (1 nodes visited n)
  show ?case
  proof (cases "cn_id n \<in> set visited")
    case True
    then show ?thesis by (simp add: walk_up_unfold)
  next
    case False
    show ?thesis
    proof (cases "parent_in nodes n")
      case None
      with False show ?thesis by (simp add: walk_up_unfold [of nodes visited n])
    next
      case (Some m)
      let ?rest = "walk_up nodes (cn_id n # visited) m"
      have w: "walk_up nodes visited n = n # ?rest" using False Some by (simp add: walk_up_unfold [of nodes visited n])
      note IH = "1.IH" [OF False Some [unfolded parent_in_def]]
      have "climbs nodes visited (n # ?rest)"
      proof (cases ?rest)
        case Nil
        with IH Some show ?thesis by simp
      next
        case (Cons m' ms)
        with IH have "m' = m" by force
        with Cons IH Some show ?thesis by simp
      qed
      with IH False show ?thesis unfolding w by auto
    qed
  qed
qed

text \<open>In the emitted order a parent precedes its children: it is not first seen at or after a child.\<close>

fun parents_first :: "string list \<Rightarrow> context_node list \<Rightarrow> bool" where
  "parents_first seen [] = True"
| "parents_first seen (n # ns) =
     ((case cn_parent n of None \<Rightarrow> True | Some p \<Rightarrow> p \<in> set seen \<or> p \<notin> set (map cn_id (n # ns))) \<and>
      parents_first (cn_id n # seen) ns)"

definition rank :: "context_node list \<Rightarrow> string \<Rightarrow> nat" where
  "rank ns i = length (takeWhile (\<lambda>n. cn_id n \<noteq> i) ns)"

lemma find_in: "find Q xs = Some x \<Longrightarrow> x \<in> set xs"
  by (induction xs) (auto split: if_splits)

lemma find_id: "find (\<lambda>n. f n = p) xs = Some y \<Longrightarrow> f y = p \<and> y \<in> set xs"
  by (induction xs) (auto split: if_splits)

lemma parent_rank:
  "parents_first seen ns \<Longrightarrow> find (\<lambda>n. cn_id n = i) ns = Some n \<Longrightarrow> cn_parent n = Some p \<Longrightarrow> p \<notin> set seen \<Longrightarrow>
    find (\<lambda>n. cn_id n = p) ns \<noteq> None \<Longrightarrow> rank ns p < rank ns i"
proof (induction ns arbitrary: seen)
  case (Cons x xs)
  obtain y where "find (\<lambda>n. cn_id n = p) (x # xs) = Some y" using Cons.prems(5) by blast
  from find_id [OF this] have y: "cn_id y = p" "y \<in> set (x # xs)" by blast+
  have in_p: "p \<in> set (map cn_id (x # xs))" unfolding y(1) [symmetric] set_map using y(2) by (rule imageI)
  show ?case
  proof (cases "cn_id x = i")
    case True
    with Cons.prems in_p show ?thesis by simp
  next
    case i: False
    show ?thesis
    proof (cases "cn_id x = p")
      case True
      with i show ?thesis by (simp add: rank_def)
    next
      case False
      with i Cons.IH [of "cn_id x # seen"] Cons.prems show ?thesis by (simp add: rank_def)
    qed
  qed
qed simp

definition in_table :: "(string, context_node) dict \<Rightarrow> context_node \<Rightarrow> bool" where
  "in_table nodes n \<longleftrightarrow> dget nodes (cn_id n) = Some n"

lemma climbs_ranks:
  assumes keyed: "\<And>i n. dget nodes i = Some n \<Longrightarrow> cn_id n = i"
    and down: "\<And>n m. in_table nodes n \<Longrightarrow> parent_in nodes n = Some m \<Longrightarrow> r (cn_id m) < (r (cn_id n) :: nat)"
  shows "climbs nodes visited path \<Longrightarrow> path \<noteq> [] \<Longrightarrow> in_table nodes (hd path) \<Longrightarrow>
    in_table nodes (last path) \<and> (\<forall>n\<in>set path. r (cn_id (last path)) \<le> r (cn_id n))"
proof (induction path arbitrary: visited)
  case (Cons n ns)
  show ?case
  proof (cases ns)
    case Nil
    with Cons.prems show ?thesis by simp
  next
    case (Cons m ms)
    with Cons.prems(1) have up: "parent_in nodes n = Some m" "climbs nodes (cn_id n # visited) ns" by simp_all
    then have "in_table nodes m" using keyed by (auto simp: parent_in_def in_table_def split: if_splits)
    with Cons.IH [OF up(2)] down [of n m] Cons.prems(3) up(1) Cons show ?thesis by fastforce
  qed
qed simp

lemma climbs_linked: "climbs nodes visited path \<Longrightarrow> successively (\<lambda>c p. parent_in nodes c = Some p) path"
  by (induction nodes visited path rule: climbs.induct) auto

lemma climbs_last:
  "climbs nodes visited path \<Longrightarrow> path \<noteq> [] \<Longrightarrow> parent_in nodes (last path) = Some m \<Longrightarrow>
    cn_id m \<in> set (map cn_id path) \<union> set visited"
  by (induction nodes visited path rule: climbs.induct) auto

lemma trace_nodes_known: "n \<in> set (trace_nodes pj tid) \<Longrightarrow> \<exists>i. dget (pj_nodes pj) i = Some n"
  by (auto simp: trace_nodes_def split: option.splits)

lemma target_in_trace:
  assumes "target_leaf pj tid None = Some n" shows "n \<in> set (trace_nodes pj tid)"
proof -
  let ?active = "case dget (pj_leaves pj) (JStr tid) of None \<Rightarrow> JNull | Some v \<Rightarrow> v"
  show ?thesis
  proof (cases "if truthy ?active then node_for_transcript_uuid pj tid ?active else None")
    case None
    with assms have "find (\<lambda>n. cn_branch n \<in> {''root'', ''linear'', ''compaction_fork''}) (rev (trace_nodes pj tid)) = Some n"
      by (simp add: target_leaf_def Let_def)
    from find_in [OF this] show ?thesis by simp
  next
    case (Some m)
    with assms have "m = n" by (simp add: target_leaf_def Let_def)
    with Some show ?thesis by (auto simp: node_for_transcript_uuid_def split: if_splits dest: find_in)
  qed
qed

lemma target_known: "target_leaf pj tid leaf = Some n \<Longrightarrow> \<exists>i. dget (pj_nodes pj) i = Some n"
  using trace_nodes_known [OF target_in_trace, of pj tid n] by (cases leaf) (auto simp: target_leaf_def)

lemma path_facts:
  assumes "build_context_tree_projection P only es = Inr pj" "parents_first [] (log_nodes P only es)"
    and "dget (pj_nodes pj) i = Some n"
  shows "rev (walk_up (pj_nodes pj) [] n) \<noteq> []" "last (rev (walk_up (pj_nodes pj) [] n)) = n"
    "distinct (map cn_id (rev (walk_up (pj_nodes pj) [] n)))"
    "successively (\<lambda>p c. cn_parent c = Some (cn_id p)) (rev (walk_up (pj_nodes pj) [] n))"
    "parent_in (pj_nodes pj) (hd (rev (walk_up (pj_nodes pj) [] n))) = None"
proof -
  let ?nodes = "pj_nodes pj" and ?ns = "log_nodes P only es"
  let ?w = "walk_up ?nodes [] n"
  note spec = walk_up_spec [of ?nodes "[]" n]
  have w: "climbs ?nodes [] ?w" "?w \<noteq> []" "hd ?w = n" "distinct (map cn_id ?w)" using spec by auto
  show "rev ?w \<noteq> []" "last (rev ?w) = n" using w by (simp_all add: last_rev)
  show "distinct (map cn_id (rev ?w))" using w(4) by (metis distinct_rev rev_map)
  have keyed: "\<And>i n. dget ?nodes i = Some n \<Longrightarrow> cn_id n = i" by (rule node_key [OF assms(1)])
  have par: "cn_parent c = Some (cn_id p)" if "parent_in ?nodes c = Some p" for c p
    using that keyed by (auto simp: parent_in_def nonempty_str_def split: option.splits if_splits)
  have "successively (\<lambda>c p. cn_parent c = Some (cn_id p)) ?w"
    using climbs_linked [OF w(1)] by (rule successively_mono) (use par in blast)
  then show "successively (\<lambda>p c. cn_parent c = Some (cn_id p)) (rev ?w)" by simp
  have down: "rank ?ns (cn_id q) < rank ?ns (cn_id c)" if "in_table ?nodes c" "parent_in ?nodes c = Some q" for c q
  proof (rule parent_rank [OF assms(2)])
    show "find (\<lambda>m. cn_id m = cn_id c) ?ns = Some c" using that(1) by (simp add: in_table_def projection_tables(1) [OF assms(1)])
    show "cn_parent c = Some (cn_id q)" by (rule par [OF that(2)])
    have "dget ?nodes (cn_id q) = Some q"
      using that(2) keyed by (auto simp: parent_in_def split: if_splits)
    then show "find (\<lambda>m. cn_id m = cn_id q) ?ns \<noteq> None" by (simp add: projection_tables(1) [OF assms(1)])
  qed simp
  have "in_table ?nodes (hd ?w)" using assms(3) keyed [OF assms(3)] unfolding in_table_def w(3) by simp
  note ranks = climbs_ranks [of ?nodes "rank ?ns", OF keyed down w(1,2) this]
  note last = conjunct1 [OF ranks] conjunct2 [OF ranks]
  have "parent_in ?nodes (last ?w) = None"
  proof (rule ccontr)
    assume "parent_in ?nodes (last ?w) \<noteq> None"
    then obtain q where q: "parent_in ?nodes (last ?w) = Some q" by blast
    from climbs_last [OF w(1,2) q] obtain x where x: "x \<in> set ?w" "cn_id q = cn_id x" by auto
    have "rank ?ns (cn_id (last ?w)) \<le> rank ?ns (cn_id x)" using last(2) x(1) by blast
    then have "\<not> rank ?ns (cn_id q) < rank ?ns (cn_id (last ?w))" unfolding x(2) by (rule leD)
    then show False using down [OF last(1) q] by (rule notE)
  qed
  then show "parent_in ?nodes (hd (rev ?w)) = None" by (simp add: hd_rev)
qed

section \<open>Subtrees\<close>

text \<open>Two events with the same node id record the same node.\<close>

definition nodes_agree :: "context_node list \<Rightarrow> bool" where
  "nodes_agree ns \<longleftrightarrow> list_all (\<lambda>m. list_all (\<lambda>n. cn_id m = cn_id n \<longrightarrow> m = n) ns) ns"

lemma nodes_agreeD: "nodes_agree ns \<Longrightarrow> m \<in> set ns \<Longrightarrow> n \<in> set ns \<Longrightarrow> cn_id m = cn_id n \<Longrightarrow> m = n"
  by (auto simp: nodes_agree_def list_all_iff)

lemma find_agree:
  assumes "nodes_agree ns" "n \<in> set ns" shows "find (\<lambda>m. cn_id m = cn_id n) ns = Some n"
proof -
  obtain y where y: "find (\<lambda>m. cn_id m = cn_id n) ns = Some y"
    using assms(2) by (metis (mono_tags, lifting) find_None_iff option.exhaust)
  with find_id [OF y] nodes_agreeD [OF assms(1) _ assms(2)] show ?thesis by blast
qed

text \<open>A node of the table and the node of the table its parent id names.\<close>

definition child_edge :: "projection \<Rightarrow> (string \<times> string) set" where
  "child_edge pj = {(p, c). \<exists>n. dget (pj_nodes pj) c = Some n \<and> p \<noteq> [] \<and> cn_parent n = Some p}"

lemma children_iff:
  assumes "build_context_tree_projection P only es = Inr pj" "nodes_agree (log_nodes P only es)"
  shows "c \<in> set (dget_list (pj_children pj) p) \<longleftrightarrow> (p, c) \<in> child_edge pj"
proof
  assume "c \<in> set (dget_list (pj_children pj) p)"
  then obtain n where n: "n \<in> set (log_nodes P only es)" "cn_id n = c" "nonempty_str (cn_parent n)" "the (cn_parent n) = p"
    by (auto simp: projection_tables(3) [OF assms(1)])
  with find_agree [OF assms(2) n(1)] show "(p, c) \<in> child_edge pj"
    by (auto simp: child_edge_def projection_tables(1) [OF assms(1)] nonempty_str_def split: option.splits)
next
  assume "(p, c) \<in> child_edge pj"
  then obtain n where "find (\<lambda>m. cn_id m = c) (log_nodes P only es) = Some n" "p \<noteq> []" "cn_parent n = Some p"
    by (auto simp: child_edge_def projection_tables(1) [OF assms(1)])
  with find_id [of cn_id c] show "c \<in> set (dget_list (pj_children pj) p)"
    by (force simp: projection_tables(3) [OF assms(1)] nonempty_str_def)
qed

lemma dget_list_key: "c \<in> set (dget_list d k) \<Longrightarrow> k \<in> set (dkeys d)"
  unfolding dmem_iff [symmetric] by (cases "dget d k") (auto simp: dget_list_def dmem_def)

lemma edges_within: "(\<And>p c. c \<in> set (f p) \<Longrightarrow> p \<in> set dm) \<Longrightarrow> edges dm f = {(p, c). c \<in> set (f p)}"
  by (auto simp: edges_def)

lemma orphan_edges:
  assumes "build_context_tree_projection P only es = Inr pj" "nodes_agree (log_nodes P only es)"
  shows "edges (parent_ids pj) (orphan_children pj r) = {(p, c). orphan_member pj r p \<and> (p, c) \<in> child_edge pj}"
  using children_iff [OF assms]
  by (subst edges_within) (auto simp: orphan_children_def parent_ids_def dget_list_key split: if_splits)

lemma known_child_edges:
  assumes "build_context_tree_projection P only es = Inr pj" "nodes_agree (log_nodes P only es)"
  shows "edges (parent_ids pj) (known_child_ids pj) = child_edge pj"
proof -
  have "c \<in> set (known_child_ids pj p) \<longleftrightarrow> (p, c) \<in> child_edge pj" for p c
    using children_iff [OF assms, of c p] by (auto simp: known_child_ids_def dmem_def child_edge_def)
  moreover have "c \<in> set (known_child_ids pj p) \<Longrightarrow> p \<in> set (parent_ids pj)" for p c
    by (auto simp: known_child_ids_def parent_ids_def dget_list_key)
  ultimately show ?thesis by (subst edges_within) auto
qed

text \<open>The nodes of a list of ids, each looked up.\<close>

lemma looked_up_ids:
  assumes "\<And>i n. dget nodes i = Some n \<Longrightarrow> cn_id n = i" "\<forall>i\<in>set is. dget nodes i \<noteq> None"
  shows "map cn_id (concat (map (\<lambda>i. case dget nodes i of None \<Rightarrow> [] | Some n \<Rightarrow> [n]) is)) = is"
  using assms(2) by (induction "is") (auto simp: assms(1) split: option.split)

lemma orphan_ids:
  assumes "build_context_tree_projection P only es = Inr pj"
  shows "map cn_id (orphan_subtree pj r) = filter (orphan_member pj r) (visit (parent_ids pj) (orphan_children pj r) [r] [])"
  unfolding orphan_subtree_def
  by (rule looked_up_ids) (auto simp: node_key [OF assms] orphan_member_def split: option.splits)

lemma known_child_set:
  assumes "build_context_tree_projection P only es = Inr pj"
  shows "n \<in> set (known_children pj i) \<longleftrightarrow> cn_id n \<in> set (known_child_ids pj i) \<and> dget (pj_nodes pj) (cn_id n) = Some n"
proof -
  have "n \<in> set (known_children pj i) \<longleftrightarrow> (\<exists>c\<in>set (dget_list (pj_children pj) i). dget (pj_nodes pj) c = Some n)"
    by (auto simp: known_children_def split: option.splits) metis
  also have "\<dots> \<longleftrightarrow> cn_id n \<in> set (dget_list (pj_children pj) i) \<and> dget (pj_nodes pj) (cn_id n) = Some n"
    using node_key [OF assms] by blast
  finally show ?thesis by (simp add: known_child_ids_def dmem_def) blast
qed

section \<open>The scoped projection\<close>

text \<open>
  What a capture keeps: node events carry the trace of their node, equal ids mean equal nodes, and a
  parent that is in the log belongs to the same trace.
\<close>

definition own_trace :: "parsing \<Rightarrow> trail_event \<Rightarrow> bool" where
  "own_trace P e \<longleftrightarrow> list_all (\<lambda>n. event_trace e = JStr (cn_trace n)) (event_node P None e)"

definition parents_within :: "context_node list \<Rightarrow> bool" where
  "parents_within ns \<longleftrightarrow> list_all (\<lambda>n. list_all (\<lambda>m. cn_parent n = Some (cn_id m) \<longrightarrow> cn_trace m = cn_trace n) ns) ns"

definition well_scoped :: "parsing \<Rightarrow> trail_event list \<Rightarrow> bool" where
  "well_scoped P es \<longleftrightarrow> list_all (own_trace P) es \<and> nodes_agree (log_nodes P None es) \<and> parents_within (log_nodes P None es)"

lemma scoped_nodes:
  assumes "list_all (own_trace P) es"
  shows "log_nodes P (Some (JStr t)) es = filter (\<lambda>n. cn_trace n = t) (log_nodes P None es)"
proof -
  have "event_node P (Some (JStr t)) e = filter (\<lambda>n. cn_trace n = t) (event_node P None e)" if "own_trace P e" for e
    using that by (auto simp: event_node_def own_trace_def split: option.split)
  then show ?thesis using assms by (induction es) (auto simp: log_nodes_def)
qed

text \<open>Tables keyed by the trace of the event: the scoped run agrees at its trace.\<close>

definition same_at :: "json \<Rightarrow> projection \<Rightarrow> projection \<Rightarrow> bool" where
  "same_at t a b \<longleftrightarrow> dget (pj_leaves a) t = dget (pj_leaves b) t \<and>
     dget (pj_compactions a) t = dget (pj_compactions b) t \<and>
     dget (pj_compaction_events a) t = dget (pj_compaction_events b) t \<and>
     dget (pj_limitations a) t = dget (pj_limitations b) t"

lemma same_at_skip:
  "same_at t (add_layer l a) b = same_at t a b" "same_at t (add_node n a) b = same_at t a b"
  "u \<noteq> t \<Longrightarrow> same_at t (add_compaction u p a) b = same_at t a b"
  "u \<noteq> t \<Longrightarrow> same_at t (a\<lparr>pj_leaves := dset (pj_leaves a) u v\<rparr>) b = same_at t a b"
  by (auto simp: same_at_def add_layer_def add_node_def Let_def add_compaction_def)

lemma same_at_both:
  "same_at t a b \<Longrightarrow> same_at t (add_layer l a) (add_layer l b)"
  "same_at t a b \<Longrightarrow> same_at t (add_node n a) (add_node n b)"
  "same_at t a b \<Longrightarrow> same_at t (add_compaction t p a) (add_compaction t p b)"
  "same_at t a b \<Longrightarrow> same_at t (a\<lparr>pj_leaves := dset (pj_leaves a) t v\<rparr>) (b\<lparr>pj_leaves := dset (pj_leaves b) t v\<rparr>)"
  by (auto simp: same_at_def add_layer_def add_node_def Let_def add_compaction_def)

lemma same_at_limitations:
  "u \<noteq> t \<Longrightarrow> same_at t (fold (add_limitation u) vs a) b = same_at t a b"
  "same_at t a b \<Longrightarrow> same_at t (fold (add_limitation t) vs a) (fold (add_limitation t) vs b)"
proof -
  have one: "same_at t (add_limitation u v a) b = same_at t a b" if "u \<noteq> t" for u v a
    using that by (cases v) (auto simp: add_limitation_def same_at_def)
  show "u \<noteq> t \<Longrightarrow> same_at t (fold (add_limitation u) vs a) b = same_at t a b"
    by (induction vs arbitrary: a) (simp_all add: one)
  have two: "same_at t (add_limitation t v a) (add_limitation t v b)" if "same_at t a b" for v a b
    using that by (cases v) (simp_all add: add_limitation_def same_at_def)
  show "same_at t a b \<Longrightarrow> same_at t (fold (add_limitation t) vs a) (fold (add_limitation t) vs b)"
    by (induction vs arbitrary: a b) (simp_all add: two)
qed

lemma same_at_other:
  "project_event P None e a = Inr a' \<Longrightarrow> event_trace e \<noteq> t \<Longrightarrow> same_at t a b \<Longrightarrow> same_at t a' b"
  by (simp add: project_event_def add_reconciled_def split: if_splits option.splits sum.splits)
    (auto simp: same_at_skip same_at_limitations)

lemma same_at_own:
  "project_event P None e a = Inr a' \<Longrightarrow> same_at (event_trace e) a b \<Longrightarrow>
    \<exists>b'. project_event P (Some (event_trace e)) e b = Inr b' \<and> same_at (event_trace e) a' b'"
  by (simp add: project_event_def add_reconciled_def split: if_splits option.splits sum.splits)
    (auto simp: same_at_both same_at_limitations)

lemma scoped_tables:
  "project_events P None es a = Inr a' \<Longrightarrow> same_at t a b \<Longrightarrow>
    \<exists>b'. project_events P (Some t) es b = Inr b' \<and> same_at t a' b'"
proof (induction es arbitrary: a b)
  case (Cons e es)
  then obtain a1 where a1: "project_event P None e a = Inr a1" "project_events P None es a1 = Inr a'"
    by (auto split: sum.splits)
  show ?case
  proof (cases "event_trace e = t")
    case True
    from same_at_own [OF a1(1), of b] True Cons.prems(2) obtain b1 where
      "project_event P (Some t) e b = Inr b1" "same_at t a1 b1" by blast
    with Cons.IH [OF a1(2)] show ?thesis by simp
  next
    case False
    have "project_event P (Some t) e b = Inr b" using False by (simp add: project_event_def)
    with Cons.IH [OF a1(2) same_at_other [OF a1(1) False Cons.prems(2)]] show ?thesis by simp
  qed
qed simp

lemma nodes_agree_filter: "nodes_agree ns \<Longrightarrow> nodes_agree (filter Q ns)"
  by (auto simp: nodes_agree_def list_all_iff)

lemma scoped_lookup:
  assumes "well_scoped P es" "build_context_tree_projection P None es = Inr full"
    "build_context_tree_projection P (Some (JStr t)) es = Inr sc"
  shows "n \<in> set (log_nodes P None es) \<Longrightarrow> cn_trace n = t \<Longrightarrow>
      dget (pj_nodes full) (cn_id n) = Some n \<and> dget (pj_nodes sc) (cn_id n) = Some n"
    and "n \<in> set (log_nodes P None es) \<Longrightarrow> cn_trace n = t \<Longrightarrow> parent_in (pj_nodes sc) n = parent_in (pj_nodes full) n"
    and "parent_in (pj_nodes full) n = Some m \<Longrightarrow> n \<in> set (log_nodes P None es) \<Longrightarrow> cn_trace n = t \<Longrightarrow>
      m \<in> set (log_nodes P None es) \<and> cn_trace m = t"
proof -
  let ?F = "log_nodes P None es"
  have agree: "nodes_agree ?F" and own: "list_all (own_trace P) es" and within: "parents_within ?F"
    using assms(1) by (simp_all add: well_scoped_def)
  note F = projection_tables(1) [OF assms(2)]
    and S = projection_tables(1) [OF assms(3), unfolded scoped_nodes [OF own]]
  have both: "dget (pj_nodes full) (cn_id n) = Some n \<and> dget (pj_nodes sc) (cn_id n) = Some n"
    if "n \<in> set ?F" "cn_trace n = t" for n
    using find_agree [OF agree that(1)] find_agree [OF nodes_agree_filter [OF agree], of n "\<lambda>n. cn_trace n = t"] that
    by (simp add: F S)
  then show "n \<in> set ?F \<Longrightarrow> cn_trace n = t \<Longrightarrow>
      dget (pj_nodes full) (cn_id n) = Some n \<and> dget (pj_nodes sc) (cn_id n) = Some n" .
  have up: "m \<in> set ?F \<and> cn_trace m = t"
    if p: "parent_in (pj_nodes full) n = Some m" and n: "n \<in> set ?F" "cn_trace n = t" for n m
  proof -
    from p have "find (\<lambda>x. cn_id x = the (cn_parent n)) ?F = Some m" "nonempty_str (cn_parent n)"
      by (auto simp: parent_in_def F split: if_splits)
    with find_id [OF this(1)] have "m \<in> set ?F" "cn_parent n = Some (cn_id m)"
      by (auto simp: nonempty_str_def split: option.splits)
    with within n show ?thesis by (auto simp: parents_within_def list_all_iff)
  qed
  then show "parent_in (pj_nodes full) n = Some m \<Longrightarrow> n \<in> set ?F \<Longrightarrow> cn_trace n = t \<Longrightarrow> m \<in> set ?F \<and> cn_trace m = t" .
  show "parent_in (pj_nodes sc) n = parent_in (pj_nodes full) n" if n: "n \<in> set ?F" "cn_trace n = t"
  proof (cases "parent_in (pj_nodes full) n")
    case (Some m)
    from both up [OF Some n] have "dget (pj_nodes sc) (cn_id m) = Some m" by blast
    moreover have "cn_id m = the (cn_parent n)" "nonempty_str (cn_parent n)"
      using Some node_key [OF assms(2)] by (auto simp: parent_in_def split: if_splits)
    ultimately show ?thesis using Some by (simp add: parent_in_def)
  next
    case None
    then show ?thesis
      by (auto simp: parent_in_def F S find_None_iff split: if_splits)
  qed
qed

lemma scoped_walk:
  assumes "well_scoped P es" "build_context_tree_projection P None es = Inr full"
    "build_context_tree_projection P (Some (JStr t)) es = Inr sc"
  shows "n \<in> set (log_nodes P None es) \<Longrightarrow> cn_trace n = t \<Longrightarrow> walk_up (pj_nodes sc) visited n = walk_up (pj_nodes full) visited n"
proof (induction "pj_nodes full" visited n rule: walk_up.induct)
  case (1 visited n)
  note par = scoped_lookup(2) [OF assms 1(2,3)]
  show ?case
  proof (cases "cn_id n \<in> set visited \<or> parent_in (pj_nodes full) n = None")
    case True
    then show ?thesis using par by (auto simp: walk_up_unfold [of _ visited n])
  next
    case False
    then obtain m where m: "parent_in (pj_nodes full) n = Some m" by blast
    have "walk_up (pj_nodes sc) (cn_id n # visited) m = walk_up (pj_nodes full) (cn_id n # visited) m"
      using 1(1) [OF _ m [unfolded parent_in_def]] False scoped_lookup(3) [OF assms m 1(2,3)] by blast
    then show ?thesis using par m False by (simp add: walk_up_unfold [of _ visited n])
  qed
qed

lemma scoped_trace_nodes:
  assumes "well_scoped P es" "build_context_tree_projection P None es = Inr full"
    "build_context_tree_projection P (Some (JStr t)) es = Inr sc"
  shows "trace_nodes sc t = trace_nodes full t" "n \<in> set (trace_nodes full t) \<Longrightarrow> n \<in> set (log_nodes P None es) \<and> cn_trace n = t"
proof -
  have own: "list_all (own_trace P) es" using assms(1) by (simp add: well_scoped_def)
  let ?N = "filter (\<lambda>n. cn_trace n = t) (log_nodes P None es)"
  have look: "concat (map (\<lambda>i. case dget nodes i of None \<Rightarrow> [] | Some n \<Rightarrow> [n]) (map cn_id ns)) = ns"
    if "\<forall>n\<in>set ns. dget nodes (cn_id n) = Some n" for nodes ns
    using that by (induction ns) auto
  have F: "trace_nodes full t = ?N"
    unfolding trace_nodes_def projection_tables(2) [OF assms(2)]
    by (rule look) (use scoped_lookup(1) [OF assms] in auto)
  have S: "trace_nodes sc t = ?N"
    unfolding trace_nodes_def projection_tables(2) [OF assms(3)] scoped_nodes [OF own] filter_filter conj_absorb
    by (rule look) (use scoped_lookup(1) [OF assms] in auto)
  show "trace_nodes sc t = trace_nodes full t" by (simp add: F S)
  show "n \<in> set (trace_nodes full t) \<Longrightarrow> n \<in> set (log_nodes P None es) \<and> cn_trace n = t" by (simp add: F)
qed

section \<open>The pruned transcript\<close>

text \<open>A line: not empty, with a line end only at its end.\<close>

definition line_ok :: "string \<Rightarrow> bool" where
  "line_ok l \<longleftrightarrow> l \<noteq> [] \<and> CHR 10 \<notin> set (butlast l)"

lemma file_lines_ok: "l \<in> set (file_lines s) \<Longrightarrow> line_ok l"
proof (induction s arbitrary: l rule: file_lines.induct)
  case (2 c cs)
  show ?case
  proof (cases "c = CHR 10")
    case True
    with 2 show ?thesis by (auto simp: line_ok_def)
  next
    case False
    show ?thesis
    proof (cases "file_lines cs")
      case Nil
      with 2(3) False show ?thesis by (simp add: line_ok_def)
    next
      case (Cons m ms)
      have "line_ok m" using 2(2) [OF False, of m] Cons by simp
      then have "line_ok (c # m)" using False by (simp add: line_ok_def)
      with 2(2) [OF False, of l] 2(3) False Cons show ?thesis by auto
    qed
  qed
qed simp

lemma with_newline_shape: "line_ok l \<Longrightarrow> \<exists>b. with_newline l = b @ [CHR 10] \<and> CHR 10 \<notin> set b"
proof (cases "ends_with l [CHR 10]")
  case True
  then obtain b where "l = b @ [CHR 10]" by (metis append_take_drop_id ends_with_def length_Cons list.size(3))
  moreover assume "line_ok l"
  ultimately show ?thesis by (auto simp: with_newline_def line_ok_def ends_with_def)
next
  case False
  assume l: "line_ok l"
  have "CHR 10 \<notin> set l"
  proof
    assume "CHR 10 \<in> set l"
    with l have "last l = CHR 10" unfolding line_ok_def by (metis append_butlast_last_id set_append Un_iff empty_iff empty_set set_ConsD)
    with l have "l = butlast l @ [CHR 10]" unfolding line_ok_def by (metis append_butlast_last_id)
    then have "ends_with l [CHR 10]" unfolding ends_with_def by (metis append_eq_conv_conj diff_add_inverse2 le_add2 length_append)
    with False show False ..
  qed
  with False show ?thesis by (auto simp: with_newline_def)
qed

lemma file_lines_prefix: "CHR 10 \<notin> set b \<Longrightarrow> file_lines (b @ CHR 10 # rest) = (b @ [CHR 10]) # file_lines rest"
  by (induction b) auto

lemma file_lines_concat: "list_all line_ok ls \<Longrightarrow> file_lines (concat (map with_newline ls)) = map with_newline ls"
proof (induction ls)
  case (Cons l ls)
  then obtain b where "with_newline l = b @ [CHR 10]" "CHR 10 \<notin> set b" using with_newline_shape by fastforce
  with Cons show ?case by (simp add: file_lines_prefix)
qed simp

lemma strip_newline: "strip (with_newline l) = strip l"
proof -
  have sp: "is_space (CHR 10)" by code_simp
  have "strip (l @ [CHR 10]) = strip l"
  proof (cases "\<forall>c\<in>set l. is_space c")
    case True
    then have "lstrip l = []" "lstrip (l @ [CHR 10]) = []" using sp by (simp_all add: lstrip_by_def)
    then show ?thesis by (simp add: strip_by_def)
  next
    case False
    then obtain c where "c \<in> set l" "\<not> is_space c" by blast
    then have "lstrip (l @ [CHR 10]) = lstrip l @ [CHR 10]" unfolding lstrip_by_def by (rule dropWhile_append1)
    then show ?thesis using sp by (simp add: strip_by_def rstrip_by_def)
  qed
  then show ?thesis by (simp add: with_newline_def)
qed

text \<open>A line that records an uuid.\<close>

definition records_uuid :: "(string \<Rightarrow> json option) \<Rightarrow> string \<Rightarrow> string \<Rightarrow> bool" where
  "records_uuid loads raw u \<longleftrightarrow> strip raw \<noteq> [] \<and>
     (case loads (strip raw) of Some (JObj d) \<Rightarrow> jget d ''uuid'' = JStr u | _ \<Rightarrow> False)"

lemma scan_step: "records_uuid loads raw u \<Longrightarrow>
    scan_lines loads wanted (raw # ls) found = scan_lines loads wanted ls (if u \<in> set wanted then dsetdefault found u raw else found)"
  by (auto simp: records_uuid_def split: option.splits json.splits)

lemma scan_found:
  "scan_lines loads wanted ls found = Inr out \<Longrightarrow> dget out u = Some raw \<Longrightarrow>
    dget found u = Some raw \<or> raw \<in> set ls \<and> records_uuid loads raw u \<and> u \<in> set wanted"
proof (induction ls arbitrary: found)
  case (Cons r ls)
  show ?case
  proof (cases "\<exists>v. records_uuid loads r v")
    case True
    then obtain v where v: "records_uuid loads r v" by blast
    from Cons.prems(1) Cons.IH [OF _ Cons.prems(2)] v show ?thesis
      unfolding scan_step [OF v] by (fastforce split: if_splits)
  next
    case False
    then have "scan_lines loads wanted ls found = Inr out" using Cons.prems(1)
      by (auto simp: records_uuid_def split: if_splits option.splits json.splits)
    with Cons show ?thesis by fastforce
  qed
qed simp

lemma scan_complete:
  "scan_lines loads wanted ls found = Inr out \<Longrightarrow> dmem out u \<longleftrightarrow> dmem found u \<or> u \<in> set wanted \<and> (\<exists>l\<in>set ls. records_uuid loads l u)"
proof (induction ls arbitrary: found)
  case (Cons r ls)
  show ?case
  proof (cases "\<exists>v. records_uuid loads r v")
    case True
    then obtain v where v: "records_uuid loads r v" by blast
    then have only: "records_uuid loads r w \<longleftrightarrow> w = v" for w by (auto simp: records_uuid_def split: option.splits json.splits)
    from Cons.prems Cons.IH v show ?thesis
      unfolding scan_step [OF v] by (auto simp: only dmem_def split: if_splits option.splits)
  next
    case False
    then have "scan_lines loads wanted ls found = Inr out" using Cons.prems
      by (auto simp: records_uuid_def split: if_splits option.splits json.splits)
    with Cons False show ?thesis by auto
  qed
qed simp

lemma scan_recorded:
  "list_all2 (records_uuid loads) ls us \<Longrightarrow> set us \<subseteq> set wanted \<Longrightarrow>
    \<exists>out. scan_lines loads wanted ls found = Inr out \<and>
      (\<forall>u. dget out u = (case dget found u of Some r \<Rightarrow> Some r | None \<Rightarrow> map_of (zip us ls) u))"
proof (induction ls us arbitrary: found rule: list_all2_induct)
  case Nil
  then show ?case by (auto split: option.split)
next
  case (Cons l ls u us)
  from Cons.IH [of "dsetdefault found u l"] Cons.prems obtain out where
    "scan_lines loads wanted ls (dsetdefault found u l) = Inr out"
    "\<forall>v. dget out v = (case dget (dsetdefault found u l) v of Some r \<Rightarrow> Some r | None \<Rightarrow> map_of (zip us ls) v)" by auto
  with Cons.prems scan_step [OF Cons.hyps(1)] show ?case by (auto split: option.split)
qed

text \<open>What was read: one line of the source for each uuid, a line that records it; written out, these are the lines.\<close>

definition source_lines :: "string option \<Rightarrow> string set" where
  "source_lines source = (case source of None \<Rightarrow> {} | Some body \<Rightarrow> set (file_lines body))"

lemma read_lines:
  assumes "read_records_for_active_path loads source path = Inr (records, uuids)"
  shows "list_all2 (records_uuid loads) records uuids \<and> set records \<subseteq> source_lines source \<and>
    uuids = filter (\<lambda>u. u \<noteq> [] \<and> (\<exists>l\<in>source_lines source. records_uuid loads l u)) (map cn_uuid path) \<and>
    file_lines (concat (map with_newline records)) = map with_newline records"
proof (cases "source = None \<or> wanted_uuids path = []")
  case True
  with assms have "records = []" "uuids = []" by (cases source; simp add: read_records_for_active_path_def)+
  moreover have "filter (\<lambda>u. u \<noteq> [] \<and> (\<exists>l\<in>source_lines source. records_uuid loads l u)) (map cn_uuid path) = []"
    using True by (auto simp: source_lines_def wanted_uuids_def filter_empty_conv)
  ultimately show ?thesis by simp
next
  case False
  with assms obtain body found where body: "source = Some body"
    and scan: "scan_lines loads (wanted_uuids path) (file_lines body) [] = Inr found"
    and ids: "uuids = filter (dmem found) (map cn_uuid path)" and recs: "records = map (\<lambda>u. the (dget found u)) uuids"
    by (auto simp: read_records_for_active_path_def Let_def split: sum.splits)
  have good: "the (dget found u) \<in> set (file_lines body) \<and> records_uuid loads (the (dget found u)) u" if "u \<in> set uuids" for u
    using that scan_found [OF scan, of u] by (auto simp: ids dmem_def)
  have "list_all line_ok records" using good file_lines_ok by (auto simp: recs list_all_iff)
  then have "file_lines (concat (map with_newline records)) = map with_newline records" by (rule file_lines_concat)
  moreover have "list_all2 (records_uuid loads) records uuids"
    using good by (auto simp: recs list_all2_conv_all_nth)
  moreover have "uuids = filter (\<lambda>u. u \<noteq> [] \<and> (\<exists>l\<in>source_lines source. records_uuid loads l u)) (map cn_uuid path)"
    unfolding ids
  proof (rule filter_cong [OF refl])
    fix u
    assume "u \<in> set (map cn_uuid path)"
    moreover have "\<not> dmem [] u" by (simp add: dmem_def)
    ultimately show "dmem found u \<longleftrightarrow> u \<noteq> [] \<and> (\<exists>l\<in>source_lines source. records_uuid loads l u)"
      unfolding scan_complete [OF scan, of u] by (auto simp: wanted_uuids_def body source_lines_def)
  qed
  ultimately show ?thesis using good by (auto simp: recs body source_lines_def)
qed

text \<open>Reading back what was pruned gives the same records, each with its line end.\<close>

lemma reads_back:
  assumes "read_records_for_active_path loads source path = Inr (records, uuids)"
  shows "read_records_for_active_path loads (Some (concat (map with_newline records))) path =
      Inr (map with_newline records, uuids) \<and> length records = length uuids"
proof (cases "source = None \<or> wanted_uuids path = []")
  case True
  with assms show ?thesis
    by (cases source) (auto simp: read_records_for_active_path_def Let_def dmem_def split: if_splits)
next
  case False
  with assms obtain body found where body: "source = Some body"
    and scan: "scan_lines loads (wanted_uuids path) (file_lines body) [] = Inr found"
    and ids: "uuids = filter (dmem found) (map cn_uuid path)" and recs: "records = map (\<lambda>u. the (dget found u)) uuids"
    by (auto simp: read_records_for_active_path_def Let_def split: sum.splits)
  have good: "the (dget found u) \<in> set (file_lines body) \<and> records_uuid loads (the (dget found u)) u \<and> u \<in> set (wanted_uuids path)"
    if "u \<in> set uuids" for u
    using that scan_found [OF scan, of u] by (auto simp: ids dmem_def)
  have "list_all line_ok records" using good file_lines_ok by (auto simp: recs list_all_iff)
  then have lines: "file_lines (concat (map with_newline records)) = map with_newline records" by (rule file_lines_concat)
  have "list_all2 (records_uuid loads) (map with_newline records) uuids"
    using good by (auto simp: recs list_all2_conv_all_nth records_uuid_def strip_newline)
  moreover have "set uuids \<subseteq> set (wanted_uuids path)" using good by blast
  ultimately obtain out where out: "scan_lines loads (wanted_uuids path) (map with_newline records) [] = Inr out"
    "\<forall>u. dget out u = map_of (zip uuids (map with_newline records)) u"
    using scan_recorded [of loads "map with_newline records" uuids "wanted_uuids path" "[]"] by auto
  have zip: "map_of (zip uuids (map with_newline records)) = (\<lambda>u. if u \<in> set uuids then Some (with_newline (the (dget found u))) else None)"
    using map_of_zip_map [of uuids "\<lambda>u. with_newline (the (dget found u))"] by (auto simp: recs comp_def)
  have "dmem out u \<longleftrightarrow> u \<in> set uuids" for u by (simp add: dmem_def out(2) zip)
  then have "filter (dmem out) (map cn_uuid path) = filter (\<lambda>u. u \<in> set uuids) (map cn_uuid path)"
    by (intro filter_cong refl)
  also have "\<dots> = uuids" unfolding ids by (rule filter_cong) auto
  finally have "filter (dmem out) (map cn_uuid path) = uuids" .
  moreover have "the (dget out u) = with_newline (the (dget found u))" if "u \<in> set uuids" for u
    using that by (simp add: out(2) zip)
  then have "map (\<lambda>u. the (dget out u)) uuids = map with_newline records" unfolding recs by simp
  ultimately show ?thesis using False lines out(1)
    by (simp add: read_records_for_active_path_def recs)
qed

section \<open>A sample log\<close>

text \<open>A digest that spells the uuid of a node, so that its ids can be read.\<close>

definition uuid_digest :: "json \<Rightarrow> string" where
  "uuid_digest v = take 64 ((case jfield v ''transcript_uuid'' of JStr u \<Rightarrow> u | _ \<Rightarrow> []) @ replicate 64 (CHR ''0''))"

definition sample_parsing :: parsing where
  "sample_parsing = \<lparr>pa_H = uuid_digest, pa_cint = (\<lambda>v. case v of JInt i \<Rightarrow> Some i | _ \<Rightarrow> None)\<rparr>"

definition sample_id :: "string \<Rightarrow> string" where
  "sample_id u = HASH_PREFIX @ take 64 (u @ replicate 64 (CHR ''0''))"

definition sample_node :: "string \<Rightarrow> string option \<Rightarrow> string \<Rightarrow> context_node" where
  "sample_node u parent branch =
     \<lparr>cn_id = sample_id u, cn_parent = parent, cn_branch = branch, cn_trace = ''t'', cn_step = None, cn_uuid = u,
      cn_parent_uuid = None, cn_offset = 0, cn_system = sample_id [], cn_messages = sample_id [],
      cn_tools = sample_id [], cn_runtime = sample_id [], cn_subagent = None, cn_anchor = None,
      cn_completeness = ''full'', cn_version = CONTEXT_TREE_VERSION\<rparr>"

definition context_event :: "string \<Rightarrow> string \<Rightarrow> (string, json) dict \<Rightarrow> trail_event" where
  "context_event tid ty p = (finalized uuid_digest
     \<lparr>da_seq = 1, da_time = ''then'', da_prev = None, da_trace = Some tid, da_gen = Some 0, da_step = None,
      da_batch = ''b'', da_writer = ''w'', da_capture = [''hook''], da_type = ty, da_payload = p, da_schema = None,
      da_security = None, da_attribution = None\<rparr>)"

definition sample_nodes :: "context_node list" where
  "sample_nodes =
     [sample_node ''a'' None ''root'', sample_node ''b'' (Some (sample_id ''a'')) ''linear'',
      sample_node ''c'' (Some (sample_id ''a'')) ''rewind_branch'', sample_node ''d'' (Some (sample_id ''c'')) ''rewind_branch'',
      (sample_node ''e'' None ''root'')\<lparr>cn_trace := ''u''\<rparr>]"

definition sample_tree :: "trail_event list" where
  "sample_tree = map (\<lambda>n. context_event (cn_trace n) CONTEXT_NODE_OBSERVED (node_payload n)) sample_nodes @
     [context_event ''t'' CONTEXT_TREE_RECONCILED [(''active_path_leaf_id'', JStr ''b'')]]"

lemma canon_field:
  assumes "dict_ok d" shows "jfield (canon (JObj d)) k = canon (jget d k)"
proof -
  let ?d = "map (\<lambda>(k, v). (k, canon v)) d"
  have "dict_ok ?d" using assms dict_ok_map_snd [of "\<lambda>_. canon" d] by simp
  then have "dget (sort_key fst ?d) k = map_option canon (dget d k)"
    using dget_sort_key [of ?d k] dget_map_snd [of "\<lambda>_. canon" d k] by simp
  then show ?thesis by (simp add: jget_def split: option.split)
qed

lemma sample_digest_node:
  "sha256_hex uuid_digest (canonical_node_material n) = take 64 (cn_uuid n @ replicate 64 (CHR ''0''))"
proof -
  have "jfield (canon (canonical_node_material n)) ''transcript_uuid'' = JStr (cn_uuid n)"
    unfolding canonical_node_material_def by (subst canon_field) (simp_all add: dict_ok_def dkeys_def)
  then show ?thesis by (simp add: sha256_hex_def uuid_digest_def)
qed

lemma sample_id_ok: "hash_id_ok (sample_id u)"
  by (simp add: hash_id_ok_def sample_id_def starts_with_def HASH_PREFIX_def)

lemma sample_valid:
  assumes "n = sample_node u p br \<or> n = (sample_node u p br)\<lparr>cn_trace := t\<rparr>" "br \<in> set BRANCH_TYPES" "br \<noteq> ''subagent_fork''"
    and "if br = ''root'' then p = None else \<exists>q. p = Some (sample_id q)"
  shows "validate_node uuid_digest (\<lambda>v. case v of JInt i \<Rightarrow> Some i | _ \<Rightarrow> None) (node_payload n) = Some n"
proof -
  have "cn_id n = compute_node_id uuid_digest (canonical_node_material n)"
    using assms(1) by (auto simp: compute_node_id_def sha256_id_def sample_digest_node sample_node_def sample_id_def)
  then have "node_ok uuid_digest n"
    using assms by (auto simp: node_ok_def sample_node_def sample_id_ok parent_ok_def COMPLETENESS_VALUES_def split: if_splits)
  then show ?thesis by (simp add: validate_node_def parse_node_payload keeps_ints_def)
qed

lemma sample_event_node:
  "n \<in> set sample_nodes \<Longrightarrow> validate_node uuid_digest (\<lambda>v. case v of JInt i \<Rightarrow> Some i | _ \<Rightarrow> None) (node_payload n) = Some n"
proof -
  let ?v = "validate_node uuid_digest (\<lambda>v. case v of JInt i \<Rightarrow> Some i | _ \<Rightarrow> None)"
  have root_ok: "?v (node_payload (sample_node u None ''root'')) = Some (sample_node u None ''root'')"
    "?v (node_payload ((sample_node u None ''root'')\<lparr>cn_trace := t\<rparr>)) = Some ((sample_node u None ''root'')\<lparr>cn_trace := t\<rparr>)" for u t
    by (rule sample_valid [where u = u and p = None and br = "''root''" and t = t]; simp add: BRANCH_TYPES_def)+
  have child_ok: "?v (node_payload (sample_node u (Some (sample_id q)) br)) = Some (sample_node u (Some (sample_id q)) br)"
    if "br = ''linear'' \<or> br = ''rewind_branch''" for u q br
    by (rule sample_valid [where u = u and p = "Some (sample_id q)" and br = br])
      (use that in \<open>auto simp: BRANCH_TYPES_def\<close>)
  assume "n \<in> set sample_nodes"
  then show "?v (node_payload n) = Some n" unfolding sample_nodes_def by (auto simp: root_ok child_ok)
qed

lemma sample_log_nodes: "log_nodes sample_parsing None sample_tree = sample_nodes"
proof -
  have node: "event_node sample_parsing None (context_event (cn_trace n) CONTEXT_NODE_OBSERVED (node_payload n)) = [n]"
    if "n \<in> set sample_nodes" for n
    using sample_event_node [OF that] by (simp add: event_node_def context_event_def sample_parsing_def)
  have "concat (map (\<lambda>n. event_node sample_parsing None (context_event (cn_trace n) CONTEXT_NODE_OBSERVED (node_payload n))) ns) = ns"
    if "set ns \<subseteq> set sample_nodes" for ns
    using that by (induction ns) (simp_all add: node)
  moreover have "event_node sample_parsing None (context_event ''t'' CONTEXT_TREE_RECONCILED p) = []" for p
    by (simp add: event_node_def context_event_def)
  ultimately show ?thesis by (simp add: log_nodes_def sample_tree_def comp_def)
qed

lemma sample_tree_facts:
  "parents_first [] (log_nodes sample_parsing None sample_tree)" "nodes_agree (log_nodes sample_parsing None sample_tree)"
  "well_scoped sample_parsing sample_tree"
proof -
  show "parents_first [] (log_nodes sample_parsing None sample_tree)" "nodes_agree (log_nodes sample_parsing None sample_tree)"
    unfolding sample_log_nodes by code_simp+
  moreover have "parents_within (log_nodes sample_parsing None sample_tree)" unfolding sample_log_nodes by code_simp
  moreover have "event_trace (context_event t ty p) = JStr t" if "t \<noteq> []" for t ty p
    using that by (simp add: event_trace_def context_event_def jor_def)
  then have "list_all (own_trace sample_parsing) sample_tree"
    using sample_event_node
    by (auto simp: list_all_iff own_trace_def sample_tree_def event_node_def context_event_def sample_parsing_def sample_nodes_def
      sample_node_def split: option.splits)
  ultimately show "well_scoped sample_parsing sample_tree" by (simp add: well_scoped_def)
qed

text \<open>The projections of the sample log, whole and of one trace, computed from its nodes.\<close>

definition sample_projection :: "context_node list \<Rightarrow> projection" where
  "sample_projection ns = (fold add_node ns empty_projection)\<lparr>pj_leaves := [(JStr ''t'', JStr ''b'')]\<rparr>"

lemma project_append:
  "project_events P only (xs @ ys) pj =
     (case project_events P only xs pj of Inl err \<Rightarrow> Inl err | Inr pj' \<Rightarrow> project_events P only ys pj')"
  by (induction xs arbitrary: pj) (auto split: sum.split)

lemma sample_builds:
  assumes "only = None \<or> only = Some (JStr ''t'')"
  shows "build_context_tree_projection sample_parsing only sample_tree =
    Inr (sample_projection (filter (\<lambda>n. only = None \<or> cn_trace n = ''t'') sample_nodes))"
proof -
  let ?Q = "\<lambda>n. only = None \<or> cn_trace n = ''t''"
  have tr: "event_trace (context_event t ty p) = JStr t" if "t \<noteq> []" for t ty p
    using that by (simp add: event_trace_def context_event_def jor_def)
  have named: "n \<in> set sample_nodes \<Longrightarrow> cn_trace n \<noteq> []" for n by (auto simp: sample_nodes_def sample_node_def)
  have "project_events sample_parsing only (map (\<lambda>n. context_event (cn_trace n) CONTEXT_NODE_OBSERVED (node_payload n)) ns) pj =
      Inr (fold add_node (filter ?Q ns) pj)" if "set ns \<subseteq> set sample_nodes" for ns pj
    using that
  proof (induction ns arbitrary: pj)
    case (Cons n ns)
    let ?e = "context_event (cn_trace n) CONTEXT_NODE_OBSERVED (node_payload n)"
    have "project_event sample_parsing only ?e pj = Inr (if ?Q n then add_node n pj else pj)"
    proof -
      have n: "n \<in> set sample_nodes" using Cons.prems by simp
      have e: "event_trace ?e = JStr (cn_trace n)" "ev_type ?e = CONTEXT_NODE_OBSERVED" "ev_payload ?e = node_payload n"
        by (rule tr [OF named [OF n]]) (simp_all add: context_event_def)
      have "(only \<noteq> None \<and> only \<noteq> Some (JStr (cn_trace n))) = (\<not> ?Q n)" using assms by auto
      then show ?thesis
        using sample_event_node [OF n] by (simp add: project_event_def e sample_parsing_def)
    qed
    with Cons show ?case by simp
  qed simp
  from this [of sample_nodes empty_projection]
  have "build_context_tree_projection sample_parsing only sample_tree =
      project_events sample_parsing only [context_event ''t'' CONTEXT_TREE_RECONCILED [(''active_path_leaf_id'', JStr ''b'')]]
        (fold add_node (filter ?Q sample_nodes) empty_projection)"
    by (simp add: build_context_tree_projection_def sample_tree_def project_append)
  also have "\<dots> = Inr (sample_projection (filter ?Q sample_nodes))"
  proof -
    have "pj_leaves (fold add_node ns pj) = pj_leaves pj" for ns pj
      by (induction ns arbitrary: pj) (simp_all add: add_node_tables)
    then show ?thesis
      using assms
      by (auto simp: project_event_def context_event_def event_trace_def jor_def hashable_def add_reconciled_def iter_or_empty_def
          sample_projection_def empty_projection_def dset_def)
  qed
  finally show ?thesis .
qed

lemma sample_paths:
  "map cn_uuid (active_path (sample_projection sample_nodes) ''t'' None) = [''a'', ''b'']"
  "map cn_uuid (orphan_subtree (sample_projection sample_nodes) (sample_id ''c'')) = [''c'', ''d'']"
  by code_simp+

section \<open>Properties\<close>

text \<open>
  C27. The active path is a path of the tree: for a log that records parents before their children, the
  path of a trace runs from a node without a known parent down to the chosen leaf, each node the parent
  of the next, no node twice; without a leaf there is no path.
\<close>

theorem active_path_is_branch:
  assumes "build_context_tree_projection P only es = Inr pj" "parents_first [] (log_nodes P only es)"
  shows "case target_leaf pj tid leaf of None \<Rightarrow> active_path pj tid leaf = []
    | Some n \<Rightarrow> active_path pj tid leaf \<noteq> [] \<and> last (active_path pj tid leaf) = n \<and>
        distinct (map cn_id (active_path pj tid leaf)) \<and>
        successively (\<lambda>p c. cn_parent c = Some (cn_id p)) (active_path pj tid leaf) \<and>
        parent_in (pj_nodes pj) (hd (active_path pj tid leaf)) = None"
proof (cases "target_leaf pj tid leaf")
  case (Some n)
  then obtain i where i: "dget (pj_nodes pj) i = Some n" using target_known by blast
  show ?thesis using path_facts [OF assms i] by (simp add: active_path_def Some)
qed (simp add: active_path_def)

theorem active_path_is_branch_witness:
  "active_path (sample_projection sample_nodes) ''t'' None \<noteq> [] \<and>
    parent_in (pj_nodes (sample_projection sample_nodes)) (hd (active_path (sample_projection sample_nodes) ''t'' None)) = None"
proof -
  have b: "build_context_tree_projection sample_parsing None sample_tree = Inr (sample_projection sample_nodes)"
    using sample_builds [of None] by simp
  show ?thesis
    using active_path_is_branch [OF b sample_tree_facts(1), of "''t''" None] sample_paths(1)
    by (auto split: option.splits)
qed

text \<open>
  C32. The subtree queries find exactly what the parent links reach, and stop: the orphan subtree of a
  node is, once each, the node and the rewound nodes below it through rewound nodes; the subagent
  subtree is every subagent node below the given one.
\<close>

theorem subtrees_exact:
  assumes "build_context_tree_projection P only es = Inr pj" "nodes_agree (log_nodes P only es)"
  shows "distinct (map cn_id (orphan_subtree pj r)) \<and>
    set (map cn_id (orphan_subtree pj r)) =
      {i. orphan_member pj r i \<and> (r, i) \<in> {(p, c). orphan_member pj r p \<and> (p, c) \<in> child_edge pj}\<^sup>*} \<and>
    set (subagent_subtree pj r) =
      {n. dget (pj_nodes pj) (cn_id n) = Some n \<and> cn_branch n = ''subagent_fork'' \<and> (r, cn_id n) \<in> (child_edge pj)\<^sup>+}"
proof (intro conjI)
  show "distinct (map cn_id (orphan_subtree pj r))"
    unfolding orphan_ids [OF assms(1)] using visit_new by (intro distinct_filter) blast
  show "set (map cn_id (orphan_subtree pj r)) =
      {i. orphan_member pj r i \<and> (r, i) \<in> {(p, c). orphan_member pj r p \<and> (p, c) \<in> child_edge pj}\<^sup>*}"
    unfolding orphan_ids [OF assms(1)] by (auto simp: visit_reachable orphan_edges [OF assms])
  have child: "c \<in> set (known_child_ids pj i) \<longleftrightarrow> (i, c) \<in> child_edge pj" for i c
    using children_iff [OF assms, of c i] by (auto simp: known_child_ids_def dmem_def child_edge_def)
  have "n \<in> set (subagent_subtree pj r) \<longleftrightarrow> dget (pj_nodes pj) (cn_id n) = Some n \<and> cn_branch n = ''subagent_fork'' \<and>
      (\<exists>i. (r, i) \<in> (child_edge pj)\<^sup>* \<and> (i, cn_id n) \<in> child_edge pj)" for n
    unfolding subagent_subtree_def
    by (auto simp: visit_reachable known_child_edges [OF assms] known_child_set [OF assms(1)] child)
  then show "set (subagent_subtree pj r) =
      {n. dget (pj_nodes pj) (cn_id n) = Some n \<and> cn_branch n = ''subagent_fork'' \<and> (r, cn_id n) \<in> (child_edge pj)\<^sup>+}"
    by (auto simp: trancl_unfold_right)
qed

theorem subtrees_exact_witness:
  "set (map cn_id (orphan_subtree (sample_projection sample_nodes) (sample_id ''c''))) =
      {i. orphan_member (sample_projection sample_nodes) (sample_id ''c'') i \<and> (sample_id ''c'', i) \<in>
        {(p, c). orphan_member (sample_projection sample_nodes) (sample_id ''c'') p \<and> (p, c) \<in> child_edge (sample_projection sample_nodes)}\<^sup>*} \<and>
    map cn_uuid (orphan_subtree (sample_projection sample_nodes) (sample_id ''c'')) = [''c'', ''d'']"
proof -
  have b: "build_context_tree_projection sample_parsing None sample_tree = Inr (sample_projection sample_nodes)"
    using sample_builds [of None] by simp
  show ?thesis using subtrees_exact [OF b sample_tree_facts(2), of "sample_id ''c''"] sample_paths(2) by blast
qed

text \<open>
  Projecting one trace is projecting the log and looking at that trace: if nodes carry the trace of
  their event and parents stay within it, the scoped projection succeeds whenever the full one does, with
  the same nodes of the trace, the same active path, and the same compactions, leaf and limitations.
\<close>

theorem scoped_projection_agrees:
  assumes "well_scoped P es" "build_context_tree_projection P None es = Inr full"
  shows "\<exists>sc. build_context_tree_projection P (Some (JStr t)) es = Inr sc \<and> trace_nodes sc t = trace_nodes full t \<and>
    active_path sc t None = active_path full t None \<and> same_at (JStr t) full sc"
proof -
  have "same_at (JStr t) empty_projection empty_projection" by (simp add: same_at_def)
  from scoped_tables [OF assms(2) [unfolded build_context_tree_projection_def] this] obtain sc where
    sc: "build_context_tree_projection P (Some (JStr t)) es = Inr sc" "same_at (JStr t) full sc"
    by (auto simp: build_context_tree_projection_def)
  note nodes = scoped_trace_nodes [OF assms sc(1)]
  have "node_for_transcript_uuid sc t u = node_for_transcript_uuid full t u" for u
    by (simp add: node_for_transcript_uuid_def nodes(1))
  moreover have "dget (pj_leaves sc) (JStr t) = dget (pj_leaves full) (JStr t)" using sc(2) by (simp add: same_at_def)
  ultimately have "target_leaf sc t None = target_leaf full t None" by (simp add: target_leaf_def nodes(1) Let_def)
  moreover have "walk_up (pj_nodes sc) [] n = walk_up (pj_nodes full) [] n" if "target_leaf full t None = Some n" for n
  proof -
    have "n \<in> set (trace_nodes full t)" using target_in_trace [OF that] .
    from nodes(2) [OF this] show ?thesis using scoped_walk [OF assms sc(1)] by blast
  qed
  ultimately have "active_path sc t None = active_path full t None" by (auto simp: active_path_def split: option.split)
  with sc nodes(1) show ?thesis by blast
qed

theorem scoped_projection_agrees_witness:
  "\<exists>sc. build_context_tree_projection sample_parsing (Some (JStr ''t'')) sample_tree = Inr sc \<and>
     map cn_uuid (active_path sc ''t'' None) = [''a'', ''b'']"
proof -
  have b: "build_context_tree_projection sample_parsing None sample_tree = Inr (sample_projection sample_nodes)"
    using sample_builds [of None] by simp
  from scoped_projection_agrees [OF sample_tree_facts(3) b, of "''t''"] sample_paths(1) show ?thesis by metis
qed

text \<open>
  Pruning never clobbers: an existing destination stops a write before anything changed; a write
  touches the destination and its temporary file only, and leaves the destination in place; every other
  outcome, a dry run included, leaves the files as they were.
\<close>

theorem prune_no_clobber:
  "case prune_session_to_node E es node_id to_session write fs of
     Inl (FileExists p) \<Rightarrow> write \<and> dmem fs p
   | Inl (PruneError _) \<Rightarrow> True
   | Inr (Pruned pk, fs') \<Rightarrow>
       (if write then \<not> dmem fs (pp_path pk) \<and> dmem fs' (pp_path pk) \<and>
          {q. dget fs' q \<noteq> dget fs q} \<subseteq> {pp_path pk, pp_path pk @ ''.tmp''}
        else fs' = fs)
   | Inr (_, fs') \<Rightarrow> fs' = fs"
proof -
  have w: "case write_pruned path records fs of Inl e \<Rightarrow> e = FileExists path \<and> dmem fs path
    | Inr fs' \<Rightarrow> \<not> dmem fs path \<and> dmem fs' path \<and> {q. dget fs' q \<noteq> dget fs q} \<subseteq> {path, path @ ''.tmp''}" for path records
    by (auto simp: write_pruned_def write_atomically_def dmem_def)
  let ?cases = "\<lambda>r. case r of Inl (FileExists p) \<Rightarrow> write \<and> dmem fs p | Inl (PruneError _) \<Rightarrow> True
    | Inr (Pruned pk, fs') \<Rightarrow> (if write then \<not> dmem fs (pp_path pk) \<and> dmem fs' (pp_path pk) \<and>
          {q. dget fs' q \<noteq> dget fs q} \<subseteq> {pp_path pk, pp_path pk @ ''.tmp''} else fs' = fs)
    | Inr (_, fs') \<Rightarrow> fs' = fs"
  show ?thesis
  proof (cases "owner_projection (pe_parsing E) es node_id")
    case (Inl err)
    then show ?thesis by (simp add: prune_session_to_node_def)
  next
    case (Inr opj)
    show ?thesis
    proof (cases "find_node opj node_id")
      case None
      with Inr show ?thesis by (simp add: prune_session_to_node_def)
    next
      case (Some p)
      obtain pj n where p: "p = (pj, n)" by (cases p)
      let ?path = "active_path pj (cn_trace n) (Some node_id)"
      let ?dest = "dest_path (pe_dir E) (new_session_id (pe_fresh E) to_session)"
      show ?thesis
      proof (cases "read_records_for_active_path (pe_loads E) (dget fs (pe_source E)) ?path")
        case (Inl err)
        with Inr Some p show ?thesis by (simp add: prune_session_to_node_def Let_def)
      next
        case read: (Inr r)
        obtain records uuids where r: "r = (records, uuids)" by (cases r)
        show ?thesis
          using Inr Some p read r w [of ?dest records]
          by (cases "write_pruned ?dest records fs") (simp_all add: prune_session_to_node_def Let_def)
      qed
    qed
  qed
qed

text \<open>
  C26. Pruning keeps the active path and nothing else: the lines of the transcript that a write leaves behind are exactly
  the records that were read for the active path: one line of the source for each uuid of the path that the source records,
  in path order, each a line that records that uuid. Read back against the same path, the new transcript gives these records again.
\<close>

theorem prune_round_trip:
  assumes "prune_session_to_node E es node_id to_session True fs = Inr (Pruned pk, fs')"
  shows "\<exists>pj n records. owner_projection (pe_parsing E) es node_id = Inr (Some pj) \<and> dget (pj_nodes pj) node_id = Some n \<and>
    (let path = active_path pj (cn_trace n) (Some node_id) in
     read_records_for_active_path (pe_loads E) (dget fs (pe_source E)) path = Inr (records, pp_uuids pk) \<and> length records = pp_count pk \<and>
     list_all2 (records_uuid (pe_loads E)) records (pp_uuids pk) \<and> set records \<subseteq> source_lines (dget fs (pe_source E)) \<and>
     pp_uuids pk = filter (\<lambda>u. u \<noteq> [] \<and> (\<exists>l\<in>source_lines (dget fs (pe_source E)). records_uuid (pe_loads E) l u)) (map cn_uuid path) \<and>
     map_option file_lines (dget fs' (pp_path pk)) = Some (map with_newline records) \<and>
     read_records_for_active_path (pe_loads E) (dget fs' (pp_path pk)) path = Inr (map with_newline records, pp_uuids pk))"
proof -
  from assms obtain pj n where o: "owner_projection (pe_parsing E) es node_id = Inr (Some pj)" "dget (pj_nodes pj) node_id = Some n"
    and rest: "find_node (Some pj) node_id = Some (pj, n)"
    by (auto simp: prune_session_to_node_def find_node_def split: sum.splits option.splits)
  let ?path = "active_path pj (cn_trace n) (Some node_id)"
  from assms o rest obtain records where
    read: "read_records_for_active_path (pe_loads E) (dget fs (pe_source E)) ?path = Inr (records, pp_uuids pk)"
    and w: "write_pruned (pp_path pk) records fs = Inr fs'" and count: "pp_count pk = length records"
    by (auto simp: prune_session_to_node_def Let_def split: sum.splits if_splits)
  have written: "dget fs' (pp_path pk) = Some (concat (map with_newline records))"
    using w by (auto simp: write_pruned_def write_atomically_def split: if_splits)
  have "map_option file_lines (dget fs' (pp_path pk)) = Some (map with_newline records)"
    using read_lines [OF read] by (simp only: written option.map)
  moreover have "read_records_for_active_path (pe_loads E) (dget fs' (pp_path pk)) ?path = Inr (map with_newline records, pp_uuids pk)"
    using reads_back [OF read] by (simp only: written)
  ultimately show ?thesis
    unfolding Let_def using o read count [symmetric] read_lines [OF read] by blast
qed

definition sample_env :: prune_env where
  "sample_env = \<lparr>pe_parsing = sample_parsing, pe_loads = (\<lambda>l. Some (JObj [(''uuid'', JStr l)])), pe_fresh = ''0'',
     pe_dir = ''d'', pe_source = ''d/s.jsonl''\<rparr>"

definition sample_files :: files where
  "sample_files = [(''d/s.jsonl'', ''b'' @ [CHR 10] @ ''z'' @ [CHR 10] @ ''a'')]"

lemma sample_owner:
  "owner_projection sample_parsing sample_tree (sample_id ''b'') =
     Inr (Some (sample_projection (filter (\<lambda>n. cn_trace n = ''t'') sample_nodes)))"
proof -
  have ids: "sample_id ''a'' \<noteq> sample_id ''b''" by code_simp
  have "resolve_node_traces sample_tree [sample_id ''b''] = Inr [(JStr (sample_id ''b''), JStr ''t'')]"
    using ids
    by (simp add: resolve_node_traces_def sample_tree_def sample_nodes_def context_event_def node_payload_def sample_node_def
        hashable_def is_jlist_def is_jobj_def Let_def jor_def dset_def)
  then show ?thesis using sample_builds [of "Some (JStr ''t'')"] by (simp add: owner_projection_def)
qed

lemma sample_prune:
  "\<exists>pk fs'. prune_session_to_node sample_env sample_tree (sample_id ''b'') (Some ''new'') True sample_files = Inr (Pruned pk, fs') \<and>
     pp_uuids pk = [''a'', ''b''] \<and> pp_count pk = 2"
proof -
  let ?pj = "sample_projection (filter (\<lambda>n. cn_trace n = ''t'') sample_nodes)"
  have "find_node (Some ?pj) (sample_id ''b'') = Some (?pj, sample_node ''b'' (Some (sample_id ''a'')) ''linear'')" by code_simp
  moreover have "map cn_uuid (active_path ?pj ''t'' (Some (sample_id ''b''))) = [''a'', ''b'']" by code_simp
  moreover from this have "active_path ?pj ''t'' (Some (sample_id ''b'')) \<noteq> []" by auto
  moreover have "read_records_for_active_path (pe_loads sample_env) (dget sample_files (pe_source sample_env))
      (active_path ?pj ''t'' (Some (sample_id ''b''))) = Inr ([''a'', ''b'' @ [CHR 10]], [''a'', ''b''])" by code_simp
  moreover have "\<not> dmem sample_files (dest_path (pe_dir sample_env) (new_session_id (pe_fresh sample_env) (Some ''new'')))" by code_simp
  ultimately show ?thesis
    using sample_owner
    by (simp add: prune_session_to_node_def sample_env_def write_pruned_def Let_def sample_node_def)
qed

theorem prune_round_trip_witness:
  "\<exists>pk fs' records. prune_session_to_node sample_env sample_tree (sample_id ''b'') (Some ''new'') True sample_files = Inr (Pruned pk, fs') \<and>
     list_all2 (records_uuid (pe_loads sample_env)) records [''a'', ''b''] \<and>
     map_option file_lines (dget fs' (pp_path pk)) = Some (map with_newline records)"
proof -
  obtain pk fs' where p: "prune_session_to_node sample_env sample_tree (sample_id ''b'') (Some ''new'') True sample_files = Inr (Pruned pk, fs')"
    "pp_uuids pk = [''a'', ''b'']" "pp_count pk = 2" using sample_prune by blast
  from prune_round_trip [OF p(1)] p show ?thesis unfolding Let_def by metis
qed

end
