(* ===== verification/Redaction.thy ===== *)
theory Redaction
  imports TraceModel PyText
begin

text \<open>
  Span redaction and the traversal of the string fields of a trace, from \<^verbatim>\<open>security/walker.py\<close>, with the
  field classification of \<^verbatim>\<open>security/scanner.py\<close>.

  A transform gets the path, the field type and the text. It returns \<^term>\<open>None\<close> when it hands back the
  same string object, which is how the code tells a change, and what its closure records (the findings
  of a detector) as a list. The walkers collect those lists in the order of the visits.
\<close>

section \<open>Spans\<close>

type_synonym span = "nat \<times> nat"

definition REDACTED :: string where "REDACTED = ''[REDACTED]''"

definition span_order :: "span \<Rightarrow> nat \<times> int" where
  "span_order p = (fst p, - int (snd p))"

definition sorted_spans :: "span list \<Rightarrow> span list" where
  "sorted_spans spans = sort_key span_order (remdups (filter (\<lambda>p. fst p < snd p) spans))"

text \<open>The merged spans, the last one first.\<close>

fun merge_span :: "span \<Rightarrow> span list \<Rightarrow> span list" where
  "merge_span (s, e) ((ps, pe) # acc) = (if s < pe then (ps, max pe e) # acc else (s, e) # (ps, pe) # acc)"
| "merge_span p [] = [p]"

definition merged_spans :: "span list \<Rightarrow> span list" where
  "merged_spans spans = fold merge_span (sorted_spans spans) []"

definition put_placeholder :: "string \<Rightarrow> span \<Rightarrow> string \<Rightarrow> string" where
  "put_placeholder ph p out = take (fst p) out @ ph @ drop (snd p) out"

definition redact_spans :: "string \<Rightarrow> string \<Rightarrow> span list \<Rightarrow> string" where
  "redact_spans ph txt spans = fold (put_placeholder ph) (merged_spans spans) txt"

text \<open>Every occurrence of each non-empty text, left to right without overlap.\<close>

function locate_from :: "string \<Rightarrow> string \<Rightarrow> nat \<Rightarrow> span list" where
  "locate_from txt sub i =
     (case find_from txt sub i of None \<Rightarrow> []
      | Some j \<Rightarrow> if sub = [] then [] else (j, j + length sub) # locate_from txt sub (j + length sub))"
  by pat_completeness auto
termination
proof (relation "measure (\<lambda>(txt, sub, i). Suc (length txt) - i)")
  fix t sub :: string and i j
  assume j: "find_from t sub i = Some j" and "sub \<noteq> []"
  then show "((t, sub, j + length sub), t, sub, i) \<in> measure (\<lambda>(txt, sub, i). Suc (length txt) - i)"
    using find_from_Some(1,2) [OF j] find_from_fits [OF j] by (cases sub) auto
qed simp

declare locate_from.simps [simp del]

definition locate_substrings :: "string \<Rightarrow> string list \<Rightarrow> (string \<times> span) list" where
  "locate_substrings txt subs =
     concat (map (\<lambda>sub. if sub = [] then [] else map (Pair sub) (locate_from txt sub 0)) subs)"

section \<open>Field types\<close>

datatype field_type = TOOL_INPUT | TOOL_RESULT | REASONING | GENERAL

definition field_value :: "field_type \<Rightarrow> string" where
  "field_value ft = (case ft of TOOL_INPUT \<Rightarrow> ''tool_input'' | TOOL_RESULT \<Rightarrow> ''tool_result''
     | REASONING \<Rightarrow> ''reasoning'' | GENERAL \<Rightarrow> ''general'')"

definition INPUT_TOOLS :: "string list" where
  "INPUT_TOOLS = [''bash'', ''write'', ''edit'', ''Write'', ''Edit'', ''Bash'']"

definition RESULT_TOOLS :: "string list" where
  "RESULT_TOOLS = [''read'', ''grep'', ''glob'', ''Read'', ''Grep'', ''Glob'']"

text \<open>\<^verbatim>\<open>s.split("__")\<close>.\<close>

fun split_dunder :: "string \<Rightarrow> string \<Rightarrow> string list" where
  "split_dunder acc (a # b # cs) =
     (if a = CHR ''_'' \<and> b = CHR ''_'' then rev acc # split_dunder [] cs else split_dunder (a # acc) (b # cs))"
| "split_dunder acc [a] = [rev (a # acc)]"
| "split_dunder acc [] = [rev acc]"

definition classify_tool :: "string \<Rightarrow> field_type" where
  "classify_tool name =
     (let base = last (split_dunder [] name) in
      if base \<in> set INPUT_TOOLS then TOOL_INPUT
      else if base \<in> set RESULT_TOOLS then TOOL_RESULT
      else TOOL_INPUT)"

definition SAFE_FIELD_SUFFIXES :: "string list" where
  "SAFE_FIELD_SUFFIXES = [''.type'', ''.id'', ''.timestamp'', ''.stopReason'', ''.model'', ''.provider'',
     ''.parentId'', ''.mimeType'']"

definition SAFE_FIELD_PREFIXES :: "string list" where
  "SAFE_FIELD_PREFIXES = [''usage.'', ''message.usage.'']"

definition BASE64_MIN_LEN :: nat where "BASE64_MIN_LEN = 256"

definition is_safe_field_path :: "string \<Rightarrow> bool" where
  "is_safe_field_path path \<longleftrightarrow> path \<noteq> [] \<and>
     (list_ex (ends_with path) SAFE_FIELD_SUFFIXES \<or> list_ex (starts_with path) SAFE_FIELD_PREFIXES)"

definition is_base64_blob :: "json \<Rightarrow> (string, json) dict \<Rightarrow> bool" where
  "is_base64_blob v siblings =
     (case v of JStr s \<Rightarrow> dmem siblings ''mimeType'' \<and> BASE64_MIN_LEN \<le> length s | _ \<Rightarrow> False)"

section \<open>Walking a value\<close>

type_synonym 'w transform = "string \<Rightarrow> field_type \<Rightarrow> string \<Rightarrow> string option \<times> 'w list"

definition index_path :: "string \<Rightarrow> nat \<Rightarrow> string" where
  "index_path p i = p @ ''['' @ digits_of i @ '']''"

text \<open>
  The walker of tool inputs: the first component is the value handed to \<^verbatim>\<open>on_replace\<close>, if it is called.
\<close>

fun walk_value :: "'w transform \<Rightarrow> string \<Rightarrow> field_type \<Rightarrow> json \<Rightarrow> json option \<times> nat \<times> 'w list"
and walk_items :: "'w transform \<Rightarrow> string \<Rightarrow> field_type \<Rightarrow> nat \<Rightarrow> json list \<Rightarrow> json list \<times> bool \<times> nat \<times> 'w list"
and walk_fields :: "'w transform \<Rightarrow> string \<Rightarrow> field_type \<Rightarrow> (string \<times> json) list \<Rightarrow>
    (string \<times> json) list \<times> bool \<times> nat \<times> 'w list" where
  "walk_value T p ft (JStr s) =
     (case T p ft s of (None, w) \<Rightarrow> (None, 0, w) | (Some s', w) \<Rightarrow> (Some (JStr s'), 1, w))"
| "walk_value T p ft (JList xs) =
     (case walk_items T p ft 0 xs of (ys, m, n, w) \<Rightarrow> (if m then Some (JList ys) else None, n, w))"
| "walk_value T p ft (JObj d) =
     (case walk_fields T p ft d of (d', m, n, w) \<Rightarrow> (if m then Some (JObj d') else None, n, w))"
| "walk_value T p ft JNull = (None, 0, [])"
| "walk_value T p ft (JBool b) = (None, 0, [])"
| "walk_value T p ft (JInt i) = (None, 0, [])"
| "walk_value T p ft (JFloat q) = (None, 0, [])"
| "walk_items T p ft i [] = ([], False, 0, [])"
| "walk_items T p ft i (x # xs) =
     (case walk_value T (index_path p i) ft x of (r, n, w) \<Rightarrow>
       (case walk_items T p ft (i + 1) xs of (ys, m, n', w') \<Rightarrow>
         ((case r of None \<Rightarrow> x | Some y \<Rightarrow> y) # ys, r \<noteq> None \<or> m, n + n', w @ w')))"
| "walk_fields T p ft [] = ([], False, 0, [])"
| "walk_fields T p ft ((k, x) # d) =
     (case walk_value T (p @ ''.'' @ k) ft x of (r, n, w) \<Rightarrow>
       (case walk_fields T p ft d of (d', m, n', w') \<Rightarrow>
         ((k, case r of None \<Rightarrow> x | Some y \<Rightarrow> y) # d', r \<noteq> None \<or> m, n + n', w @ w')))"

text \<open>The walker of plain dictionaries: rebuilt only where the count says something changed.\<close>

fun walk_dict_strings :: "'w transform \<Rightarrow> string \<Rightarrow> field_type \<Rightarrow> json \<Rightarrow> json \<times> nat \<times> 'w list"
and walk_dict_items :: "'w transform \<Rightarrow> string \<Rightarrow> field_type \<Rightarrow> nat \<Rightarrow> json list \<Rightarrow> json list \<times> bool \<times> nat \<times> 'w list"
and walk_dict_fields :: "'w transform \<Rightarrow> string \<Rightarrow> field_type \<Rightarrow> (string \<times> json) list \<Rightarrow>
    (string \<times> json) list \<times> bool \<times> nat \<times> 'w list" where
  "walk_dict_strings T p ft (JStr s) =
     (case T (if p = [] then ''$'' else p) ft s of (None, w) \<Rightarrow> (JStr s, 0, w) | (Some s', w) \<Rightarrow> (JStr s', 1, w))"
| "walk_dict_strings T p ft (JList xs) =
     (case walk_dict_items T p ft 0 xs of (ys, m, n, w) \<Rightarrow> (JList (if m then ys else xs), n, w))"
| "walk_dict_strings T p ft (JObj d) =
     (case walk_dict_fields T p ft d of (d', m, n, w) \<Rightarrow> (JObj (if m then d' else d), n, w))"
| "walk_dict_strings T p ft JNull = (JNull, 0, [])"
| "walk_dict_strings T p ft (JBool b) = (JBool b, 0, [])"
| "walk_dict_strings T p ft (JInt i) = (JInt i, 0, [])"
| "walk_dict_strings T p ft (JFloat q) = (JFloat q, 0, [])"
| "walk_dict_items T p ft i [] = ([], False, 0, [])"
| "walk_dict_items T p ft i (x # xs) =
     (case walk_dict_strings T (index_path p i) ft x of (y, n, w) \<Rightarrow>
       (case walk_dict_items T p ft (i + 1) xs of (ys, m, n', w') \<Rightarrow> (y # ys, n \<noteq> 0 \<or> m, n + n', w @ w')))"
| "walk_dict_fields T p ft [] = ([], False, 0, [])"
| "walk_dict_fields T p ft ((k, x) # d) =
     (case walk_dict_strings T (if p = [] then k else p @ ''.'' @ k) ft x of (y, n, w) \<Rightarrow>
       (case walk_dict_fields T p ft d of (d', m, n', w') \<Rightarrow> ((k, y) # d', n \<noteq> 0 \<or> m, n + n', w @ w')))"

section \<open>Walking a trace\<close>

text \<open>A field that is absent or empty is not visited.\<close>

definition visit_opt :: "'w transform \<Rightarrow> string \<Rightarrow> field_type \<Rightarrow> string option \<Rightarrow> string option \<times> nat \<times> 'w list" where
  "visit_opt T p ft f =
     (case f of None \<Rightarrow> (None, 0, [])
      | Some s \<Rightarrow> if s = [] then (Some s, 0, [])
          else (case T p ft s of (None, w) \<Rightarrow> (Some s, 0, w) | (Some s', w) \<Rightarrow> (Some s', 1, w)))"

fun walk_prompts :: "'w transform \<Rightarrow> (string, string) dict \<Rightarrow> (string, string) dict \<times> nat \<times> 'w list" where
  "walk_prompts T [] = ([], 0, [])"
| "walk_prompts T ((k, s) # d) =
     (let (s', n, w) = (case T (''system_prompts['' @ k @ '']'') GENERAL s of
            (None, w) \<Rightarrow> (s, 0, w) | (Some s', w) \<Rightarrow> (s', 1, w));
          (d', n', w') = walk_prompts T d
      in ((k, s') # d', n + n', w @ w'))"

text \<open>The entries of a tool input are walked one by one; a replaced value is stored under its key.\<close>

fun walk_input :: "'w transform \<Rightarrow> string \<Rightarrow> field_type \<Rightarrow> (string, json) dict \<Rightarrow> (string, json) dict \<times> nat \<times> 'w list" where
  "walk_input T base ft [] = ([], 0, [])"
| "walk_input T base ft ((k, v) # d) =
     (let (r, n, w) = walk_value T (base @ ''.input.'' @ k) ft v;
          (d', n', w') = walk_input T base ft d
      in ((k, case r of None \<Rightarrow> v | Some y \<Rightarrow> y) # d', n + n', w @ w'))"

fun walk_tool_calls :: "'w transform \<Rightarrow> string \<Rightarrow> nat \<Rightarrow> tool_call list \<Rightarrow> tool_call list \<times> nat \<times> 'w list" where
  "walk_tool_calls T sp i [] = ([], 0, [])"
| "walk_tool_calls T sp i (tc # tcs) =
     (let (d, n, w) = walk_input T (index_path (sp @ ''.tool_calls'') i) (classify_tool (tool_name tc)) (tool_input tc);
          (tcs', n', w') = walk_tool_calls T sp (i + 1) tcs
      in (tc\<lparr>tool_input := d\<rparr> # tcs', n + n', w @ w'))"

definition walk_observation :: "'w transform \<Rightarrow> string \<Rightarrow> observation \<Rightarrow> observation \<times> nat \<times> 'w list" where
  "walk_observation T op ob =
     (let (c, n1, w1) = visit_opt T (op @ ''.content'') TOOL_RESULT (obs_content ob);
          (s, n2, w2) = visit_opt T (op @ ''.output_summary'') TOOL_RESULT (output_summary ob);
          (e, n3, w3) = visit_opt T (op @ ''.error'') TOOL_RESULT (obs_error ob)
      in (ob\<lparr>obs_content := c, output_summary := s, obs_error := e\<rparr>, n1 + n2 + n3, w1 @ w2 @ w3))"

fun walk_observations :: "'w transform \<Rightarrow> string \<Rightarrow> nat \<Rightarrow> observation list \<Rightarrow> observation list \<times> nat \<times> 'w list" where
  "walk_observations T sp i [] = ([], 0, [])"
| "walk_observations T sp i (ob # obs) =
     (let (ob', n, w) = walk_observation T (index_path (sp @ ''.observations'') i) ob;
          (obs', n', w') = walk_observations T sp (i + 1) obs
      in (ob' # obs', n + n', w @ w'))"

fun walk_snippets :: "'w transform \<Rightarrow> string \<Rightarrow> nat \<Rightarrow> snippet list \<Rightarrow> snippet list \<times> nat \<times> 'w list" where
  "walk_snippets T sp i [] = ([], 0, [])"
| "walk_snippets T sp i (sn # sns) =
     (let (t, n, w) = visit_opt T (index_path (sp @ ''.snippets'') i @ ''.text'') GENERAL (snip_text sn);
          (sns', n', w') = walk_snippets T sp (i + 1) sns
      in (sn\<lparr>snip_text := t\<rparr> # sns', n + n', w @ w'))"

definition walk_step :: "'w transform \<Rightarrow> string \<Rightarrow> step \<Rightarrow> step \<times> nat \<times> 'w list" where
  "walk_step T sp st =
     (let (c, n1, w1) = visit_opt T (sp @ ''.content'') GENERAL (step_content st);
          (rc, n2, w2) = visit_opt T (sp @ ''.reasoning_content'') REASONING (reasoning_content st);
          (tcs, n3, w3) = walk_tool_calls T sp 0 (tool_calls st);
          (obs, n4, w4) = walk_observations T sp 0 (observations st);
          (sns, n5, w5) = walk_snippets T sp 0 (snippets st)
      in (st\<lparr>step_content := c, reasoning_content := rc, tool_calls := tcs, observations := obs, snippets := sns\<rparr>,
          n1 + n2 + n3 + n4 + n5, w1 @ w2 @ w3 @ w4 @ w5))"

fun walk_steps :: "'w transform \<Rightarrow> nat \<Rightarrow> step list \<Rightarrow> step list \<times> nat \<times> 'w list" where
  "walk_steps T i [] = ([], 0, [])"
| "walk_steps T i (st # sts) =
     (let (st', n, w) = walk_step T (index_path ''steps'' i) st;
          (sts', n', w') = walk_steps T (i + 1) sts
      in (st' # sts', n + n', w @ w'))"

definition PI_KEYS :: "string list" where
  "PI_KEYS = [''provider_contexts'', ''branch_summaries'', ''tool_registry'', ''runtime_state'', ''tree_events'']"

definition pi_path :: "string \<Rightarrow> string" where "pi_path k = ''metadata.pi.'' @ k"

fun walk_pi :: "'w transform \<Rightarrow> string list \<Rightarrow> (string, json) dict \<Rightarrow> (string, json) dict \<times> nat \<times> 'w list" where
  "walk_pi T [] d = (d, 0, [])"
| "walk_pi T (k # ks) d =
     (case dget d k of None \<Rightarrow> walk_pi T ks d
      | Some v \<Rightarrow>
          (let (v', n, w) = walk_dict_strings T (pi_path k) GENERAL v;
               (d', n', w') = walk_pi T ks (if n \<noteq> 0 then dset d k v' else d)
           in (d', n + n', w @ w')))"

definition walk_metadata :: "'w transform \<Rightarrow> (string, json) dict \<Rightarrow> (string, json) dict \<times> nat \<times> 'w list" where
  "walk_metadata T md =
     (case dget md ''pi'' of
        Some (JObj d) \<Rightarrow> (let (d', n, w) = walk_pi T PI_KEYS d in (dset md ''pi'' (JObj d'), n, w))
      | _ \<Rightarrow> (md, 0, []))"

definition walk_string_fields :: "'w transform \<Rightarrow> trace_record \<Rightarrow> trace_record \<times> nat \<times> 'w list" where
  "walk_string_fields T r =
     (let (sp, n1, w1) = walk_prompts T (system_prompts r);
          (td, n2, w2) = visit_opt T ''task.description'' GENERAL (task_description (rec_task r));
          (ss, n3, w3) = walk_steps T 0 (steps r);
          (od, n4, w4) = visit_opt T ''outcome.description'' GENERAL (outcome_description (rec_outcome r));
          (vd, n5, w5) = visit_opt T ''environment.vcs.diff'' GENERAL (vcs_diff (env_vcs (rec_environment r)));
          (md, n6, w6) = walk_metadata T (rec_metadata r)
      in (r\<lparr>system_prompts := sp, rec_task := (rec_task r)\<lparr>task_description := td\<rparr>, steps := ss,
            rec_outcome := (rec_outcome r)\<lparr>outcome_description := od\<rparr>,
            rec_environment := (rec_environment r)\<lparr>env_vcs := (env_vcs (rec_environment r))\<lparr>vcs_diff := vd\<rparr>\<rparr>,
            rec_metadata := md\<rparr>,
          n1 + n2 + n3 + n4 + n5 + n6, w1 @ w2 @ w3 @ w4 @ w5 @ w6))"

text \<open>The security section of the metadata, made a dictionary if it is none.\<close>

definition ensure_security_metadata :: "trace_record \<Rightarrow> trace_record \<times> (string, json) dict" where
  "ensure_security_metadata r =
     (case dget (rec_metadata r) ''security'' of
        Some (JObj d) \<Rightarrow> (r, d)
      | _ \<Rightarrow> (r\<lparr>rec_metadata := dset (rec_metadata r) ''security'' (JObj [])\<rparr>, []))"

end
