(* ===== verification/Secrets.thy ===== *)
theory Secrets
  imports Redaction
begin

text \<open>
  Secret detection, from \<^verbatim>\<open>security/secrets.py\<close>, with the per-field scan of \<^verbatim>\<open>security/scanner.py\<close>: the
  pattern library, the allowlists, the entropy heuristic, the Luhn check, and the scan that puts them
  together. Patterns run on the matcher of theory PyText. Entropy is a real number; the rounding of floats
  is not modelled.
\<close>

record secret_match =
  sm_pattern :: string
  sm_text :: string
  sm_start :: nat
  sm_end :: nat
  sm_severity :: string

section \<open>Allowlists\<close>

definition ALLOWLIST_EMAILS :: rx where
  "ALLOWLIST_EMAILS = r_words [''noreply@'', ''no-reply@'', ''@example.com'', ''@example.org'', ''@test.com'', ''@localhost'']"

definition ALLOWLIST_DECORATORS :: rx where
  "ALLOWLIST_DECORATORS = r_seq [r_lit ''@'',
     r_words [''property'', ''staticmethod'', ''classmethod'', ''abstractmethod'', ''override'', ''dataclass'',
       ''cached_property'', ''contextmanager'', ''pytest.mark'', ''app.route'', ''router.'', ''click.'']]"

definition r_octet3 :: rx where "r_octet3 = r_range 1 3 r_digit"

definition r_dot :: rx where "r_dot = r_lit ''.''"

definition PRIVATE_IP_V4 :: rx where
  "PRIVATE_IP_V4 = r_seq [RAlt RStart (RBehind is_space),
     r_alt [r_seq [r_lit ''10.'', r_octet3, r_dot, r_octet3, r_dot, r_octet3],
       r_seq [r_lit ''172.'', r_alt [r_seq [r_lit ''1'', RChar (\<lambda>c. c \<in> set ''6789'')], r_seq [r_lit ''2'', r_digit],
         r_seq [r_lit ''3'', RChar (\<lambda>c. c \<in> set ''01'')]], r_dot, r_octet3, r_dot, r_octet3],
       r_seq [r_lit ''192.168.'', r_octet3, r_dot, r_octet3],
       r_seq [r_lit ''127.'', r_octet3, r_dot, r_octet3, r_dot, r_octet3],
       r_lit ''0.0.0.0''],
     r_alt [r_space, REnd, RChar (\<lambda>c. c \<in> set '':/'')]]"

definition ALLOWLIST_URLS :: rx where
  "ALLOWLIST_URLS = r_words [''example.com'', ''example.org'', ''localhost'', ''127.0.0.1'', ''0.0.0.0'']"

definition DUMMY_WORDS :: "string list" where
  "DUMMY_WORDS = [''test'', ''dummy'', ''fake'', ''example'', ''xxx'', ''your'']"

definition ALLOWLIST_DUMMY_TOKENS :: rx where
  "ALLOWLIST_DUMMY_TOKENS = r_alt
     [r_seq [r_lit ''sk-'', r_words (DUMMY_WORDS @ [''placeholder''])],
      r_seq [r_lit ''sk-or-'', r_words (DUMMY_WORDS @ [''placeholder''])],
      r_seq [r_lit ''Bearer'', r_plus r_space, r_words ([''$'', ''<'', ''{'', ''[''] @ DUMMY_WORDS)]]"

definition r_hexes :: "nat \<Rightarrow> rx" where "r_hexes n = r_rep n (RChar is_hex_char)"

definition UUID_PATTERN :: rx where
  "UUID_PATTERN = r_seq [RWordB, r_hexes 8, r_lit ''-'', r_hexes 4, r_lit ''-'', r_hexes 4, r_lit ''-'', r_hexes 4,
     r_lit ''-'', r_hexes 12, RWordB]"

section \<open>The pattern library\<close>

record secret_pattern =
  sp_name :: string
  sp_rx :: rx
  sp_severity :: string

definition key_pattern :: "string \<Rightarrow> string list \<Rightarrow> string \<Rightarrow> nat \<Rightarrow> secret_pattern" where
  "key_pattern n prefixes extra m =
     \<lparr>sp_name = n, sp_rx = r_seq [r_words prefixes, r_min m (r_class extra)], sp_severity = ''critical''\<rparr>"

definition jwt_token :: secret_pattern where
  "jwt_token = \<lparr>sp_name = ''jwt_token'',
     sp_rx = r_seq [r_lit ''eyJ'', r_min 10 (r_class ''_-''), r_dot, r_min 10 (r_class ''_-''), r_dot, r_min 10 (r_class ''_-'')],
     sp_severity = ''critical''\<rparr>"

definition anthropic_api_key :: secret_pattern where "anthropic_api_key = key_pattern ''anthropic_api_key'' [''sk-ant-''] ''_-'' 20"
definition openai_project_key :: secret_pattern where "openai_project_key = key_pattern ''openai_project_key'' [''sk-proj-''] ''_-'' 20"
definition openai_api_key :: secret_pattern where "openai_api_key = key_pattern ''openai_api_key'' [''sk-''] ''-'' 20"
definition huggingface_token :: secret_pattern where "huggingface_token = key_pattern ''huggingface_token'' [''hf_''] '''' 20"
definition github_token :: secret_pattern where "github_token = key_pattern ''github_token'' [''ghp_'', ''gho_'', ''ghs_'', ''ghu_''] '''' 20"
definition github_pat :: secret_pattern where "github_pat = key_pattern ''github_pat'' [''github_pat_''] ''_'' 20"
definition pypi_token :: secret_pattern where "pypi_token = key_pattern ''pypi_token'' [''pypi-''] ''_-'' 20"
definition npm_token :: secret_pattern where "npm_token = key_pattern ''npm_token'' [''npm_''] '''' 20"

definition r_upper_digit :: rx where
  "r_upper_digit = RChar (\<lambda>c. is_digit c \<or> 65 \<le> ord_of c \<and> ord_of c \<le> 90)"

definition aws_access_key :: secret_pattern where
  "aws_access_key = \<lparr>sp_name = ''aws_access_key'', sp_rx = r_seq [r_lit ''AKIA'', r_rep 16 r_upper_digit], sp_severity = ''critical''\<rparr>"

definition aws_sts_key :: secret_pattern where
  "aws_sts_key = \<lparr>sp_name = ''aws_sts_key'', sp_rx = r_seq [r_lit ''ASIA'', r_rep 16 r_upper_digit], sp_severity = ''critical''\<rparr>"

definition groq_api_key :: secret_pattern where "groq_api_key = key_pattern ''groq_api_key'' [''gsk_''] '''' 20"
definition xai_api_key :: secret_pattern where "xai_api_key = key_pattern ''xai_api_key'' [''xai-''] ''_-'' 20"
definition google_ai_key :: secret_pattern where "google_ai_key = key_pattern ''google_ai_key'' [''AIza''] ''_-'' 30"
definition cerebras_api_key :: secret_pattern where "cerebras_api_key = key_pattern ''cerebras_api_key'' [''csk-''] ''_-'' 20"
definition openrouter_api_key :: secret_pattern where "openrouter_api_key = key_pattern ''openrouter_api_key'' [''sk-or-''] ''_-'' 20"
definition vercel_token :: secret_pattern where "vercel_token = key_pattern ''vercel_token'' [''vc_''] '''' 20"

definition slack_token :: secret_pattern where
  "slack_token = \<lparr>sp_name = ''slack_token'',
     sp_rx = r_seq [r_lit ''xox'', RChar (\<lambda>c. c \<in> set ''bpse''), r_lit ''-'', r_min 10 (r_class ''-'')], sp_severity = ''critical''\<rparr>"

definition stripe_secret_key :: secret_pattern where "stripe_secret_key = key_pattern ''stripe_secret_key'' [''sk_live_''] '''' 24"
definition stripe_restricted_key :: secret_pattern where "stripe_restricted_key = key_pattern ''stripe_restricted_key'' [''rk_live_''] '''' 24"

definition discord_webhook :: secret_pattern where
  "discord_webhook = \<lparr>sp_name = ''discord_webhook'',
     sp_rx = r_seq [r_lit ''https://'', r_words [''discord'', ''discordapp''], r_lit ''.com/api/webhooks/'', r_plus r_digit,
       r_lit ''/'', r_plus (r_class ''_-'')], sp_severity = ''high''\<rparr>"

definition private_key :: secret_pattern where
  "private_key = \<lparr>sp_name = ''private_key'',
     sp_rx = r_seq [r_lit ''-----BEGIN'', r_plus r_space, r_opt (r_words [''RSA'', ''DSA'', ''EC'', ''OPENSSH'', ''PGP'']),
       RStar r_space, r_lit ''PRIVATE'', r_plus r_space, r_lit ''KEY-----''], sp_severity = ''critical''\<rparr>"

text \<open>\<^verbatim>\<open>[^\s"'`<>]\<close>: the quotes are the code points 34, 39 and 96.\<close>

definition r_unquoted :: rx where
  "r_unquoted = RChar (\<lambda>c. \<not> is_space c \<and> ord_of c \<notin> {34, 39, 96} \<and> c \<notin> set ''<>'')"

definition database_url :: secret_pattern where
  "database_url = \<lparr>sp_name = ''database_url'',
     sp_rx = r_seq [r_words [''postgresql'', ''postgres'', ''mysql'', ''mongodb'', ''redis''], r_lit ''://'', r_min 8 r_unquoted],
     sp_severity = ''high''\<rparr>"

definition bearer_token :: secret_pattern where
  "bearer_token = \<lparr>sp_name = ''bearer_token'',
     sp_rx = r_seq [r_lit ''Bearer'', r_plus r_space, r_min 20 (r_class ''._~+/=-'')], sp_severity = ''high''\<rparr>"

definition r_octet :: rx where
  "r_octet = r_alt [r_seq [r_lit ''25'', RChar (\<lambda>c. c \<in> set ''012345'')],
     r_seq [r_lit ''2'', RChar (\<lambda>c. c \<in> set ''01234''), r_digit],
     r_seq [r_opt (RChar (\<lambda>c. c \<in> set ''01'')), r_digit, r_opt r_digit]]"

definition ipv4_address :: secret_pattern where
  "ipv4_address = \<lparr>sp_name = ''ipv4_address'',
     sp_rx = r_seq [RWordB, r_rep 3 (r_seq [r_octet, r_dot]), r_octet, RWordB], sp_severity = ''medium''\<rparr>"

definition r_group :: rx where "r_group = r_range 1 4 (RChar is_hex_char)"

definition ipv6_address :: secret_pattern where
  "ipv6_address = \<lparr>sp_name = ''ipv6_address'',
     sp_rx = r_alt [r_seq [RWordB, r_rep 7 (r_seq [r_group, r_lit '':'']), r_group, RWordB],
       r_seq [RWordB, r_range 1 7 (r_seq [r_group, r_lit '':'']), r_lit '':'', RWordB],
       r_seq [RWordB, r_lit ''::'', r_range 0 5 (r_seq [r_group, r_lit '':'']), r_group, RWordB]],
     sp_severity = ''medium''\<rparr>"

definition email_address :: secret_pattern where
  "email_address = \<lparr>sp_name = ''email_address'',
     sp_rx = r_seq [r_plus (r_class ''._%+-''), r_lit ''@'', r_plus (r_class ''.-''), r_dot, r_min 2 (RChar is_ascii_alpha)],
     sp_severity = ''medium''\<rparr>"

definition credit_card :: secret_pattern where
  "credit_card = \<lparr>sp_name = ''credit_card'',
     sp_rx = r_seq [RWordB, r_range 13 19 (r_seq [r_digit, r_opt (RChar (\<lambda>c. c \<in> set '' -''))]), RWordB],
     sp_severity = ''critical''\<rparr>"

definition ssn :: secret_pattern where
  "ssn = \<lparr>sp_name = ''ssn'',
     sp_rx = r_seq [RWordB, r_rep 3 r_digit, r_lit ''-'', r_rep 2 r_digit, r_lit ''-'', r_rep 4 r_digit, RWordB],
     sp_severity = ''critical''\<rparr>"

definition r_sep :: rx where "r_sep = RChar (\<lambda>c. is_space c \<or> c \<in> set ''.-'')"

definition phone_number :: secret_pattern where
  "phone_number = \<lparr>sp_name = ''phone_number'',
     sp_rx = r_seq [r_opt (r_seq [r_lit ''+1'', r_opt r_sep]), r_opt (r_lit ''(''), r_rep 3 r_digit, r_opt (r_lit '')''),
       r_opt r_sep, r_rep 3 r_digit, r_opt r_sep, r_rep 4 r_digit, RWordB], sp_severity = ''medium''\<rparr>"

definition PATTERNS :: "secret_pattern list" where
  "PATTERNS = [jwt_token, anthropic_api_key, openai_project_key, openai_api_key, huggingface_token, github_token,
     github_pat, pypi_token, npm_token, aws_access_key, aws_sts_key, groq_api_key, xai_api_key, google_ai_key,
     cerebras_api_key, openrouter_api_key, vercel_token, slack_token, stripe_secret_key, stripe_restricted_key,
     discord_webhook, private_key, database_url, bearer_token, ipv4_address, ipv6_address, email_address,
     credit_card, ssn, phone_number]"

section \<open>Entropy\<close>

text \<open>The frequency of each character, and the entropy in bits per character.\<close>

definition char_freq :: "string \<Rightarrow> (char, nat) dict" where
  "char_freq s = fold (\<lambda>c d. dset d c ((case dget d c of None \<Rightarrow> 0 | Some n \<Rightarrow> n) + 1)) s []"

definition shannon_entropy :: "string \<Rightarrow> real" where
  "shannon_entropy s =
     (if s = [] then 0
      else - sum_list (map (\<lambda>c. (real c / real (length s)) * log 2 (real c / real (length s))) (dvalues (char_freq s))))"

definition HIGH_ENTROPY_RE :: rx where
  "HIGH_ENTROPY_RE = r_min 20 (r_class ''+/=_-'')"

definition DEFAULT_ENTROPY_THRESHOLD :: real where
  "DEFAULT_ENTROPY_THRESHOLD = 9 / 2"

text \<open>\<^verbatim>\<open>s.isalpha() and s.islower()\<close>, on a candidate of the class above.\<close>

definition all_lower :: "string \<Rightarrow> bool" where
  "all_lower s \<longleftrightarrow> s \<noteq> [] \<and> list_all (\<lambda>c. 97 \<le> ord_of c \<and> ord_of c \<le> 122) s"

definition entropy_match :: "string \<Rightarrow> span \<Rightarrow> secret_match" where
  "entropy_match s p = \<lparr>sm_pattern = ''high_entropy_string'', sm_text = slice s (fst p) (snd p), sm_start = fst p,
     sm_end = snd p, sm_severity = ''medium''\<rparr>"

definition is_high_entropy :: "real \<Rightarrow> string \<Rightarrow> bool" where
  "is_high_entropy threshold candidate \<longleftrightarrow>
     (let distinct_chars = length (remdups candidate) in
      if distinct_chars = 0 \<or> log 2 (real distinct_chars) < threshold then False
      else if threshold \<le> shannon_entropy candidate then \<not> all_lower candidate else False)"

definition find_high_entropy :: "string \<Rightarrow> real \<Rightarrow> secret_match list" where
  "find_high_entropy s threshold =
     map (entropy_match s) (filter (\<lambda>p. is_high_entropy threshold (slice s (fst p) (snd p))) (rx_spans HIGH_ENTROPY_RE s))"

section \<open>The Luhn check\<close>

definition digit_of :: "char \<Rightarrow> nat" where "digit_of c = ord_of c - 48"

definition luhn_digit :: "nat \<times> nat \<Rightarrow> nat" where
  "luhn_digit = (\<lambda>(i, d). if i mod 2 = 1 then (if 9 < d * 2 then d * 2 - 9 else d * 2) else d)"

definition luhn_check :: "string \<Rightarrow> bool" where
  "luhn_check s =
     (let digits = map digit_of (filter is_digit s) in
      if length digits < 13 \<or> 19 < length digits then False
      else sum_list (map luhn_digit (enumerate 0 (rev digits))) mod 10 = 0)"

section \<open>Known false positives\<close>

definition uuid_spans :: "string \<Rightarrow> span list" where
  "uuid_spans s = rx_spans UUID_PATTERN s"

definition is_allowlisted :: "string \<Rightarrow> string \<Rightarrow> string \<Rightarrow> nat \<Rightarrow> span list option \<Rightarrow> bool" where
  "is_allowlisted pattern m full start uuids =
     (if pattern = ''email_address'' then rx_search ALLOWLIST_EMAILS m
      else if pattern = ''ipv4_address'' then
        rx_search PRIVATE_IP_V4 (slice full (start - 1) (min (length full) (start + length m + 1)))
      else if pattern \<in> {''bearer_token'', ''openai_api_key'', ''anthropic_api_key'', ''openrouter_api_key''} then
        rx_search ALLOWLIST_DUMMY_TOKENS m
      else if pattern = ''database_url'' then rx_search ALLOWLIST_URLS m
      else if pattern = ''credit_card'' then \<not> luhn_check (filter (\<lambda>c. c \<notin> set '' -'') m)
      else if pattern = ''ssn'' then
        (let digits = filter (\<lambda>c. c \<noteq> CHR ''-'') m in
         if take 3 digits = ''000'' \<or> take 3 digits = ''666'' \<or> ''900'' \<le> take 3 digits then True
         else slice digits 3 5 = ''00'' \<or> drop 5 digits = ''0000'')
      else if pattern = ''phone_number'' then
        (if length (filter is_digit m) < 10 then True
         else list_ex (\<lambda>(a, b). a \<le> start \<and> start + length m \<le> b)
           (case uuids of Some us \<Rightarrow> us | None \<Rightarrow> uuid_spans full))
      else if pattern = ''high_entropy_string'' \<and> CHR ''/'' \<in> set m then
        \<not> list_ex (\<lambda>c. DEFAULT_ENTROPY_THRESHOLD \<le> shannon_entropy c)
           (filter (\<lambda>c. 8 \<le> length c) (split_on (CHR ''/'') m))
      else False)"

section \<open>The scan\<close>

text \<open>One pass over the matches of a pattern; the spans seen so far are those of the matches kept so far.\<close>

definition match_span :: "secret_match \<Rightarrow> span" where
  "match_span m = (sm_start m, sm_end m)"

definition pattern_match :: "string \<Rightarrow> secret_pattern \<Rightarrow> span \<Rightarrow> secret_match" where
  "pattern_match s pat p = \<lparr>sm_pattern = sp_name pat, sm_text = slice s (fst p) (snd p), sm_start = fst p,
     sm_end = snd p, sm_severity = sp_severity pat\<rparr>"

definition add_match :: "string \<Rightarrow> secret_pattern \<Rightarrow> span \<Rightarrow> secret_match list \<Rightarrow> secret_match list" where
  "add_match s pat p ms =
     (if is_allowlisted (sp_name pat) (slice s (fst p) (snd p)) s (fst p) (Some (uuid_spans s)) then ms
      else if p \<in> set (map match_span ms) then ms
      else ms @ [pattern_match s pat p])"

definition regex_matches :: "string \<Rightarrow> secret_match list" where
  "regex_matches s = fold (\<lambda>pat ms. fold (add_match s pat) (rx_spans (sp_rx pat) s) ms) PATTERNS []"

definition spans_overlap :: "span \<Rightarrow> span \<Rightarrow> bool" where
  "spans_overlap p q \<longleftrightarrow> \<not> (snd p \<le> fst q \<or> snd q \<le> fst p)"

definition add_entropy_match :: "string \<Rightarrow> secret_match \<Rightarrow> secret_match list \<Rightarrow> secret_match list" where
  "add_entropy_match s m ms =
     (if is_allowlisted ''high_entropy_string'' (sm_text m) s (sm_start m) None then ms
      else if list_ex (\<lambda>q. spans_overlap (match_span m) (match_span q)) ms then ms
      else ms @ [m])"

definition scan_text :: "string \<Rightarrow> bool \<Rightarrow> real \<Rightarrow> secret_match list" where
  "scan_text s include_entropy threshold =
     (if s = [] then []
      else if rx_match ALLOWLIST_DECORATORS (strip s) then []
      else sort_key sm_start
        (if include_entropy then fold (add_entropy_match s) (find_high_entropy s threshold) (regex_matches s)
         else regex_matches s))"

definition redact_text :: "string \<Rightarrow> secret_match list \<Rightarrow> string" where
  "redact_text s ms = redact_spans REDACTED s (map match_span ms)"

section \<open>The scan of a field\<close>

record scan_result =
  sr_matches :: "secret_match list"
  sr_count :: nat
  sr_fields :: "(string, nat) dict"

definition scan_result_merge :: "scan_result \<Rightarrow> scan_result \<Rightarrow> scan_result" where
  "scan_result_merge a b =
     \<lparr>sr_matches = sr_matches a @ sr_matches b, sr_count = sr_count a + sr_count b,
      sr_fields = fold (\<lambda>(k, v) d. dset d k ((case dget d k of None \<Rightarrow> 0 | Some n \<Rightarrow> n) + v)) (sr_fields b) (sr_fields a)\<rparr>"

definition scan_content :: "string \<Rightarrow> field_type \<Rightarrow> bool option \<Rightarrow> scan_result" where
  "scan_content s ft include_entropy =
     (if s = [] then \<lparr>sr_matches = [], sr_count = 0, sr_fields = []\<rparr>
      else
        (let default_entropy = (ft = TOOL_INPUT \<or> ft = GENERAL);
             use_entropy = (case include_entropy of None \<Rightarrow> default_entropy | Some b \<Rightarrow> b \<and> default_entropy);
             ms = scan_text s use_entropy DEFAULT_ENTROPY_THRESHOLD
         in \<lparr>sr_matches = ms, sr_count = length ms, sr_fields = [(field_value ft, length ms)]\<rparr>))"

end
