(* ===== verification/RedactionProps.thy ===== *)
theory RedactionProps
  imports Redaction
begin

text \<open>
  What redaction guarantees: the span merger is a position-by-position rule, and the walkers are one map
  over the visited texts.
\<close>

section \<open>Redaction, position by position\<close>

text \<open>
  A position is hidden when a span covers it. The placeholder stands where a span starts that no other
  span runs across.
\<close>

definition hidden :: "span list \<Rightarrow> nat \<Rightarrow> bool" where
  "hidden spans i \<longleftrightarrow> list_ex (\<lambda>p. fst p \<le> i \<and> i < snd p) spans"

definition opens :: "span list \<Rightarrow> nat \<Rightarrow> bool" where
  "opens spans i \<longleftrightarrow> list_ex (\<lambda>p. fst p = i \<and> i < snd p) spans \<and> \<not> list_ex (\<lambda>p. fst p < i \<and> i < snd p) spans"

definition redact_at :: "string \<Rightarrow> span list \<Rightarrow> string \<Rightarrow> nat \<Rightarrow> string" where
  "redact_at ph spans txt i = (if opens spans i then ph else []) @ (if hidden spans i then [] else [txt ! i])"

definition redact_reference :: "string \<Rightarrow> string \<Rightarrow> span list \<Rightarrow> string" where
  "redact_reference ph txt spans = concat (map (redact_at ph spans txt) [0 ..< length txt])"

text \<open>The invariant of the merger, over the spans \<open>S\<close> merged so far.\<close>

definition merge_inv :: "span list \<Rightarrow> span list \<Rightarrow> bool" where
  "merge_inv S acc \<longleftrightarrow>
     (\<forall>p\<in>set acc. fst p < snd p) \<and> sorted_wrt (\<lambda>p q. snd q \<le> fst p) acc \<and>
     (\<forall>i. hidden acc i = hidden S i) \<and> (\<forall>i. i \<in> fst ` set acc \<longleftrightarrow> opens S i) \<and>
     (S = [] \<longleftrightarrow> acc = []) \<and>
     (acc \<noteq> [] \<longrightarrow> (\<forall>p\<in>set S. snd p \<le> snd (hd acc)) \<and> (\<exists>s. (s, snd (hd acc)) \<in> set S \<and> fst (hd acc) \<le> s))"

lemma hidden_Cons: "hidden (p # S) i \<longleftrightarrow> fst p \<le> i \<and> i < snd p \<or> hidden S i"
  by (simp add: hidden_def)

lemma hidden_iff: "hidden S i \<longleftrightarrow> (\<exists>s e. (s, e) \<in> set S \<and> s \<le> i \<and> i < e)"
  unfolding hidden_def list_ex_iff by force

lemma opens_iff: "opens S i \<longleftrightarrow> (\<exists>e>i. (i, e) \<in> set S) \<and> \<not> (\<exists>s e. (s, e) \<in> set S \<and> s < i \<and> i < e)"
  unfolding opens_def list_ex_iff by force

lemma merge_inv_Nil: "merge_inv [] []"
  by (simp add: merge_inv_def hidden_def opens_def)

lemma merge_inv_step:
  assumes inv: "merge_inv S acc" and le: "\<forall>p\<in>set S. fst p \<le> s" and se: "s < e"
  shows "merge_inv ((s, e) # S) (merge_span (s, e) acc)"
proof (cases acc)
  case Nil
  then have "S = []" using inv by (simp add: merge_inv_def)
  with Nil se show ?thesis by (auto simp: merge_inv_def hidden_def opens_def)
next
  case (Cons p rest)
  obtain ps pe where p: "p = (ps, pe)" by fastforce
  from inv Cons p have pos: "ps < pe" "\<forall>q\<in>set rest. fst q < snd q" and dis: "\<forall>q\<in>set rest. snd q \<le> ps"
    and srt: "sorted_wrt (\<lambda>p q. snd q \<le> fst p) rest" and hid: "\<And>i. hidden acc i = hidden S i"
    and op: "\<And>i. i \<in> fst ` set acc \<longleftrightarrow> opens S i" and ends: "\<And>a b. (a, b) \<in> set S \<Longrightarrow> b \<le> pe"
    by (auto simp: merge_inv_def)
  from inv Cons p obtain s' where s': "(s', pe) \<in> set S" "ps \<le> s'" by (auto simp: merge_inv_def)
  have "s' \<le> s" using le s'(1) by fastforce
  have Sne: "S \<noteq> []" using s' by auto
  show ?thesis
  proof (cases "s < pe")
    case True
    have starts: "i \<in> fst ` set acc \<longleftrightarrow> opens ((s, e) # S) i" for i
    proof (cases "i = s")
      case False
      have "\<not> s < i" if "opens S i" using le that by (auto simp: opens_iff dest!: bspec)
      moreover have "\<not> s < i" if "(i, b) \<in> set S" for b using le that by fastforce
      ultimately show ?thesis using False op [of i] by (auto simp: opens_iff)
    next
      case True
      show ?thesis
      proof (cases "s' = s")
        case True
        with s' \<open>s < pe\<close> \<open>i = s\<close> show ?thesis using op [of i] se by (auto simp: opens_iff)
      next
        case False
        with \<open>s' \<le> s\<close> have "s' < s" by simp
        with s' \<open>s < pe\<close> have "\<not> opens ((s, e) # S) s" "\<not> opens S s" by (auto simp: opens_iff)
        with op [of s] \<open>i = s\<close> show ?thesis by simp
      qed
    qed
    have "ps \<le> s" using s' \<open>s' \<le> s\<close> by simp
    have hid': "hidden ((ps, max pe e) # rest) i = hidden ((s, e) # S) i" for i
    proof -
      have "hidden ((s, e) # S) i \<longleftrightarrow> s \<le> i \<and> i < e \<or> hidden acc i" by (simp add: hidden_Cons hid)
      also have "\<dots> \<longleftrightarrow> s \<le> i \<and> i < e \<or> ps \<le> i \<and> i < pe \<or> hidden rest i" by (simp add: Cons p hidden_Cons)
      also have "\<dots> \<longleftrightarrow> ps \<le> i \<and> i < max pe e \<or> hidden rest i" using \<open>ps \<le> s\<close> True by auto
      finally show ?thesis by (simp add: hidden_Cons)
    qed
    have top: "\<exists>a. (a, max pe e) \<in> set ((s, e) # S) \<and> ps \<le> a"
      using s' \<open>ps \<le> s\<close> by (cases "pe \<le> e") (auto simp: max_def)
    have m: "merge_span (s, e) acc = (ps, max pe e) # rest" using True by (simp add: Cons p)
    have "\<forall>q\<in>set ((s, e) # S). snd q \<le> max pe e" using ends by (auto simp: le_max_iff_disj)
    moreover have "i \<in> fst ` set ((ps, max pe e) # rest) \<longleftrightarrow> opens ((s, e) # S) i" for i
      using starts [of i] by (simp add: Cons p)
    ultimately show ?thesis
      unfolding merge_inv_def m using pos dis srt hid' top by (simp add: less_max_iff_disj)
  next
    case False
    have noc: "\<not> (\<exists>a b. (a, b) \<in> set S \<and> a < s \<and> s < b)" using ends False by force
    have starts: "i \<in> fst ` set ((s, e) # acc) \<longleftrightarrow> opens ((s, e) # S) i" for i
    proof (cases "i = s")
      case True
      then show ?thesis using noc se by (auto simp: opens_iff)
    next
      case False
      have "\<not> s < i" if "(i, b) \<in> set S" for b using le that by fastforce
      then show ?thesis using False op [of i] by (auto simp: opens_iff)
    qed
    have "merge_span (s, e) acc = (s, e) # acc" using False by (simp add: Cons p)
    moreover have "\<forall>q\<in>set acc. snd q \<le> s" using False pos dis by (auto simp: Cons p)
    moreover have "b \<le> e" if "(a, b) \<in> set S" for a b using ends [OF that] False se by simp
    ultimately show ?thesis
      unfolding merge_inv_def using inv starts se hid by (auto simp: merge_inv_def hidden_Cons)
  qed
qed

lemma fold_merge_inv:
  assumes "merge_inv S acc" "sorted_wrt (\<lambda>p q. fst p \<le> fst q) xs" "\<forall>p\<in>set xs. fst p < snd p"
    and "\<forall>p\<in>set S. \<forall>q\<in>set xs. fst p \<le> fst q"
  shows "merge_inv (rev xs @ S) (fold merge_span xs acc)"
  using assms
proof (induction xs arbitrary: S acc)
  case (Cons x xs)
  obtain s e where x: "x = (s, e)" by fastforce
  have "merge_inv (x # S) (merge_span x acc)"
    unfolding x using Cons.prems by (intro merge_inv_step) (auto simp: x)
  from Cons.IH [OF this] Cons.prems show ?case by auto
qed simp

lemma sorted_spans_facts:
  "set (sorted_spans spans) = {p \<in> set spans. fst p < snd p}"
  "sorted_wrt (\<lambda>p q. fst p \<le> fst q) (sorted_spans spans)"
proof -
  have "sorted (map span_order (sorted_spans spans))" by (simp add: sorted_spans_def)
  then have "sorted_wrt (\<lambda>p q. span_order p \<le> span_order q) (sorted_spans spans)" by (simp add: sorted_wrt_map)
  then show "sorted_wrt (\<lambda>p q. fst p \<le> fst q) (sorted_spans spans)"
    by (rule sorted_wrt_mono_rel [rotated]) (auto simp: span_order_def less_eq_prod_def)
qed (auto simp: sorted_spans_def)

lemma merged_spans_facts:
  shows "\<forall>p\<in>set (merged_spans spans). fst p < snd p"
    and "sorted_wrt (\<lambda>p q. snd q \<le> fst p) (merged_spans spans)"
    and "hidden (merged_spans spans) i = hidden spans i"
    and "i \<in> fst ` set (merged_spans spans) \<longleftrightarrow> opens spans i"
proof -
  let ?S = "rev (sorted_spans spans) @ []"
  have inv: "merge_inv ?S (merged_spans spans)"
    unfolding merged_spans_def by (rule fold_merge_inv [OF merge_inv_Nil]) (auto simp: sorted_spans_facts)
  have mem: "(a, b) \<in> set ?S \<longleftrightarrow> (a, b) \<in> set spans \<and> a < b" for a b by (auto simp: sorted_spans_facts)
  have "hidden ?S i = hidden spans i" unfolding hidden_iff mem by (meson le_less_trans)
  moreover have "opens ?S i = opens spans i" unfolding opens_iff mem by (meson less_trans)
  ultimately
  show "\<forall>p\<in>set (merged_spans spans). fst p < snd p" "sorted_wrt (\<lambda>p q. snd q \<le> fst p) (merged_spans spans)"
    "hidden (merged_spans spans) i = hidden spans i" "i \<in> fst ` set (merged_spans spans) \<longleftrightarrow> opens spans i"
    using inv by (simp_all add: merge_inv_def)
qed

lemma merged_spans_bound:
  assumes "\<forall>p\<in>set spans. snd p \<le> n" "p \<in> set (merged_spans spans)" shows "snd p \<le> n"
proof -
  have "fst p < snd p" using merged_spans_facts(1) assms(2) by blast
  then have "hidden (merged_spans spans) (snd p - 1)"
    using assms(2) unfolding hidden_iff
    by (intro exI [of _ "fst p"] exI [of _ "snd p"]) auto
  then have "hidden spans (snd p - 1)" by (simp only: merged_spans_facts(3))
  then obtain a b where "(a, b) \<in> set spans" "snd p - 1 < b" unfolding hidden_iff by blast
  with assms(1) \<open>fst p < snd p\<close> show ?thesis by force
qed

lemma fold_put_append:
  assumes "sorted_wrt (\<lambda>p q. snd q \<le> fst p) acc" "\<forall>p\<in>set acc. fst p < snd p \<and> snd p \<le> length u"
  shows "fold (put_placeholder ph) acc (u @ v) = fold (put_placeholder ph) acc u @ v"
  using assms
proof (induction acc arbitrary: u)
  case (Cons p acc)
  then have "put_placeholder ph p (u @ v) = put_placeholder ph p u @ v"
    and "fst p \<le> length (put_placeholder ph p u)"
    by (auto simp: put_placeholder_def)
  with Cons.IH [of "put_placeholder ph p u"] Cons.prems show ?case by force
qed simp

lemma drop_as_singles: "concat (map (\<lambda>i. [u ! i]) [e ..< length u]) = drop e u"
proof -
  have "concat (map (\<lambda>i. [u ! i]) xs) = map ((!) u) xs" for xs by (induction xs) auto
  moreover have "map ((!) u) [e ..< length u] = drop e (map ((!) u) [0 ..< length u])"
    by (simp only: drop_map drop_upt) simp
  ultimately show ?thesis by (simp add: map_nth)
qed

lemma fold_put_reference:
  assumes "sorted_wrt (\<lambda>p q. snd q \<le> fst p) acc" "\<forall>p\<in>set acc. fst p < snd p \<and> snd p \<le> length u"
  shows "fold (put_placeholder ph) acc u =
    concat (map (\<lambda>i. (if i \<in> fst ` set acc then ph else []) @ (if hidden acc i then [] else [u ! i])) [0 ..< length u])"
  using assms
proof (induction acc arbitrary: u)
  case Nil
  show ?case using drop_as_singles [of u 0] by (simp add: hidden_def)
next
  case (Cons p acc)
  obtain s e where p: "p = (s, e)" by fastforce
  let ?f = "\<lambda>acc i. (if i \<in> fst ` set acc then ph else []) @ (if hidden acc i then [] else [u ! i])"
  from Cons.prems have se: "s < e" "e \<le> length u" and below: "\<forall>q\<in>set acc. fst q < snd q \<and> snd q \<le> s"
    and srt: "sorted_wrt (\<lambda>p q. snd q \<le> fst p) acc" by (auto simp: p)
  have split: "[0 ..< length u] = [0 ..< s] @ [s ..< e] @ [e ..< length u]"
    using se by (metis le_add_diff_inverse less_imp_le_nat upt_add_eq_append zero_le append_assoc)
  have put: "fold (put_placeholder ph) (p # acc) u =
      fold (put_placeholder ph) acc (take s u) @ ph @ drop e u"
    using fold_put_append [OF srt, of "take s u" ph "ph @ drop e u"] below se by (simp add: p put_placeholder_def)
  have before: "fold (put_placeholder ph) acc (take s u) = concat (map (?f (p # acc)) [0 ..< s])"
  proof -
    have "hidden (p # acc) i = hidden acc i" if "i < s" for i using that by (auto simp: hidden_Cons p)
    then show ?thesis
      using Cons.IH [OF srt, of "take s u"] below se
      by (auto simp: p min_def intro!: arg_cong [where f = concat])
  qed
  have at: "concat (map (?f (p # acc)) [s ..< e]) = ph"
  proof -
    have h: "hidden (p # acc) i" if "s \<le> i" "i < e" for i using that by (simp add: hidden_Cons p)
    have "i \<notin> fst ` set acc" if "s \<le> i" for i using below that by force
    then have "?f (p # acc) i = []" if "s < i" "i < e" for i using that h by (auto simp: p)
    then have "concat (map (?f (p # acc)) [Suc s ..< e]) = []" by auto
    moreover have "[s ..< e] = s # [Suc s ..< e]" using se by (simp add: upt_conv_Cons)
    ultimately show ?thesis using h [of s] se by (simp add: p)
  qed
  have after: "concat (map (?f (p # acc)) [e ..< length u]) = drop e u"
  proof -
    have "\<not> hidden (p # acc) i" if "e \<le> i" for i
      using below that se by (force simp: hidden_Cons p hidden_iff)
    moreover have "i \<notin> fst ` set (p # acc)" if "e \<le> i" for i using below that se by (force simp: p)
    ultimately have "concat (map (?f (p # acc)) [e ..< length u]) = concat (map (\<lambda>i. [u ! i]) [e ..< length u])"
      by (intro arg_cong [where f = concat]) auto
    also have "\<dots> = drop e u" by (rule drop_as_singles)
    finally show ?thesis by simp
  qed
  show ?case by (simp only: put before at after split map_append concat_append)
qed

lemma redact_spans_reference:
  assumes "\<forall>p\<in>set spans. snd p \<le> length t"
  shows "redact_spans ph t spans = redact_reference ph t spans"
  unfolding redact_spans_def redact_reference_def redact_at_def
  using merged_spans_facts [where spans = spans] merged_spans_bound [OF assms]
  by (subst fold_put_reference) auto

section \<open>The walkers as one map over the visited texts\<close>

text \<open>The visited texts of a value and of a trace, in the order of the visits.\<close>

type_synonym visited = "string \<times> field_type \<times> string"

fun json_texts :: "string \<Rightarrow> field_type \<Rightarrow> json \<Rightarrow> visited list"
and items_texts :: "string \<Rightarrow> field_type \<Rightarrow> nat \<Rightarrow> json list \<Rightarrow> visited list"
and fields_texts :: "string \<Rightarrow> field_type \<Rightarrow> (string \<times> json) list \<Rightarrow> visited list" where
  "json_texts p ft (JStr s) = [(p, ft, s)]"
| "json_texts p ft (JList xs) = items_texts p ft 0 xs"
| "json_texts p ft (JObj d) = fields_texts p ft d"
| "json_texts p ft JNull = []"
| "json_texts p ft (JBool b) = []"
| "json_texts p ft (JInt i) = []"
| "json_texts p ft (JFloat q) = []"
| "items_texts p ft i [] = []"
| "items_texts p ft i (x # xs) = json_texts (index_path p i) ft x @ items_texts p ft (i + 1) xs"
| "fields_texts p ft [] = []"
| "fields_texts p ft ((k, x) # d) = json_texts (p @ ''.'' @ k) ft x @ fields_texts p ft d"

definition opt_texts :: "string \<Rightarrow> field_type \<Rightarrow> string option \<Rightarrow> visited list" where
  "opt_texts p ft f = (case f of None \<Rightarrow> [] | Some s \<Rightarrow> if s = [] then [] else [(p, ft, s)])"

definition tool_call_texts :: "string \<Rightarrow> nat \<times> tool_call \<Rightarrow> visited list" where
  "tool_call_texts sp = (\<lambda>(i, tc). concat (map (\<lambda>(k, v).
     json_texts (index_path (sp @ ''.tool_calls'') i @ ''.input.'' @ k) (classify_tool (tool_name tc)) v) (tool_input tc)))"

definition observation_texts :: "string \<Rightarrow> nat \<times> observation \<Rightarrow> visited list" where
  "observation_texts sp = (\<lambda>(i, ob). let op = index_path (sp @ ''.observations'') i in
     opt_texts (op @ ''.content'') TOOL_RESULT (obs_content ob) @
     opt_texts (op @ ''.output_summary'') TOOL_RESULT (output_summary ob) @
     opt_texts (op @ ''.error'') TOOL_RESULT (obs_error ob))"

definition snippet_texts :: "string \<Rightarrow> nat \<times> snippet \<Rightarrow> visited list" where
  "snippet_texts sp = (\<lambda>(i, sn). opt_texts (index_path (sp @ ''.snippets'') i @ ''.text'') GENERAL (snip_text sn))"

definition step_texts :: "nat \<times> step \<Rightarrow> visited list" where
  "step_texts = (\<lambda>(i, st). let sp = index_path ''steps'' i in
     opt_texts (sp @ ''.content'') GENERAL (step_content st) @
     opt_texts (sp @ ''.reasoning_content'') REASONING (reasoning_content st) @
     concat (map (tool_call_texts sp) (enumerate 0 (tool_calls st))) @
     concat (map (observation_texts sp) (enumerate 0 (observations st))) @
     concat (map (snippet_texts sp) (enumerate 0 (snippets st))))"

definition pi_texts :: "string list \<Rightarrow> (string, json) dict \<Rightarrow> visited list" where
  "pi_texts ks d = concat (map (\<lambda>k. case dget d k of None \<Rightarrow> []
     | Some v \<Rightarrow> json_texts (pi_path k) GENERAL v) ks)"

definition prompt_texts :: "(string, string) dict \<Rightarrow> visited list" where
  "prompt_texts d = map (\<lambda>(k, s). (''system_prompts['' @ k @ '']'', GENERAL, s)) d"

definition metadata_texts :: "(string, json) dict \<Rightarrow> visited list" where
  "metadata_texts md = (case dget md ''pi'' of Some (JObj d) \<Rightarrow> pi_texts PI_KEYS d | _ \<Rightarrow> [])"

definition record_texts :: "trace_record \<Rightarrow> visited list" where
  "record_texts r =
     prompt_texts (system_prompts r) @
     opt_texts ''task.description'' GENERAL (task_description (rec_task r)) @
     concat (map step_texts (enumerate 0 (steps r))) @
     opt_texts ''outcome.description'' GENERAL (outcome_description (rec_outcome r)) @
     opt_texts ''environment.vcs.diff'' GENERAL (vcs_diff (env_vcs (rec_environment r))) @
     metadata_texts (rec_metadata r)"

text \<open>What a transform makes of a visited text, and the shape of a trace with the visited texts erased.\<close>

definition redone :: "'w transform \<Rightarrow> visited \<Rightarrow> visited" where
  "redone T = (\<lambda>(p, ft, s). (p, ft, case fst (T p ft s) of None \<Rightarrow> s | Some s' \<Rightarrow> s'))"

definition changes :: "'w transform \<Rightarrow> visited \<Rightarrow> bool" where
  "changes T = (\<lambda>(p, ft, s). fst (T p ft s) \<noteq> None)"

definition logged :: "'w transform \<Rightarrow> visited \<Rightarrow> 'w list" where
  "logged T = (\<lambda>(p, ft, s). snd (T p ft s))"

definition erase :: "unit transform" where
  "erase p ft s = (Some [], [])"

definition record_shape :: "trace_record \<Rightarrow> trace_record" where
  "record_shape r = fst (walk_string_fields erase r)"

definition as_map :: "'w transform \<Rightarrow> visited list \<Rightarrow> visited list \<Rightarrow> nat \<Rightarrow> 'w list \<Rightarrow> bool" where
  "as_map T ts ts' n w \<longleftrightarrow>
     ts' = map (redone T) ts \<and> n = length (filter (changes T) ts) \<and> w = concat (map (logged T) ts)"

definition keeps_text :: "'w transform \<Rightarrow> bool" where
  "keeps_text T \<longleftrightarrow> (\<forall>p ft s s'. fst (T p ft s) = Some s' \<longrightarrow> s \<noteq> [] \<longrightarrow> s' \<noteq> [])"

lemma as_map_Nil [simp]: "as_map T [] [] 0 []"
  by (simp add: as_map_def)

lemma as_map_append:
  "as_map T a a' n w \<Longrightarrow> as_map T b b' n' w' \<Longrightarrow> as_map T (a @ b) (a' @ b') (n + n') (w @ w')"
  by (simp add: as_map_def)

lemma walk_value_map:
  "case walk_value T p ft v of (r, n, w) \<Rightarrow>
     as_map T (json_texts p ft v) (json_texts p ft (case r of None \<Rightarrow> v | Some v' \<Rightarrow> v')) n w \<and> (r = None \<longleftrightarrow> n = 0)"
  "case walk_items T p ft i xs of (ys, m, n, w) \<Rightarrow>
     as_map T (items_texts p ft i xs) (items_texts p ft i ys) n w \<and> (m \<longleftrightarrow> n \<noteq> 0) \<and> (n = 0 \<longrightarrow> ys = xs)"
  "case walk_fields T p ft d of (d', m, n, w) \<Rightarrow>
     as_map T (fields_texts p ft d) (fields_texts p ft d') n w \<and> (m \<longleftrightarrow> n \<noteq> 0) \<and> (n = 0 \<longrightarrow> d' = d)"
proof (induction T p ft v and T p ft i xs and T p ft d rule: walk_value_walk_items_walk_fields.induct)
  case (1 T p ft s)
  then show ?case by (auto simp: as_map_def redone_def changes_def logged_def split: prod.split option.split)
next
  case (9 T p ft i x xs)
  obtain r n w ys m n' w' where v: "walk_value T (index_path p i) ft x = (r, n, w)"
    and vs: "walk_items T p ft (i + 1) xs = (ys, m, n', w')" by (metis prod_cases3 surj_pair)
  note IH = 9(1) 9(2) [OF v [symmetric] refl]
  with v vs as_map_append [of T "json_texts (index_path p i) ft x" _ n w "items_texts p ft (i + 1) xs" _ n' w']
  show ?case by (auto split: option.splits)
next
  case (11 T p ft k x d)
  obtain r n w ys m n' w' where v: "walk_value T (p @ ''.'' @ k) ft x = (r, n, w)"
    and vs: "walk_fields T p ft d = (ys, m, n', w')" by (metis prod_cases3 surj_pair)
  note IH = 11(1) 11(2) [OF v [symmetric] refl]
  with v vs as_map_append [of T "json_texts (p @ ''.'' @ k) ft x" _ n w "fields_texts p ft d" _ n' w']
  show ?case by (auto split: option.splits)
qed (auto split: prod.splits)

text \<open>The two walkers of a value agree: one rebuilds where a child was replaced, the other where the count says so.\<close>

lemma walk_dict_agrees:
  "p \<noteq> [] \<Longrightarrow> walk_dict_strings T p ft v =
     (case walk_value T p ft v of (r, n, w) \<Rightarrow> (case r of None \<Rightarrow> v | Some v' \<Rightarrow> v', n, w))"
  "p \<noteq> [] \<Longrightarrow> walk_dict_items T p ft i xs = walk_items T p ft i xs"
  "p \<noteq> [] \<Longrightarrow> walk_dict_fields T p ft d = walk_fields T p ft d"
proof (induction T p ft v and T p ft i xs and T p ft d rule: walk_value_walk_items_walk_fields.induct)
  case (9 T p ft i x xs)
  then have "index_path p i \<noteq> []" by (simp add: index_path_def)
  with 9 show ?case using walk_value_map(1) [of T "index_path p i" ft x] by (auto split: prod.splits)
next
  case (11 T p ft k x d)
  then show ?case using walk_value_map(1) [of T "p @ ''.'' @ k" ft x] by (auto split: prod.splits)
qed (auto split: prod.splits option.splits)

text \<open>The same for the parts of a trace. A walker gives the new part, the count and the log.\<close>

abbreviation walked :: "'w transform \<Rightarrow> ('a \<Rightarrow> visited list) \<Rightarrow> 'a \<Rightarrow> 'a \<times> nat \<times> 'w list \<Rightarrow> bool" where
  "walked T texts x t \<equiv> as_map T (texts x) (texts (fst t)) (fst (snd t)) (snd (snd t))"

lemma walked_opt: "keeps_text T \<Longrightarrow> walked T (opt_texts p ft) f (visit_opt T p ft f)"
  by (auto simp: visit_opt_def opt_texts_def as_map_def redone_def changes_def logged_def keeps_text_def
      split: option.split prod.split) (metis fst_conv)

lemma walked_prompts: "walked T prompt_texts d (walk_prompts T d)"
  by (induction d) (auto simp: prompt_texts_def as_map_def redone_def changes_def logged_def split: option.split prod.splits)

lemma walked_value:
  "as_map T (json_texts p ft v) (json_texts p ft (case fst (walk_value T p ft v) of None \<Rightarrow> v | Some v' \<Rightarrow> v'))
     (fst (snd (walk_value T p ft v))) (snd (snd (walk_value T p ft v)))"
  using walk_value_map(1) [of T p ft v] by (simp add: case_prod_unfold)

lemma walked_input:
  "walked T (\<lambda>d. concat (map (\<lambda>(k, v). json_texts (base @ ''.input.'' @ k) ft v) d)) d (walk_input T base ft d)"
proof (induction d)
  case (Cons kv d)
  obtain k v where kv: "kv = (k, v)" by fastforce
  show ?case
    using as_map_append [OF walked_value [of T "base @ ''.input.'' @ k" ft v] Cons.IH]
    by (simp add: kv case_prod_unfold Let_def)
qed simp

lemma walked_list:
  assumes one: "\<And>i x. walked T (\<lambda>x. f (i, x)) x (g i x)"
    and Nil: "\<And>i. G i [] = ([], 0, [])"
    and Cons: "\<And>i x xs. G i (x # xs) =
      (fst (g i x) # fst (G (i + 1) xs), fst (snd (g i x)) + fst (snd (G (i + 1) xs)), snd (snd (g i x)) @ snd (snd (G (i + 1) xs)))"
  shows "walked T (\<lambda>xs. concat (map f (enumerate i xs))) xs (G i xs)"
proof (induction xs arbitrary: i)
  case (Cons x xs)
  from as_map_append [OF one [of i x] Cons.IH [of "i + 1"]] show ?case by (simp add: assms(3))
qed (simp add: Nil)

lemma walked_tool_calls:
  "walked T (\<lambda>xs. concat (map (tool_call_texts sp) (enumerate i xs))) xs (walk_tool_calls T sp i xs)"
proof (rule walked_list [where g = "\<lambda>i tc. let t = walk_input T (index_path (sp @ ''.tool_calls'') i)
    (classify_tool (tool_name tc)) (tool_input tc) in (tc\<lparr>tool_input := fst t\<rparr>, snd t)"])
  fix i and tc :: tool_call
  show "walked T (\<lambda>x. tool_call_texts sp (i, x)) tc (let t = walk_input T (index_path (sp @ ''.tool_calls'') i)
    (classify_tool (tool_name tc)) (tool_input tc) in (tc\<lparr>tool_input := fst t\<rparr>, snd t))"
    using walked_input [of T "index_path (sp @ ''.tool_calls'') i" "classify_tool (tool_name tc)" "tool_input tc"]
    by (simp add: tool_call_texts_def Let_def)
qed (simp_all add: Let_def case_prod_unfold)

lemma walked_observation:
  "keeps_text T \<Longrightarrow> walked T (\<lambda>x. observation_texts sp (i, x)) ob (walk_observation T (index_path (sp @ ''.observations'') i) ob)"
  by (simp add: walk_observation_def observation_texts_def Let_def case_prod_unfold add.assoc as_map_append walked_opt)

lemma walked_observations:
  assumes "keeps_text T"
  shows "walked T (\<lambda>xs. concat (map (observation_texts sp) (enumerate i xs))) xs (walk_observations T sp i xs)"
  by (rule walked_list [where g = "\<lambda>i ob. walk_observation T (index_path (sp @ ''.observations'') i) ob"])
    (simp_all add: Let_def case_prod_unfold walked_observation [OF assms])

lemma walked_snippets:
  assumes "keeps_text T"
  shows "walked T (\<lambda>xs. concat (map (snippet_texts sp) (enumerate i xs))) xs (walk_snippets T sp i xs)"
  by (rule walked_list [where g = "\<lambda>i sn. let t = visit_opt T (index_path (sp @ ''.snippets'') i @ ''.text'') GENERAL
      (snip_text sn) in (sn\<lparr>snip_text := fst t\<rparr>, snd t)"])
    (simp_all add: Let_def case_prod_unfold snippet_texts_def walked_opt [OF assms])

lemma walked_step: "keeps_text T \<Longrightarrow> walked T (\<lambda>x. step_texts (i, x)) st (walk_step T (index_path ''steps'' i) st)"
  by (simp add: walk_step_def step_texts_def Let_def case_prod_unfold add.assoc as_map_append walked_opt
      walked_tool_calls walked_observations walked_snippets)

lemma walked_steps:
  assumes "keeps_text T"
  shows "walked T (\<lambda>xs. concat (map step_texts (enumerate i xs))) xs (walk_steps T i xs)"
  by (rule walked_list [where g = "\<lambda>i st. walk_step T (index_path ''steps'' i) st"])
    (simp_all add: Let_def case_prod_unfold walked_step [OF assms])

lemma pi_texts_other: "k \<notin> set ks \<Longrightarrow> pi_texts ks (dset d k v) = pi_texts ks d"
  unfolding pi_texts_def by (rule arg_cong [where f = concat]) auto

lemma walk_pi_other: "k \<notin> set ks \<Longrightarrow> dget (fst (walk_pi T ks d)) k = dget d k"
  by (induction ks arbitrary: d) (auto simp: Let_def case_prod_unfold split: option.split)

lemma pi_path: "pi_path k \<noteq> []"
  by (simp add: pi_path_def)

lemma walked_pi: "distinct ks \<Longrightarrow> walked T (pi_texts ks) d (walk_pi T ks d)"
proof (induction ks arbitrary: d)
  case (Cons k ks)
  show ?case
  proof (cases "dget d k")
    case None
    with Cons show ?thesis by (simp add: pi_texts_def walk_pi_other)
  next
    case (Some v)
    obtain r n w where v: "walk_value T (pi_path k) GENERAL v = (r, n, w)" by (metis prod_cases3)
    let ?d = "if n \<noteq> 0 then dset d k (case r of None \<Rightarrow> v | Some v' \<Rightarrow> v') else d"
    from walk_value_map(1) [of T "pi_path k" GENERAL v] v
    have one: "as_map T (json_texts (pi_path k) GENERAL v)
        (json_texts (pi_path k) GENERAL (case r of None \<Rightarrow> v | Some v' \<Rightarrow> v')) n w" and n: "n = 0 \<longleftrightarrow> r = None" by auto
    have "dget (fst (walk_pi T ks ?d)) k = Some (case r of None \<Rightarrow> v | Some v' \<Rightarrow> v')"
      using Cons.prems Some n by (simp add: walk_pi_other)
    moreover have "pi_texts ks ?d = pi_texts ks d" using Cons.prems by (simp add: pi_texts_other)
    moreover have "walk_pi T (k # ks) d = (fst (walk_pi T ks ?d), n + fst (snd (walk_pi T ks ?d)), w @ snd (snd (walk_pi T ks ?d)))"
      by (simp add: Some v walk_dict_agrees pi_path Let_def case_prod_unfold)
    moreover have "pi_texts (k # ks) d' = (case dget d' k of None \<Rightarrow> [] | Some v \<Rightarrow> json_texts (pi_path k) GENERAL v) @ pi_texts ks d'" for d'
      by (simp add: pi_texts_def)
    ultimately show ?thesis
      using as_map_append [OF one Cons.IH [of ?d]] Cons.prems Some by simp
  qed
qed (simp add: pi_texts_def)

section \<open>What a walk leaves alone\<close>

text \<open>Erasing the visited texts after a walk gives what erasing them before gives.\<close>

definition value_of :: "'w transform \<Rightarrow> string \<Rightarrow> field_type \<Rightarrow> json \<Rightarrow> json" where
  "value_of T p ft v = (case fst (walk_value T p ft v) of None \<Rightarrow> v | Some v' \<Rightarrow> v')"

lemma value_of_simps [simp]:
  "value_of T p ft (JStr s) = JStr (case fst (T p ft s) of None \<Rightarrow> s | Some s' \<Rightarrow> s')"
  "value_of T p ft (JList xs) = JList (fst (walk_items T p ft 0 xs))"
  "value_of T p ft (JObj d) = JObj (fst (walk_fields T p ft d))"
  "value_of T p ft JNull = JNull" "value_of T p ft (JBool b) = JBool b"
  "value_of T p ft (JInt i) = JInt i" "value_of T p ft (JFloat q) = JFloat q"
  using walk_value_map(2) [of T p ft 0 xs] walk_value_map(3) [of T p ft d]
  by (auto simp: value_of_def split: prod.splits option.splits)

lemma walk_list_simps [simp]:
  "fst (walk_items T p ft i (x # xs)) = value_of T (index_path p i) ft x # fst (walk_items T p ft (i + 1) xs)"
  "fst (walk_fields T p ft ((k, x) # d)) = (k, value_of T (p @ ''.'' @ k) ft x) # fst (walk_fields T p ft d)"
  by (auto simp: value_of_def split: prod.splits option.splits)

lemma erase_value:
  "value_of erase p ft (value_of T p ft v) = value_of erase p ft v"
  "fst (walk_items erase p ft i (fst (walk_items T p ft i xs))) = fst (walk_items erase p ft i xs)"
  "fst (walk_fields erase p ft (fst (walk_fields T p ft d))) = fst (walk_fields erase p ft d)"
  by (induction p ft v and p ft i xs and p ft d rule: json_texts_items_texts_fields_texts.induct)
    (simp_all del: walk_items.simps(2) walk_fields.simps(2) add: erase_def)

lemma erase_opt: "fst (visit_opt erase p ft (fst (visit_opt T p ft f))) = fst (visit_opt erase p ft f)"
  by (simp add: visit_opt_def erase_def split: option.split prod.split)

lemma erase_prompts: "fst (walk_prompts erase (fst (walk_prompts T d))) = fst (walk_prompts erase d)"
  by (induction d) (auto simp: Let_def erase_def split: prod.splits option.splits)

lemma walk_input_fst: "fst (walk_input T base ft d) = map (\<lambda>(k, v). (k, value_of T (base @ ''.input.'' @ k) ft v)) d"
  by (induction d) (auto simp: value_of_def Let_def split: prod.splits option.splits)

lemma erase_input: "fst (walk_input erase base ft (fst (walk_input T base ft d))) = fst (walk_input erase base ft d)"
  by (simp add: walk_input_fst case_prod_unfold comp_def erase_value)

lemma erase_tool_calls: "fst (walk_tool_calls erase sp i (fst (walk_tool_calls T sp i xs))) = fst (walk_tool_calls erase sp i xs)"
  by (induction xs arbitrary: i) (simp_all add: Let_def case_prod_unfold erase_input)

lemma erase_observations:
  "fst (walk_observations erase sp i (fst (walk_observations T sp i xs))) = fst (walk_observations erase sp i xs)"
  by (induction xs arbitrary: i) (simp_all add: Let_def case_prod_unfold walk_observation_def erase_opt)

lemma erase_snippets: "fst (walk_snippets erase sp i (fst (walk_snippets T sp i xs))) = fst (walk_snippets erase sp i xs)"
  by (induction xs arbitrary: i) (simp_all add: Let_def case_prod_unfold erase_opt)

lemma erase_steps: "fst (walk_steps erase i (fst (walk_steps T i xs))) = fst (walk_steps erase i xs)"
  by (induction xs arbitrary: i)
    (simp_all add: Let_def case_prod_unfold walk_step_def erase_opt erase_tool_calls erase_observations erase_snippets)

lemma dset_dset_same: "dset (dset d k a) k b = dset d k b"
  unfolding dset_def by (induction d) auto

lemma dset_same: "dget d k = Some v \<Longrightarrow> dset d k v = d"
  unfolding dset_def dget_def by (induction d) (auto split: if_splits)

lemma dset_commute: "k \<noteq> k' \<Longrightarrow> dmem d k \<Longrightarrow> dmem d k' \<Longrightarrow> dset (dset d k a) k' b = dset (dset d k' b) k a"
  unfolding dset_def dmem_def by (induction d) (auto split: if_splits)

lemma walk_pi_step:
  "walk_pi T (k # ks) d =
     (case dget d k of None \<Rightarrow> walk_pi T ks d
      | Some v \<Rightarrow> (let n = fst (snd (walk_value T (pi_path k) GENERAL v));
          t = walk_pi T ks (if n \<noteq> 0 then dset d k (value_of T (pi_path k) GENERAL v) else d)
        in (fst t, n + fst (snd t), snd (snd (walk_value T (pi_path k) GENERAL v)) @ snd (snd t))))"
  by (auto simp: walk_dict_agrees pi_path value_of_def Let_def case_prod_unfold split: option.split)

lemma walk_pi_dset:
  "k \<notin> set ks \<Longrightarrow> dmem d k \<Longrightarrow> fst (walk_pi T ks (dset d k s)) = dset (fst (walk_pi T ks d)) k s"
proof (induction ks arbitrary: d)
  case (Cons k' ks)
  then show ?case
    by (auto simp: walk_pi_step Let_def dset_commute [of k k'] dmem_def simp del: walk_pi.simps split: option.split)
qed simp

lemma erase_count: "fst (snd (walk_value erase p ft (value_of T p ft v))) = fst (snd (walk_value erase p ft v))"
proof -
  have "length (filter (changes erase) ts) = length ts" for ts
    by (induction ts) (auto simp: changes_def erase_def)
  then have "fst (snd (walk_value erase p ft v)) = length (json_texts p ft v)" for v
    using walked_value [of erase p ft v] by (simp add: as_map_def)
  moreover have "length (json_texts p ft (value_of T p ft v)) = length (json_texts p ft v)"
    using walked_value [of T p ft v] unfolding as_map_def value_of_def by (metis length_map)
  ultimately show ?thesis by simp
qed

lemma value_of_unchanged: "fst (snd (walk_value T p ft v)) = 0 \<Longrightarrow> value_of T p ft v = v"
  using walk_value_map(1) [of T p ft v] by (auto simp: value_of_def split: prod.splits)

lemma erase_pi: "distinct ks \<Longrightarrow> fst (walk_pi erase ks (fst (walk_pi T ks d))) = fst (walk_pi erase ks d)"
proof (induction ks arbitrary: d)
  case (Cons k ks)
  show ?case
  proof (cases "dget d k")
    case None
    with Cons show ?thesis by (simp add: walk_pi_step walk_pi_other del: walk_pi.simps(2))
  next
    case (Some v)
    let ?v = "value_of T (pi_path k) GENERAL v" and ?s = "value_of erase (pi_path k) GENERAL v"
    let ?d = "if fst (snd (walk_value T (pi_path k) GENERAL v)) \<noteq> 0 then dset d k ?v else d"
    have d1: "dget ?d k = Some ?v" using Some by (simp add: value_of_unchanged)
    then have "dget (fst (walk_pi T ks ?d)) k = Some ?v" using Cons.prems by (simp add: walk_pi_other)
    then have "fst (walk_pi erase (k # ks) (fst (walk_pi T (k # ks) d))) =
        fst (walk_pi erase ks (if fst (snd (walk_value erase (pi_path k) GENERAL v)) \<noteq> 0
          then dset (fst (walk_pi T ks ?d)) k ?s else fst (walk_pi T ks ?d)))"
      using Some by (simp add: walk_pi_step Let_def erase_count erase_value del: walk_pi.simps(2))
    also have "\<dots> = fst (walk_pi erase ks (if fst (snd (walk_value erase (pi_path k) GENERAL v)) \<noteq> 0 then dset ?d k ?s else ?d))"
      using Cons.IH [of "dset ?d k ?s"] Cons.IH [of ?d] Cons.prems walk_pi_dset [of k ks ?d T ?s] d1
      by (simp add: dmem_def)
    also have "\<dots> = fst (walk_pi erase (k # ks) d)"
    proof (cases "fst (snd (walk_value erase (pi_path k) GENERAL v)) = 0")
      case True
      have "?v = v"
        using True erase_count [of "pi_path k" GENERAL T v] erase_value(1) [of "pi_path k" GENERAL T v]
        by (simp add: value_of_unchanged)
      then show ?thesis using True Some by (simp add: walk_pi_step Let_def dset_same del: walk_pi.simps(2))
    next
      case False
      then show ?thesis using Some by (simp add: walk_pi_step Let_def dset_dset_same del: walk_pi.simps(2))
    qed
    finally show ?thesis .
  qed
qed simp

lemma erase_metadata: "fst (walk_metadata erase (fst (walk_metadata T md))) = fst (walk_metadata erase md)"
proof (cases "\<exists>d. dget md ''pi'' = Some (JObj d)")
  case True
  then obtain d where d: "dget md ''pi'' = Some (JObj d)" by blast
  then show ?thesis
    using erase_pi [of PI_KEYS T d] by (simp add: walk_metadata_def Let_def case_prod_unfold dset_dset_same PI_KEYS_def)
next
  case False
  then show ?thesis by (auto simp: walk_metadata_def split: option.split json.split)
qed

lemma walked_metadata: "walked T metadata_texts md (walk_metadata T md)"
  using walked_pi [of PI_KEYS T]
  by (auto simp: metadata_texts_def walk_metadata_def Let_def case_prod_unfold PI_KEYS_def split: option.split json.split)

lemma walked_record:
  assumes "keeps_text T"
  shows "record_texts (fst (walk_string_fields T r)) = map (redone T) (record_texts r) \<and>
    fst (snd (walk_string_fields T r)) = length (filter (changes T) (record_texts r)) \<and>
    snd (snd (walk_string_fields T r)) = concat (map (logged T) (record_texts r)) \<and>
    record_shape (fst (walk_string_fields T r)) = record_shape r"
proof -
  let ?t = "walk_string_fields T r"
  have "as_map T (record_texts r) (record_texts (fst ?t)) (fst (snd ?t)) (snd (snd ?t))"
    unfolding record_texts_def walk_string_fields_def Let_def case_prod_unfold
    by (simp add: add.assoc as_map_append walked_opt walked_steps assms walked_prompts walked_metadata)
  moreover have "record_shape (fst ?t) = record_shape r"
    by (simp add: record_shape_def walk_string_fields_def Let_def case_prod_unfold erase_opt erase_prompts
        erase_steps erase_metadata)
  ultimately show ?thesis by (simp add: as_map_def)
qed

section \<open>Properties\<close>

text \<open>
  C4. Redacting a set of spans, however they overlap, nest or touch, is a rule about positions: a covered
  character is gone, an uncovered one stays in its place, and one placeholder stands where a span starts
  that no other span runs across.
\<close>

theorem redaction_exact:
  assumes "\<forall>p\<in>set spans. snd p \<le> length t"
  shows "redact_spans ph t spans = redact_reference ph t spans"
  by (rule redact_spans_reference [OF assms])

theorem redaction_exact_witness:
  "redact_spans ''*'' ''abcdefgh'' [(4, 6), (1, 3), (2, 5), (6, 7), (3, 3)] = ''a**h'' \<and>
    redact_spans ''*'' ''abcdefgh'' [(4, 6), (1, 3), (2, 5), (6, 7), (3, 3)] =
      redact_reference ''*'' ''abcdefgh'' [(4, 6), (1, 3), (2, 5), (6, 7), (3, 3)]"
proof
  show "redact_spans ''*'' ''abcdefgh'' [(4, 6), (1, 3), (2, 5), (6, 7), (3, 3)] = ''a**h''" by code_simp
  show "redact_spans ''*'' ''abcdefgh'' [(4, 6), (1, 3), (2, 5), (6, 7), (3, 3)] =
      redact_reference ''*'' ''abcdefgh'' [(4, 6), (1, 3), (2, 5), (6, 7), (3, 3)]"
    by (rule redaction_exact) simp
qed

text \<open>
  Walking a trace is one map over its visited texts: every prompt, task, step, tool input, result,
  snippet, outcome, diff and provider context is replaced by what the transform makes of it, at its path
  and field type; the count is the number of texts the transform replaced, the log is the concatenation of
  what it recorded, and nothing else of the trace changes.
\<close>

theorem walk_exact:
  assumes "keeps_text T"
  shows "record_texts (fst (walk_string_fields T r)) = map (redone T) (record_texts r) \<and>
    fst (snd (walk_string_fields T r)) = length (filter (changes T) (record_texts r)) \<and>
    snd (snd (walk_string_fields T r)) = concat (map (logged T) (record_texts r)) \<and>
    record_shape (fst (walk_string_fields T r)) = record_shape r"
  by (rule walked_record [OF assms])

text \<open>A trace with a secret in a prompt, a tool input and the metadata of a harness, and a transform that hides it.\<close>

definition sample_leaky :: trace_record where
  "sample_leaky = (mk_trace_record ''t'' [(mk_step 0 ''agent'')\<lparr>step_content := Some ''ok'',
      tool_calls := [mk_tool_call ''c'' ''Bash'' [(''command'', JList [JStr ''ls'', JStr ''key42''])]]\<rparr>])
     \<lparr>system_prompts := [(''h'', ''use key42'')],
      rec_metadata := [(''pi'', JObj [(''runtime_state'', JObj [(''name'', JStr ''key42''), (''n'', JInt 42)])])]\<rparr>"

definition hide_key :: "string transform" where
  "hide_key p ft s = (case locate_substrings s [''key42''] of [] \<Rightarrow> (None, [])
     | ms \<Rightarrow> (Some (redact_spans REDACTED s (map snd ms)), [p]))"

theorem walk_exact_witness:
  "record_texts (fst (walk_string_fields hide_key sample_leaky)) = map (redone hide_key) (record_texts sample_leaky) \<and>
    snd (snd (walk_string_fields hide_key sample_leaky)) =
      [''system_prompts[h]'', ''steps[0].tool_calls[0].input.command[1]'', ''metadata.pi.runtime_state.name'']"
proof
  have "redact_spans REDACTED s spans \<noteq> []" if "s \<noteq> []" for s spans
  proof -
    have "fold (put_placeholder REDACTED) acc s \<noteq> []" for acc
      using that by (induction acc arbitrary: s) (simp_all add: put_placeholder_def REDACTED_def)
    then show ?thesis by (simp add: redact_spans_def)
  qed
  then have k: "keeps_text hide_key" by (auto simp: keeps_text_def hide_key_def split: list.splits)
  from walk_exact [OF k] show "record_texts (fst (walk_string_fields hide_key sample_leaky)) =
      map (redone hide_key) (record_texts sample_leaky)" by blast
  show "snd (snd (walk_string_fields hide_key sample_leaky)) =
      [''system_prompts[h]'', ''steps[0].tool_calls[0].input.command[1]'', ''metadata.pi.runtime_state.name'']"
    by code_simp
qed

end
