(* ===== verification/SecretProps.thy ===== *)
theory SecretProps
  imports Secrets RedactionProps
begin

text \<open>
  What the secret scanner guarantees: the entropy shortcut never changes a verdict, every match is a piece of
  the text, and the entropy detector leaves nothing of its kind behind.
\<close>

section \<open>Entropy\<close>

lemma fold_count:
  "dget (fold (\<lambda>c d. dset d c ((case dget d c of None \<Rightarrow> 0 | Some n \<Rightarrow> n) + 1)) s d) c =
     (if c \<in> set s \<or> dmem d c then Some (count_list s c + (case dget d c of None \<Rightarrow> 0 | Some n \<Rightarrow> n)) else None)"
  by (induction s arbitrary: d) (auto simp: dmem_def split: option.split)

lemma char_freq_get: "dget (char_freq s) c = (if c \<in> set s then Some (count_list s c) else None)"
  unfolding char_freq_def fold_count by (simp add: dmem_def)

lemma char_freq_ok: "dict_ok (char_freq s)"
proof -
  have "dict_ok d \<Longrightarrow> dict_ok (fold (\<lambda>c d. dset d c ((case dget d c of None \<Rightarrow> 0 | Some n \<Rightarrow> n) + (1::nat))) s d)" for d
    by (induction s arbitrary: d) auto
  then show ?thesis unfolding char_freq_def by simp
qed

lemma char_freq_sum: "sum_list (map f (dvalues (char_freq s))) = (\<Sum>c\<in>set s. f (count_list s c))"
proof -
  let ?d = "char_freq s"
  have keys: "set (dkeys ?d) = set s"
    using char_freq_get [of s] by (auto simp: dmem_iff [symmetric] dmem_def split: if_splits)
  have "map f (dvalues ?d) = map (\<lambda>c. f (count_list s c)) (dkeys ?d)"
    unfolding dvalues_def dkeys_def map_map comp_def
  proof (rule map_cong [OF refl])
    fix p assume "p \<in> set ?d"
    then have "dget ?d (fst p) = Some (snd p)" using dget_of_in [OF char_freq_ok, of "fst p" "snd p" s] by simp
    then show "f (snd p) = f (count_list s (fst p))" by (simp add: char_freq_get split: if_splits)
  qed
  then have "sum_list (map f (dvalues ?d)) = sum_list (map (\<lambda>c. f (count_list s c)) (dkeys ?d))" by simp
  also have "\<dots> = (\<Sum>c\<in>set s. f (count_list s c))"
    using char_freq_ok [of s] by (simp add: dict_ok_def sum_list_distinct_conv_sum_set keys)
  finally show ?thesis .
qed

lemma sum_count_list: "(\<Sum>c\<in>set s. count_list s c) = length s"
  by (simp add: sum_count_set)

text \<open>Gibbs' inequality: the entropy over \<open>k\<close> distinct characters is at most the uniform one.\<close>

lemma entropy_le_log: "s \<noteq> [] \<Longrightarrow> shannon_entropy s \<le> log 2 (real (card (set s)))"
proof -
  assume s: "s \<noteq> []"
  let ?k = "real (card (set s))" and ?n = "real (length s)"
  define p where "p c = real (count_list s c) / ?n" for c
  have n: "0 < ?n" using s by simp
  have k: "0 < ?k" using s by (simp add: card_gt_0_iff)
  have pos: "0 < p c" if "c \<in> set s" for c
  proof -
    have "0 < count_list s c" using that by (metis count_list_0_iff neq0_conv)
    then show ?thesis using n by (simp add: p_def)
  qed
  have one: "(\<Sum>c\<in>set s. p c) = 1"
    using n by (simp add: p_def sum_divide_distrib [symmetric] of_nat_sum [symmetric] sum_count_list del: of_nat_sum)
  have "shannon_entropy s - log 2 ?k = (\<Sum>c\<in>set s. p c * log 2 (1 / (?k * p c)))"
  proof -
    have "p c * log 2 (1 / (?k * p c)) = - (p c * log 2 (p c)) - p c * log 2 ?k" if "c \<in> set s" for c
      using pos [OF that] k s by (simp add: log_divide log_mult algebra_simps)
    then have "(\<Sum>c\<in>set s. p c * log 2 (1 / (?k * p c))) =
        - (\<Sum>c\<in>set s. p c * log 2 (p c)) - (\<Sum>c\<in>set s. p c) * log 2 ?k"
      by (simp add: sum_subtractf sum_negf sum_distrib_right)
    also have "- (\<Sum>c\<in>set s. p c * log 2 (p c)) = shannon_entropy s"
      using s by (simp add: shannon_entropy_def char_freq_sum p_def)
    finally show ?thesis using one by simp
  qed
  also have "\<dots> \<le> (\<Sum>c\<in>set s. p c * ((1 / (?k * p c) - 1) / ln 2))"
  proof (rule sum_mono)
    fix c assume c: "c \<in> set s"
    then have "ln (1 / (?k * p c)) \<le> 1 / (?k * p c) - 1" using pos k by (intro ln_le_minus_one) simp
    then have "log 2 (1 / (?k * p c)) \<le> (1 / (?k * p c) - 1) / ln 2" by (simp add: log_def divide_right_mono)
    then show "p c * log 2 (1 / (?k * p c)) \<le> p c * ((1 / (?k * p c) - 1) / ln 2)"
      using pos [OF c] by (intro mult_left_mono) auto
  qed
  also have "\<dots> = (\<Sum>c\<in>set s. (1 / ?k - p c) / ln 2)"
  proof (rule sum.cong [OF refl])
    fix c assume "c \<in> set s"
    then have "p c \<noteq> 0" using pos [of c] by simp
    then show "p c * ((1 / (?k * p c) - 1) / ln 2) = (1 / ?k - p c) / ln 2" using k s by (simp add: field_simps)
  qed
  also have "\<dots> = 0"
    using one k s by (simp add: sum_divide_distrib [symmetric] sum_subtractf)
  finally show ?thesis by simp
qed

definition is_high_entropy_full :: "real \<Rightarrow> string \<Rightarrow> bool" where
  "is_high_entropy_full threshold candidate \<longleftrightarrow>
     threshold \<le> shannon_entropy candidate \<and> \<not> all_lower candidate"

lemma is_high_entropy_full: "s \<noteq> [] \<Longrightarrow> is_high_entropy t s = is_high_entropy_full t s"
  using entropy_le_log [of s] by (auto simp: is_high_entropy_def is_high_entropy_full_def Let_def length_remdups_card_conv)

section \<open>Runs of a character class\<close>

definition run :: "(char \<Rightarrow> bool) \<Rightarrow> string \<Rightarrow> nat \<Rightarrow> nat" where
  "run P s i = length (takeWhile P (drop i s))"

lemma run_step: "run P s i = (if i < length s \<and> P (s ! i) then Suc (run P s (Suc i)) else 0)"
  unfolding run_def by (cases "i < length s") (auto simp: Cons_nth_drop_Suc [symmetric])

lemma run_le: "i \<le> length s \<Longrightarrow> i + run P s i \<le> length s"
  using length_takeWhile_le [of P "drop i s"] by (simp add: run_def)

lemma star_run:
  "length s \<le> i + n \<Longrightarrow> rx_star n (rx_ends (RChar P) s) i = rev [i ..< Suc (i + run P s i)]"
proof (induction n arbitrary: i)
  case 0
  then show ?case using run_step [of P s i] by simp
next
  case (Suc n)
  show ?case
  proof (cases "i < length s \<and> P (s ! i)")
    case True
    have "rx_star n (rx_ends (RChar P) s) (Suc i) = rev [Suc i ..< Suc (Suc i + run P s (Suc i))]"
      by (rule Suc.IH) (use Suc.prems in simp)
    then have "rx_star (Suc n) (rx_ends (RChar P) s) i = rev [Suc i ..< Suc (Suc i + run P s (Suc i))] @ [i]"
      using True by (simp del: upt_Suc)
    also have "\<dots> = rev (i # [Suc i ..< Suc (Suc i + run P s (Suc i))])" by simp
    also have "i # [Suc i ..< Suc (Suc i + run P s (Suc i))] = [i ..< Suc (i + run P s i)]"
      using True run_step [of P s i] by (simp add: upt_conv_Cons del: upt_Suc)
    finally show ?thesis .
  next
    case False
    then show ?thesis using run_step [of P s i] by auto
  qed
qed

lemma rep_run: "rx_ends (r_rep n (RChar P)) s i = (if n \<le> run P s i then [i + n] else [])"
proof (induction n arbitrary: i)
  case (Suc n)
  then show ?case using run_step [of P s i] by auto
qed simp

lemma run_add: "n \<le> run P s i \<Longrightarrow> run P s (i + n) = run P s i - n"
proof (induction n arbitrary: i)
  case (Suc n)
  then have "run P s i = Suc (run P s (Suc i))" using run_step [of P s i] by (auto split: if_splits)
  with Suc.IH [of "Suc i"] Suc.prems show ?case by simp
qed simp

lemma min_run:
  "rx_ends (r_min n (RChar P)) s i = (if n \<le> run P s i then rev [i + n ..< Suc (i + run P s i)] else [])"
  using run_add [of n P s i] by (auto simp: r_min_def rep_run star_run simp del: upt_Suc)

text \<open>The maximal runs of at least \<open>n\<close> characters, found by going through the text once.\<close>

function long_runs :: "nat \<Rightarrow> (char \<Rightarrow> bool) \<Rightarrow> nat \<Rightarrow> string \<Rightarrow> span list" where
  "long_runs n P i [] = []"
| "long_runs n P i (c # cs) =
     (let r = length (takeWhile P (c # cs)) in
      (if n \<le> r \<and> 0 < r then [(i, i + r)] else []) @
      (if r = 0 then long_runs n P (Suc i) cs else long_runs n P (i + r) (drop r (c # cs))))"
  by pat_completeness auto
termination by (relation "measure (\<lambda>(n, P, i, s). length s)") auto

lemma search_skip:
  assumes "rx_ends r s i = []" "i \<le> length s" shows "rx_search_at r s i = rx_search_at r s (Suc i)"
  using assms by (simp add: rx_search_at_def upt_conv_Cons del: upt_Suc)

lemma search_hit:
  assumes "rx_ends r s i \<noteq> []" "i \<le> length s" shows "rx_search_at r s i = Some (i, hd (rx_ends r s i))"
  using assms by (simp add: rx_search_at_def upt_conv_Cons del: upt_Suc)

lemma search_short_run:
  assumes "k \<le> run P s i" "run P s i < n" "i \<le> length s"
  shows "rx_search_at (r_min n (RChar P)) s i = rx_search_at (r_min n (RChar P)) s (i + k)"
  using assms
proof (induction k)
  case (Suc k)
  then have "run P s (i + k) < n" by (simp add: run_add)
  then have "rx_search_at (r_min n (RChar P)) s (i + k) = rx_search_at (r_min n (RChar P)) s (Suc (i + k))"
    using Suc.prems run_le [of i s P] by (intro search_skip) (simp_all add: min_run)
  with Suc show ?case by simp
qed simp

lemma search_beyond: "rx_search_at r s i = Some (a, b) \<Longrightarrow> i \<le> a \<and> a \<le> length s \<and> b \<in> set (rx_ends r s a)"
  unfolding rx_search_at_def by (auto simp: find_Some_iff simp del: upt_Suc split: option.splits)

lemma long_runs_drop:
  assumes "i < length s"
  shows "long_runs n P i (drop i s) =
    (if n \<le> run P s i \<and> 0 < run P s i then [(i, i + run P s i)] else []) @
    long_runs n P (i + max 1 (run P s i)) (drop (i + max 1 (run P s i)) s)"
proof -
  obtain c cs where d: "drop i s = c # cs" using assms by (cases "drop i s") auto
  then have cs: "cs = drop (Suc i) s" by (metis drop_Suc tl_drop list.sel(3))
  have r: "run P s i = length (takeWhile P (c # cs))" by (simp add: run_def d)
  show ?thesis
  proof (cases "run P s i = 0")
    case True
    then show ?thesis unfolding d using cs r by (auto simp: Let_def max_def split: if_splits)
  next
    case False
    have dd: "drop (run P s i) (c # cs) = drop (i + run P s i) s" by (metis d drop_drop add.commute)
    have m: "max 1 (run P s i) = run P s i" using False by simp
    show ?thesis unfolding m using False r dd by (simp add: d Let_def del: takeWhile.simps)
  qed
qed

lemma spans_long_runs:
  assumes "0 < n"
  shows "i \<le> length s \<Longrightarrow> length s - i < fuel \<Longrightarrow>
    rx_spans_from fuel (r_min n (RChar P)) s i = long_runs n P i (drop i s)"
proof (induction "length s - i" arbitrary: i fuel rule: less_induct)
  case less
  let ?r = "r_min n (RChar P)" and ?k = "max 1 (run P s i)"
  from less.prems obtain f where f: "fuel = Suc f" by (cases fuel) auto
  show ?case
  proof (cases "i < length s")
    case False
    then have "run P s i = 0" using run_le [of i s P] less.prems(1) by simp
    then have "rx_search_at ?r s i = None"
      using False less.prems(1) assms by (simp add: rx_search_at_def min_run)
    then show ?thesis using False by (simp add: f)
  next
    case True
    show ?thesis
    proof (cases "n \<le> run P s i")
      case hit: True
      then have "rx_search_at ?r s i = Some (i, i + run P s i)"
        using True by (subst search_hit) (simp_all add: min_run)
      then have "rx_spans_from fuel ?r s i = (i, i + run P s i) # rx_spans_from f ?r s (i + run P s i)"
        using hit assms by (simp add: f)
      also have "rx_spans_from f ?r s (i + run P s i) = long_runs n P (i + run P s i) (drop (i + run P s i) s)"
        using hit assms less.prems run_le [of i s P] True f by (intro less.hyps) auto
      finally show ?thesis using True hit assms by (simp add: long_runs_drop max_def)
    next
      case miss: False
      have le: "i + ?k \<le> length s" using True run_le [of i s P] by (auto simp: max_def)
      have same: "rx_search_at ?r s i = rx_search_at ?r s (i + ?k)"
      proof (cases "run P s i = 0")
        case zero: True
        then have "rx_ends ?r s i = []" using miss by (simp add: min_run)
        then show ?thesis using zero True search_skip [of ?r s i] by simp
      next
        case False
        then have "?k = run P s i" by simp
        then show ?thesis using search_short_run [of "run P s i" P s i n] miss True by simp
      qed
      have "rx_spans_from fuel ?r s i = rx_spans_from fuel ?r s (i + ?k)"
      proof (cases "rx_search_at ?r s (i + ?k)")
        case None
        then show ?thesis by (simp add: f same)
      next
        case (Some p)
        then obtain a b where ab: "rx_search_at ?r s (i + ?k) = Some (a, b)" by (cases p) auto
        then have "i + ?k \<le> a" "a + n \<le> b"
          using search_beyond [OF ab] by (auto simp: min_run split: if_splits)
        then show ?thesis unfolding f rx_spans_from.simps same ab using assms by simp
      qed
      also have "\<dots> = long_runs n P (i + ?k) (drop (i + ?k) s)"
        using less.prems True le by (intro less.hyps) auto
      finally show ?thesis using True miss by (simp add: long_runs_drop)
    qed
  qed
qed

lemma rx_spans_runs: "0 < n \<Longrightarrow> rx_spans (r_min n (RChar P)) s = long_runs n P 0 s"
  using spans_long_runs [of n 0 s "Suc (length s)" P] by (simp add: rx_spans_def)

end
