(* ===== verification/Anonymizer.thy ===== *)
theory Anonymizer
  imports PyText
begin

text \<open>
  Path and user name anonymization, from \<^verbatim>\<open>security/anonymizer.py\<close>. The digest of a user name (eight
  hexadecimal digits) and the login name of the process are parameters.
\<close>

record anonymizer_env =
  an_hash :: "string \<Rightarrow> string"
  an_login :: "string option"

definition SYSTEM_USERNAMES :: "string list" where
  "SYSTEM_USERNAMES = [''Shared'', ''runner'', ''lib'', ''admin'', ''root'', ''default'', ''Public'', ''Guest'']"

definition anonymized_username :: "anonymizer_env \<Rightarrow> string \<Rightarrow> string" where
  "anonymized_username E u = ''[ot-user-'' @ an_hash E u @ '']''"

definition BS :: string where "BS = [CHR 0x5C]"

definition r_letter :: rx where "r_letter = RChar is_ascii_alpha"

section \<open>Detection\<close>

definition USERNAME_RE :: rx where
  "USERNAME_RE = r_seq [r_class '''', r_min 2 (r_class ''_-'')]"

text \<open>Each pattern with the length of what stands before the name, and of what stands after it.\<close>

definition detect_patterns :: "(rx \<times> nat \<times> nat) list" where
  "detect_patterns =
     [(r_seq [r_lit ''/Users/'', USERNAME_RE, r_lit ''/''], 7, 1),
      (r_seq [r_lit ''/home/'', USERNAME_RE, r_lit ''/''], 6, 1),
      (r_seq [r_letter, r_lit ('':'' @ BS @ ''Users'' @ BS), USERNAME_RE, r_lit BS], 9, 1),
      (r_seq [r_letter, r_lit '':/Users/'', USERNAME_RE, r_lit ''/''], 9, 1)]"

definition extract_usernames_from_paths :: "string \<Rightarrow> string list" where
  "extract_usernames_from_paths s =
     filter (\<lambda>u. u \<notin> set SYSTEM_USERNAMES)
       (concat (map (\<lambda>(r, before, after). map (\<lambda>(a, b). slice s (a + before) (b - after)) (rx_spans r s)) detect_patterns))"

section \<open>Replacement patterns\<close>

definition path_patterns :: "anonymizer_env \<Rightarrow> string \<Rightarrow> (rx \<times> string) list" where
  "path_patterns E u =
     (let h = anonymized_username E u; not_bs = r_plus (RChar (\<lambda>c. c \<noteq> CHR 0x5C)); not_slash = r_plus (RChar (\<lambda>c. c \<noteq> CHR ''/'')) in
      [(r_seq [r_lit ''/Users/'', r_lit u, r_lit ''/''], ''/Users/'' @ h @ ''/''),
       (r_seq [r_lit ''/home/'', r_lit u, r_lit ''/''], ''/home/'' @ h @ ''/''),
       (r_seq [r_letter, r_lit ('':'' @ BS @ ''Users'' @ BS), r_lit u, r_lit BS], ''C:'' @ BS @ ''Users'' @ BS @ h @ BS),
       (r_seq [r_letter, r_lit '':/Users/'', r_lit u, r_lit ''/''], ''C:/Users/'' @ h @ ''/''),
       (r_seq [r_lit ''/mnt/'', RChar (\<lambda>c. is_ascii_alpha c \<and> 97 \<le> ord_of c), r_lit ''/Users/'', r_lit u, r_lit ''/''],
         ''/mnt/c/Users/'' @ h @ ''/''),
       (r_seq [r_lit (BS @ BS @ ''wsl.localhost'' @ BS), not_bs, r_lit (BS @ ''home'' @ BS), r_lit u, r_lit BS],
         BS @ BS @ ''wsl.localhost'' @ BS @ ''distro'' @ BS @ ''home'' @ BS @ h @ BS),
       (r_seq [r_lit ''//wsl.localhost/'', not_slash, r_lit ''/home/'', r_lit u, r_lit ''/''],
         ''//wsl.localhost/distro/home/'' @ h @ ''/'')])"

definition build_path_only_patterns :: "anonymizer_env \<Rightarrow> string list \<Rightarrow> (rx \<times> string) list" where
  "build_path_only_patterns E us = concat (map (path_patterns E) us)"

definition build_patterns :: "anonymizer_env \<Rightarrow> string list \<Rightarrow> (rx \<times> string) list" where
  "build_patterns E us = concat (map (\<lambda>u. path_patterns E u @
     [(r_seq [r_lit ''-Users-'', r_lit u, r_lit ''-''], ''-Users-'' @ anonymized_username E u @ ''-''),
      (r_seq [r_lit ''~'', r_lit u, RAhead (RAlt (r_lit ''/'') REnd)], ''~'' @ anonymized_username E u)]) us)"

section \<open>Home path tails\<close>

definition r_slash :: rx where "r_slash = RChar (\<lambda>c. c = CHR ''/'' \<or> c = CHR 0x5C)"

text \<open>The quotes are the code points 34, 39 and 96.\<close>

definition r_tail :: rx where
  "r_tail = RSeq r_slash (r_plus (RChar (\<lambda>c. \<not> is_space c \<and> ord_of c \<notin> {34, 39, 96} \<and> c \<notin> set ''<>'')))"

definition MARKER_TAIL_RE :: rx where
  "MARKER_TAIL_RE = r_seq [r_slash, r_words [''Users'', ''home''], r_slash, r_lit ''[ot-user-'',
     r_rep 8 (RChar (\<lambda>c. is_digit c \<or> 97 \<le> ord_of c \<and> ord_of c \<le> 102)), r_lit '']'', r_tail]"

text \<open>The first group ends with the only closing bracket before the tail.\<close>

definition marker_group :: "string \<Rightarrow> string" where
  "marker_group m = takeWhile (\<lambda>c. c \<noteq> CHR '']'') m @ '']''"

definition HOME_PATH_CONSUME_RE :: rx where
  "HOME_PATH_CONSUME_RE = r_seq [r_slash, r_iwords [''users'', ''home''], r_slash, r_plus (r_class ''._-''), r_opt r_tail]"

definition hash_and_drop_tail :: "anonymizer_env \<Rightarrow> string \<Rightarrow> string" where
  "hash_and_drop_tail E m =
     (let n = (if lower (slice m 1 6) = ''users'' then 7 else 6) in
      take n m @ anonymized_username E (takeWhile (alnum_or ''._-'') (drop n m)))"

definition consume_home_tail :: "anonymizer_env \<Rightarrow> string \<Rightarrow> string" where
  "consume_home_tail E s =
     rx_sub_fun HOME_PATH_CONSUME_RE (hash_and_drop_tail E) (rx_sub_fun MARKER_TAIL_RE marker_group s)"

section \<open>Anonymization\<close>

text \<open>\<^verbatim>\<open>re.sub(re.escape(u), h, s)\<close>; the empty pattern matches between all characters.\<close>

definition replace_all :: "string \<Rightarrow> string \<Rightarrow> string \<Rightarrow> string" where
  "replace_all u h s = (if u = [] then h @ concat (map (\<lambda>c. c # h) s) else rx_sub (r_lit u) h s)"

text \<open>The given names in order, each once.\<close>

fun dedupe :: "string list \<Rightarrow> string list \<Rightarrow> string list" where
  "dedupe seen [] = []"
| "dedupe seen (u # us) = (if u \<in> set seen then dedupe seen us else u # dedupe (u # seen) us)"

definition explicit_names :: "anonymizer_env \<Rightarrow> string option \<Rightarrow> string list option \<Rightarrow> string list" where
  "explicit_names E username extra =
     dedupe [] ((case username of Some u \<Rightarrow> [u]
         | None \<Rightarrow> (case an_login E of None \<Rightarrow> [] | Some u \<Rightarrow> if u = [] then [] else [u])) @
       (case extra of None \<Rightarrow> [] | Some us \<Rightarrow> us))"

definition anonymize_full :: "anonymizer_env \<Rightarrow> string list \<Rightarrow> bool \<Rightarrow> string \<Rightarrow> string" where
  "anonymize_full E explicit consume_tail s =
     (let auto_only = sort (remdups (filter (\<lambda>u. u \<notin> set explicit) (extract_usernames_from_paths s)));
          tailed = (\<lambda>t. if consume_tail then consume_home_tail E t else t)
      in if explicit = [] \<and> auto_only = [] then tailed s
         else
           (let patterns = build_patterns E explicit @ build_path_only_patterns E auto_only;
                result = fold (\<lambda>(r, rep) t. rx_sub r rep t) patterns s;
                bare = fold (\<lambda>u t. replace_all u (anonymized_username E u) t) explicit result
            in tailed bare))"

definition nothing_to_anonymize :: "string list \<Rightarrow> string \<Rightarrow> bool" where
  "nothing_to_anonymize explicit s \<longleftrightarrow>
     \<not> substr ''users'' (lower s) \<and> \<not> substr ''home'' (lower s) \<and> \<not> list_ex (\<lambda>u. substr u s) explicit"

definition anonymize_paths :: "anonymizer_env \<Rightarrow> string option \<Rightarrow> string list option \<Rightarrow> bool \<Rightarrow> string \<Rightarrow> string" where
  "anonymize_paths E username extra consume_tail s =
     (if s = [] then s
      else let explicit = explicit_names E username extra in
        if nothing_to_anonymize explicit s then s else anonymize_full E explicit consume_tail s)"

end
