(* ===== verification/SecurityTools.thy ===== *)
theory SecurityTools
  imports Secrets Anonymizer
begin

text \<open>
  The tools of the security pipeline, from \<^verbatim>\<open>security/tools/\<close>, with the heuristics of
  \<^verbatim>\<open>security/classifier.py\<close>. A tool's \<^verbatim>\<open>find\<close> gives spans, its \<^verbatim>\<open>apply\<close> rewrites a trace. What stands behind
  three of them (the TruffleHog program, the named-entity model, the language model) is a parameter.
\<close>

record finding =
  fi_tool :: string
  fi_pattern :: string
  fi_text :: string
  fi_start :: nat
  fi_end :: nat
  fi_severity :: string
  fi_path :: string

record verdict =
  vd_name :: string
  vd_summary :: string
  vd_decision :: string
  vd_payload :: "(string, json) dict"

record tool_result =
  tr_findings :: "finding list"
  tr_redactions :: nat
  tr_verdict :: "verdict option"
  tr_metadata :: "(string, json) dict"
  tr_blocked :: bool
  tr_error :: "string option"

definition plain_result :: "finding list \<Rightarrow> nat \<Rightarrow> (string, json) dict \<Rightarrow> tool_result" where
  "plain_result fs n md = \<lparr>tr_findings = fs, tr_redactions = n, tr_verdict = None, tr_metadata = md, tr_blocked = False, tr_error = None\<rparr>"

definition finding_span :: "finding \<Rightarrow> span" where
  "finding_span f = (fi_start f, fi_end f)"

type_synonym finder = "string \<Rightarrow> field_type \<Rightarrow> finding list"

definition of_match :: "string \<Rightarrow> secret_match \<Rightarrow> finding" where
  "of_match tool m = \<lparr>fi_tool = tool, fi_pattern = sm_pattern m, fi_text = sm_text m, fi_start = sm_start m,
     fi_end = sm_end m, fi_severity = sm_severity m, fi_path = []\<rparr>"

section \<open>Detectors\<close>

text \<open>The default \<^verbatim>\<open>apply\<close>: every visited text is redacted at its findings, which are recorded with the path.\<close>

definition detector_transform :: "finder \<Rightarrow> finding transform" where
  "detector_transform find_in p ft s =
     (let spans = find_in s ft in
      if spans = [] then (None, [])
      else (Some (redact_spans REDACTED s (map finding_span spans)), map (fi_path_update (\<lambda>_. p)) spans))"

definition detector_metadata :: "finding list \<Rightarrow> (string, json) dict" where
  "detector_metadata fs = [(''findings_count'', JInt (int (length fs))), (''redactions_applied'', JInt (int (length fs)))]"

definition detector_apply :: "finder \<Rightarrow> trace_record \<Rightarrow> trace_record \<times> tool_result" where
  "detector_apply find_in r =
     (let (r', n, fs) = walk_string_fields (detector_transform find_in) r
      in (r', plain_result fs (length fs) (detector_metadata fs)))"

definition regex_find :: finder where
  "regex_find s ft = map (of_match ''regex'') (scan_text s False DEFAULT_ENTROPY_THRESHOLD)"

definition entropy_find :: finder where
  "entropy_find s ft =
     (if ft \<noteq> TOOL_INPUT \<and> ft \<noteq> GENERAL then []
      else map (of_match ''entropy'')
        (filter (\<lambda>m. \<not> is_allowlisted (sm_pattern m) (sm_text m) s (sm_start m) None)
          (find_high_entropy s DEFAULT_ENTROPY_THRESHOLD)))"

definition INTERNAL_HOSTNAME :: rx where
  "INTERNAL_HOSTNAME = r_seq [RWordB, r_class '''', r_opt (r_seq [r_range 0 61 (r_class ''-''), r_class '''']),
     r_dot, r_words [''internal'', ''corp'', ''local''], RWordB]"

definition r_arn :: "string \<Rightarrow> rx" where
  "r_arn extra = RChar (\<lambda>c. is_digit c \<or> 97 \<le> ord_of c \<and> ord_of c \<le> 122 \<or> c \<in> set extra)"

definition AWS_ACCOUNT_ID :: rx where
  "AWS_ACCOUNT_ID = r_seq [r_lit ''arn:aws:'', r_plus (r_arn ''-''), r_lit '':'', RStar (r_arn ''-''), r_lit '':'',
     r_rep 12 r_digit, r_lit '':'']"

definition DB_CONNECTION_STRING :: rx where
  "DB_CONNECTION_STRING = r_seq [r_alt [r_seq [r_lit ''jdbc:'', r_plus (RChar (\<lambda>c. 97 \<le> ord_of c \<and> ord_of c \<le> 122)), r_lit ''://''],
     r_lit ''mongodb+srv://''], r_min 8 r_unquoted]"

definition INTERNAL_URL :: rx where
  "INTERNAL_URL = r_seq [r_lit ''http'', r_opt (r_lit ''s''), r_lit ''://'',
     r_alt [r_seq [r_lit ''jira.'', r_plus (r_class ''.-'')],
       r_seq [r_lit ''confluence.'', r_plus (r_class ''.-'')],
       r_seq [r_plus (r_class ''.-''), r_lit ''.atlassian.net''],
       r_seq [r_plus (r_class ''.-''), r_lit ''.slack.com/archives'']]]"

definition span_finding :: "string \<Rightarrow> string \<Rightarrow> string \<Rightarrow> string \<Rightarrow> span \<Rightarrow> finding" where
  "span_finding tool pattern severity s p = \<lparr>fi_tool = tool, fi_pattern = pattern, fi_text = slice s (fst p) (snd p),
     fi_start = fst p, fi_end = snd p, fi_severity = severity, fi_path = []\<rparr>"

text \<open>Of an account number in an ARN only the twelve digits before the last colon are redacted.\<close>

definition account_digits :: "span \<Rightarrow> span" where
  "account_digits p = (snd p - 13, snd p - 1)"

definition business_logic_find :: finder where
  "business_logic_find s ft =
     map (span_finding ''business_logic'' ''internal_hostname'' ''high'' s) (rx_spans INTERNAL_HOSTNAME s) @
     map (span_finding ''business_logic'' ''internal_url'' ''medium'' s) (rx_spans INTERNAL_URL s) @
     map (span_finding ''business_logic'' ''db_connection_string'' ''high'' s) (rx_spans DB_CONNECTION_STRING s) @
     map (span_finding ''business_logic'' ''aws_account_id'' ''high'' s) (map account_digits (rx_spans AWS_ACCOUNT_ID s))"

section \<open>Detectors with something behind them\<close>

text \<open>The located texts of the findings of an outside detector.\<close>

definition located_findings :: "string \<Rightarrow> (string \<Rightarrow> string) \<Rightarrow> string \<Rightarrow> string \<Rightarrow> string \<Rightarrow> string list \<Rightarrow> finding list" where
  "located_findings tool pattern severity p s subs =
     map (\<lambda>(sub, a, b). \<lparr>fi_tool = tool, fi_pattern = pattern sub, fi_text = sub, fi_start = a, fi_end = b,
       fi_severity = severity, fi_path = p\<rparr>) (locate_substrings s subs)"

definition redact_findings :: "string \<Rightarrow> finding list \<Rightarrow> string option \<times> finding list" where
  "redact_findings s fs = (if fs = [] then (None, []) else (Some (redact_spans REDACTED s (map finding_span fs)), fs))"

text \<open>The language model answers a field with entity types and texts; a failure is no answer.\<close>

type_synonym llm_detect = "string \<Rightarrow> string \<Rightarrow> string \<Rightarrow> (string \<times> string) list option"

definition llm_pii_transform :: "llm_detect \<Rightarrow> finding transform" where
  "llm_pii_transform detect p ft s =
     (case detect p s (field_value ft) of None \<Rightarrow> (None, [])
      | Some pairs \<Rightarrow> redact_findings s
          (concat (map (\<lambda>(etype, etext). located_findings ''llm_pii'' (\<lambda>_. etype) ''high'' p s [etext]) pairs)))"

definition llm_pii_apply :: "string \<Rightarrow> llm_detect option \<Rightarrow> trace_record \<Rightarrow> trace_record \<times> tool_result" where
  "llm_pii_apply prompt_version det r =
     (case det of
        None \<Rightarrow> (r, (plain_result [] 0 [(''status'', JStr ''disabled'')])\<lparr>tr_error := Some ''llm_pii disabled or provider unavailable''\<rparr>)
      | Some d \<Rightarrow>
          (let (r', n, fs) = walk_string_fields (llm_pii_transform d) r
           in (r', plain_result fs (length fs) ((''status'', JStr ''ran'') # detector_metadata fs @ [(''prompt_version'', JStr prompt_version)]))))"

definition llm_pii_find :: "llm_detect option \<Rightarrow> finder" where
  "llm_pii_find det s ft =
     (case det of None \<Rightarrow> []
      | Some d \<Rightarrow> (case d ''$'' s (field_value ft) of None \<Rightarrow> []
          | Some pairs \<Rightarrow> concat (map (\<lambda>(etype, etext). located_findings ''llm_pii'' (\<lambda>_. etype) ''high'' [] s [etext]) pairs)))"

text \<open>The named-entity model answers a text with spans above the threshold.\<close>

record ner_model =
  ner_name :: string
  ner_threshold :: rat
  ner_detect :: "string \<Rightarrow> (string \<times> string \<times> span) list"

definition ner_findings :: "ner_model \<Rightarrow> string \<Rightarrow> finding list" where
  "ner_findings m s = map (\<lambda>(etype, t, a, b). \<lparr>fi_tool = ''privacy_filter'', fi_pattern = etype, fi_text = t,
     fi_start = a, fi_end = b, fi_severity = ''high'', fi_path = []\<rparr>) (ner_detect m s)"

definition privacy_filter_find :: "ner_model option \<Rightarrow> finder" where
  "privacy_filter_find model s ft = (case model of None \<Rightarrow> [] | Some m \<Rightarrow> ner_findings m s)"

definition privacy_filter_apply :: "ner_model option \<Rightarrow> trace_record \<Rightarrow> trace_record \<times> tool_result" where
  "privacy_filter_apply model r =
     (case model of
        None \<Rightarrow> (r, (plain_result [] 0 [(''status'', JStr ''unavailable'')])
          \<lparr>tr_error := Some ''privacy-filter unavailable (missing transformers / model)''\<rparr>)
      | Some m \<Rightarrow>
          (let (r', n, fs) = walk_string_fields (detector_transform (\<lambda>s ft. ner_findings m s)) r
           in (r', plain_result fs (length fs) ((''status'', JStr ''ran'') # detector_metadata fs @
                [(''model_name'', JStr (ner_name m)), (''score_threshold'', JFloat (ner_threshold m))]))))"

text \<open>The report of the TruffleHog program: the findings with their raw match, and what it says of itself.\<close>

record th_finding =
  th_detector :: "string option"
  th_raw :: "string option"
  th_detail :: json

record th_report =
  th_findings :: "th_finding list"
  th_version :: json
  th_scanned_at :: json

definition th_match :: "th_finding \<Rightarrow> string" where
  "th_match f = (case th_raw f of None \<Rightarrow> [] | Some s \<Rightarrow> strip s)"

definition detector_for :: "th_finding list \<Rightarrow> string \<Rightarrow> string" where
  "detector_for fs raw =
     (case find (\<lambda>f. th_match f = raw) fs of None \<Rightarrow> ''trufflehog''
      | Some f \<Rightarrow> (case th_detector f of None \<Rightarrow> ''trufflehog'' | Some d \<Rightarrow> if d = [] then ''trufflehog'' else d))"

text \<open>Longest match first; the order of matches of one length is that of a set.\<close>

definition raw_matches :: "th_report \<Rightarrow> string list" where
  "raw_matches rep = sort_key (\<lambda>s. - int (length s)) (remdups (filter (\<lambda>s. s \<noteq> []) (map th_match (th_findings rep))))"

definition th_metadata :: "bool \<Rightarrow> th_report \<Rightarrow> (string, json) dict" where
  "th_metadata verify rep =
     [(''status'', JStr (if th_findings rep \<noteq> [] then ''findings'' else ''clean'')), (''version'', th_version rep),
      (''scanned_at'', th_scanned_at rep), (''findings_count'', JInt (int (length (th_findings rep)))),
      (''findings'', JList (map th_detail (th_findings rep))), (''verify'', JBool verify)]"

definition trufflehog_apply :: "bool \<Rightarrow> (trace_record \<Rightarrow> string + th_report) \<Rightarrow> trace_record \<Rightarrow> trace_record \<times> tool_result" where
  "trufflehog_apply verify scan r =
     (case scan r of
        Inl err \<Rightarrow> (r, (plain_result [] 0 [(''status'', JStr ''error''), (''error'', JStr err)])\<lparr>tr_error := Some err\<rparr>)
      | Inr rep \<Rightarrow>
          if th_findings rep = [] then (r, plain_result [] 0 (th_metadata verify rep))
          else
            (let (r', n, fs) = walk_string_fields (\<lambda>p ft s. redact_findings s
                   (located_findings ''trufflehog'' (detector_for (th_findings rep)) ''critical'' p s (raw_matches rep))) r
             in (r', (plain_result fs (length fs)
                    (th_metadata verify rep @ [(''redactions_applied'', JInt (int (length fs)))]))\<lparr>tr_blocked := True\<rparr>)))"

end
