(* ===== verification/RegexFacts.thy ===== *)
theory RegexFacts
  imports PyText
begin

text \<open>
  Facts about the pattern matcher the component proofs share: what a literal matches, and that a pattern which
  needs a text finds nothing, and replaces nothing, where that text does not occur.
\<close>

section \<open>Literals\<close>

lemma lit_step: "r_lit (c # w) = RSeq (RChar (\<lambda>d. d = c)) (r_lit w)"
  by (simp add: r_lit_def)

lemma lit_ends:
  "i \<le> length s \<Longrightarrow> rx_ends (r_lit w) s i = (if starts_with (drop i s) w then [i + length w] else [])"
proof (induction w arbitrary: i)
  case Nil
  then show ?case by (simp add: r_lit_def starts_with_def)
next
  case (Cons c w)
  show ?case
  proof (cases "i < length s \<and> s ! i = c")
    case True
    then have "drop i s = c # drop (Suc i) s" using Cons_nth_drop_Suc [of i s] by simp
    then show ?thesis using True Cons.IH [of "Suc i"] by (simp add: lit_step starts_with_def)
  next
    case False
    then have "\<not> starts_with (drop i s) (c # w)"
      by (cases "i < length s") (auto simp: starts_with_def Cons_nth_drop_Suc [symmetric])
    then show ?thesis using False by (auto simp: lit_step)
  qed
qed

lemma empty_ends [simp]: "concat (map (rx_ends REmpty s) xs) = xs"
  by (induction xs) auto

lemma alt_ends: "set (rx_ends (r_alt rs) s i) = (\<Union>r\<in>set rs. set (rx_ends r s i))"
  by (induction rs rule: r_alt.induct) auto

lemma words_match:
  "rx_match (r_seq [r_lit p, r_words ws]) s \<longleftrightarrow> (\<exists>w\<in>set ws. starts_with s (p @ w))"
proof -
  have cut: "starts_with s (p @ w) \<longleftrightarrow> starts_with s p \<and> starts_with (drop (length p) s) w" for w
    by (auto simp: starts_with_iff)
  have "rx_ends (r_seq [r_lit p, r_words ws]) s 0 \<noteq> [] \<longleftrightarrow> starts_with s p \<and>
      (\<exists>w\<in>set ws. rx_ends (r_lit w) s (length p) \<noteq> [])"
  proof (cases "starts_with s p")
    case True
    have "rx_ends (r_seq [r_lit p, r_words ws]) s 0 = rx_ends (r_words ws) s (length p)"
      using True by (simp add: r_seq_def lit_ends)
    moreover have "rx_ends (r_words ws) s (length p) \<noteq> [] \<longleftrightarrow> (\<exists>w\<in>set ws. rx_ends (r_lit w) s (length p) \<noteq> [])"
      using alt_ends [of "map r_lit ws" s "length p"] by (auto simp: r_words_def set_empty [symmetric] simp del: set_empty)
    ultimately show ?thesis using True by simp
  next
    case False
    then show ?thesis by (simp add: r_seq_def lit_ends)
  qed
  moreover have "rx_ends (r_lit w) s (length p) \<noteq> [] \<longleftrightarrow> starts_with (drop (length p) s) w" if "starts_with s p" for w
  proof -
    have "length p \<le> length s" using that by (auto simp: starts_with_iff)
    then show ?thesis by (simp add: lit_ends)
  qed
  ultimately show ?thesis unfolding rx_match_def cut by blast
qed

section \<open>Patterns that need a text\<close>

text \<open>No match of \<open>r\<close> starts anywhere in \<open>s\<close>.\<close>

definition absent :: "rx \<Rightarrow> string \<Rightarrow> bool" where
  "absent r s \<longleftrightarrow> (\<forall>i\<le>length s. rx_ends r s i = [])"

lemma ends_within: "i \<le> length s \<Longrightarrow> j \<in> set (rx_ends r s i) \<Longrightarrow> j \<le> length s"
proof (induction r arbitrary: i j)
  case (RSeq a b)
  from RSeq.prems(2) obtain k where "k \<in> set (rx_ends a s i)" "j \<in> set (rx_ends b s k)" by auto
  then show ?case using RSeq.IH RSeq.prems(1) by blast
next
  case (RAlt a b)
  from RAlt.prems(2) have "j \<in> set (rx_ends a s i) \<or> j \<in> set (rx_ends b s i)" by simp
  then show ?case using RAlt.IH RAlt.prems(1) by blast
next
  case (RStar r)
  have "i \<le> length s \<Longrightarrow> j \<in> set (rx_star n (rx_ends r s) i) \<Longrightarrow> j \<le> length s" for n
  proof (induction n arbitrary: i)
    case (Suc n)
    from Suc.prems(2) consider "j = i" | k where "k \<in> set (rx_ends r s i)" "j \<in> set (rx_star n (rx_ends r s) k)"
      by (auto split: if_splits)
    then show ?case using Suc RStar.IH by cases blast+
  qed simp
  with RStar.prems show ?case by simp
qed (auto split: if_splits)

lemma absent_seq [intro]: "absent a s \<Longrightarrow> absent (RSeq a b) s"
  by (simp add: absent_def)

lemma absent_seq_right: "absent b s \<Longrightarrow> absent (RSeq a b) s"
  unfolding absent_def using ends_within by auto

lemma absent_r_seq: "r \<in> set rs \<Longrightarrow> absent r s \<Longrightarrow> absent (r_seq rs) s"
  by (induction rs) (auto simp: r_seq_def intro: absent_seq_right)

lemma absent_lit: "\<not> substr w s \<Longrightarrow> absent (r_lit w) s"
  unfolding absent_def substr_def by (auto simp: lit_ends find_from_None)

lemma absent_search: "absent r s \<Longrightarrow> rx_search_at r s i = None"
  unfolding absent_def rx_search_at_def by (auto simp: find_None_iff simp del: upt_Suc split: option.split)

lemma absent_sub [simp]: "absent r s \<Longrightarrow> rx_sub r rep s = s"
  by (simp add: rx_sub_def absent_search)

lemma absent_spans [simp]: "absent r s \<Longrightarrow> rx_spans r s = []"
  by (simp add: rx_spans_def absent_search)

lemma absent_sub_fun [simp]: "absent r s \<Longrightarrow> rx_sub_fun r f s = s"
  by (simp add: rx_sub_fun_def)

lemma substr_trans: "substr a b \<Longrightarrow> substr b c \<Longrightarrow> substr a c"
  unfolding substr_iff by (metis append.assoc)

lemma substr_lower: "substr a s \<Longrightarrow> substr (lower a) (lower s)"
  unfolding substr_iff lower_def by (metis map_append)

text \<open>A text with a needed word in it that \<open>s\<close> lacks in any case is no literal of \<open>s\<close>.\<close>

lemma absent_lit_lower: "\<not> substr w (lower s) \<Longrightarrow> substr w (lower t) \<Longrightarrow> absent (r_lit t) s"
  using absent_lit [of t s] substr_lower [of t s] substr_trans [of w "lower t" "lower s"] by blast

lemma ilit_step: "r_ilit (c # w) = RSeq (RChar (\<lambda>d. lower_char d = c)) (r_ilit w)"
  by (simp add: r_ilit_def)

lemma ilit_ends:
  "i \<le> length s \<Longrightarrow> rx_ends (r_ilit w) s i \<noteq> [] \<Longrightarrow> starts_with (drop i (lower s)) w"
proof (induction w arbitrary: i)
  case Nil
  then show ?case by (simp add: starts_with_def)
next
  case (Cons c w)
  then have i: "i < length s" "lower_char (s ! i) = c" "rx_ends (r_ilit w) s (Suc i) \<noteq> []"
    by (auto simp: ilit_step split: if_splits)
  then have "starts_with (drop (Suc i) (lower s)) w" using Cons.IH [of "Suc i"] by simp
  moreover have "drop i (lower s) = c # drop (Suc i) (lower s)"
    using i by (simp add: lower_def Cons_nth_drop_Suc [symmetric])
  ultimately show ?case by (simp add: starts_with_def)
qed

lemma absent_ilit:
  assumes "\<not> substr w (lower s)" shows "absent (r_ilit w) s"
  unfolding absent_def
proof (intro allI impI)
  fix i assume i: "i \<le> length s"
  then have "i \<le> length (lower s)" by (simp add: lower_def)
  then have "\<not> starts_with (drop i (lower s)) w" using assms find_from_None [of "lower s" w 0] by (auto simp: substr_def)
  with ilit_ends [OF i] show "rx_ends (r_ilit w) s i = []" by blast
qed

lemma absent_alt: "absent a s \<Longrightarrow> absent b s \<Longrightarrow> absent (RAlt a b) s"
  by (simp add: absent_def)

lemma absent_r_alt: "\<forall>r\<in>set rs. absent r s \<Longrightarrow> absent (r_alt rs) s"
  unfolding absent_def by (auto simp: set_empty [symmetric] alt_ends simp del: set_empty)

end
