(* ===== verification/EntropyProps.thy ===== *)
theory EntropyProps
  imports SecretProps SecurityTools RegexFacts
begin

text \<open>
  The entropy detector and its redaction: the shortcut on the number of distinct characters never changes a
  verdict, and a text redacted at its findings has none left.
\<close>

section \<open>Replacing the bad runs\<close>

text \<open>The maximal runs of a class as texts, and the text with its long bad runs replaced.\<close>

function runs :: "(char \<Rightarrow> bool) \<Rightarrow> string \<Rightarrow> string list" where
  "runs P [] = []"
| "runs P (c # cs) =
     (if P c then takeWhile P (c # cs) # runs P (dropWhile P (c # cs)) else runs P cs)"
  by pat_completeness auto
termination
proof (relation "measure (\<lambda>(P, s). length s)")
  fix P :: "char \<Rightarrow> bool" and c cs
  assume "P c"
  then show "((P, dropWhile P (c # cs)), P, c # cs) \<in> measure (\<lambda>(P, s). length s)"
    using length_dropWhile_le [of P cs] by (auto simp: less_Suc_eq_le)
qed auto

function scrub :: "(char \<Rightarrow> bool) \<Rightarrow> (string \<Rightarrow> bool) \<Rightarrow> string \<Rightarrow> string" where
  "scrub P bad [] = []"
| "scrub P bad (c # cs) =
     (if P c then (if bad (takeWhile P (c # cs)) then REDACTED else takeWhile P (c # cs)) @ scrub P bad (dropWhile P (c # cs))
      else c # scrub P bad cs)"
  by pat_completeness auto
termination
proof (relation "measure (\<lambda>(P, bad, s). length s)")
  fix P :: "char \<Rightarrow> bool" and bad :: "string \<Rightarrow> bool" and c cs
  assume "P c"
  then show "((P, bad, dropWhile P (c # cs)), P, bad, c # cs) \<in> measure (\<lambda>(P, bad, s). length s)"
    using length_dropWhile_le [of P cs] by (auto simp: less_Suc_eq_le)
qed auto

lemma runs_append: "\<forall>c\<in>set w. P c \<Longrightarrow> w \<noteq> [] \<Longrightarrow> (s \<noteq> [] \<longrightarrow> \<not> P (hd s)) \<Longrightarrow> runs P (w @ s) = w # runs P s"
proof -
  assume w: "\<forall>c\<in>set w. P c" "w \<noteq> []" and s: "s \<noteq> [] \<longrightarrow> \<not> P (hd s)"
  have "takeWhile P s = []" "dropWhile P s = s" using s by (cases s; auto)+
  then have "takeWhile P (w @ s) = w" "dropWhile P (w @ s) = s" using w by auto
  then show ?thesis using w by (cases w) auto
qed

lemma scrub_head: "s \<noteq> [] \<longrightarrow> \<not> P (hd s) \<Longrightarrow> scrub P bad s \<noteq> [] \<longrightarrow> \<not> P (hd (scrub P bad s))"
  by (cases s) auto

lemma runs_redacted:
  assumes "\<not> P (CHR ''['')" "\<not> P (CHR '']'')" "q \<in> set (runs P (REDACTED @ s))"
  shows "length q \<le> 8 \<or> q \<in> set (runs P s)"
proof -
  have mono: "q \<in> set (runs P (w @ CHR '']'' # s)) \<Longrightarrow> length q \<le> length w \<or> q \<in> set (runs P s)" for w
  proof (induction w rule: length_induct)
    case (1 w)
    show ?case
    proof (cases w)
      case Nil
      then show ?thesis using 1(2) assms(2) by simp
    next
      case (Cons c cs)
      show ?thesis
      proof (cases "P c")
        case True
        have t: "takeWhile P (w @ CHR '']'' # s) = takeWhile P w" using assms(2) by (induction w) auto
        have d: "dropWhile P (w @ CHR '']'' # s) = dropWhile P w @ CHR '']'' # s" using assms(2) by (induction w) auto
        from 1(2) True Cons t d consider "q = takeWhile P w" | "q \<in> set (runs P (dropWhile P w @ CHR '']'' # s))" by auto
        then show ?thesis
        proof cases
          case 1
          then show ?thesis using length_takeWhile_le [of P w] by simp
        next
          case 2
          have "length (dropWhile P w) < length w" using True Cons length_dropWhile_le [of P cs] by (simp add: less_Suc_eq_le)
          with 2 "1.IH" show ?thesis by fastforce
        qed
      next
        case False
        with 1(2) Cons have "q \<in> set (runs P (cs @ CHR '']'' # s))" by simp
        with "1.IH" Cons show ?thesis by fastforce
      qed
    qed
  qed
  obtain w where w: "REDACTED = CHR ''['' # w @ [CHR '']'']" "length w = 8"
    using that [of "''REDACTED''"] by (simp add: REDACTED_def)
  have "runs P (REDACTED @ s) = runs P (w @ CHR '']'' # s)" unfolding w(1) using assms(1) by simp
  then have "q \<in> set (runs P (w @ CHR '']'' # s))" using assms(3) by simp
  from mono [OF this] show ?thesis by (simp add: w(2))
qed

lemma scrub_clean:
  assumes "\<not> P (CHR ''['')" "\<not> P (CHR '']'')"
  shows "q \<in> set (runs P (scrub P bad s)) \<Longrightarrow> 8 < length q \<Longrightarrow> \<not> bad q"
  using assms
proof (induction P bad s rule: scrub.induct)
  case (2 P bad c cs)
  show ?case
  proof (cases "P c")
    case False
    with 2 show ?thesis by simp
  next
    case True
    let ?w = "takeWhile P (c # cs)" and ?d = "dropWhile P (c # cs)"
    have hd: "?d \<noteq> [] \<longrightarrow> \<not> P (hd ?d)" using hd_dropWhile by blast
    have w: "?w \<noteq> []" "\<forall>a\<in>set ?w. P a" using True by (auto dest: set_takeWhileD)
    have ih: "q \<in> set (runs P (scrub P bad ?d)) \<Longrightarrow> \<not> bad q" using 2 True by blast
    show ?thesis
    proof (cases "bad ?w")
      case b: True
      then have "scrub P bad (c # cs) = REDACTED @ scrub P bad ?d" using True by simp
      with runs_redacted [of P q "scrub P bad ?d"] "2.prems" have "length q \<le> 8 \<or> q \<in> set (runs P (scrub P bad ?d))"
        by simp
      then show ?thesis using ih "2.prems"(2) by linarith
    next
      case False
      then have "scrub P bad (c # cs) = ?w @ scrub P bad ?d" using True by simp
      then have "runs P (scrub P bad (c # cs)) = ?w # runs P (scrub P bad ?d)"
        using runs_append [OF w(2,1), of "scrub P bad ?d"] scrub_head [where P = P and s = ?d and bad = bad, OF hd] by simp
      then show ?thesis using "2.prems"(1) False ih by auto
    qed
  qed
qed simp

section \<open>Disjoint spans are not merged\<close>

definition apart :: "span list \<Rightarrow> bool" where
  "apart F \<longleftrightarrow> sorted_wrt (\<lambda>p q. snd p \<le> fst q) F \<and> (\<forall>p\<in>set F. fst p < snd p)"

lemma apart_sorted: "apart F \<Longrightarrow> sorted_spans F = F"
proof -
  assume F: "apart F"
  then have w: "sorted_wrt (\<lambda>p q. snd p \<le> fst q) F" and pos: "\<forall>p\<in>set F. fst p < snd p"
    by (simp_all add: apart_def)
  have "sorted_wrt (\<lambda>p q. span_order p < span_order q) F"
  proof (rule sorted_wrt_mono_rel [OF _ w])
    fix p q :: span assume "p \<in> set F" "snd p \<le> fst q"
    then have "fst p < fst q" using pos by fastforce
    then show "span_order p < span_order q" by (simp add: span_order_def less_prod_def)
  qed
  then have "sorted_wrt (<) (map span_order F)" by (simp add: sorted_wrt_map)
  then have "distinct F" "sorted (map span_order F)"
    by (simp_all add: strict_sorted_iff distinct_map)
  moreover have "filter (\<lambda>p. fst p < snd p) F = F" using F by (simp add: apart_def filter_id_conv)
  ultimately show ?thesis by (simp add: sorted_spans_def distinct_remdups_id sort_key_sorted_id)
qed

lemma apart_fold:
  "apart F \<Longrightarrow> \<forall>p\<in>set F. \<forall>q\<in>set acc. snd q \<le> fst p \<Longrightarrow> fold merge_span F acc = rev F @ acc"
proof (induction F arbitrary: acc)
  case (Cons p F)
  have "merge_span p acc = p # acc" using Cons.prems(2) by (cases p; cases acc) (auto split: prod.splits)
  moreover have "\<forall>r\<in>set F. \<forall>q\<in>set (p # acc). snd q \<le> fst r"
    using Cons.prems by (fastforce simp: apart_def)
  moreover have "apart F" using Cons.prems(1) by (simp add: apart_def)
  ultimately show ?case using Cons.IH [of "p # acc"] by simp
qed simp

lemma apart_merged: "apart F \<Longrightarrow> merged_spans F = rev F"
  unfolding merged_spans_def using apart_fold [of F "[]"] by (simp add: apart_sorted)

lemma long_runs_apart:
  "i \<le> length s \<Longrightarrow> 0 < n \<Longrightarrow>
    apart (long_runs n P i (drop i s)) \<and> (\<forall>p\<in>set (long_runs n P i (drop i s)). i \<le> fst p \<and> snd p \<le> length s)"
proof (induction "length s - i" arbitrary: i rule: less_induct)
  case less
  show ?case
  proof (cases "i < length s")
    case False
    then show ?thesis by (simp add: apart_def)
  next
    case True
    let ?k = "max 1 (run P s i)"
    have le: "i + ?k \<le> length s" using True run_le [of i s P] by (auto simp: max_def)
    from less.hyps [of "i + ?k"] le True less.prems(2)
    have ih: "apart (long_runs n P (i + ?k) (drop (i + ?k) s))"
      "\<forall>p\<in>set (long_runs n P (i + ?k) (drop (i + ?k) s)). i + ?k \<le> fst p \<and> snd p \<le> length s" by auto
    show ?thesis unfolding long_runs_drop [OF True]
      using ih run_le [of i s P] True by (fastforce simp: apart_def)
  qed
qed

lemma apart_filter: "apart F \<Longrightarrow> apart (filter Q F)"
  by (simp add: apart_def sorted_wrt_filter)

lemma put_runs:
  assumes "0 < n"
  shows "i \<le> length s \<Longrightarrow>
    fold (put_placeholder REDACTED) (rev (filter (\<lambda>p. bad (slice s (fst p) (snd p))) (long_runs n P i (drop i s)))) s =
      take i s @ scrub P (\<lambda>q. n \<le> length q \<and> bad q) (drop i s)"
proof (induction "length s - i" arbitrary: i rule: less_induct)
  case less
  let ?b = "\<lambda>q. n \<le> length q \<and> bad q" and ?k = "max 1 (run P s i)"
  show ?case
  proof (cases "i < length s")
    case False
    then show ?thesis using less.prems by simp
  next
    case True
    then obtain c cs where d: "drop i s = c # cs" by (cases "drop i s") auto
    have le: "i + ?k \<le> length s" using True run_le [of i s P] by (auto simp: max_def)
    have ih: "fold (put_placeholder REDACTED) (rev (filter (\<lambda>p. bad (slice s (fst p) (snd p))) (long_runs n P (i + ?k) (drop (i + ?k) s)))) s =
      take (i + ?k) s @ scrub P ?b (drop (i + ?k) s)"
      using less.hyps [of "i + ?k"] le True by auto
    show ?thesis
    proof (cases "P c")
      case False
      then have r: "run P s i = 0" by (simp add: run_def d)
      have "drop (Suc i) s = cs" "take (Suc i) s = take i s @ [c]"
        using d True by (metis drop_Suc tl_drop list.sel(3), metis take_Suc_conv_app_nth hd_drop_conv_nth list.sel(1))
      then show ?thesis using ih r False assms unfolding long_runs_drop [OF True] d by simp
    next
      case p: True
      then have r: "0 < run P s i" by (simp add: run_def d)
      then have k: "?k = run P s i" by simp
      have w: "takeWhile P (drop i s) = slice s i (i + run P s i)" "dropWhile P (drop i s) = drop (i + run P s i) s"
        using takeWhile_eq_take [of P "drop i s"] dropWhile_eq_drop [of P "drop i s"]
        by (simp_all add: slice_def run_def add.commute)
      have len: "length (slice s i (i + run P s i)) = run P s i"
        using run_le [of i s P] True by (simp add: slice_def)
      have sc: "scrub P ?b (drop i s) =
          (if ?b (slice s i (i + run P s i)) then REDACTED else slice s i (i + run P s i)) @ scrub P ?b (drop (i + run P s i) s)"
        using p w d by simp
      have tk: "take (i + run P s i) s = take i s @ slice s i (i + run P s i)"
        by (simp add: slice_def take_add)
      let ?q = "slice s i (i + run P s i)" and ?F = "filter (\<lambda>p. bad (slice s (fst p) (snd p)))"
      let ?rest = "?F (long_runs n P (i + run P s i) (drop (i + run P s i) s))"
      have fold_rest: "fold (put_placeholder REDACTED) (rev ?rest) s =
          take i s @ ?q @ scrub P ?b (drop (i + run P s i) s)"
        using ih unfolding k tk by simp
      show ?thesis
      proof (cases "?b ?q")
        case True
        then have "?F (long_runs n P i (drop i s)) = (i, i + run P s i) # ?rest"
          using r len unfolding long_runs_drop [OF \<open>i < length s\<close>] k by simp
        then have "fold (put_placeholder REDACTED) (rev (?F (long_runs n P i (drop i s)))) s =
            put_placeholder REDACTED (i, i + run P s i) (take i s @ ?q @ scrub P ?b (drop (i + run P s i) s))"
          using fold_rest by simp
        also have "\<dots> = take i s @ REDACTED @ scrub P ?b (drop (i + run P s i) s)"
          using len \<open>i < length s\<close> by (simp add: put_placeholder_def)
        finally show ?thesis unfolding sc if_P [OF True] .
      next
        case False
        then have "?F (long_runs n P i (drop i s)) = ?rest"
          using r len unfolding long_runs_drop [OF \<open>i < length s\<close>] k by auto
        then show ?thesis using fold_rest unfolding sc if_not_P [OF False] by simp
      qed
    qed
  qed
qed

lemma redact_runs:
  assumes "0 < n"
  shows "redact_spans REDACTED s (filter (\<lambda>p. bad (slice s (fst p) (snd p))) (long_runs n P 0 s)) =
    scrub P (\<lambda>q. n \<le> length q \<and> bad q) s"
  using put_runs [OF assms, of 0 s bad P] long_runs_apart [of 0 s n P] assms
  by (simp add: redact_spans_def apart_merged apart_filter)

text \<open>The long runs are among the runs.\<close>

lemma long_runs_runs:
  assumes "0 < n"
  shows "i \<le> length s \<Longrightarrow> p \<in> set (long_runs n P i (drop i s)) \<Longrightarrow>
    slice s (fst p) (snd p) \<in> set (runs P (drop i s)) \<and> n \<le> length (slice s (fst p) (snd p))"
proof (induction "length s - i" arbitrary: i rule: less_induct)
  case less
  let ?k = "max 1 (run P s i)"
  from less.prems(2) have lt: "i < length s" by (cases "i < length s") auto
  then obtain c cs where d: "drop i s = c # cs" by (cases "drop i s") auto
  have le: "i + ?k \<le> length s" using lt run_le [of i s P] by (auto simp: max_def)
  have len: "length (slice s i (i + run P s i)) = run P s i"
    using run_le [of i s P] lt by (simp add: slice_def)
  have run: "takeWhile P (drop i s) = slice s i (i + run P s i)" "dropWhile P (drop i s) = drop (i + run P s i) s"
    using takeWhile_eq_take [of P "drop i s"] dropWhile_eq_drop [of P "drop i s"]
    by (simp_all add: slice_def run_def add.commute)
  have runs: "runs P (drop i s) = (if P c then [slice s i (i + run P s i)] else []) @ runs P (drop (i + ?k) s)"
  proof (cases "P c")
    case True
    then have "0 < run P s i" by (simp add: run_def d)
    then show ?thesis using True run d by (simp add: max_def)
  next
    case False
    then have "run P s i = 0" by (simp add: run_def d)
    moreover have "drop (Suc i) s = cs" using d by (metis drop_Suc tl_drop list.sel(3))
    ultimately show ?thesis using False d by simp
  qed
  from less.prems(2) consider "p = (i, i + run P s i)" "n \<le> run P s i" "0 < run P s i"
    | "p \<in> set (long_runs n P (i + ?k) (drop (i + ?k) s))"
    unfolding long_runs_drop [OF lt] by (auto split: if_splits)
  then show ?case
  proof cases
    case 1
    then have "P c" by (auto simp: run_def d split: if_splits)
    with 1 show ?thesis unfolding runs by (simp add: len)
  next
    case 2
    then show ?thesis using less.hyps [of "i + ?k"] le lt unfolding runs by auto
  qed
qed

section \<open>The entropy detector\<close>

definition flagged_run :: "string \<Rightarrow> bool" where
  "flagged_run q \<longleftrightarrow> is_high_entropy DEFAULT_ENTROPY_THRESHOLD q \<and> \<not> is_allowlisted ''high_entropy_string'' q [] 0 None"

lemma high_entropy_allowlist:
  "is_allowlisted ''high_entropy_string'' q t i u = is_allowlisted ''high_entropy_string'' q [] 0 None"
  by (simp add: is_allowlisted_def)

lemma high_entropy_spans: "rx_spans HIGH_ENTROPY_RE s = long_runs 20 (alnum_or ''+/=_-'') 0 s"
  by (simp add: HIGH_ENTROPY_RE_def r_class_def rx_spans_runs)

lemma entropy_spans:
  "map finding_span (entropy_find s ft) =
     (if ft = TOOL_INPUT \<or> ft = GENERAL then
        filter (\<lambda>p. flagged_run (slice s (fst p) (snd p))) (long_runs 20 (alnum_or ''+/=_-'') 0 s)
      else [])"
proof -
  have *: "map finding_span (map (of_match ''entropy'') (filter (\<lambda>m. \<not> is_allowlisted (sm_pattern m) (sm_text m) s (sm_start m) None)
      (map (entropy_match s) (filter (\<lambda>p. is_high_entropy DEFAULT_ENTROPY_THRESHOLD (slice s (fst p) (snd p))) ps)))) =
      filter (\<lambda>p. flagged_run (slice s (fst p) (snd p))) ps" for ps
    by (induction ps) (auto simp: flagged_run_def entropy_match_def of_match_def finding_span_def high_entropy_allowlist [of _ s])
  show ?thesis by (simp add: entropy_find_def find_high_entropy_def high_entropy_spans * del: map_map)
qed

lemma entropy_find_clean: "entropy_find (redact_spans REDACTED s (map finding_span (entropy_find s ft))) ft = []"
proof (cases "ft = TOOL_INPUT \<or> ft = GENERAL")
  case True
  let ?P = "alnum_or ''+/=_-''" and ?b = "\<lambda>q. 20 \<le> length q \<and> flagged_run q"
  let ?t = "redact_spans REDACTED s (map finding_span (entropy_find s ft))"
  have t: "?t = scrub ?P ?b s" using True by (simp add: entropy_spans redact_runs)
  have b: "\<not> ?P (CHR ''['')" "\<not> ?P (CHR '']'')" by code_simp+
  have "\<not> flagged_run (slice ?t (fst p) (snd p))" if "p \<in> set (long_runs 20 ?P 0 ?t)" for p
  proof -
    let ?q = "slice ?t (fst p) (snd p)"
    have r: "?q \<in> set (runs ?P ?t)" "20 \<le> length ?q"
      using long_runs_runs [of 20 0 ?t p ?P] that by auto
    from r(1) have "?q \<in> set (runs ?P (scrub ?P ?b s))" by (simp only: t)
    then have "\<not> ?b ?q" using scrub_clean [OF b, of ?q ?b s] r(2) by auto
    with r(2) show ?thesis by blast
  qed
  then have "map finding_span (entropy_find ?t ft) = []" using True by (simp add: entropy_spans [of ?t] filter_empty_conv)
  then show ?thesis by simp
qed (simp add: entropy_find_def)

section \<open>Properties\<close>

lemma candidate_not_empty: "p \<in> set (rx_spans HIGH_ENTROPY_RE s) \<Longrightarrow> slice s (fst p) (snd p) \<noteq> []"
  using long_runs_runs [of 20 0 s p "alnum_or ''+/=_-''"] by (auto simp: high_entropy_spans)

text \<open>
  The shortcut of the entropy heuristic is exact: skipping a candidate whose number of distinct
  characters is too small for the threshold gives the matches of the full computation, for every text and
  every threshold.
\<close>

theorem entropy_shortcut_exact:
  "find_high_entropy s t =
     map (entropy_match s) (filter (\<lambda>p. is_high_entropy_full t (slice s (fst p) (snd p))) (rx_spans HIGH_ENTROPY_RE s))"
  unfolding find_high_entropy_def
  by (rule arg_cong [where f = "map (entropy_match s)"], rule filter_cong [OF refl])
    (simp add: is_high_entropy_full candidate_not_empty)

lemma detector_keeps_text: "keeps_text (detector_transform f)"
proof -
  have "redact_spans REDACTED s spans \<noteq> []" if "s \<noteq> []" for s spans
  proof -
    have "fold (put_placeholder REDACTED) acc s \<noteq> []" for acc
      using that by (induction acc arbitrary: s) (simp_all add: put_placeholder_def REDACTED_def)
    then show ?thesis by (simp add: redact_spans_def)
  qed
  then show ?thesis by (auto simp: keeps_text_def detector_transform_def Let_def split: if_splits)
qed

text \<open>What a detector that leaves nothing behind in a text leaves in a trace.\<close>

lemma detector_apply_twice:
  assumes clean: "\<And>s ft. f (redact_spans REDACTED s (map finding_span (f s ft))) ft = []"
  shows "tr_findings (snd (detector_apply f (fst (detector_apply f r)))) = []"
    and "record_texts (fst (detector_apply f (fst (detector_apply f r)))) = record_texts (fst (detector_apply f r))"
proof -
  let ?T = "detector_transform f" and ?r = "fst (walk_string_fields (detector_transform f) r)"
  have once: "record_texts ?r = map (redone ?T) (record_texts r)" using walked_record [OF detector_keeps_text] by blast
  have quiet: "logged ?T (redone ?T v) = []" "redone ?T (redone ?T v) = redone ?T v" for v
  proof -
    obtain p ft s where v: "v = (p, ft, s)" by (cases v) auto
    have "f (snd (snd (redone ?T v))) ft = []"
      using clean [of s ft] by (cases "f s ft = []") (simp_all add: v redone_def detector_transform_def Let_def)
    then show "logged ?T (redone ?T v) = []" "redone ?T (redone ?T v) = redone ?T v"
      by (cases "f s ft = []"; simp add: v redone_def logged_def detector_transform_def Let_def)+
  qed
  have "snd (snd (walk_string_fields ?T ?r)) = concat (map (logged ?T) (record_texts ?r))"
    "record_texts (fst (walk_string_fields ?T ?r)) = map (redone ?T) (record_texts ?r)"
    using walked_record [OF detector_keeps_text] by blast+
  then show "tr_findings (snd (detector_apply f (fst (detector_apply f r)))) = []"
    "record_texts (fst (detector_apply f (fst (detector_apply f r)))) = record_texts (fst (detector_apply f r))"
    by (simp_all add: detector_apply_def plain_result_def Let_def case_prod_unfold once quiet comp_def)
qed

text \<open>
  The entropy detector is done after one pass over a trace: a second pass reports no finding and changes
  no text, whatever the trace. The placeholder is no candidate and joins none to its neighbours.
\<close>

theorem entropy_apply_done:
  "tr_findings (snd (detector_apply entropy_find (fst (detector_apply entropy_find r)))) = [] \<and>
   record_texts (fst (detector_apply entropy_find (fst (detector_apply entropy_find r)))) =
     record_texts (fst (detector_apply entropy_find r))"
  using detector_apply_twice [of entropy_find r] entropy_find_clean by blast

section \<open>Texts that begin with a decorator\<close>

definition decorators :: "string list" where
  "decorators = [''property'', ''staticmethod'', ''classmethod'', ''abstractmethod'', ''override'', ''dataclass'',
     ''cached_property'', ''contextmanager'', ''pytest.mark'', ''app.route'', ''router.'', ''click.'']"

lemma strip_keeps_start:
  assumes "p \<noteq> []" "\<not> is_space (hd p)" "\<not> is_space (last p)" shows "starts_with (strip (p @ s)) p"
proof -
  have l: "lstrip_by is_space (p @ s) = p @ s" using assms(1,2) by (cases p) (simp_all add: lstrip_by_def)
  have "rstrip_by is_space (p @ s) = p @ rstrip_by is_space s"
  proof (cases "\<forall>c\<in>set s. is_space c")
    case True
    then have "dropWhile is_space (rev s @ rev p) = dropWhile is_space (rev p)" by (simp add: dropWhile_append)
    moreover have "dropWhile is_space (rev p) = rev p" using assms(1,3) by (cases p rule: rev_cases) simp_all
    moreover have "dropWhile is_space (rev s) = []" using True by simp
    ultimately show ?thesis by (simp add: rstrip_by_def)
  next
    case False
    then show ?thesis by (auto simp: rstrip_by_def dropWhile_append)
  qed
  then show ?thesis by (simp add: strip_by_def l)
qed

text \<open>
  A text that begins with one of the decorators of the allowlist is not scanned at all: whatever follows
  the decorator, the scan reports no match, and the regex detector no finding.
\<close>

theorem decorator_blinds_scan:
  assumes "w \<in> set decorators"
  shows "scan_text (''@'' @ w @ rest) include_entropy threshold = [] \<and> regex_find (''@'' @ w @ rest) ft = []"
proof -
  let ?p = "''@'' @ w"
  have "w \<noteq> [] \<and> \<not> is_space (last w)" using assms unfolding decorators_def by (auto, code_simp+)
  moreover have "\<not> is_space (CHR ''@'')" by code_simp
  ultimately have "starts_with (strip (?p @ rest)) ?p" by (intro strip_keeps_start) auto
  then have "rx_match ALLOWLIST_DECORATORS (strip (?p @ rest))"
    unfolding ALLOWLIST_DECORATORS_def words_match using assms by (auto simp: decorators_def)
  then have "scan_text (''@'' @ w @ rest) e t = []" for e t by (simp add: scan_text_def)
  then show ?thesis by (simp add: regex_find_def)
qed

theorem decorator_blinds_scan_witness:
  "rx_spans (sp_rx ssn) ''@property ssn 123-45-6789'' = [(14, 25)] \<and>
     scan_text ''@property ssn 123-45-6789'' False 5 = [] \<and> regex_find ''@property ssn 123-45-6789'' GENERAL = []"
proof -
  have "rx_spans (sp_rx ssn) ''@property ssn 123-45-6789'' = [(14, 25)]" by code_simp
  moreover have "scan_text (''@'' @ ''property'' @ '' ssn 123-45-6789'') False 5 = [] \<and>
      regex_find (''@'' @ ''property'' @ '' ssn 123-45-6789'') GENERAL = []"
    by (rule decorator_blinds_scan) (simp add: decorators_def)
  ultimately show ?thesis by simp
qed

end
