(* ===== verification/TransformTools.thy ===== *)
theory TransformTools
  imports SecurityTools
begin

text \<open>
  The tools that are no detectors: the path anonymizer and the field exclusion of \<^verbatim>\<open>security/tools/\<close>, and the
  classifier of \<^verbatim>\<open>security/classifier.py\<close>. The printing of a float with a number of decimals is the
  parameter \<open>fmt\<close>.
\<close>

section \<open>Path anonymizer\<close>

record tool_env =
  te_anon :: anonymizer_env
  te_user :: "string option"
  te_fmt :: "nat \<Rightarrow> rat \<Rightarrow> string"

definition anon_text :: "tool_env \<Rightarrow> string list option \<Rightarrow> bool \<Rightarrow> string \<Rightarrow> string" where
  "anon_text E extra consume_tail s = anonymize_paths (te_anon E) (te_user E) extra consume_tail s"

text \<open>\<^verbatim>\<open>_anon(text) or text\<close>; the log counts the texts that come out different.\<close>

definition anon_or_same :: "tool_env \<Rightarrow> string list option \<Rightarrow> string \<Rightarrow> string" where
  "anon_or_same E extra s = (let t = anon_text E extra False s in if t = [] then s else t)"

definition anon_transform :: "tool_env \<Rightarrow> string list option \<Rightarrow> unit transform" where
  "anon_transform E extra p ft s =
     (let t = anon_or_same E extra s in if t \<noteq> s then (Some t, [()]) else (None, []))"

fun anon_metadata :: "tool_env \<Rightarrow> string list option \<Rightarrow> (string, json) dict \<Rightarrow> (string, json) dict \<times> nat" where
  "anon_metadata E extra [] = ([], 0)"
| "anon_metadata E extra ((k, v) # d) =
     (let (d', n) = anon_metadata E extra d in
      case v of
        JStr s \<Rightarrow> (let t = anon_or_same E extra s in if t \<noteq> s then ((k, JStr t) # d', n + 1) else ((k, v) # d', n))
      | _ \<Rightarrow> ((k, v) # d', n))"

definition anon_snippet :: "tool_env \<Rightarrow> string list option \<Rightarrow> snippet \<Rightarrow> snippet \<times> nat" where
  "anon_snippet E extra sn =
     (let t = anon_or_same E extra (snip_file_path sn) in
      if snip_file_path sn \<noteq> [] \<and> t \<noteq> snip_file_path sn then (sn\<lparr>snip_file_path := t\<rparr>, 1) else (sn, 0))"

definition anon_step :: "tool_env \<Rightarrow> string list option \<Rightarrow> step \<Rightarrow> step \<times> nat" where
  "anon_step E extra st =
     (let ps = map (anon_snippet E extra) (snippets st) in (st\<lparr>snippets := map fst ps\<rparr>, sum_list (map snd ps)))"

text \<open>The paths of the attribution block.\<close>

definition anon_file :: "tool_env \<Rightarrow> string list option \<Rightarrow> json \<Rightarrow> json \<times> nat" where
  "anon_file E extra f =
     (case f of
        JObj d \<Rightarrow> (case jget d ''path'' of
            JStr s \<Rightarrow> (let t = anon_or_same E extra s in
              if s \<noteq> [] \<and> t \<noteq> s then (JObj (dset d ''path'' (JStr t)), 1) else (f, 0))
          | _ \<Rightarrow> (f, 0))
      | _ \<Rightarrow> (f, 0))"

definition anon_attribution :: "tool_env \<Rightarrow> string list option \<Rightarrow> json \<Rightarrow> json \<times> nat" where
  "anon_attribution E extra a =
     (case a of
        JObj d \<Rightarrow> (case dget d ''files'' of
            Some (JList fs) \<Rightarrow> (let ps = map (anon_file E extra) fs in
              (JObj (dset d ''files'' (JList (map fst ps))), sum_list (map snd ps)))
          | _ \<Rightarrow> (a, 0))
      | _ \<Rightarrow> (a, 0))"

definition path_anonymizer_apply :: "tool_env \<Rightarrow> string list option \<Rightarrow> trace_record \<Rightarrow> trace_record \<times> tool_result" where
  "path_anonymizer_apply E extra r =
     (let (r1, n0, log) = walk_string_fields (anon_transform E extra) r;
          (md, n1) = anon_metadata E extra (rec_metadata r1);
          sts = map (anon_step E extra) (steps r1);
          (att, n2) = anon_attribution E extra (rec_attribution r1);
          count = length log + n1 + sum_list (map snd sts) + n2
      in (r1\<lparr>rec_metadata := md, steps := map fst sts, rec_attribution := att\<rparr>,
          plain_result [] count [(''changes_applied'', JInt (int count))]))"

section \<open>Field exclusion\<close>

definition DEFAULT_PROMPT_EXCLUDE :: "string list" where
  "DEFAULT_PROMPT_EXCLUDE = [''context_resume_packet.system_layer'', ''slice.steps.*.reasoning_content'']"

definition segs_match :: "string list \<Rightarrow> string list \<Rightarrow> bool" where
  "segs_match path pat \<longleftrightarrow> length path = length pat \<and> list_all2 (\<lambda>s p. p = ''*'' \<or> p = s) path pat"

definition exclusion_patterns :: "string list \<Rightarrow> string list list" where
  "exclusion_patterns patterns = map (split_on (CHR ''.'')) (filter (\<lambda>p. p \<noteq> []) patterns)"

definition excluded_marker :: "string \<Rightarrow> string" where
  "excluded_marker path = ''[EXCLUDED:'' @ path @ '']''"

definition is_excluded :: "string list list \<Rightarrow> string list \<Rightarrow> bool" where
  "is_excluded pats segs \<longleftrightarrow> segs \<noteq> [] \<and> list_ex (segs_match segs) pats"

fun exclude_walk :: "string list list \<Rightarrow> string list \<Rightarrow> json \<Rightarrow> json \<times> string list"
and exclude_items :: "string list list \<Rightarrow> string list \<Rightarrow> nat \<Rightarrow> json list \<Rightarrow> json list \<times> string list"
and exclude_fields :: "string list list \<Rightarrow> string list \<Rightarrow> (string \<times> json) list \<Rightarrow> (string \<times> json) list \<times> string list" where
  "exclude_walk pats segs v =
     (if is_excluded pats segs then (JStr (excluded_marker (join ''.'' segs)), [join ''.'' segs])
      else case v of
        JObj d \<Rightarrow> (case exclude_fields pats segs d of (d', ex) \<Rightarrow> (JObj d', ex))
      | JList xs \<Rightarrow> (case exclude_items pats segs 0 xs of (ys, ex) \<Rightarrow> (JList ys, ex))
      | _ \<Rightarrow> (v, []))"
| "exclude_items pats segs i [] = ([], [])"
| "exclude_items pats segs i (x # xs) =
     (case exclude_walk pats (segs @ [digits_of i]) x of (y, ex) \<Rightarrow>
       (case exclude_items pats segs (i + 1) xs of (ys, ex') \<Rightarrow> (y # ys, ex @ ex')))"
| "exclude_fields pats segs [] = ([], [])"
| "exclude_fields pats segs ((k, x) # d) =
     (case exclude_walk pats (segs @ [k]) x of (y, ex) \<Rightarrow>
       (case exclude_fields pats segs d of (d', ex') \<Rightarrow> ((k, y) # d', ex @ ex')))"

definition apply_field_exclusion :: "json \<Rightarrow> string list \<Rightarrow> json \<times> string list" where
  "apply_field_exclusion data patterns = exclude_walk (exclusion_patterns patterns) [] data"

text \<open>\<^verbatim>\<open>^\[EXCLUDED:(.+)\]$\<close>, with the text of the group.\<close>

definition marker_path :: "string \<Rightarrow> string option" where
  "marker_path s =
     (let t = (if ends_with s [CHR 10] then butlast s else s); inner = slice t 10 (length t - 1) in
      if starts_with t ''[EXCLUDED:'' \<and> ends_with t '']'' \<and> 11 < length t \<and> CHR 10 \<notin> set inner then Some inner else None)"

fun scan_excluded_paths :: "json \<Rightarrow> string list" where
  "scan_excluded_paths (JStr s) = (case marker_path s of None \<Rightarrow> [] | Some p \<Rightarrow> [p])"
| "scan_excluded_paths (JList xs) = concat (map scan_excluded_paths xs)"
| "scan_excluded_paths (JObj d) = concat (map (\<lambda>(k, v). scan_excluded_paths v) d)"
| "scan_excluded_paths v = []"

definition scope_transform :: "string list list \<Rightarrow> unit transform" where
  "scope_transform pats p ft s =
     (if list_ex (segs_match (if p = [] then [] else split_on (CHR ''.'') p)) pats
      then (Some (excluded_marker p), [()]) else (None, []))"

definition capsule_scope_apply :: "string list \<Rightarrow> trace_record \<Rightarrow> trace_record \<times> tool_result" where
  "capsule_scope_apply patterns r =
     (if patterns = [] then (r, plain_result [] 0 [(''fields_excluded'', JInt 0)])
      else
        (let (r', n, log) = walk_string_fields (scope_transform (exclusion_patterns patterns)) r
         in (r', plain_result [] (length log) [(''fields_excluded'', JInt (int (length log)))])))"

section \<open>The classifier\<close>

record classifier_flag =
  cf_pattern :: string
  cf_text :: string
  cf_reason :: string
  cf_severity :: string

record classifier_result =
  cr_flags :: "classifier_flag list"
  cr_risk :: rat

definition classifier_merge :: "classifier_result \<Rightarrow> classifier_result \<Rightarrow> classifier_result" where
  "classifier_merge a b = \<lparr>cr_flags = cr_flags a @ cr_flags b, cr_risk = min 1 (max (cr_risk a) (cr_risk b))\<rparr>"

definition HEX_HASH :: rx where "HEX_HASH = r_seq [RWordB, r_range 32 64 (RChar is_hex_char), RWordB]"

definition FILE_PATH :: rx where "FILE_PATH = r_min 3 (r_seq [r_lit ''/'', r_plus (r_class ''_.@-'')])"

record sensitivity =
  sv_density :: rat
  sv_depth :: int
  sv_min :: string

definition SENSITIVITY_CONFIG :: "(string, sensitivity) dict" where
  "SENSITIVITY_CONFIG =
     [(''low'', \<lparr>sv_density = 1 / 50, sv_depth = 8, sv_min = ''high''\<rparr>),
      (''medium'', \<lparr>sv_density = 1 / 100, sv_depth = 6, sv_min = ''medium''\<rparr>),
      (''high'', \<lparr>sv_density = 1 / 200, sv_depth = 4, sv_min = ''low''\<rparr>)]"

definition SEVERITY_ORDER :: "(string, nat) dict" where
  "SEVERITY_ORDER = [(''low'', 0), (''medium'', 1), (''high'', 2), (''critical'', 3)]"

definition severity_rank :: "string \<Rightarrow> nat" where
  "severity_rank s = (case dget SEVERITY_ORDER s of None \<Rightarrow> 0 | Some n \<Rightarrow> n)"

definition severity_meets_min :: "string \<Rightarrow> string \<Rightarrow> bool" where
  "severity_meets_min s m \<longleftrightarrow> severity_rank m \<le> severity_rank s"

text \<open>One heuristic: the texts it flags, with the score each flag is worth.\<close>

definition flags_of :: "sensitivity \<Rightarrow> string \<Rightarrow> string \<Rightarrow> string \<Rightarrow> rat \<Rightarrow> string list \<Rightarrow> classifier_result" where
  "flags_of cfg pattern reason severity score ts =
     (if severity_meets_min severity (sv_min cfg) then
        \<lparr>cr_flags = map (\<lambda>t. \<lparr>cf_pattern = pattern, cf_text = t, cf_reason = reason, cf_severity = severity\<rparr>) ts,
         cr_risk = (if ts = [] then 0 else score)\<rparr>
      else \<lparr>cr_flags = [], cr_risk = 0\<rparr>)"

definition span_texts :: "string \<Rightarrow> span list \<Rightarrow> string list" where
  "span_texts s ps = map (\<lambda>p. slice s (fst p) (snd p)) ps"

definition density_flag :: "(nat \<Rightarrow> rat \<Rightarrow> string) \<Rightarrow> sensitivity \<Rightarrow> string \<Rightarrow> classifier_result" where
  "density_flag fmt cfg s =
     (let word_count = max 1 (length (words s));
          identifier_count = length (rx_spans UUID_PATTERN s) + length (rx_spans HEX_HASH s);
          density = of_nat identifier_count / of_nat word_count
      in if sv_density cfg \<le> density \<and> 3 \<le> identifier_count then
           flags_of cfg ''identifier_density''
             (''High UUID/hash density ('' @ fmt 3 density @ '') suggests internal system data'') ''medium''
             (3 / 10 + min (density * 10) (4 / 10))
             [digits_of identifier_count @ '' identifiers in '' @ digits_of word_count @ '' words'']
         else \<lparr>cr_flags = [], cr_risk = 0\<rparr>)"

definition path_depth :: "string \<Rightarrow> int" where
  "path_depth p = int (count_list p (CHR ''/'')) - 1"

definition path_flags :: "sensitivity \<Rightarrow> string \<Rightarrow> classifier_result" where
  "path_flags cfg s =
     foldl (\<lambda>r p. let f = flags_of cfg ''deep_file_path''
         (''File path depth '' @ str_of_int (path_depth p) @ '' exceeds threshold, may reveal internal structure'') ''low'' (2 / 10) [p]
         in \<lparr>cr_flags = cr_flags r @ cr_flags f, cr_risk = max (cr_risk r) (cr_risk f)\<rparr>)
       \<lparr>cr_flags = [], cr_risk = 0\<rparr>
       (filter (\<lambda>p. sv_depth cfg \<le> path_depth p) (span_texts s (rx_spans FILE_PATH s)))"

definition classify_content :: "(nat \<Rightarrow> rat \<Rightarrow> string) \<Rightarrow> string \<Rightarrow> string \<Rightarrow> classifier_result" where
  "classify_content fmt sensitivity s =
     (if s = [] then \<lparr>cr_flags = [], cr_risk = 0\<rparr>
      else
        (let cfg = (case dget SENSITIVITY_CONFIG sensitivity of Some c \<Rightarrow> c | None \<Rightarrow> the (dget SENSITIVITY_CONFIG ''medium''));
             parts =
               [flags_of cfg ''internal_hostname'' ''Hostname with internal/corp/local TLD suggests internal infrastructure''
                  ''high'' (6 / 10) (span_texts s (rx_spans INTERNAL_HOSTNAME s)),
                flags_of cfg ''aws_account_id'' ''AWS account ID in ARN pattern''
                  ''high'' (7 / 10) (span_texts s (map account_digits (rx_spans AWS_ACCOUNT_ID s))),
                flags_of cfg ''db_connection_string'' ''Database connection string (jdbc/mongodb+srv)''
                  ''high'' (7 / 10) (span_texts s (rx_spans DB_CONNECTION_STRING s)),
                flags_of cfg ''internal_url'' ''URL pointing to internal collaboration tool''
                  ''medium'' (4 / 10) (span_texts s (rx_spans INTERNAL_URL s)),
                density_flag fmt cfg s, path_flags cfg s]
         in \<lparr>cr_flags = concat (map cr_flags parts), cr_risk = min 1 (foldl max 0 (map cr_risk parts))\<rparr>))"

text \<open>The texts the classifier reads: string inputs at the top level of a tool call, no error texts.\<close>

definition nonempty_opt :: "string option \<Rightarrow> string list" where
  "nonempty_opt f = (case f of None \<Rightarrow> [] | Some s \<Rightarrow> if s = [] then [] else [s])"

definition classified_step_texts :: "step \<Rightarrow> string list" where
  "classified_step_texts st =
     nonempty_opt (step_content st) @ nonempty_opt (reasoning_content st) @
     concat (map (\<lambda>tc. concat (map (\<lambda>v. case v of JStr s \<Rightarrow> [s] | _ \<Rightarrow> []) (dvalues (tool_input tc)))) (tool_calls st)) @
     concat (map (\<lambda>ob. nonempty_opt (obs_content ob) @ nonempty_opt (output_summary ob)) (observations st))"

definition classify_trace_record :: "(nat \<Rightarrow> rat \<Rightarrow> string) \<Rightarrow> string \<Rightarrow> trace_record \<Rightarrow> classifier_result" where
  "classify_trace_record fmt sensitivity r =
     foldl (\<lambda>acc s. classifier_merge acc (classify_content fmt sensitivity s)) \<lparr>cr_flags = [], cr_risk = 0\<rparr>
       (dvalues (system_prompts r) @ nonempty_opt (task_description (rec_task r)) @
        concat (map classified_step_texts (steps r)) @ nonempty_opt (outcome_description (rec_outcome r)))"

definition judge :: "(nat \<Rightarrow> rat \<Rightarrow> string) \<Rightarrow> string \<Rightarrow> trace_record \<Rightarrow> verdict" where
  "judge fmt sensitivity r =
     (let res = classify_trace_record fmt sensitivity r; flags = cr_flags res in
      \<lparr>vd_name = ''classifier'',
       vd_summary = (if flags \<noteq> [] then digits_of (length flags) @ '' flag(s), risk '' @ fmt 2 (cr_risk res) else ''no classifier flags''),
       vd_decision = (if flags \<noteq> [] then ''flagged'' else ''clean''),
       vd_payload = [(''flags'', JList (map (\<lambda>f. JObj [(''pattern'', JStr (cf_pattern f)), (''severity'', JStr (cf_severity f))]) flags)),
         (''risk_score'', JFloat (cr_risk res)), (''sensitivity'', JStr sensitivity)]\<rparr>)"

definition classifier_apply :: "(nat \<Rightarrow> rat \<Rightarrow> string) \<Rightarrow> string \<Rightarrow> trace_record \<Rightarrow> trace_record \<times> tool_result" where
  "classifier_apply fmt sensitivity r =
     (let v = judge fmt sensitivity r in
      (r, (plain_result [] 0
         [(''decision'', JStr (vd_decision v)), (''summary'', JStr (vd_summary v)),
          (''flags_count'', JInt (int (length (jlist (jget (vd_payload v) ''flags''))))),
          (''risk_score'', jget (vd_payload v) ''risk_score''), (''sensitivity'', jget (vd_payload v) ''sensitivity'')])
        \<lparr>tr_verdict := Some v\<rparr>))"

end
