(* ===== verification/SecurityPipeline.thy ===== *)
theory SecurityPipeline
  imports TransformTools
begin

text \<open>
  The registry of tools and the pipeline over it, from \<^verbatim>\<open>security/tools/_registry.py\<close> and
  \<^verbatim>\<open>security/pipeline.py\<close>, with its two callers for dictionaries: dataset rows
  (\<^verbatim>\<open>security/dataset_rows.py\<close>) and companions (\<^verbatim>\<open>security/companion.py\<close>).
\<close>

section \<open>The registry\<close>

text \<open>
  What a tool needs from outside: its configuration, and the backends of three detectors. A tool's
  \<^verbatim>\<open>apply\<close> rewrites the trace and either returns a result or raises; \<^verbatim>\<open>find\<close> is what makes it a detector.
\<close>

record security_cfg =
  sc_enabled :: "string \<Rightarrow> bool"
  sc_verify :: bool
  sc_exclude :: "string list"
  sc_sensitivity :: string
  sc_redact :: "string list option"

record backends =
  be_env :: tool_env
  be_llm :: "llm_detect option"
  be_prompt_version :: string
  be_ner :: "ner_model option"
  be_scan :: "trace_record \<Rightarrow> string + th_report"

record tool =
  to_name :: string
  to_find :: "finder option"
  to_apply :: "trace_record \<Rightarrow> trace_record \<times> (string + tool_result)"

definition returns :: "(trace_record \<Rightarrow> trace_record \<times> tool_result) \<Rightarrow> trace_record \<Rightarrow> trace_record \<times> (string + tool_result)" where
  "returns f r = (let (r', res) = f r in (r', Inr res))"

text \<open>Without a bound model the two model-backed detectors of the registry find nothing.\<close>

definition all_tools :: "backends \<Rightarrow> security_cfg \<Rightarrow> tool list" where
  "all_tools B C =
     [\<lparr>to_name = ''regex'', to_find = Some regex_find, to_apply = returns (detector_apply regex_find)\<rparr>,
      \<lparr>to_name = ''entropy'', to_find = Some entropy_find, to_apply = returns (detector_apply entropy_find)\<rparr>,
      \<lparr>to_name = ''trufflehog'', to_find = None, to_apply = returns (trufflehog_apply (sc_verify C) (be_scan B))\<rparr>,
      \<lparr>to_name = ''privacy_filter'', to_find = Some (privacy_filter_find None), to_apply = returns (privacy_filter_apply (be_ner B))\<rparr>,
      \<lparr>to_name = ''llm_pii'', to_find = Some (llm_pii_find None), to_apply = returns (llm_pii_apply (be_prompt_version B) (be_llm B))\<rparr>,
      \<lparr>to_name = ''business_logic'', to_find = Some business_logic_find, to_apply = returns (detector_apply business_logic_find)\<rparr>,
      \<lparr>to_name = ''path_anonymizer'', to_find = None, to_apply = returns (path_anonymizer_apply (be_env B) (sc_redact C))\<rparr>,
      \<lparr>to_name = ''capsule_scope'', to_find = None, to_apply = returns (capsule_scope_apply (sc_exclude C))\<rparr>,
      \<lparr>to_name = ''classifier'', to_find = None, to_apply = returns (classifier_apply (te_fmt (be_env B)) (sc_sensitivity C))\<rparr>]"

definition CANONICAL_NAMES :: "string list" where
  "CANONICAL_NAMES = [''regex'', ''entropy'', ''trufflehog'', ''privacy_filter'', ''llm_pii'', ''business_logic'',
     ''path_anonymizer'', ''capsule_scope'', ''classifier'']"

fun position_of :: "string list \<Rightarrow> string \<Rightarrow> nat" where
  "position_of [] n = 0"
| "position_of (m # ms) n = (if m = n then 0 else Suc (position_of ms n))"

definition get_tool :: "tool list \<Rightarrow> string \<Rightarrow> py_error + tool" where
  "get_tool reg n = (case find (\<lambda>t. to_name t = n) reg of None \<Rightarrow> Inl (KeyError n) | Some t \<Rightarrow> Inr t)"

definition iter_enabled :: "security_cfg \<Rightarrow> tool list \<Rightarrow> tool list" where
  "iter_enabled C reg = filter (\<lambda>t. sc_enabled C (to_name t)) reg"

definition resolve_tools :: "tool list \<Rightarrow> string list option \<Rightarrow> security_cfg option \<Rightarrow> py_error + tool list" where
  "resolve_tools reg names cfg =
     (case names of
        Some ns \<Rightarrow> (case map_err (get_tool reg) (dedupe [] ns) of Inl e \<Rightarrow> Inl e
          | Inr ts \<Rightarrow> Inr (sort_key (\<lambda>t. position_of CANONICAL_NAMES (to_name t)) ts))
      | None \<Rightarrow> (case cfg of None \<Rightarrow> Inl ValueError | Some C \<Rightarrow> Inr (iter_enabled C reg)))"

definition detectors_of :: "tool list \<Rightarrow> (string \<times> finder) list" where
  "detectors_of ts = concat (map (\<lambda>t. case to_find t of None \<Rightarrow> [] | Some f \<Rightarrow> [(to_name t, f)]) ts)"

section \<open>Records\<close>

record pipeline_report =
  rp_applied :: "string list"
  rp_results :: "(string, tool_result) dict"
  rp_findings :: "finding list"
  rp_redactions :: nat
  rp_verdicts :: "verdict list"
  rp_errors :: "(string \<times> string) list"

definition empty_report :: pipeline_report where
  "empty_report = \<lparr>rp_applied = [], rp_results = [], rp_findings = [], rp_redactions = 0, rp_verdicts = [], rp_errors = []\<rparr>"

text \<open>The security section of the metadata is one dictionary that stays in place while the tools run.\<close>

definition set_security :: "string \<Rightarrow> json \<Rightarrow> trace_record \<Rightarrow> trace_record" where
  "set_security k v r =
     (let (r', sec) = ensure_security_metadata r
      in r'\<lparr>rec_metadata := dset (rec_metadata r') ''security'' (JObj (dset sec k v))\<rparr>)"

definition set_tool_section :: "string \<Rightarrow> (string, json) dict \<Rightarrow> trace_record \<Rightarrow> trace_record" where
  "set_tool_section n patch r =
     (let (r', sec) = ensure_security_metadata r;
          section = (case jget sec ''tools'' of JObj d \<Rightarrow> d | _ \<Rightarrow> [])
      in set_security ''tools'' (JObj (dset section n (JObj patch))) r')"

definition add_tool_result :: "string \<Rightarrow> tool_result \<Rightarrow> pipeline_report \<Rightarrow> pipeline_report" where
  "add_tool_result n res rep =
     rep\<lparr>rp_results := dset (rp_results rep) n res, rp_applied := rp_applied rep @ [n],
       rp_findings := rp_findings rep @ tr_findings res, rp_redactions := rp_redactions rep + tr_redactions res,
       rp_verdicts := rp_verdicts rep @ (case tr_verdict res of None \<Rightarrow> [] | Some v \<Rightarrow> [v]),
       rp_errors := rp_errors rep @ (case tr_error res of None \<Rightarrow> [] | Some e \<Rightarrow> if e = [] then [] else [(n, e)])\<rparr>"

definition run_tool :: "tool \<Rightarrow> trace_record \<times> pipeline_report \<Rightarrow> trace_record \<times> pipeline_report" where
  "run_tool t st =
     (case to_apply t (fst st) of
        (r, Inl err) \<Rightarrow>
          (set_tool_section (to_name t) [(''status'', JStr ''error''), (''error'', JStr err)] r,
           (snd st)\<lparr>rp_errors := rp_errors (snd st) @ [(to_name t, err)]\<rparr>)
      | (r, Inr res) \<Rightarrow> (set_tool_section (to_name t) (tr_metadata res) r, add_tool_result (to_name t) res (snd st)))"

definition run_tools :: "trace_record \<Rightarrow> tool list \<Rightarrow> trace_record \<times> pipeline_report" where
  "run_tools r ts =
     (let (r', rep) = fold run_tool ts (set_security ''tools'' (JObj []) r, empty_report)
      in (set_security ''tools_applied'' (JList (map JStr (rp_applied rep))) r', rep))"

definition sanitize_record ::
  "tool list \<Rightarrow> string list option \<Rightarrow> security_cfg option \<Rightarrow> trace_record \<Rightarrow> py_error + trace_record \<times> pipeline_report" where
  "sanitize_record reg names cfg r =
     (case resolve_tools reg names cfg of Inl e \<Rightarrow> Inl e | Inr ts \<Rightarrow> Inr (run_tools r ts))"

section \<open>Texts and dictionaries\<close>

definition redact_at_findings :: "string \<Rightarrow> finding list \<Rightarrow> string" where
  "redact_at_findings s fs = (if fs = [] then s else redact_spans REDACTED s (map finding_span fs))"

fun run_detectors :: "field_type \<Rightarrow> (string \<times> finder) list \<Rightarrow> string \<Rightarrow> string \<times> finding list" where
  "run_detectors ft [] s = (s, [])"
| "run_detectors ft ((n, f) # ds) s =
     (let spans = f s ft; (t, fs) = run_detectors ft ds (redact_at_findings s spans) in (t, spans @ fs))"

definition sanitize_text ::
  "tool list \<Rightarrow> field_type \<Rightarrow> string list option \<Rightarrow> security_cfg option \<Rightarrow> string \<Rightarrow> py_error + string \<times> finding list" where
  "sanitize_text reg ft names cfg s =
     (case resolve_tools reg names cfg of Inl e \<Rightarrow> Inl e | Inr ts \<Rightarrow> Inr (run_detectors ft (detectors_of ts) s))"

definition dict_pass :: "field_type \<Rightarrow> string \<times> finder \<Rightarrow> json \<times> pipeline_report \<Rightarrow> json \<times> pipeline_report" where
  "dict_pass ft d st =
     (let (v, n, fs) = walk_dict_strings (detector_transform (snd d)) [] ft (fst st)
      in (v, add_tool_result (fst d) (plain_result fs (length fs) (detector_metadata fs)) (snd st)))"

definition sanitize_dict ::
  "tool list \<Rightarrow> string list option \<Rightarrow> security_cfg option \<Rightarrow> field_type \<Rightarrow> (string, json) dict \<Rightarrow>
    py_error + (string, json) dict \<times> pipeline_report" where
  "sanitize_dict reg names cfg ft d =
     (case resolve_tools reg names cfg of Inl e \<Rightarrow> Inl e
      | Inr ts \<Rightarrow> (let (v, rep) = fold (dict_pass ft) (detectors_of ts) (JObj d, empty_report)
          in Inr (case v of JObj d' \<Rightarrow> d' | _ \<Rightarrow> d, rep)))"

section \<open>Dataset rows\<close>

definition DATASET_ROW_TOOLS :: "string list" where
  "DATASET_ROW_TOOLS = [''regex'', ''entropy'', ''privacy_filter'', ''llm_pii'', ''business_logic'', ''path_anonymizer'']"

definition DATASET_ROW_FLOOR :: "string list" where
  "DATASET_ROW_FLOOR = [''regex'', ''entropy'', ''business_logic'', ''path_anonymizer'']"

definition unsupported_dataset_row_tools :: "string list \<Rightarrow> string list" where
  "unsupported_dataset_row_tools names = dedupe [] (filter (\<lambda>n. n \<noteq> [] \<and> n \<notin> set DATASET_ROW_TOOLS) names)"

definition PRIVACY_TIERS :: "string list" where
  "PRIVACY_TIERS = [''off'', ''low'', ''medium'', ''high'']"

definition normalize_privacy_tier :: "string option \<Rightarrow> string \<Rightarrow> py_error + string" where
  "normalize_privacy_tier v dflt =
     (case v of None \<Rightarrow> Inr dflt
      | Some s \<Rightarrow> if strip s = [] then Inr dflt
          else (let n = replace_char (CHR ''_'') ''-'' (lower (strip s)) in
            if n \<in> set PRIVACY_TIERS then Inr n else Inl ValueError))"

definition TIER_TOOLS :: "(string, string list) dict" where
  "TIER_TOOLS = [(''low'', [''regex'']), (''medium'', [''regex'', ''entropy'']), (''high'', [''regex'', ''entropy''])]"

record dataset_row_security =
  ds_tier :: string
  ds_redactions :: nat
  ds_findings :: nat
  ds_applied :: "string list"
  ds_requested :: "string list"
  ds_effective :: "string list"
  ds_floor_satisfied :: bool

definition requested_tools :: "string \<Rightarrow> string list option \<Rightarrow> string list" where
  "requested_tools tier names =
     (case names of Some ns \<Rightarrow> filter (\<lambda>n. n \<noteq> []) (dedupe [] ns)
      | None \<Rightarrow> if tier = ''off'' then []
          else (case dget TIER_TOOLS tier of Some ns \<Rightarrow> ns | None \<Rightarrow> [''regex'', ''entropy'']))"

definition effective_tools :: "string list \<Rightarrow> string list" where
  "effective_tools requested = filter (\<lambda>n. n \<noteq> []) (dedupe [] (DATASET_ROW_FLOOR @ requested))"

definition anon_leaf :: "tool_env \<Rightarrow> unit transform" where
  "anon_leaf E p ft s = (let t = anon_text E None False s in (if t \<noteq> s then Some t else None, []))"

definition sanitize_dataset_row ::
  "backends \<Rightarrow> security_cfg \<Rightarrow> string option \<Rightarrow> string list option \<Rightarrow> (string, json) dict \<Rightarrow>
    py_error + (string, json) dict \<times> dataset_row_security" where
  "sanitize_dataset_row B C privacy_tier names row =
     (case normalize_privacy_tier privacy_tier ''off'' of Inl e \<Rightarrow> Inl e
      | Inr tier \<Rightarrow>
          (let requested = requested_tools tier names; effective = effective_tools requested in
           case sanitize_dict (all_tools B C) (Some effective) None GENERAL row of Inl e \<Rightarrow> Inl e
           | Inr (d, rep) \<Rightarrow>
               (let anon = (''path_anonymizer'' \<in> set effective);
                    v = (if anon then fst (walk_dict_strings (anon_leaf (be_env B)) [] GENERAL (JObj d)) else JObj d);
                    applied = rp_applied rep @ (if anon \<and> ''path_anonymizer'' \<notin> set (rp_applied rep) then [''path_anonymizer''] else [])
                in Inr (case v of JObj d' \<Rightarrow> d' | _ \<Rightarrow> row,
                     \<lparr>ds_tier = tier, ds_redactions = rp_redactions rep, ds_findings = length (rp_findings rep),
                      ds_applied = applied, ds_requested = requested, ds_effective = effective,
                      ds_floor_satisfied = list_all (\<lambda>n. n \<in> set effective) DATASET_ROW_FLOOR\<rparr>))))"

section \<open>Companions\<close>

definition COMPANION_FLOOR :: "string list" where
  "COMPANION_FLOOR = [''regex'', ''entropy'', ''business_logic'', ''path_anonymizer'']"

definition TOOL_INPUT_HINTS :: "string list" where
  "TOOL_INPUT_HINTS = [''tool_registry'', ''input_schema'', ''tool_input'']"

text \<open>The last dotted segment without one trailing index.\<close>

definition leaf_name :: "string \<Rightarrow> string" where
  "leaf_name p =
     rx_sub (r_seq [r_lit ''['', r_plus r_digit, r_lit '']'', REnd]) [] (last (split_on (CHR ''.'') p))"

definition companion_field_type :: "string \<Rightarrow> field_type \<times> bool" where
  "companion_field_type p =
     (let low = lower p; leaf = leaf_name p; is_path = (substr ''cwd'' (lower leaf) \<or> substr ''path'' (lower leaf)) in
      if substr ''messages'' low \<and> leaf = ''content'' then (GENERAL, is_path)
      else if list_ex (\<lambda>h. substr h low) TOOL_INPUT_HINTS then (TOOL_INPUT, is_path)
      else if leaf = ''authored_text'' then (GENERAL, is_path)
      else (GENERAL, is_path))"

text \<open>A tool of the list is a name of the registry or an instance the caller built.\<close>

datatype companion_tool = Named string | Instance tool

fun resolve_companion :: "tool list \<Rightarrow> string list \<Rightarrow> companion_tool list \<Rightarrow> py_error + tool list" where
  "resolve_companion reg seen [] = Inr []"
| "resolve_companion reg seen (Named n # ts) =
     (if n \<in> set seen then resolve_companion reg seen ts
      else (case get_tool reg n of Inl e \<Rightarrow> Inl e
        | Inr t \<Rightarrow> (case resolve_companion reg (n # seen) ts of Inl e \<Rightarrow> Inl e | Inr us \<Rightarrow> Inr (t # us))))"
| "resolve_companion reg seen (Instance t # ts) =
     (if to_name t \<noteq> [] \<and> to_name t \<in> set seen then resolve_companion reg seen ts
      else (case resolve_companion reg (to_name t # seen) ts of Inl e \<Rightarrow> Inl e | Inr us \<Rightarrow> Inr (t # us)))"

definition companion_leaf :: "tool_env \<Rightarrow> (string \<times> finder) list \<Rightarrow> bool \<Rightarrow> (finding + unit) transform" where
  "companion_leaf E ds anon p ft s =
     (let (t, fs) = run_detectors (fst (companion_field_type p)) ds s;
          u = (if anon \<and> t \<noteq> [] then anon_text E None True t else t)
      in (if fs = [] \<and> u = t then None else Some u,
          map (\<lambda>f. Inl (f\<lparr>fi_path := p\<rparr>)) fs @ (if u \<noteq> t then [Inr ()] else [])))"

record companion_manifest =
  cm_applied :: "string list"
  cm_floor_satisfied :: bool
  cm_redactions :: nat
  cm_findings :: nat
  cm_home_paths :: nat
  cm_by_tool :: "(string, nat) dict"

definition sanitize_companion_dict ::
  "backends \<Rightarrow> security_cfg \<Rightarrow> companion_tool list option \<Rightarrow> (string, json) dict \<Rightarrow>
    py_error + (string, json) dict \<times> companion_manifest" where
  "sanitize_companion_dict B C tools payload =
     (case resolve_companion (all_tools B C) [] (case tools of None \<Rightarrow> map Named COMPANION_FLOOR | Some ts \<Rightarrow> ts) of
        Inl e \<Rightarrow> Inl e
      | Inr ts0 \<Rightarrow>
          (let ts = sort_key (\<lambda>t. position_of CANONICAL_NAMES (to_name t)) ts0;
               ds = detectors_of ts;
               anon = list_ex (\<lambda>t. to_name t = ''path_anonymizer'') ts;
               (v, n, log) = walk_dict_strings (companion_leaf (be_env B) ds anon) [] GENERAL (JObj payload);
               fs = concat (map (\<lambda>l. case l of Inl f \<Rightarrow> [f] | Inr _ \<Rightarrow> []) log);
               applied = map fst ds @ (if anon then [''path_anonymizer''] else [])
           in Inr (case v of JObj d \<Rightarrow> d | _ \<Rightarrow> payload,
                \<lparr>cm_applied = applied, cm_floor_satisfied = list_all (\<lambda>m. m \<in> set applied) COMPANION_FLOOR,
                 cm_redactions = length fs, cm_findings = length fs, cm_home_paths = length log - length fs,
                 cm_by_tool = filter (\<lambda>(m, k). k \<noteq> 0)
                   (map (\<lambda>m. (m, length (filter (\<lambda>f. fi_tool f = m) fs))) (remdups (map fst ds)))\<rparr>)))"

end
