(* ===== verification/SecurityProps.thy ===== *)
theory SecurityProps
  imports EntropyProps SecurityPipeline
begin

text \<open>
  What the transforming tools and the callers of the pipeline guarantee: the fast path of the anonymizer, the
  reach of field exclusion, and the floor of tools under every dataset row.
\<close>

section \<open>The fast path of the anonymizer\<close>

lemma path_patterns_absent:
  assumes "\<not> substr ''users'' (lower s)" "\<not> substr ''home'' (lower s)" "p \<in> set (path_patterns E u)"
  shows "absent (fst p) s"
proof -
  have lits: "absent (r_lit t) s" if "substr ''users'' (lower t) \<or> substr ''home'' (lower t)" for t
    using that assms(1,2) absent_lit_lower by blast
  have named: "absent (r_lit ''/Users/'') s" "absent (r_lit ''/home/'') s" "absent (r_lit ('':'' @ BS @ ''Users'' @ BS)) s"
    "absent (r_lit '':/Users/'') s" "absent (r_lit (BS @ ''home'' @ BS)) s"
    by (intro lits; code_simp)+
  have seq: "list_ex (\<lambda>r. absent r s) rs \<Longrightarrow> absent (r_seq rs) s" for rs
    using absent_r_seq by (auto simp: list_ex_iff)
  from assms(3) show ?thesis unfolding path_patterns_def Let_def
    by (auto intro!: seq simp: named [simplified])
qed

lemma no_usernames:
  assumes "\<not> substr ''users'' (lower s)" "\<not> substr ''home'' (lower s)"
  shows "extract_usernames_from_paths s = []"
proof -
  have lits: "absent (r_lit t) s" if "substr ''users'' (lower t) \<or> substr ''home'' (lower t)" for t
    using that assms absent_lit_lower by blast
  have named: "absent (r_lit ''/Users/'') s" "absent (r_lit ''/home/'') s" "absent (r_lit ('':'' @ BS @ ''Users'' @ BS)) s"
    "absent (r_lit '':/Users/'') s"
    by (intro lits; code_simp)+
  have seq: "list_ex (\<lambda>r. absent r s) rs \<Longrightarrow> rx_spans (r_seq rs) s = []" for rs
    using absent_r_seq [of _ rs s] absent_spans by (auto simp: list_ex_iff)
  show ?thesis unfolding extract_usernames_from_paths_def detect_patterns_def
    by (simp add: seq named [simplified])
qed

lemma no_tail:
  assumes "\<not> substr ''users'' (lower s)" "\<not> substr ''home'' (lower s)"
  shows "consume_home_tail E s = s"
proof -
  have lit: "absent (r_lit ''Users'') s" "absent (r_lit ''home'') s"
    by (rule absent_lit_lower [OF assms(1)], code_simp) (rule absent_lit_lower [OF assms(2)], code_simp)
  have "absent (r_words [''Users'', ''home'']) s" unfolding r_words_def by (rule absent_r_alt) (use lit in simp)
  then have "absent MARKER_TAIL_RE s" unfolding MARKER_TAIL_RE_def by (rule absent_r_seq [rotated]) simp
  moreover have "absent (r_iwords [''users'', ''home'']) s" unfolding r_iwords_def
    by (rule absent_r_alt) (use absent_ilit assms in simp)
  then have "absent HOME_PATH_CONSUME_RE s" unfolding HOME_PATH_CONSUME_RE_def by (rule absent_r_seq [rotated]) simp
  ultimately show ?thesis by (simp add: consume_home_tail_def)
qed

lemma anonymize_full_noop:
  assumes "nothing_to_anonymize explicit s" shows "anonymize_full E explicit tail s = s"
proof -
  from assms have u: "\<not> substr ''users'' (lower s)" and h: "\<not> substr ''home'' (lower s)"
    and e: "\<And>n. n \<in> set explicit \<Longrightarrow> \<not> substr n s" by (auto simp: nothing_to_anonymize_def list_ex_iff)
  have "absent (fst p) s" if "p \<in> set (build_patterns E explicit)" for p
  proof -
    from that consider n where "n \<in> set explicit" "p \<in> set (path_patterns E n)"
      | n where "n \<in> set explicit" "p = (r_seq [r_lit ''-Users-'', r_lit n, r_lit ''-''], ''-Users-'' @ anonymized_username E n @ ''-'') \<or>
          p = (r_seq [r_lit ''~'', r_lit n, RAhead (RAlt (r_lit ''/'') REnd)], ''~'' @ anonymized_username E n)"
      unfolding build_patterns_def by auto
    then show ?thesis
    proof cases
      case 1
      then show ?thesis using path_patterns_absent [OF u h] by blast
    next
      case 2
      then have "absent (r_lit n) s" using e absent_lit by blast
      then show ?thesis using 2(2) absent_r_seq [of "r_lit n"] by auto
    qed
  qed
  then have pats: "fold (\<lambda>(r, rep) t. rx_sub r rep t) ps s = s" if "set ps \<subseteq> set (build_patterns E explicit)" for ps
    using that by (induction ps) auto
  have "replace_all n (anonymized_username E n) s = s" if "n \<in> set explicit" for n
  proof -
    have "n \<noteq> []" using e [OF that] by (metis substr_iff append_Nil)
    then show ?thesis using absent_lit [OF e [OF that]] by (simp add: replace_all_def)
  qed
  then have bare: "fold (\<lambda>u t. replace_all u (anonymized_username E u) t) ns s = s" if "set ns \<subseteq> set explicit" for ns
    using that by (induction ns) auto
  show ?thesis
    by (simp add: anonymize_full_def Let_def no_usernames [OF u h] no_tail [OF u h] build_path_only_patterns_def pats bare)
qed

text \<open>
  The fast path of the anonymizer is exact: for every text, every set of names and with or without the
  collapse of path tails, the guarded function returns what the full rewriting returns.
\<close>

theorem anonymize_fast_path:
  "anonymize_paths E username extra tail s =
     (if s = [] then [] else anonymize_full E (explicit_names E username extra) tail s)"
  by (simp add: anonymize_paths_def Let_def anonymize_full_noop)

section \<open>Field exclusion\<close>

text \<open>The value at a path of keys and indices, and the value when it is no container.\<close>

definition index_of :: "string \<Rightarrow> nat \<Rightarrow> nat option" where
  "index_of k n = find (\<lambda>i. digits_of i = k) [0 ..< n]"

fun json_at :: "json \<Rightarrow> string list \<Rightarrow> json option" where
  "json_at v [] = Some v"
| "json_at v (k # ks) =
     (case v of
        JObj d \<Rightarrow> (case dget d k of None \<Rightarrow> None | Some x \<Rightarrow> json_at x ks)
      | JList xs \<Rightarrow> (case index_of k (length xs) of None \<Rightarrow> None | Some i \<Rightarrow> json_at (xs ! i) ks)
      | _ \<Rightarrow> None)"

definition leaf_at :: "json \<Rightarrow> string list \<Rightarrow> json option" where
  "leaf_at v ks = (case json_at v ks of Some x \<Rightarrow> if is_jobj x \<or> is_jlist x then None else Some x | None \<Rightarrow> None)"

text \<open>What is left of a value, path by path.\<close>

definition excluded_view :: "string list list \<Rightarrow> json \<Rightarrow> string list \<Rightarrow> json option" where
  "excluded_view pats v ks =
     (if list_ex (\<lambda>n. is_excluded pats (take n ks)) [0 ..< length ks] then None
      else if is_excluded pats ks then map_option (\<lambda>_. JStr (excluded_marker (join ''.'' ks))) (json_at v ks)
      else leaf_at v ks)"

lemma exclude_fields_map: "fst (exclude_fields pats segs d) = map (\<lambda>(k, x). (k, fst (exclude_walk pats (segs @ [k]) x))) d"
  by (induction d) (auto split: prod.splits)

lemma exclude_items_nth:
  "length (fst (exclude_items pats segs n xs)) = length xs \<and>
    (\<forall>i<length xs. fst (exclude_items pats segs n xs) ! i = fst (exclude_walk pats (segs @ [digits_of (n + i)]) (xs ! i)))"
proof (induction xs arbitrary: n)
  case (Cons x xs)
  have "fst (exclude_items pats segs n (x # xs)) =
      fst (exclude_walk pats (segs @ [digits_of n]) x) # fst (exclude_items pats segs (n + 1) xs)"
    by (simp split: prod.splits del: exclude_walk.simps)
  then show ?case using Cons.IH [of "n + 1"] by (auto simp: nth_Cons' simp del: exclude_walk.simps)
qed simp

lemma exclude_walk_JObj:
  "\<not> is_excluded pats base \<Longrightarrow>
    fst (exclude_walk pats base (JObj d)) = JObj (map (\<lambda>(k, x). (k, fst (exclude_walk pats (base @ [k]) x))) d)"
  by (subst exclude_walk.simps) (simp add: exclude_fields_map case_prod_unfold del: exclude_walk.simps)

lemma exclude_walk_JList:
  assumes "\<not> is_excluded pats base"
  obtains ys where "fst (exclude_walk pats base (JList xs)) = JList ys" "length ys = length xs"
    "\<And>i. i < length xs \<Longrightarrow> ys ! i = fst (exclude_walk pats (base @ [digits_of i]) (xs ! i))"
proof
  show "fst (exclude_walk pats base (JList xs)) = JList (fst (exclude_items pats base 0 xs))"
    using assms by (simp add: case_prod_unfold)
qed (use exclude_items_nth [of pats base 0 xs] in auto)

lemma exclude_walk_leaf:
  "\<not> is_excluded pats base \<Longrightarrow> \<not> is_jobj v \<Longrightarrow> \<not> is_jlist v \<Longrightarrow> fst (exclude_walk pats base v) = v"
  by (cases v) simp_all

declare exclude_walk.simps [simp del]

lemma exclude_walk_hit:
  "is_excluded pats base \<Longrightarrow> fst (exclude_walk pats base v) = JStr (excluded_marker (join ''.'' base))"
  by (simp add: exclude_walk.simps)

lemma index_of_Some: "index_of k n = Some i \<Longrightarrow> i < n \<and> digits_of i = k"
  by (auto simp: index_of_def find_Some_iff)

lemma exclude_view:
  "leaf_at (fst (exclude_walk pats base v)) ks =
     (if \<exists>n<length ks. is_excluded pats (base @ take n ks) then None
      else if is_excluded pats (base @ ks) then map_option (\<lambda>_. JStr (excluded_marker (join ''.'' (base @ ks)))) (json_at v ks)
      else leaf_at v ks)"
proof (induction ks arbitrary: base v)
  case Nil
  show ?case
  proof (cases "is_excluded pats base")
    case True
    then show ?thesis by (simp add: leaf_at_def exclude_walk_hit is_jobj_def is_jlist_def)
  next
    case False
    show ?thesis
    proof (cases v)
      case (JObj d)
      then show ?thesis using False by (simp add: leaf_at_def exclude_walk_JObj)
    next
      case (JList xs)
      obtain ys where "fst (exclude_walk pats base (JList xs)) = JList ys" by (rule exclude_walk_JList [OF False])
      then show ?thesis using False JList by (simp add: leaf_at_def)
    qed (use False in \<open>simp_all add: leaf_at_def exclude_walk_leaf is_jobj_def is_jlist_def\<close>)
  qed
next
  case (Cons k ks)
  show ?case
  proof (cases "is_excluded pats base")
    case True
    then have "\<exists>n<length (k # ks). is_excluded pats (base @ take n (k # ks))" by (intro exI [of _ 0]) simp
    then show ?thesis using True by (simp add: leaf_at_def exclude_walk_hit)
  next
    case False
    have ex: "(\<exists>n<length (k # ks). is_excluded pats (base @ take n (k # ks))) \<longleftrightarrow>
        (\<exists>n<length ks. is_excluded pats ((base @ [k]) @ take n ks))"
      using False by (auto simp: less_Suc_eq_0_disj)
    have step: "leaf_at (fst (exclude_walk pats base v)) (k # ks) =
        (case json_at v [k] of None \<Rightarrow> None | Some x \<Rightarrow> leaf_at (fst (exclude_walk pats (base @ [k]) x)) ks)"
    proof (cases v)
      case (JObj d)
      then show ?thesis using False
        by (simp add: leaf_at_def exclude_walk_JObj dget_map_snd split: option.split)
    next
      case (JList xs)
      obtain ys where ys: "fst (exclude_walk pats base (JList xs)) = JList ys" "length ys = length xs"
        "\<And>i. i < length xs \<Longrightarrow> ys ! i = fst (exclude_walk pats (base @ [digits_of i]) (xs ! i))"
        by (rule exclude_walk_JList [OF False]) blast
      show ?thesis
      proof (cases "index_of k (length xs)")
        case None
        then show ?thesis using JList ys by (simp add: leaf_at_def)
      next
        case (Some i)
        then show ?thesis using JList ys index_of_Some [OF Some] by (simp add: leaf_at_def)
      qed
    qed (use False in \<open>simp_all add: leaf_at_def exclude_walk_leaf is_jobj_def is_jlist_def\<close>)
    have below: "json_at v (k # ks) = (case json_at v [k] of None \<Rightarrow> None | Some x \<Rightarrow> json_at x ks)"
      by (cases v) (auto split: option.splits)
    then have view: "leaf_at v (k # ks) = (case json_at v [k] of None \<Rightarrow> None | Some x \<Rightarrow> leaf_at x ks)"
      by (simp add: leaf_at_def split: option.split)
    show ?thesis unfolding step ex view below
    proof (cases "json_at v [k]")
      case (Some x)
      show "(case json_at v [k] of None \<Rightarrow> None | Some x \<Rightarrow> leaf_at (fst (exclude_walk pats (base @ [k]) x)) ks) =
          (if \<exists>n<length ks. is_excluded pats ((base @ [k]) @ take n ks) then None
           else if is_excluded pats (base @ k # ks) then map_option (\<lambda>_. JStr (excluded_marker (join ''.'' (base @ k # ks))))
             (case json_at v [k] of None \<Rightarrow> None | Some x \<Rightarrow> json_at x ks)
           else (case json_at v [k] of None \<Rightarrow> None | Some x \<Rightarrow> leaf_at x ks))"
        unfolding Some option.case Cons.IH by auto
    qed simp
  qed
qed

text \<open>
  Field exclusion reaches exactly the paths its patterns name: at a matching path stands the marker with
  that path and nothing below it, every leaf whose path matches nowhere is the leaf it was, and no path appears.
\<close>

theorem exclusion_exact:
  "leaf_at (fst (apply_field_exclusion v patterns)) ks = excluded_view (exclusion_patterns patterns) v ks"
  unfolding apply_field_exclusion_def excluded_view_def exclude_view by (auto simp: list_ex_iff)

section \<open>The floor under dataset rows\<close>

definition detector_names :: "string list" where
  "detector_names = [''regex'', ''entropy'', ''privacy_filter'', ''llm_pii'', ''business_logic'']"

lemma dedupe_distinct: "distinct (dedupe seen ns) \<and> set (dedupe seen ns) = set ns - set seen"
  by (induction ns arbitrary: seen) auto

lemma registry_names: "map to_name (all_tools B C) = CANONICAL_NAMES"
  by (simp add: all_tools_def CANONICAL_NAMES_def)

lemma registry_detectors: "t \<in> set (all_tools B C) \<Longrightarrow> to_find t \<noteq> None \<longleftrightarrow> to_name t \<in> set detector_names"
  by (auto simp: all_tools_def detector_names_def)

lemma get_tool_known:
  assumes "n \<in> set CANONICAL_NAMES"
  obtains t where "get_tool (all_tools B C) n = Inr t" "t \<in> set (all_tools B C)" "to_name t = n"
proof (cases "find (\<lambda>t. to_name t = n) (all_tools B C)")
  case None
  then have "n \<notin> set (map to_name (all_tools B C))" by (auto simp: find_None_iff)
  then show thesis using assms by (simp add: registry_names)
next
  case (Some t)
  then have "t \<in> set (all_tools B C)" "to_name t = n" unfolding find_Some_iff by auto
  then show thesis using that Some by (simp add: get_tool_def)
qed

lemma map_insort_key: "map g (insort_key (\<lambda>x. f (g x)) x xs) = insort_key f (g x) (map g xs)"
  by (induction xs) auto

lemma map_sort_key: "map g (sort_key (\<lambda>x. f (g x)) xs) = sort_key f (map g xs)"
  by (induction xs) (simp_all add: map_insort_key)

lemma canonical_order:
  assumes "distinct ns" "set ns \<subseteq> set CANONICAL_NAMES"
  shows "sort_key (position_of CANONICAL_NAMES) ns = filter (\<lambda>n. n \<in> set ns) CANONICAL_NAMES"
proof (rule map_sorted_distinct_set_unique [where f = "position_of CANONICAL_NAMES"])
  have inj: "inj_on (position_of CANONICAL_NAMES) (set CANONICAL_NAMES)" by (simp add: CANONICAL_NAMES_def)
  have "set (sort_key (position_of CANONICAL_NAMES) ns) \<union> set (filter (\<lambda>n. n \<in> set ns) CANONICAL_NAMES) \<subseteq> set CANONICAL_NAMES"
    using assms by auto
  then show i: "inj_on (position_of CANONICAL_NAMES)
      (set (sort_key (position_of CANONICAL_NAMES) ns) \<union> set (filter (\<lambda>n. n \<in> set ns) CANONICAL_NAMES))"
    by (rule inj_on_subset [OF inj])
  show "sorted (map (position_of CANONICAL_NAMES) (filter (\<lambda>n. n \<in> set ns) CANONICAL_NAMES))"
    by (rule sorted_key_filter) (simp add: CANONICAL_NAMES_def)
  have "distinct CANONICAL_NAMES" by (simp add: CANONICAL_NAMES_def)
  then show "distinct (map (position_of CANONICAL_NAMES) (filter (\<lambda>n. n \<in> set ns) CANONICAL_NAMES))"
    using inj_on_subset [OF i] by (simp add: distinct_map)
  show "distinct (map (position_of CANONICAL_NAMES) (sort_key (position_of CANONICAL_NAMES) ns))"
    using assms(1) inj_on_subset [OF i] by (simp add: distinct_map)
qed (use assms in auto)

lemma resolve_names:
  assumes "set ns \<subseteq> set CANONICAL_NAMES"
  obtains ts where "resolve_tools (all_tools B C) (Some ns) cfg = Inr ts" "set ts \<subseteq> set (all_tools B C)"
    "map to_name ts = filter (\<lambda>n. n \<in> set ns) CANONICAL_NAMES"
proof -
  have "set xs \<subseteq> set CANONICAL_NAMES \<Longrightarrow>
      \<exists>ts. map_err (get_tool (all_tools B C)) xs = Inr ts \<and> set ts \<subseteq> set (all_tools B C) \<and> map to_name ts = xs" for xs
  proof (induction xs)
    case (Cons x xs)
    from Cons.prems obtain t where t: "get_tool (all_tools B C) x = Inr t" "t \<in> set (all_tools B C)" "to_name t = x"
      using get_tool_known [of x B C] by auto
    from Cons obtain ts where "map_err (get_tool (all_tools B C)) xs = Inr ts" "set ts \<subseteq> set (all_tools B C)"
      "map to_name ts = xs" by auto
    with t show ?case by (intro exI [of _ "t # ts"]) simp
  qed simp
  from this [of "dedupe [] ns"] assms obtain ts where ts: "map_err (get_tool (all_tools B C)) (dedupe [] ns) = Inr ts"
    "set ts \<subseteq> set (all_tools B C)" "map to_name ts = dedupe [] ns" using dedupe_distinct [of "[]" ns] by auto
  let ?ts = "sort_key (\<lambda>t. position_of CANONICAL_NAMES (to_name t)) ts"
  have "map to_name ?ts = sort_key (position_of CANONICAL_NAMES) (dedupe [] ns)"
    by (simp only: map_sort_key [where g = to_name and f = "position_of CANONICAL_NAMES"] ts(3))
  also have "\<dots> = filter (\<lambda>n. n \<in> set ns) CANONICAL_NAMES"
    using canonical_order [of "dedupe [] ns"] dedupe_distinct [of "[]" ns] assms by simp
  finally show thesis using that [of ?ts] ts by (simp add: resolve_tools_def)
qed

lemma detectors_named:
  "set ts \<subseteq> set (all_tools B C) \<Longrightarrow> map fst (detectors_of ts) = filter (\<lambda>n. n \<in> set detector_names) (map to_name ts)"
proof (induction ts)
  case (Cons t ts)
  then have "to_find t \<noteq> None \<longleftrightarrow> to_name t \<in> set detector_names" using registry_detectors [of t B C] by simp
  moreover have "map fst (detectors_of ts) = filter (\<lambda>n. n \<in> set detector_names) (map to_name ts)" using Cons by simp
  ultimately show ?case by (cases "to_find t") (auto simp: detectors_of_def)
qed (simp add: detectors_of_def)

lemma dict_pass_applied: "rp_applied (snd (fold (dict_pass ft) ds st)) = rp_applied (snd st) @ map fst ds"
  by (induction ds arbitrary: st) (simp_all add: dict_pass_def add_tool_result_def case_prod_unfold Let_def)

lemma resolve_registry:
  assumes "set ns \<subseteq> set CANONICAL_NAMES"
  shows "resolve_tools (all_tools B C) (Some ns) cfg = Inr (filter (\<lambda>t. to_name t \<in> set ns) (all_tools B C))"
proof -
  obtain ts where ts: "resolve_tools (all_tools B C) (Some ns) cfg = Inr ts" "set ts \<subseteq> set (all_tools B C)"
    "map to_name ts = filter (\<lambda>n. n \<in> set ns) CANONICAL_NAMES" by (rule resolve_names [OF assms])
  let ?fs = "filter (\<lambda>t. to_name t \<in> set ns) (all_tools B C)"
  have "distinct (map to_name (all_tools B C))" by (simp add: registry_names CANONICAL_NAMES_def)
  then have "inj_on to_name (set ts \<union> set ?fs)" using ts(2) by (auto simp: distinct_map intro: inj_on_subset)
  moreover have "map to_name ?fs = filter (\<lambda>n. n \<in> set ns) CANONICAL_NAMES"
    unfolding registry_names [of B C, symmetric] by (simp add: filter_map comp_def)
  ultimately have "ts = ?fs" using ts(3) by (intro map_inj_on [of to_name ts ?fs]) simp_all
  with ts(1) show ?thesis by simp
qed

text \<open>A value with one function applied to every text in it, and everything else left as it is.\<close>

fun map_texts :: "(string \<Rightarrow> string) \<Rightarrow> json \<Rightarrow> json" where
  "map_texts g (JStr s) = JStr (g s)"
| "map_texts g (JList xs) = JList (map (map_texts g) xs)"
| "map_texts g (JObj d) = JObj (map (\<lambda>(k, v). (k, map_texts g v)) d)"
| "map_texts g v = v"

lemma map_texts_comp: "map_texts f (map_texts g v) = map_texts (\<lambda>s. f (g s)) v"
  by (induction v) auto

lemma map_texts_id: "map_texts (\<lambda>s. s) v = v"
  by (induction v) (auto intro!: map_idI)

lemma walk_dict_maps:
  assumes "\<And>p s. (case fst (T p ft s) of None \<Rightarrow> s | Some s' \<Rightarrow> s') = g s"
  shows "fst (walk_dict_strings T p ft v) = map_texts g v \<and> (fst (snd (walk_dict_strings T p ft v)) = 0 \<longrightarrow> map_texts g v = v)"
    and "case walk_dict_items T p ft i xs of (ys, m, n, w) \<Rightarrow>
      ys = map (map_texts g) xs \<and> (m \<longleftrightarrow> n \<noteq> 0) \<and> (n = 0 \<longrightarrow> map (map_texts g) xs = xs)"
    and "case walk_dict_fields T p ft d of (d', m, n, w) \<Rightarrow>
      d' = map (\<lambda>(k, x). (k, map_texts g x)) d \<and> (m \<longleftrightarrow> n \<noteq> 0) \<and> (n = 0 \<longrightarrow> map (\<lambda>(k, x). (k, map_texts g x)) d = d)"
  using assms
proof (induction T p ft v and T p ft i xs and T p ft d rule: walk_dict_strings_walk_dict_items_walk_dict_fields.induct)
  case (1 T p ft s)
  from 1 have "(case fst (T (if p = [] then ''$'' else p) ft s) of None \<Rightarrow> s | Some s' \<Rightarrow> s') = g s" by blast
  then show ?case by (cases "p = []") (auto split: prod.splits option.splits)
next
  case (9 T p ft i x xs)
  obtain y n w ys m n' w' where v: "walk_dict_strings T (index_path p i) ft x = (y, n, w)"
    and vs: "walk_dict_items T p ft (i + 1) xs = (ys, m, n', w')" by (metis prod_cases3 surj_pair)
  from 9(1) [OF 9(3)] 9(2) [OF v [symmetric] refl 9(3)] show ?case by (simp add: v vs [simplified])
next
  case (11 T p ft k x d)
  obtain y n w ys m n' w' where v: "walk_dict_strings T (if p = [] then k else p @ ''.'' @ k) ft x = (y, n, w)"
    and vs: "walk_dict_fields T p ft d = (ys, m, n', w')" by (metis prod_cases3 surj_pair)
  from 11(1) [OF 11(3)] 11(2) [OF v [symmetric] refl 11(3)] show ?case
    unfolding walk_dict_fields.simps v vs by auto
qed (auto split: prod.splits)

lemma detector_map:
  "(case fst (detector_transform f p ft s) of None \<Rightarrow> s | Some s' \<Rightarrow> s') = redact_at_findings s (f s ft)"
  by (simp add: detector_transform_def redact_at_findings_def Let_def)

lemma dict_passes:
  "fst (fold (dict_pass ft) ds st) = map_texts (\<lambda>s. fst (run_detectors ft ds s)) (fst st)"
proof (induction ds arbitrary: st)
  case (Cons d ds)
  obtain n f where d: "d = (n, f)" by (cases d)
  have "fst (dict_pass ft d st) = map_texts (\<lambda>s. redact_at_findings s (f s ft)) (fst st)"
    using walk_dict_maps(1) [of "detector_transform f" ft "\<lambda>s. redact_at_findings s (f s ft)" "[]" "fst st"]
    by (simp add: dict_pass_def d detector_map case_prod_unfold Let_def)
  moreover have "fst (run_detectors ft (d # ds) s) = fst (run_detectors ft ds (redact_at_findings s (f s ft)))" for s
    by (simp add: d case_prod_unfold Let_def)
  ultimately show ?case using Cons.IH [of "dict_pass ft d st"] by (simp add: map_texts_comp del: run_detectors.simps)
qed (simp add: map_texts_id)

text \<open>What the tools of a row make of one text: the detectors one after the other, then the path anonymizer.\<close>

definition row_detectors :: "backends \<Rightarrow> security_cfg \<Rightarrow> string list \<Rightarrow> (string \<times> finder) list" where
  "row_detectors B C requested =
     detectors_of (filter (\<lambda>t. to_name t \<in> set DATASET_ROW_FLOOR \<union> set requested) (all_tools B C))"

definition cleaned_text :: "backends \<Rightarrow> security_cfg \<Rightarrow> string list \<Rightarrow> string \<Rightarrow> string" where
  "cleaned_text B C requested s = anon_text (be_env B) None False (fst (run_detectors GENERAL (row_detectors B C requested) s))"

text \<open>
  C13. No dataset row is written below the floor: for every known privacy tier and every list of known tools,
  also an empty one, the row is sanitised: it keeps its fields and its values, and every text in it, at any depth, has
  gone through the detectors of the floor and those the contract adds, in canonical order, each on what the one before
  left, and then through the path anonymizer; these are the tools recorded as applied. A contract can only add.
\<close>

theorem dataset_row_floor:
  assumes "normalize_privacy_tier privacy_tier ''off'' = Inr tier"
    and "set (requested_tools tier names) \<subseteq> set CANONICAL_NAMES"
  shows "\<exists>d sec. sanitize_dataset_row B C privacy_tier names row = Inr (d, sec) \<and>
    JObj d = map_texts (cleaned_text B C (requested_tools tier names)) (JObj row) \<and> ds_floor_satisfied sec \<and>
    ds_applied sec = map fst (row_detectors B C (requested_tools tier names)) @ [''path_anonymizer''] \<and>
    ds_applied sec = filter (\<lambda>n. n \<in> set detector_names \<and> n \<in> set DATASET_ROW_FLOOR \<union> set (requested_tools tier names))
      CANONICAL_NAMES @ [''path_anonymizer'']"
proof -
  let ?req = "requested_tools tier names"
  let ?eff = "effective_tools ?req" and ?ts = "filter (\<lambda>t. to_name t \<in> set DATASET_ROW_FLOOR \<union> set ?req) (all_tools B C)"
  have eff: "set ?eff = set DATASET_ROW_FLOOR \<union> (set ?req - {[]})"
    using dedupe_distinct [of "[]" "DATASET_ROW_FLOOR @ ?req"] by (auto simp: effective_tools_def DATASET_ROW_FLOOR_def)
  have "set DATASET_ROW_FLOOR \<subseteq> set CANONICAL_NAMES" by (simp add: DATASET_ROW_FLOOR_def CANONICAL_NAMES_def)
  then have known: "set ?eff \<subseteq> set CANONICAL_NAMES" using assms(2) unfolding eff by blast
  have "[] \<notin> set CANONICAL_NAMES" by (simp add: CANONICAL_NAMES_def)
  then have "to_name t \<in> set ?eff \<longleftrightarrow> to_name t \<in> set DATASET_ROW_FLOOR \<union> set ?req" if "t \<in> set (all_tools B C)" for t
    using registry_names [of B C] that unfolding eff by (metis (no_types, lifting) Diff_iff Un_iff empty_iff insert_iff list.set_map image_eqI)
  then have ts: "resolve_tools (all_tools B C) (Some ?eff) None = Inr ?ts"
    unfolding resolve_registry [OF known] by (simp cong: filter_cong)
  have "map to_name ?ts = filter (\<lambda>n. n \<in> set DATASET_ROW_FLOOR \<union> set ?req) CANONICAL_NAMES"
    unfolding registry_names [of B C, symmetric] by (simp add: filter_map comp_def)
  then have names: "map fst (row_detectors B C ?req) =
      filter (\<lambda>n. n \<in> set detector_names \<and> n \<in> set DATASET_ROW_FLOOR \<union> set ?req) CANONICAL_NAMES"
    unfolding row_detectors_def by (subst detectors_named [of _ B C]) (auto simp: conj_commute)
  obtain v rep where vr: "fold (dict_pass GENERAL) (detectors_of ?ts) (JObj row, empty_report) = (v, rep)" by fastforce
  have v: "v = map_texts (\<lambda>s. fst (run_detectors GENERAL (row_detectors B C ?req) s)) (JObj row)"
    using dict_passes [of GENERAL "detectors_of ?ts" "(JObj row, empty_report)"] vr by (simp add: row_detectors_def)
  have "rp_applied rep = map fst (row_detectors B C ?req)"
    using dict_pass_applied [of GENERAL "detectors_of ?ts" "(JObj row, empty_report)"] vr by (simp add: empty_report_def row_detectors_def)
  then have app: "rp_applied rep =
      filter (\<lambda>n. n \<in> set detector_names \<and> n \<in> set DATASET_ROW_FLOOR \<union> set ?req) CANONICAL_NAMES"
    by (simp only: names)
  have anon: "''path_anonymizer'' \<in> set ?eff" "''path_anonymizer'' \<notin> set (rp_applied rep)"
    unfolding app eff by (simp_all add: DATASET_ROW_FLOOR_def detector_names_def)
  have floor: "list_all (\<lambda>n. n \<in> set ?eff) DATASET_ROW_FLOOR" unfolding eff by (simp add: list_all_iff)
  obtain d1 where d1: "v = JObj d1" using v by simp
  have "fst (walk_dict_strings (anon_leaf (be_env B)) [] GENERAL v) = map_texts (anon_text (be_env B) None False) v"
    using walk_dict_maps(1) [of "anon_leaf (be_env B)" GENERAL "anon_text (be_env B) None False" "[]" v]
    by (simp add: anon_leaf_def Let_def)
  also have "\<dots> = map_texts (cleaned_text B C ?req) (JObj row)" unfolding v map_texts_comp cleaned_text_def ..
  finally have walk: "fst (walk_dict_strings (anon_leaf (be_env B)) [] GENERAL (JObj d1)) = map_texts (cleaned_text B C ?req) (JObj row)"
    by (simp only: d1)
  show ?thesis
    unfolding sanitize_dataset_row_def sanitize_dict_def assms(1) sum.case Let_def ts(1) vr prod.case d1 json.case
    using anon floor walk names by (simp add: app)
qed

definition sample_backends :: backends where
  "sample_backends = \<lparr>be_env = \<lparr>te_anon = \<lparr>an_hash = (\<lambda>_. ''0a1b2c3d''), an_login = None\<rparr>, te_user = Some ''jane'', te_fmt = (\<lambda>_ _. [])\<rparr>,
     be_llm = None, be_prompt_version = ''1'', be_ner = None, be_scan = (\<lambda>_. Inl ''trufflehog is not installed'')\<rparr>"

definition sample_security_cfg :: security_cfg where
  "sample_security_cfg = \<lparr>sc_enabled = (\<lambda>n. n = ''trufflehog''), sc_verify = False, sc_exclude = [], sc_sensitivity = ''medium'', sc_redact = None\<rparr>"

theorem dataset_row_floor_witness:
  "\<exists>d sec. sanitize_dataset_row sample_backends sample_security_cfg (Some '' Off '') (Some [''llm_pii''])
      [(''note'', JStr ''see /home/jane/notes''), (''n'', JInt 2)] = Inr (d, sec) \<and>
     ds_floor_satisfied sec \<and> ds_applied sec = [''regex'', ''entropy'', ''llm_pii'', ''business_logic'', ''path_anonymizer''] \<and>
     jget d ''note'' = JStr (cleaned_text sample_backends sample_security_cfg [''llm_pii''] ''see /home/jane/notes'') \<and> jget d ''n'' = JInt 2"
proof -
  have tier: "normalize_privacy_tier (Some '' Off '') ''off'' = Inr ''off''" by code_simp
  have req: "requested_tools ''off'' (Some [''llm_pii'']) = [''llm_pii'']" by code_simp
  have "set (requested_tools ''off'' (Some [''llm_pii''])) \<subseteq> set CANONICAL_NAMES" unfolding req by (simp add: CANONICAL_NAMES_def)
  from dataset_row_floor [OF tier this, of sample_backends sample_security_cfg "[(''note'', JStr ''see /home/jane/notes''), (''n'', JInt 2)]"]
  obtain d sec where
    "sanitize_dataset_row sample_backends sample_security_cfg (Some '' Off '') (Some [''llm_pii''])
      [(''note'', JStr ''see /home/jane/notes''), (''n'', JInt 2)] = Inr (d, sec)" "ds_floor_satisfied sec"
    "d = [(''note'', JStr (cleaned_text sample_backends sample_security_cfg [''llm_pii''] ''see /home/jane/notes'')), (''n'', JInt 2)]"
    "ds_applied sec = filter (\<lambda>n. n \<in> set detector_names \<and> n \<in> set DATASET_ROW_FLOOR \<union> set [''llm_pii'']) CANONICAL_NAMES @ [''path_anonymizer'']"
    unfolding req by auto
  then show ?thesis by (simp add: CANONICAL_NAMES_def detector_names_def DATASET_ROW_FLOOR_def)
qed

end
