(* ===== verification/Egress.thy ===== *)
theory Egress
  imports SecurityPipeline EventModel Ids
begin

text \<open>
  What decides whether bytes leave the machine. The security state of a record
  (\<^verbatim>\<open>security/privacy.py\<close>), the pass of the pipeline that stamps it (\<^verbatim>\<open>core/pipeline.py\<close>), the objects
  of the private bucket and the filter that makes them eligible (\<^verbatim>\<open>core/bucket_trace_records.py\<close>,
  \<^verbatim>\<open>core/bucket_security.py\<close>), the one clearance predicate (\<^verbatim>\<open>core/egress_clearance.py\<close>) and the two
  doors that apply it to whole traces: the push of the bucket (\<^verbatim>\<open>core/bucket_sync.py\<close>) and the export of a
  capsule (\<^verbatim>\<open>core/capsule/share.py\<close>). The door of the datasets is in theory \<^verbatim>\<open>DatasetPublish\<close>.
\<close>

section \<open>The security state of a record\<close>

definition json_strings :: "json list \<Rightarrow> string list" where
  "json_strings xs = concat (map (\<lambda>x. case x of JStr s \<Rightarrow> [s] | _ \<Rightarrow> []) xs)"

definition record_privacy_tier :: "trace_record \<Rightarrow> string option" where
  "record_privacy_tier r =
     (case jfield (jfield (jget (rec_metadata r) ''security'') ''privacy'') ''privacy_tier'' of
        JStr t \<Rightarrow> (case normalize_privacy_tier (Some t) ''off'' of Inl _ \<Rightarrow> None | Inr n \<Rightarrow> Some n)
      | _ \<Rightarrow> None)"

definition record_tools_applied :: "trace_record \<Rightarrow> string list" where
  "record_tools_applied r = json_strings (jlist (jfield (jget (rec_metadata r) ''security'') ''tools_applied''))"

definition mark_record_tools_applied :: "string list option \<Rightarrow> trace_record \<Rightarrow> trace_record" where
  "mark_record_tools_applied names r =
     (let ns = (case names of None \<Rightarrow> [] | Some ns \<Rightarrow> ns);
          r' = set_security ''tools_applied'' (JList (map JStr ns)) r
      in if ns = [] then set_security ''tools'' (JObj []) r' else r')"

definition legacy_scanned :: "trace_record \<Rightarrow> bool" where
  "legacy_scanned r \<longleftrightarrow> sec_scanned (rec_security r) \<and> classifier_version (rec_security r) = Some SECURITY_VERSION"

definition explicit_tier :: "string option \<Rightarrow> trace_record \<Rightarrow> string" where
  "explicit_tier tier r =
     (case normalize_privacy_tier tier
        (case record_privacy_tier r of Some t \<Rightarrow> t | None \<Rightarrow> if legacy_scanned r then ''medium'' else ''off'')
      of Inl _ \<Rightarrow> ''off'' | Inr t \<Rightarrow> t)"

definition filtered_state :: "string option \<Rightarrow> trace_record \<Rightarrow> bool" where
  "filtered_state tier r \<longleftrightarrow>
     (record_tools_applied r \<noteq> [] \<or> explicit_tier tier r \<noteq> ''off'') \<and> sec_scanned (rec_security r)"

definition stale_state :: "string option \<Rightarrow> trace_record \<Rightarrow> bool" where
  "stale_state tier r =
     (case classifier_version (rec_security r) of
        None \<Rightarrow> filtered_state tier r
      | Some v \<Rightarrow> if v = [] then filtered_state tier r else v \<noteq> SECURITY_VERSION)"

definition bucket_security_state :: "string option \<Rightarrow> trace_record \<Rightarrow> (string, json) dict" where
  "bucket_security_state tier r =
     [(''privacy_tier'', JStr (explicit_tier tier r)),
      (''tools_applied'', JList (map JStr (record_tools_applied r))),
      (''security_version'', of_opt_str (classifier_version (rec_security r))),
      (''current_security_version'', JStr SECURITY_VERSION),
      (''scanned'', JBool (sec_scanned (rec_security r))),
      (''redactions_applied'', JInt (redactions_applied (rec_security r))),
      (''flags_reviewed'', JInt (flags_reviewed (rec_security r))),
      (''filtered'', JBool (filtered_state tier r)),
      (''stale'', JBool (stale_state tier r)),
      (''syncable'', JBool (filtered_state tier r \<and> \<not> stale_state tier r))]"

definition syncable :: "string option \<Rightarrow> trace_record \<Rightarrow> bool" where
  "syncable tier r \<longleftrightarrow> jget (bucket_security_state tier r) ''syncable'' = JBool True"

section \<open>The security pass over one trace\<close>

record processed_trace =
  pt_record :: trace_record
  pt_needs_review :: bool
  pt_redactions :: nat
  pt_trufflehog_blocked :: bool

definition resolved_tool_names :: "tool list \<Rightarrow> security_cfg \<Rightarrow> bool \<Rightarrow> string list" where
  "resolved_tool_names reg C skip_trufflehog =
     (let names = map to_name (iter_enabled C reg)
      in if skip_trufflehog \<and> ''trufflehog'' \<in> set names then filter (\<lambda>n. n \<noteq> ''trufflehog'') names else names)"

fun classifier_flag_count :: "verdict list \<Rightarrow> nat" where
  "classifier_flag_count [] = 0"
| "classifier_flag_count (v # vs) =
     (if vd_name v = ''classifier'' then (case jget (vd_payload v) ''flags'' of JList fs \<Rightarrow> length fs | _ \<Rightarrow> 0)
      else classifier_flag_count vs)"

definition unscanned :: security_metadata where
  "unscanned = \<lparr>sec_scanned = False, flags_reviewed = 0, redactions_applied = 0, classifier_version = None\<rparr>"

definition run_privacy_pipeline ::
  "tool list \<Rightarrow> security_cfg \<Rightarrow> bool \<Rightarrow> bool \<Rightarrow> trace_record \<Rightarrow> py_error + processed_trace" where
  "run_privacy_pipeline reg C skip_trufflehog review_on_redaction r =
     (let names = resolved_tool_names reg C skip_trufflehog in
      if names = [] then
        Inr \<lparr>pt_record = mark_record_tools_applied (Some []) (r\<lparr>rec_security := unscanned\<rparr>),
             pt_needs_review = False, pt_redactions = 0, pt_trufflehog_blocked = False\<rparr>
      else (case sanitize_record reg (Some names) (Some C) r of Inl e \<Rightarrow> Inl e
        | Inr (r', rep) \<Rightarrow>
            (let flags = classifier_flag_count (rp_verdicts rep);
                 stamped = r'\<lparr>rec_security := \<lparr>sec_scanned = True, flags_reviewed = int flags,
                   redactions_applied = int (rp_redactions rep), classifier_version = Some SECURITY_VERSION\<rparr>\<rparr>;
                 blocked = (case dget (rp_results rep) ''trufflehog'' of None \<Rightarrow> False | Some res \<Rightarrow> tr_blocked res)
             in Inr \<lparr>pt_record = mark_record_tools_applied (Some (rp_applied rep)) stamped,
                     pt_needs_review = (rp_findings rep \<noteq> [] \<or> 0 < flags \<or> review_on_redaction \<and> rp_redactions rep \<noteq> 0 \<or> blocked),
                     pt_redactions = rp_redactions rep, pt_trufflehog_blocked = blocked\<rparr>)))"

text \<open>
  Imported traces are enriched from their own steps first. The enrichment package is a parameter: it
  returns the enriched trace or raises.
\<close>

type_synonym enrichment = "trace_record \<Rightarrow> py_error + trace_record"

definition process_imported_trace :: "enrichment \<Rightarrow> tool list \<Rightarrow> security_cfg \<Rightarrow> bool \<Rightarrow> trace_record \<Rightarrow> py_error + processed_trace" where
  "process_imported_trace enrich reg C skip_trufflehog r =
     (case enrich r of Inl e \<Rightarrow> Inl e | Inr r' \<Rightarrow> run_privacy_pipeline reg C skip_trufflehog False r')"

section \<open>Objects of the bucket\<close>

record bucket_object =
  bo_project :: string
  bo_layer :: string
  bo_trace_id :: string
  bo_record_hash :: string
  bo_legacy_mirror :: bool
  bo_security :: "(string, json) dict"
  bo_written_at :: string
  bo_record :: trace_record

text \<open>
  The bucket keeps one current object for each project and trace; objects of the layout before it stay under a root of
  their own, which is read and never written. The environment provides the digest of a record, the clock, and which
  traces the file system refuses to write.
\<close>

record object_store =
  os_current :: "(string \<times> string, bucket_object) dict"
  os_legacy :: "(string \<times> string, bucket_object) dict"

record bucket_env =
  bu_content_hash :: "trace_record \<Rightarrow> string"
  bu_digest :: "trace_record \<Rightarrow> string"
  bu_now :: string
  bu_writable :: "string \<Rightarrow> bool"

definition normalized_record :: "bucket_env \<Rightarrow> trace_record \<Rightarrow> trace_record" where
  "normalized_record W r = r\<lparr>rec_content_hash := Some (bu_content_hash W r)\<rparr>"

definition write_trace_record ::
  "bucket_env \<Rightarrow> string \<Rightarrow> string \<Rightarrow> bool \<Rightarrow> string option \<Rightarrow> trace_record \<Rightarrow> object_store \<Rightarrow> (object_store \<times> bucket_object) option" where
  "write_trace_record W project layer legacy tier r S =
     (if \<not> bu_writable W (rec_trace_id r) then None
      else let n = normalized_record W r;
               ob = \<lparr>bo_project = project, bo_layer = layer, bo_trace_id = rec_trace_id n, bo_record_hash = bu_digest W n,
                     bo_legacy_mirror = legacy, bo_security = bucket_security_state tier n,
                     bo_written_at = bu_now W, bo_record = n\<rparr>
           in Some (S\<lparr>os_current := dset (os_current S) (project, rec_trace_id n) ob\<rparr>, ob))"

text \<open>Reading recomputes the security state from the record, keeping the tier the envelope was written with.\<close>

definition read_trace_record_object :: "bucket_object \<Rightarrow> bucket_object option" where
  "read_trace_record_object ob =
     (if bo_project ob = [] \<or> bo_layer ob = [] \<or> rec_trace_id (bo_record ob) = [] then None
      else (case jget (bo_security ob) ''privacy_tier'' of
              JStr t \<Rightarrow> Some (ob\<lparr>bo_trace_id := rec_trace_id (bo_record ob), bo_security := bucket_security_state (Some t) (bo_record ob)\<rparr>)
            | _ \<Rightarrow> Some (ob\<lparr>bo_trace_id := rec_trace_id (bo_record ob), bo_security := bucket_security_state None (bo_record ob)\<rparr>)))"

definition somes :: "'a option list \<Rightarrow> 'a list" where
  "somes xs = concat (map (\<lambda>x. case x of None \<Rightarrow> [] | Some y \<Rightarrow> [y]) xs)"

text \<open>
  Objects are enumerated in the order of their paths, those of the legacy root after the current ones: it has a file
  for each trace where the current layout has a directory. A legacy object is skipped when the current layout has its trace.
\<close>

definition path_part :: "string \<Rightarrow> string" where
  "path_part v = quote v"

definition current_objects :: "object_store \<Rightarrow> bucket_object list" where
  "current_objects S =
     somes (map read_trace_record_object (dvalues (sort_key (\<lambda>((p, t), _). (path_part p, path_part t)) (os_current S))))"

definition legacy_objects :: "object_store \<Rightarrow> bucket_object list" where
  "legacy_objects S =
     somes (map read_trace_record_object (dvalues (sort_key (\<lambda>((p, t), _). (path_part p, path_part t @ ''.json'')) (os_legacy S))))"

definition iter_trace_record_objects :: "object_store \<Rightarrow> bucket_object list" where
  "iter_trace_record_objects S =
     (let seen = map (\<lambda>ob. (bo_project ob, bo_trace_id ob)) (current_objects S)
      in current_objects S @ filter (\<lambda>ob. (bo_project ob, bo_trace_id ob) \<notin> set seen) (legacy_objects S))"

definition row_status_block :: "bucket_object option \<Rightarrow> (string, json) dict" where
  "row_status_block envelope =
     (case envelope of
        None \<Rightarrow> [(''known'', JBool False), (''syncable'', JNull), (''privacy_off'', JNull), (''security_stale'', JNull), (''written_at'', JNull)]
      | Some ob \<Rightarrow>
         [(''known'', JBool True),
          (''syncable'', JBool (truthy (jget (bo_security ob) ''syncable''))),
          (''privacy_off'', JBool (jget (bo_security ob) ''privacy_tier'' = JStr ''off'')),
          (''security_stale'', JBool (truthy (jget (bo_security ob) ''stale''))),
          (''written_at'', if bo_written_at ob = [] then JNull else JStr (bo_written_at ob))])"

section \<open>Making records eligible\<close>

definition bucket_security_remediation :: "nat \<Rightarrow> nat \<Rightarrow> bool \<Rightarrow> (string \<times> string) option" where
  "bucket_security_remediation unfiltered stale filtering_configured =
     (if unfiltered = 0 \<and> stale = 0 then None
      else if \<not> filtering_configured then Some (''not_configured'', ''opentraces bucket security policy --policy basic'')
      else if stale \<noteq> 0 \<and> unfiltered = 0 then Some (''version_stale'', ''opentraces bucket security run --all'')
      else Some (''pending'', ''opentraces bucket security run --all''))"

record security_gate =
  sg_configured :: bool
  sg_unfiltered :: nat
  sg_stale :: nat
  sg_eligible :: bool
  sg_reasons :: "string list"
  sg_remediation :: "(string \<times> string) option"

definition bucket_sync_security_gate :: "tool list \<Rightarrow> security_cfg \<Rightarrow> nat \<Rightarrow> nat \<Rightarrow> security_gate" where
  "bucket_sync_security_gate reg C unfiltered stale =
     (let configured = (resolved_tool_names reg C False \<noteq> []);
          remediation = bucket_security_remediation unfiltered stale configured
      in \<lparr>sg_configured = configured, sg_unfiltered = unfiltered, sg_stale = stale, sg_eligible = (remediation = None),
          sg_reasons = (if unfiltered \<noteq> 0 then [''unfiltered_records''] else []) @ (if stale \<noteq> 0 then [''security_version_stale''] else []),
          sg_remediation = remediation\<rparr>)"

definition state_flag :: "string \<Rightarrow> string option \<Rightarrow> trace_record \<Rightarrow> bool" where
  "state_flag k tier r = truthy (jget (bucket_security_state tier r) k)"

definition count_by :: "('a \<Rightarrow> bool) \<Rightarrow> 'a list \<Rightarrow> nat" where
  "count_by p xs = length (filter p xs)"

record security_overview =
  so_total :: nat
  so_filtered :: nat
  so_unfiltered :: nat
  so_stale :: nat
  so_configured :: "string list"
  so_remediation :: "(string \<times> string) option"

definition bucket_security_overview :: "tool list \<Rightarrow> security_cfg \<Rightarrow> object_store \<Rightarrow> security_overview" where
  "bucket_security_overview reg C S =
     (let configured = resolved_tool_names reg C False;
          records = map bo_record (iter_trace_record_objects S);
          filtered = count_by (syncable None) records;
          unfiltered = count_by (\<lambda>r. \<not> state_flag ''syncable'' None r) records;
          stale = count_by (state_flag ''stale'' None) records
      in \<lparr>so_total = length records, so_filtered = filtered, so_unfiltered = unfiltered, so_stale = stale,
          so_configured = configured, so_remediation = bucket_security_remediation unfiltered stale (configured \<noteq> [])\<rparr>)"

record filter_run =
  fr_store :: object_store
  fr_filtered :: nat
  fr_already :: nat
  fr_blocked :: nat
  fr_failed :: nat
  fr_changed :: "string list"

definition filter_object ::
  "bucket_env \<Rightarrow> enrichment \<Rightarrow> tool list \<Rightarrow> security_cfg \<Rightarrow> bucket_object \<Rightarrow> filter_run \<Rightarrow> filter_run" where
  "filter_object W enrich reg C ob st =
     (if syncable None (bo_record ob) then st\<lparr>fr_already := fr_already st + 1\<rparr>
      else (let tier = record_privacy_tier (bo_record ob) in
        (case process_imported_trace enrich reg C False (bo_record ob) of
           Inl _ \<Rightarrow> st\<lparr>fr_failed := fr_failed st + 1\<rparr>
         | Inr pt \<Rightarrow>
            (case write_trace_record W (bo_project ob) (bo_layer ob) (bo_legacy_mirror ob) tier (pt_record pt) (fr_store st) of
               None \<Rightarrow> st\<lparr>fr_failed := fr_failed st + 1\<rparr>
             | Some (S, _) \<Rightarrow>
                 if syncable tier (pt_record pt)
                 then st\<lparr>fr_store := S, fr_filtered := fr_filtered st + 1, fr_changed := fr_changed st @ [bo_trace_id ob]\<rparr>
                 else st\<lparr>fr_store := S, fr_blocked := fr_blocked st + 1\<rparr>))))"

record filter_summary =
  fs_status :: string
  fs_configured :: "string list"
  fs_total :: nat
  fs_run :: filter_run
  fs_remediation :: "(string \<times> string) option"

definition empty_run :: "object_store \<Rightarrow> filter_run" where
  "empty_run S = \<lparr>fr_store = S, fr_filtered = 0, fr_already = 0, fr_blocked = 0, fr_failed = 0, fr_changed = []\<rparr>"

text \<open>
  \<open>found\<close> is the list of objects the run works on: all of the bucket, or the one that a trace id resolves to.
\<close>

definition apply_bucket_security_filter ::
  "bucket_env \<Rightarrow> enrichment \<Rightarrow> tool list \<Rightarrow> security_cfg \<Rightarrow> string option \<Rightarrow> (string \<Rightarrow> bucket_object option) \<Rightarrow> object_store \<Rightarrow> filter_summary" where
  "apply_bucket_security_filter W enrich reg C trace_id resolve S =
     (let configured = resolved_tool_names reg C False;
          objects = (case trace_id of None \<Rightarrow> iter_trace_record_objects S | Some t \<Rightarrow> somes [resolve t])
      in if trace_id \<noteq> None \<and> objects = [] then
           \<lparr>fs_status = ''not_found'', fs_configured = configured, fs_total = 0, fs_run = empty_run S, fs_remediation = None\<rparr>
         else if configured = [] then
           (let unfiltered = count_by (\<lambda>ob. \<not> state_flag ''syncable'' None (bo_record ob)) objects
            in \<lparr>fs_status = ''not_configured'', fs_configured = [], fs_total = length objects,
                fs_run = (empty_run S)\<lparr>fr_already := length objects - unfiltered, fr_blocked := unfiltered\<rparr>,
                fs_remediation = bucket_security_remediation unfiltered 0 False\<rparr>)
         else \<lparr>fs_status = ''ok'', fs_configured = configured, fs_total = length objects,
               fs_run = fold (filter_object W enrich reg C) objects (empty_run S), fs_remediation = None\<rparr>)"

section \<open>The clearance predicate\<close>

datatype clearance = CLEARED | NOT_CLEARED | UNKNOWN

definition clearance_state :: "json \<Rightarrow> clearance" where
  "clearance_state status =
     (case status of
        JObj d \<Rightarrow> if \<not> truthy (jget d ''known'') then UNKNOWN
          else if jget d ''syncable'' = JBool True then CLEARED else NOT_CLEARED
      | _ \<Rightarrow> UNKNOWN)"

definition is_row_cleared :: "json \<Rightarrow> bool" where
  "is_row_cleared status \<longleftrightarrow> clearance_state status = CLEARED"

text \<open>\<^verbatim>\<open>str(row.get("trace_id") or "")\<close>; \<open>repr\<close> prints the values that are no text.\<close>

definition row_trace_id :: "(json \<Rightarrow> string) \<Rightarrow> json \<Rightarrow> string" where
  "row_trace_id repr row = py_str repr (jor (jfield row ''trace_id'') (JStr []))"

text \<open>\<open>lookup\<close> is the summary of one trace read without the manifest.\<close>

definition clearance_for_trace :: "(json \<Rightarrow> string) \<Rightarrow> (string \<Rightarrow> json) \<Rightarrow> json option \<Rightarrow> string \<Rightarrow> clearance" where
  "clearance_for_trace repr lookup manifest t =
     (case manifest of
        Some m \<Rightarrow> (case find (\<lambda>row. is_jobj row \<and> row_trace_id repr row = t) (jlist (jfield m ''traces'')) of
            None \<Rightarrow> UNKNOWN | Some row \<Rightarrow> clearance_state (jfield row ''status''))
      | None \<Rightarrow> clearance_state (jfield (lookup t) ''status''))"

section \<open>Door A: pushing the bucket\<close>

record withheld_trace =
  wh_trace_id :: string
  wh_reason :: string
  wh_sub_reason :: string

record push_partition =
  pp_pushed :: "string list"
  pp_withheld :: "withheld_trace list"

definition WITHHOLD_REASON :: string where "WITHHOLD_REASON = ''not_cleared_for_sync''"

definition sub_reason :: "clearance \<Rightarrow> string" where
  "sub_reason c = (if c = NOT_CLEARED then ''syncable_false'' else ''status_unknown'')"

definition partition_row :: "(json \<Rightarrow> string) \<Rightarrow> json \<Rightarrow> push_partition \<Rightarrow> push_partition" where
  "partition_row repr row p =
     (if \<not> is_jobj row then p
      else let t = row_trace_id repr row; state = clearance_state (jfield row ''status'') in
        if state = CLEARED then p\<lparr>pp_pushed := pp_pushed p @ [t]\<rparr>
        else p\<lparr>pp_withheld := pp_withheld p @ [\<lparr>wh_trace_id = t, wh_reason = WITHHOLD_REASON, wh_sub_reason = sub_reason state\<rparr>]\<rparr>)"

definition push_withhold_partition :: "(json \<Rightarrow> string) \<Rightarrow> json list \<Rightarrow> push_partition" where
  "push_withhold_partition repr rows = fold (partition_row repr) rows \<lparr>pp_pushed = [], pp_withheld = []\<rparr>"

definition partition_from_manifest :: "(json \<Rightarrow> string) \<Rightarrow> json \<Rightarrow> py_error + push_partition" where
  "partition_from_manifest repr manifest =
     (case manifest of
        JObj d \<Rightarrow> (case iter_or_empty (jget d ''traces'') of Inl e \<Rightarrow> Inl e
          | Inr rows \<Rightarrow> Inr (push_withhold_partition repr (filter is_jobj rows)))
      | _ \<Rightarrow> Inr (push_withhold_partition repr []))"

datatype push_error = PushRaised py_error | BucketPushWithheld push_partition

definition enforce_push_clearance :: "(json \<Rightarrow> string) \<Rightarrow> json \<Rightarrow> push_error + push_partition" where
  "enforce_push_clearance repr manifest =
     (case partition_from_manifest repr manifest of
        Inl e \<Rightarrow> Inl (PushRaised e)
      | Inr p \<Rightarrow> if pp_withheld p \<noteq> [] then Inl (BucketPushWithheld p) else Inr p)"

definition sync_push_partition :: "(json \<Rightarrow> string) \<Rightarrow> string \<times> json \<Rightarrow> py_error + push_partition" where
  "sync_push_partition repr persisted =
     (if fst persisted = ''ok'' then partition_from_manifest repr (snd persisted)
      else Inr (push_withhold_partition repr []))"

section \<open>Door C: exporting a capsule\<close>

text \<open>\<^verbatim>\<open>(v or {}).get(k)\<close>\<close>

definition get_or_empty :: "json \<Rightarrow> string \<Rightarrow> py_error + json" where
  "get_or_empty v k =
     (if \<not> truthy v then Inr JNull else (case v of JObj d \<Rightarrow> Inr (jget d k) | _ \<Rightarrow> Inl AttributeError))"

definition stripped_id :: "(json \<Rightarrow> string) \<Rightarrow> json \<Rightarrow> string" where
  "stripped_id repr v = strip (py_str repr (jor v (JStr [])))"

fun add_source_ids :: "(json \<Rightarrow> string) \<Rightarrow> string list \<Rightarrow> json list \<Rightarrow> py_error + string list" where
  "add_source_ids repr ids [] = Inr ids"
| "add_source_ids repr ids (entry # es) =
     (case get_or_empty entry ''trace_id'' of
        Inl e \<Rightarrow> Inl e
      | Inr v \<Rightarrow> (let t = stripped_id repr v
          in add_source_ids repr (if t \<noteq> [] \<and> t \<notin> set ids then ids @ [t] else ids) es))"

definition capsule_source_trace_ids :: "(json \<Rightarrow> string) \<Rightarrow> (string, json) dict \<Rightarrow> py_error + string list" where
  "capsule_source_trace_ids repr capsule =
     (case get_or_empty (jget capsule ''source'') ''trace_id'' of
        Inl e \<Rightarrow> Inl e
      | Inr v \<Rightarrow> (let t = stripped_id repr v in
          (case iter_or_empty (jget capsule ''sources'') of
             Inl e \<Rightarrow> Inl e
           | Inr entries \<Rightarrow> add_source_ids repr (if t \<noteq> [] then [t] else []) entries)))"

datatype capsule_error = CapsuleRaised py_error | CapsuleNoSource | CapsuleWithheld "(string \<times> clearance) list"

definition enforce_capsule_clearance ::
  "(json \<Rightarrow> string) \<Rightarrow> (string \<Rightarrow> json) \<Rightarrow> json option \<Rightarrow> bool \<Rightarrow> (string, json) dict \<Rightarrow> capsule_error + string list" where
  "enforce_capsule_clearance repr lookup manifest allow_sourceless capsule =
     (case capsule_source_trace_ids repr capsule of
        Inl e \<Rightarrow> Inl (CapsuleRaised e)
      | Inr ids \<Rightarrow>
          if ids = [] then (if allow_sourceless then Inr [] else Inl CapsuleNoSource)
          else (let withheld = filter (\<lambda>(t, c). c \<noteq> CLEARED) (map (\<lambda>t. (t, clearance_for_trace repr lookup manifest t)) ids)
                in if withheld \<noteq> [] then Inl (CapsuleWithheld withheld) else Inr ids))"

section \<open>Addresses of traces\<close>

text \<open>\<^verbatim>\<open>int(s)\<close> of a text: blanks around it, a sign, digits with single underscores between them.\<close>

definition all_digits :: "string \<Rightarrow> bool" where
  "all_digits s \<longleftrightarrow> s \<noteq> [] \<and> list_all is_digit s"

definition digits_number :: "string \<Rightarrow> int" where
  "digits_number s = foldl (\<lambda>v c. 10 * v + (int (ord_of c) - 48)) 0 s"

definition py_int :: "string \<Rightarrow> int option" where
  "py_int s =
     (let t = strip s;
          (sign, body) = (case t of c # cs \<Rightarrow> if c = CHR ''-'' then (-1, cs) else if c = CHR ''+'' then (1, cs) else (1, t) | [] \<Rightarrow> (1, []));
          groups = split_on (CHR ''_'') body
      in if list_all all_digits groups then Some (sign * digits_number (concat groups)) else None)"

text \<open>\<^verbatim>\<open>s.partition(c)\<close> for a one-character separator.\<close>

definition partition_at :: "char \<Rightarrow> string \<Rightarrow> string \<times> string" where
  "partition_at d s = (takeWhile (\<lambda>c. c \<noteq> d) s, drop 1 (dropWhile (\<lambda>c. c \<noteq> d) s))"

datatype trail_slot = Bare | AtStep int | Span int int | Origin | Last | Invalid

definition parse_trail_ref :: "string \<Rightarrow> string \<times> trail_slot" where
  "parse_trail_ref ref =
     (let raw = strip ref in
      if CHR '':'' \<notin> set raw then (raw, Bare)
      else (let (trace_part, addr) = partition_at (CHR '':'') raw; t = strip trace_part; a = strip addr in
        (t, if a = ''origin'' then Origin
            else if a = ''last'' then Last
            else if CHR ''-'' \<in> set a then
              (let (x, y) = partition_at (CHR ''-'') a in
               case (py_int x, py_int y) of (Some m, Some n) \<Rightarrow> Span m n | _ \<Rightarrow> Invalid)
            else (case py_int a of Some n \<Rightarrow> AtStep n | None \<Rightarrow> Invalid))))"

end
