(* ===== verification/DatasetModel.thy ===== *)
theory DatasetModel
  imports Egress
begin

text \<open>
  The data of a local dataset: the JSON text of a row and the lines of a file, the security policy that
  a workflow's contract seeds and a person edits (\<^verbatim>\<open>opentraces_schema/dataset.py\<close>,
  \<^verbatim>\<open>core/datasets.py\<close>), the identity of a row, the check against the row schema, and the resolution of
  a row's source.
\<close>

section \<open>JSON text\<close>

text \<open>
  \<^verbatim>\<open>json.dumps(payload, sort_keys=True, separators=(",", ":"), ensure_ascii=False)\<close>. Only the quote, the
  backslash and the controls below 32 are escaped. \<open>ftext\<close> prints a float.
\<close>

definition low_hex_digit :: "nat \<Rightarrow> char" where
  "low_hex_digit n = (if n < 10 then char_of (48 + n) else char_of (87 + n))"

definition hex4 :: "nat \<Rightarrow> string" where
  "hex4 n = ''00'' @ [low_hex_digit (n div 16), low_hex_digit (n mod 16)]"

definition escape_char :: "char \<Rightarrow> string" where
  "escape_char c =
     (if c = CHR 34 then [CHR 92, CHR 34]
      else if c = CHR 92 then [CHR 92, CHR 92]
      else if c = CHR 10 then [CHR 92, CHR ''n'']
      else if c = CHR 13 then [CHR 92, CHR ''r'']
      else if c = CHR 9 then [CHR 92, CHR ''t'']
      else if c = CHR 12 then [CHR 92, CHR ''f'']
      else if c = CHR 8 then [CHR 92, CHR ''b'']
      else if ord_of c < 32 then [CHR 92, CHR ''u''] @ hex4 (ord_of c)
      else [c])"

definition json_string :: "string \<Rightarrow> string" where
  "json_string s = [CHR 34] @ concat (map escape_char s) @ [CHR 34]"

fun dumps :: "(rat \<Rightarrow> string) \<Rightarrow> json \<Rightarrow> string" where
  "dumps ftext JNull = ''null''"
| "dumps ftext (JBool b) = (if b then ''true'' else ''false'')"
| "dumps ftext (JInt i) = str_of_int i"
| "dumps ftext (JFloat q) = ftext q"
| "dumps ftext (JStr s) = json_string s"
| "dumps ftext (JList xs) = ''['' @ join '','' (map (dumps ftext) xs) @ '']''"
| "dumps ftext (JObj kvs) = ''{'' @ join '','' (map (\<lambda>(k, v). json_string k @ '':'' @ dumps ftext v) kvs) @ ''}''"

definition canonical_json :: "(rat \<Rightarrow> string) \<Rightarrow> json \<Rightarrow> string" where
  "canonical_json ftext v = dumps ftext (canon v)"

text \<open>
  \<^verbatim>\<open>s.splitlines()\<close>: besides the line feed and the carriage return, the vertical tab, the form feed, the
  three separators and the next-line character end a line.
\<close>

definition is_break :: "char \<Rightarrow> bool" where
  "is_break c \<longleftrightarrow> ord_of c \<in> {10, 11, 12, 13, 28, 29, 30, 133}"

definition skip_lf :: "char \<Rightarrow> string \<Rightarrow> string" where
  "skip_lf c cs = (if c = CHR 13 \<and> take 1 cs = [CHR 10] then drop 1 cs else cs)"

lemma length_skip_lf [termination_simp]: "length (skip_lf c cs) \<le> length cs"
  by (simp add: skip_lf_def)

function split_breaks :: "string \<Rightarrow> string \<Rightarrow> string list" where
  "split_breaks acc [] = (if acc = [] then [] else [rev acc])"
| "split_breaks acc (c # cs) =
     (if is_break c then rev acc # split_breaks [] (skip_lf c cs) else split_breaks (c # acc) cs)"
  by pat_completeness auto

termination by (relation "measure (\<lambda>(acc, cs). length cs)") (auto simp: le_imp_less_Suc length_skip_lf)

definition splitlines :: "string \<Rightarrow> string list" where
  "splitlines s = split_breaks [] s"

section \<open>The security policy of a dataset\<close>

definition SECURITY_TOOL_ORDER :: "string list" where
  "SECURITY_TOOL_ORDER = [''regex'', ''entropy'', ''trufflehog'', ''privacy_filter'', ''llm_pii'', ''business_logic'',
     ''path_anonymizer'', ''capsule_scope'', ''classifier'']"

definition canonical_tools :: "string set \<Rightarrow> string list" where
  "canonical_tools names = filter (\<lambda>n. n \<in> names) SECURITY_TOOL_ORDER"

record security_contract =
  wc_required :: "string list"
  wc_optional :: "string list"
  wc_default :: "string list"
  wc_disallowed :: "string list"
  wc_allow_disable :: bool

record security_policy =
  po_source :: string
  po_workflow_digest :: "string option"
  po_required :: "string list"
  po_optional :: "string list"
  po_enabled :: "string list"
  po_disallowed :: "string list"
  po_allow_disable :: bool
  po_overrides :: "(string \<times> string option) list"

definition known_tools :: "string list \<Rightarrow> bool" where
  "known_tools ns \<longleftrightarrow> list_all (\<lambda>n. n \<in> set SECURITY_TOOL_ORDER) ns"

definition apart_lists :: "string list \<Rightarrow> string list \<Rightarrow> bool" where
  "apart_lists xs ys \<longleftrightarrow> list_all (\<lambda>x. x \<notin> set ys) xs"

text \<open>The validators of the two models: tool names of the vocabulary, and the coherence of the sets.\<close>

definition contract_ok :: "security_contract \<Rightarrow> bool" where
  "contract_ok c \<longleftrightarrow>
     known_tools (wc_required c @ wc_optional c @ wc_default c @ wc_disallowed c) \<and>
     apart_lists (wc_required c) (wc_disallowed c) \<and> apart_lists (wc_optional c) (wc_disallowed c) \<and>
     apart_lists (wc_required c) (wc_optional c) \<and>
     list_all (\<lambda>n. n \<in> set (wc_required c @ wc_optional c)) (wc_default c)"

definition overridden :: "security_policy \<Rightarrow> string list" where
  "overridden p = map fst (po_overrides p)"

definition policy_ok :: "security_policy \<Rightarrow> bool" where
  "policy_ok p \<longleftrightarrow>
     known_tools (po_required p @ po_optional p @ po_enabled p @ po_disallowed p @ overridden p) \<and>
     apart_lists (po_required p) (po_disallowed p) \<and>
     list_all (\<lambda>n. n \<in> set (po_required p @ po_optional p)) (po_enabled p) \<and>
     apart_lists (po_enabled p) (po_disallowed p) \<and>
     list_all (\<lambda>n. n \<in> set (po_enabled p @ overridden p)) (po_required p) \<and>
     list_all (\<lambda>n. n \<in> set (po_required p)) (overridden p) \<and>
     (overridden p = [] \<or> po_allow_disable p)"

definition resolved_enabled_tools :: "security_contract \<Rightarrow> string list" where
  "resolved_enabled_tools c = canonical_tools (set (wc_required c) \<union> set (wc_default c))"

definition from_contract :: "security_contract \<Rightarrow> string option \<Rightarrow> py_error + security_policy" where
  "from_contract c digest =
     (let p = \<lparr>po_source = ''workflow'', po_workflow_digest = digest, po_required = wc_required c, po_optional = wc_optional c,
        po_enabled = resolved_enabled_tools c, po_disallowed = wc_disallowed c, po_allow_disable = wc_allow_disable c,
        po_overrides = []\<rparr>
      in if policy_ok p then Inr p else Inl ValueError)"

definition required_tools_satisfied :: "security_policy \<Rightarrow> bool" where
  "required_tools_satisfied p \<longleftrightarrow> list_all (\<lambda>n. n \<in> set (po_enabled p)) (po_required p)"

definition missing_required_tools :: "security_policy \<Rightarrow> string list" where
  "missing_required_tools p = canonical_tools (set (po_required p) - set (po_enabled p))"

text \<open>
  Editing. The two working values of the loop are the set of enabled tools and the dictionary of
  overrides; the first refusal ends the edit.
\<close>

type_synonym edit_state = "string list \<times> (string, string option) dict"

definition in_contract :: "security_policy \<Rightarrow> string \<Rightarrow> bool" where
  "in_contract p t \<longleftrightarrow> t \<in> set (po_required p) \<or> t \<in> set (po_optional p)"

fun enable_tools :: "security_policy \<Rightarrow> string list \<Rightarrow> edit_state \<Rightarrow> py_error + edit_state" where
  "enable_tools p [] st = Inr st"
| "enable_tools p (t # ts) (en, ov) =
     (if t \<in> set (po_disallowed p) \<or> \<not> in_contract p t then Inl ValueError
      else enable_tools p ts (if t \<in> set en then en else en @ [t], dpop ov t))"

fun disable_tools :: "security_policy \<Rightarrow> bool \<Rightarrow> string option \<Rightarrow> string list \<Rightarrow> edit_state \<Rightarrow> py_error + edit_state" where
  "disable_tools p unsafe reason [] st = Inr st"
| "disable_tools p unsafe reason (t # ts) (en, ov) =
     (if \<not> in_contract p t then Inl ValueError
      else if t \<in> set (po_required p) \<and> (\<not> po_allow_disable p \<or> \<not> unsafe) then Inl ValueError
      else disable_tools p unsafe reason ts
             (filter (\<lambda>n. n \<noteq> t) en, if t \<in> set (po_required p) then dset ov t reason else ov))"

definition nonempty_names :: "string list \<Rightarrow> string list" where
  "nonempty_names ns = filter (\<lambda>n. n \<noteq> []) (dedupe [] ns)"

definition ordered_overrides :: "(string, string option) dict \<Rightarrow> (string \<times> string option) list" where
  "ordered_overrides ov = concat (map (\<lambda>n. case dget ov n of None \<Rightarrow> [] | Some r \<Rightarrow> [(n, r)]) SECURITY_TOOL_ORDER)"

definition edited_policy :: "security_policy \<Rightarrow> bool \<Rightarrow> edit_state \<Rightarrow> security_policy" where
  "edited_policy p touched st =
     p\<lparr>po_enabled := canonical_tools (set (fst st)), po_overrides := ordered_overrides (snd st),
       po_source := if touched \<and> po_source p \<noteq> ''manual'' then ''manual'' else po_source p\<rparr>"

definition apply_dataset_security_edit ::
  "security_policy \<Rightarrow> string list \<Rightarrow> string list \<Rightarrow> bool \<Rightarrow> string option \<Rightarrow>
    py_error + security_policy \<times> string list \<times> string list" where
  "apply_dataset_security_edit p enable disable unsafe reason =
     (let en = nonempty_names enable; dis = nonempty_names disable in
      if list_ex (\<lambda>n. n \<in> set dis) en then Inl ValueError
      else (case enable_tools p en (po_enabled p, fold (\<lambda>(n, r) d. dset d n r) (po_overrides p) []) of
              Inl e \<Rightarrow> Inl e
            | Inr st \<Rightarrow> (case disable_tools p unsafe reason dis st of
                Inl e \<Rightarrow> Inl e
              | Inr st' \<Rightarrow>
                  (let q = edited_policy p (en \<noteq> [] \<or> dis \<noteq> []) st'
                   in Inr (q, canonical_tools (set (po_enabled q) - set (po_enabled p)),
                           canonical_tools (set (po_enabled p) - set (po_enabled q)))))))"

section \<open>The manifest\<close>

record dataset_identity =
  id_mode :: string
  id_fields :: "string list"

definition identity_ok :: "dataset_identity \<Rightarrow> bool" where
  "identity_ok i \<longleftrightarrow>
     id_mode i \<in> {''payload_hash'', ''fields''} \<and> (id_mode i = ''fields'' \<longrightarrow> id_fields i \<noteq> []) \<and> [] \<notin> set (id_fields i)"

record dataset_remote =
  dr_url :: string
  dr_visibility :: string

record workflow_ref =
  wf_skill :: string
  wf_digest :: string
  wf_config :: "(string, json) dict"

record dataset_manifest =
  dm_name :: string
  dm_schema_path :: string
  dm_schema_version :: string
  dm_schema_digest :: "string option"
  dm_workflow :: workflow_ref
  dm_identity :: dataset_identity
  dm_remotes :: "(string, dataset_remote) dict"
  dm_active :: "string option"
  dm_review :: string
  dm_security :: security_policy

definition truthy_str :: "string option \<Rightarrow> bool" where
  "truthy_str s \<longleftrightarrow> s \<noteq> None \<and> s \<noteq> Some []"

text \<open>The active remote names an entry of the remotes.\<close>

definition manifest_ok :: "dataset_manifest \<Rightarrow> bool" where
  "manifest_ok m \<longleftrightarrow>
     identity_ok (dm_identity m) \<and> policy_ok (dm_security m) \<and> dict_ok (dm_remotes m) \<and>
     (case dm_active m of None \<Rightarrow> True | Some a \<Rightarrow> a = [] \<or> dmem (dm_remotes m) a)"

definition dataset_name_char :: "char \<Rightarrow> bool" where
  "dataset_name_char c \<longleftrightarrow> ord_of c < 128 \<and> is_alnum c \<or> c \<in> set ''_.-''"

definition validate_dataset_name :: "string \<Rightarrow> py_error + string" where
  "validate_dataset_name n =
     (case n of [] \<Rightarrow> Inl ValueError
      | c # cs \<Rightarrow> if ord_of c < 128 \<and> is_alnum c \<and> list_all dataset_name_char cs then Inr n else Inl ValueError)"

subsection \<open>Remotes\<close>

definition hf_url :: "string \<Rightarrow> string" where
  "hf_url repo = (if substr ''://'' repo then repo else ''hf://'' @ repo)"

definition after_scheme :: "string \<Rightarrow> string" where
  "after_scheme url = (case find_from url ''://'' 0 of None \<Rightarrow> url | Some i \<Rightarrow> drop (i + 3) url)"

definition normalize_hf_repo_id :: "string \<Rightarrow> string option \<Rightarrow> py_error + string" where
  "normalize_hf_repo_id repo hint =
     (let r = after_scheme repo in
      if CHR ''/'' \<in> set r then Inr r
      else (case hint of None \<Rightarrow> Inl ValueError | Some u \<Rightarrow> if u = [] then Inl ValueError else Inr (u @ ''/'' @ r)))"

definition repo_id_from_remote :: "dataset_remote \<Rightarrow> string" where
  "repo_id_from_remote r = after_scheme (dr_url r)"

definition add_dataset_remote :: "dataset_manifest \<Rightarrow> string \<Rightarrow> string \<Rightarrow> bool \<Rightarrow> py_error + dataset_manifest" where
  "add_dataset_remote m repo visibility set_active =
     (if dmem (dm_remotes m) repo then Inl ValueError
      else let active = (case dm_active m of None \<Rightarrow> repo | Some a \<Rightarrow> if a = [] then repo else a)
           in Inr (m\<lparr>dm_remotes := dset (dm_remotes m) repo \<lparr>dr_url = hf_url repo, dr_visibility = visibility\<rparr>,
                     dm_active := Some (if set_active then repo else active)\<rparr>))"

definition resolve_dataset_remote_name :: "dataset_manifest \<Rightarrow> string option \<Rightarrow> py_error + string" where
  "resolve_dataset_remote_name m name =
     (if dm_remotes m = [] then Inl ValueError
      else (case name of
          None \<Rightarrow> if length (dm_remotes m) = 1 then Inr (hd (dkeys (dm_remotes m)))
            else (case dm_active m of None \<Rightarrow> Inl ValueError | Some a \<Rightarrow> if a = [] then Inl ValueError else Inr a)
        | Some n \<Rightarrow> if dmem (dm_remotes m) n then Inr n else Inl ValueError))"

definition set_dataset_remote_visibility :: "dataset_manifest \<Rightarrow> string option \<Rightarrow> string \<Rightarrow> py_error + dataset_manifest" where
  "set_dataset_remote_visibility m name visibility =
     (case resolve_dataset_remote_name m name of Inl e \<Rightarrow> Inl e
      | Inr n \<Rightarrow> (case dget (dm_remotes m) n of None \<Rightarrow> Inl (KeyError n)
          | Some r \<Rightarrow> Inr (m\<lparr>dm_remotes := dset (dm_remotes m) n (r\<lparr>dr_visibility := visibility\<rparr>)\<rparr>)))"

definition remove_dataset_remote :: "dataset_manifest \<Rightarrow> string option \<Rightarrow> py_error + dataset_manifest" where
  "remove_dataset_remote m name =
     (case resolve_dataset_remote_name m name of Inl e \<Rightarrow> Inl e
      | Inr n \<Rightarrow> (case dget (dm_remotes m) n of None \<Rightarrow> Inl (KeyError n)
          | Some r \<Rightarrow>
              (let remotes = dpop (dm_remotes m) n;
                   active = (if dm_active m = Some n then (case remotes of [] \<Rightarrow> None | (k, _) # _ \<Rightarrow> Some k) else dm_active m)
               in Inr (m\<lparr>dm_remotes := remotes, dm_active := active\<rparr>))))"

definition list_dataset_remotes :: "dataset_manifest \<Rightarrow> (string \<times> dataset_remote \<times> bool) list" where
  "list_dataset_remotes m = map (\<lambda>(n, r). (n, r, dm_active m = Some n)) (sort_key fst (dm_remotes m))"

section \<open>Digests and identity\<close>

record digest_env =
  dg_float :: "rat \<Rightarrow> string"
  dg_sha :: "string \<Rightarrow> string"

definition digest_payload :: "digest_env \<Rightarrow> json \<Rightarrow> string" where
  "digest_payload D v = HASH_PREFIX @ dg_sha D (canonical_json (dg_float D) v)"

definition row_payload_hash :: "digest_env \<Rightarrow> (string, json) dict \<Rightarrow> string" where
  "row_payload_hash D row = digest_payload D (JObj row)"

text \<open>A dict comprehension over the fields: a repeated field keeps its first place.\<close>

definition identity_payload :: "dataset_identity \<Rightarrow> (string, json) dict \<Rightarrow> (string, json) dict" where
  "identity_payload i row = fold (\<lambda>f d. dset d f (jget row f)) (id_fields i) []"

definition row_identity_hash :: "digest_env \<Rightarrow> dataset_identity \<Rightarrow> (string, json) dict \<Rightarrow> string" where
  "row_identity_hash D i row =
     (if id_mode i = ''fields'' then digest_payload D (JObj (identity_payload i row)) else row_payload_hash D row)"

definition remove_prefix :: "string \<Rightarrow> string \<Rightarrow> string" where
  "remove_prefix p s = (if starts_with s p then drop (length p) s else s)"

definition row_id_of :: "string \<Rightarrow> string" where
  "row_id_of identity_hash = ''row_'' @ take 16 (remove_prefix HASH_PREFIX identity_hash)"

section \<open>Rows against their schema\<close>

fun scalar_json_type :: "json \<Rightarrow> string \<Rightarrow> bool" where
  "scalar_json_type v t =
     (if t = ''string'' then (case v of JStr _ \<Rightarrow> True | _ \<Rightarrow> False)
      else if t = ''integer'' then (case v of JInt _ \<Rightarrow> True | _ \<Rightarrow> False)
      else if t = ''number'' then (case v of JInt _ \<Rightarrow> True | JFloat _ \<Rightarrow> True | _ \<Rightarrow> False)
      else if t = ''boolean'' then (case v of JBool _ \<Rightarrow> True | _ \<Rightarrow> False)
      else if t = ''object'' then is_jobj v
      else if t = ''array'' then is_jlist v
      else if t = ''null'' then v = JNull
      else True)"

fun matches_json_type :: "json \<Rightarrow> json \<Rightarrow> bool" where
  "matches_json_type v (JList ts) = list_ex (matches_json_type v) ts"
| "matches_json_type v (JStr t) = scalar_json_type v t"
| "matches_json_type v _ = True"

fun required_errors :: "(json \<Rightarrow> string) \<Rightarrow> (string, json) dict \<Rightarrow> json list \<Rightarrow> py_error + string list" where
  "required_errors repr row [] = Inr []"
| "required_errors repr row (f # fs) =
     (case f of JList _ \<Rightarrow> Inl TypeError | JObj _ \<Rightarrow> Inl TypeError
      | _ \<Rightarrow> (case required_errors repr row fs of Inl e \<Rightarrow> Inl e
          | Inr es \<Rightarrow> Inr (if (case f of JStr k \<Rightarrow> dmem row k | _ \<Rightarrow> False) then es
                           else (''missing required field: '' @ py_str repr f) # es)))"

definition field_error :: "(json \<Rightarrow> string) \<Rightarrow> (string, json) dict \<Rightarrow> (string, json) dict \<Rightarrow> string \<times> json \<Rightarrow> py_error + string list" where
  "field_error repr schema properties kv =
     (case jget properties (fst kv) of
        JNull \<Rightarrow> Inr (if jget schema ''additionalProperties'' = JBool False
                      then [''additional property not allowed: '' @ fst kv] else [])
      | JObj fschema \<Rightarrow>
          (let expected = jget fschema ''type''
           in Inr (if truthy expected \<and> \<not> matches_json_type (snd kv) expected
                   then [fst kv @ '' must be '' @ py_str repr expected] else []))
      | _ \<Rightarrow> Inl AttributeError)"

definition validate_row :: "(json \<Rightarrow> string) \<Rightarrow> (string, json) dict \<Rightarrow> (string, json) dict \<Rightarrow> py_error + string list" where
  "validate_row repr schema row =
     (case iter_or_empty (jget schema ''required'') of Inl e \<Rightarrow> Inl e
      | Inr required \<Rightarrow> (case required_errors repr row required of Inl e \<Rightarrow> Inl e
          | Inr missing \<Rightarrow>
              (if row = [] then Inr missing
               else if \<not> truthy (jget schema ''properties'') then
                 (case map_err (field_error repr schema []) row of Inl e \<Rightarrow> Inl e | Inr es \<Rightarrow> Inr (missing @ concat es))
               else (case jget schema ''properties'' of
                   JObj properties \<Rightarrow>
                     (case map_err (field_error repr schema properties) row of Inl e \<Rightarrow> Inl e | Inr es \<Rightarrow> Inr (missing @ concat es))
                 | _ \<Rightarrow> Inl AttributeError))))"

section \<open>Where a row comes from\<close>

fun first_str :: "(string, json) dict \<Rightarrow> string list \<Rightarrow> string option" where
  "first_str d [] = None"
| "first_str d (k # ks) = (case jget d k of JStr s \<Rightarrow> if s \<noteq> [] then Some s else first_str d ks | _ \<Rightarrow> first_str d ks)"

text \<open>\<^verbatim>\<open>int(v)\<close>: a float is cut towards zero.\<close>

definition int_of_json :: "json \<Rightarrow> int option" where
  "int_of_json v =
     (case v of JInt i \<Rightarrow> Some i | JBool b \<Rightarrow> Some (if b then 1 else 0)
      | JFloat q \<Rightarrow> Some (if q < 0 then \<lceil>q\<rceil> else \<lfloor>q\<rfloor>) | JStr s \<Rightarrow> py_int s | _ \<Rightarrow> None)"

definition coerce_span :: "json \<Rightarrow> (int \<times> int) option" where
  "coerce_span v =
     (let pair = (case v of JObj d \<Rightarrow> Some (jget d ''start'', jget d ''end'') | JList [a, b] \<Rightarrow> Some (a, b) | _ \<Rightarrow> None)
      in case pair of None \<Rightarrow> None
         | Some (a, b) \<Rightarrow> (case (int_of_json a, int_of_json b) of (Some x, Some y) \<Rightarrow> Some (x, y) | _ \<Rightarrow> None))"

definition row_step_range_field :: "(string, json) dict \<Rightarrow> json" where
  "row_step_range_field row =
     (case find (dmem row) [''step_range'', ''steps'', ''source_steps''] of None \<Rightarrow> JNull | Some k \<Rightarrow> jget row k)"

definition source_dict :: "(string, json) dict \<Rightarrow> (string, json) dict" where
  "source_dict row = (case jget row ''source'' of JObj d \<Rightarrow> d | _ \<Rightarrow> [])"

definition or_else :: "'a option \<Rightarrow> 'a option \<Rightarrow> 'a option" where
  "or_else a b = (case a of None \<Rightarrow> b | Some x \<Rightarrow> Some x)"

definition row_ref_string :: "(string, json) dict \<Rightarrow> string option" where
  "row_ref_string row =
     (case first_str row [''ref''] of Some r \<Rightarrow> Some r
      | None \<Rightarrow> (case or_else (first_str row [''source_trace_id'', ''trace_id'']) (first_str (source_dict row) [''trace_id'', ''id'']) of
            None \<Rightarrow> None
          | Some t \<Rightarrow> if CHR '':'' \<in> set t then Some t
              else (case coerce_span (row_step_range_field row) of
                  Some (a, b) \<Rightarrow> Some (t @ '':'' @ str_of_int a @ ''-'' @ str_of_int b) | None \<Rightarrow> Some t)))"

definition valid_slot :: "trail_slot \<Rightarrow> bool" where
  "valid_slot s \<longleftrightarrow> s \<noteq> Invalid \<and> s \<noteq> Origin"

definition slot_span :: "trail_slot \<Rightarrow> json" where
  "slot_span s = (case s of Span a b \<Rightarrow> JList [JInt a, JInt b] | AtStep n \<Rightarrow> JList [JInt n, JInt n] | _ \<Rightarrow> JNull)"

definition parsed_ref :: "string option \<Rightarrow> bool \<times> string option \<times> json" where
  "parsed_ref ref =
     (case ref of None \<Rightarrow> (False, None, JNull)
      | Some r \<Rightarrow> (let (t, slot) = parse_trail_ref r in
          if valid_slot slot then (True, if strip t = [] then None else Some (strip t), slot_span slot) else (False, None, JNull)))"

definition extract_row_source_refs :: "(string, json) dict \<Rightarrow> (string, json) dict" where
  "extract_row_source_refs row =
     (let ref = row_ref_string row; (ok, t, span) = parsed_ref ref; src = source_dict row;
          trace_id = or_else (or_else t (first_str row [''source_trace_id'', ''trace_id''])) (first_str src [''trace_id'', ''id'']);
          unit_id = or_else (first_str row [''source_unit_id'', ''unit_id'', ''candidate_id'']) (first_str src [''unit_id'', ''candidate_id'']);
          slice_id = or_else (first_str row [''source_slice_id'', ''slice_id'']) (first_str src [''slice_id'']);
          field = row_step_range_field row;
          step_range = (if field = JNull then span else field);
          refs = [(''trace_id'', of_opt_str trace_id), (''unit_id'', of_opt_str unit_id), (''slice_id'', of_opt_str slice_id),
                  (''step_range'', step_range)]
      in filter (\<lambda>kv. snd kv \<noteq> JNull \<and> snd kv \<noteq> JStr []) refs @
         (case ref of None \<Rightarrow> [] | Some r \<Rightarrow> [(''ref'', JStr r), (''ref_valid'', JBool ok)]))"

end
