(* ===== verification/DatasetStore.thy ===== *)
theory DatasetStore
  imports DatasetModel
begin

text \<open>
  The store of a local dataset (\<^verbatim>\<open>core/datasets.py\<close>): appending rows, the index that locates them, the
  publication state of each row, review, withdrawal, and the publish operation with its egress gate.
\<close>

section \<open>State\<close>

record index_entry =
  ie_row_id :: string
  ie_identity :: string
  ie_payload :: string
  ie_schema_digest :: string
  ie_file :: string
  ie_line :: nat
  ie_run_id :: string
  ie_appended_at :: string
  ie_trace :: "string option"
  ie_unit :: "string option"
  ie_slice :: "string option"
  ie_provenance :: "(string, json) dict"

datatype row_status = Needs_review | Publishable | Rejected | Blocked | Published

record state_entry =
  se_row_id :: string
  se_status :: row_status
  se_uploaded :: "(string, string) dict"
  se_reviewed_at :: "string option"
  se_reviewed_by :: "string option"
  se_reasons :: "string list"
  se_version :: "string option"
  se_source_version :: "string option"
  se_tier :: "string option"
  se_stale :: bool
  se_redactions :: nat
  se_updated_at :: "string option"

type_synonym publication_state = "(string, state_entry) dict"

record withdrawal =
  wd_target :: string
  wd_target_id :: string
  wd_reason :: string
  wd_requested_at :: string

text \<open>
  The files of rows and of withdrawals are texts; the index, the provenance and the other sidecars are
  the values their models serialise.
\<close>

record dataset =
  da_manifest :: dataset_manifest
  da_row_schema :: "(string, json) dict"
  da_files :: "(string, string) dict"
  da_index :: "index_entry list"
  da_provenance :: "json list"
  da_source :: json
  da_state :: publication_state
  da_publications :: "json list"

text \<open>
  The environment: digests, the JSON decoder, the printing of other values, the clock, the security tools
  with their configuration, the recorded answers of a run, and the reference to a record of the bucket.
\<close>

record dataset_env =
  de_digest :: digest_env
  de_loads :: "string \<Rightarrow> json option"
  de_repr :: "json \<Rightarrow> string"
  de_now :: string
  de_backends :: backends
  de_cfg :: security_cfg
  de_answers :: "string \<Rightarrow> json"
  de_record_ref :: "string \<Rightarrow> json"

definition TRAIN_FILE :: string where "TRAIN_FILE = ''data/train.jsonl''"

definition row_text :: "dataset_env \<Rightarrow> json \<Rightarrow> string" where
  "row_text E v = canonical_json (dg_float (de_digest E)) v"

definition file_text :: "dataset \<Rightarrow> string \<Rightarrow> string" where
  "file_text d f = (case dget (da_files d) f of None \<Rightarrow> [] | Some s \<Rightarrow> s)"

definition line_count :: "string \<Rightarrow> nat" where
  "line_count s = count_by (\<lambda>l. strip l \<noteq> []) (splitlines s)"

section \<open>Provenance\<close>

definition json_texts_of :: "string list \<Rightarrow> json" where
  "json_texts_of ns = JList (map JStr ns)"

definition or_obj :: "json \<Rightarrow> json" where
  "or_obj v = jor v (JObj [])"

definition source_record_ref :: "dataset_env \<Rightarrow> json \<Rightarrow> (string, json) dict \<Rightarrow> json" where
  "source_record_ref E snapshot refs =
     (if jfield snapshot ''capture_mode'' = JStr ''deferred'' then JNull
      else (case jget refs ''trace_id'' of JStr t \<Rightarrow> if t = [] then JNull else de_record_ref E t | _ \<Rightarrow> JNull))"

definition provenance_privacy :: "dataset_row_security \<Rightarrow> json" where
  "provenance_privacy sec =
     JObj [(''privacy_tier'', JStr (ds_tier sec)), (''security_version'', JStr SECURITY_VERSION), (''redactions_applied'', JInt (int (ds_redactions sec)))]"

definition provenance_policy :: "security_policy \<Rightarrow> dataset_row_security \<Rightarrow> json" where
  "provenance_policy p sec =
     JObj [(''source'', JStr (po_source p)), (''enabled_tools'', json_texts_of (po_enabled p)),
       (''required_tools'', json_texts_of (po_required p)), (''required_satisfied'', JBool (required_tools_satisfied p)),
       (''tools_applied'', json_texts_of (ds_applied sec)), (''requested_tools'', json_texts_of (ds_requested sec)),
       (''effective_tools'', json_texts_of (ds_effective sec)), (''floor'', json_texts_of DATASET_ROW_FLOOR),
       (''floor_satisfied'', JBool (ds_floor_satisfied sec))]"

definition build_row_provenance ::
  "dataset_env \<Rightarrow> dataset \<Rightarrow> (string, json) dict \<Rightarrow> string \<Rightarrow> string \<Rightarrow> (string, json) dict \<Rightarrow> json list \<Rightarrow>
    dataset_row_security \<Rightarrow> (string, json) dict" where
  "build_row_provenance E d row row_id run_id run freshness sec =
     (let refs = extract_row_source_refs row; m = da_manifest d; wf = dm_workflow m;
          snapshot = or_obj (jfield (da_source d) ''bucket_snapshot'');
          bmanifest = or_obj (jfield (da_source d) ''bucket_manifest'');
          trail = or_obj (jfield bmanifest ''trail_events'');
          answers = (case de_answers E run_id of JObj a \<Rightarrow> JObj a | _ \<Rightarrow> JObj []);
          answers_digest = JStr (digest_payload (de_digest E) answers);
          bucket_digest = jfield bmanifest ''digest''
      in [(''schema_version'', JStr ''opentraces.dataset.row_provenance.v2''),
          (''reconstructable'', JBool (truthy (jget run ''reconstructable''))),
          (''isolation'', jor (jget run ''isolation'') (JObj [(''sandbox_tier'', JStr ''none'')])),
          (''row_id'', JStr row_id), (''run_id'', JStr run_id), (''dataset'', JStr (dm_name m)),
          (''ref'', jget refs ''ref''), (''source_refs'', JObj refs),
          (''workflow'', JObj [(''skill'', JStr (wf_skill wf)), (''digest'', JStr (wf_digest wf)), (''config'', JObj (wf_config wf))]),
          (''bucket'', JObj [(''manifest_digest'', bucket_digest), (''snapshot_digest'', jfield snapshot ''digest''),
             (''object_count'', jfield snapshot ''object_count''), (''source_trace_record'', source_record_ref E snapshot refs)]),
          (''answers'', JObj [(''digest'', answers_digest), (''recorded'', answers)]),
          (''contract_triple'', JObj [(''workflow_digest'', JStr (wf_digest wf)), (''bucket_digest'', bucket_digest), (''answers_digest'', answers_digest)]),
          (''trail'', JObj [(''freshness'', JList freshness), (''event_count'', jfield trail ''event_count''),
             (''repository_count'', jfield trail ''repository_count''), (''sampled_at'', JStr (de_now E))]),
          (''privacy'', provenance_privacy sec),
          (''security_policy'', provenance_policy (dm_security m) sec),
          (''run'', JObj run)])"

text \<open>The sidecar is read back by row id, the last line of a row winning.\<close>

definition note_provenance :: "json \<Rightarrow> (string, json) dict \<Rightarrow> (string, json) dict" where
  "note_provenance payload out = (case jfield payload ''row_id'' of JStr r \<Rightarrow> if r = [] then out else dset out r payload | _ \<Rightarrow> out)"

definition read_row_provenance :: "dataset \<Rightarrow> (string, json) dict" where
  "read_row_provenance d = fold note_provenance (da_provenance d) []"

section \<open>Reading rows\<close>

definition read_entry :: "dataset_env \<Rightarrow> dataset \<Rightarrow> index_entry \<Rightarrow> (string, json) dict \<Rightarrow> py_error + (string, json) dict" where
  "read_entry E d e rows =
     (case dget (da_files d) (ie_file e) of
        None \<Rightarrow> Inr rows
      | Some s \<Rightarrow> (let ls = splitlines s; i = ie_line e - 1 in
          if length ls \<le> i then Inr rows
          else if strip (ls ! i) = [] then Inr rows
          else (case de_loads E (ls ! i) of None \<Rightarrow> Inl ValueError | Some v \<Rightarrow> Inr (dset rows (ie_row_id e) v))))"

fun read_entries :: "dataset_env \<Rightarrow> dataset \<Rightarrow> index_entry list \<Rightarrow> (string, json) dict \<Rightarrow> py_error + (string, json) dict" where
  "read_entries E d [] rows = Inr rows"
| "read_entries E d (e # es) rows = (case read_entry E d e rows of Inl err \<Rightarrow> Inl err | Inr rows' \<Rightarrow> read_entries E d es rows')"

definition read_rows_by_id :: "dataset_env \<Rightarrow> dataset \<Rightarrow> py_error + (string, json) dict" where
  "read_rows_by_id E d = read_entries E d (da_index d) []"

section \<open>Appending rows\<close>

record append_args =
  aa_run_id :: string
  aa_dry_run :: bool
  aa_tier :: string
  aa_run :: "(string, json) dict"
  aa_freshness :: "json list"
  aa_allowed :: "string list option"

record append_run =
  ar_seen :: "string list"
  ar_line :: nat
  ar_entries :: "index_entry list"
  ar_rows :: "(string, json) dict list"
  ar_provenance :: "json list"
  ar_security :: "(string, dataset_row_security) dict"
  ar_duplicates :: nat
  ar_would :: nat
  ar_errors :: "(nat \<times> string list) list"
  ar_rejected :: "string list"

definition resolved_privacy_tier :: "dataset_manifest \<Rightarrow> string option \<Rightarrow> py_error + string" where
  "resolved_privacy_tier m tier =
     normalize_privacy_tier tier (if dm_review m = ''auto'' \<and> dm_remotes m = [] then ''off'' else ''medium'')"

definition policy_tools :: "dataset_manifest \<Rightarrow> string list option" where
  "policy_tools m = (let ts = po_enabled (dm_security m) in if ts = [] then None else Some ts)"

definition schema_digest_of :: "dataset_env \<Rightarrow> dataset \<Rightarrow> string" where
  "schema_digest_of E d =
     (case dm_schema_digest (da_manifest d) of
        Some g \<Rightarrow> if g = [] then digest_payload (de_digest E) (JObj (da_row_schema d)) else g
      | None \<Rightarrow> digest_payload (de_digest E) (JObj (da_row_schema d)))"

definition sanitized_row :: "dataset_env \<Rightarrow> dataset \<Rightarrow> string \<Rightarrow> (string, json) dict \<Rightarrow> py_error + (string, json) dict \<times> dataset_row_security" where
  "sanitized_row E d tier row = sanitize_dataset_row (de_backends E) (de_cfg E) (Some tier) (policy_tools (da_manifest d)) row"

definition facet_rejects :: "append_args \<Rightarrow> (string, json) dict \<Rightarrow> string option" where
  "facet_rejects A row =
     (case aa_allowed A of None \<Rightarrow> None
      | Some allowed \<Rightarrow> (case jget (extract_row_source_refs row) ''trace_id'' of
            JStr t \<Rightarrow> if t \<noteq> [] \<and> t \<notin> set allowed then Some t else None | _ \<Rightarrow> None))"

definition new_entry ::
  "dataset_env \<Rightarrow> dataset \<Rightarrow> append_args \<Rightarrow> nat \<Rightarrow> string \<Rightarrow> (string, json) dict \<Rightarrow> (string, json) dict \<Rightarrow> index_entry" where
  "new_entry E d A line identity row provenance =
     (let refs = (case jget provenance ''source_refs'' of JObj r \<Rightarrow> r | _ \<Rightarrow> [])
      in \<lparr>ie_row_id = row_id_of identity, ie_identity = identity, ie_payload = row_payload_hash (de_digest E) row,
          ie_schema_digest = schema_digest_of E d, ie_file = TRAIN_FILE, ie_line = line, ie_run_id = aa_run_id A,
          ie_appended_at = de_now E, ie_trace = jstr_opt (jget refs ''trace_id''), ie_unit = jstr_opt (jget refs ''unit_id''),
          ie_slice = jstr_opt (jget refs ''slice_id''), ie_provenance = provenance\<rparr>)"

definition add_row ::
  "dataset_env \<Rightarrow> dataset \<Rightarrow> append_args \<Rightarrow> string \<Rightarrow> (string, json) dict \<Rightarrow> dataset_row_security \<Rightarrow> append_run \<Rightarrow> append_run" where
  "add_row E d A identity row sec st =
     (let line = ar_line st + 1; row_id = row_id_of identity;
          provenance = build_row_provenance E d row row_id (aa_run_id A) (aa_run A) (aa_freshness A) sec
      in st\<lparr>ar_line := line, ar_security := dset (ar_security st) row_id sec,
            ar_entries := ar_entries st @ [new_entry E d A line identity row provenance],
            ar_rows := ar_rows st @ [row], ar_provenance := ar_provenance st @ [JObj provenance],
            ar_seen := ar_seen st @ [identity]\<rparr>)"

definition append_row ::
  "dataset_env \<Rightarrow> dataset \<Rightarrow> append_args \<Rightarrow> nat \<Rightarrow> (string, json) dict \<Rightarrow> append_run \<Rightarrow> py_error + append_run" where
  "append_row E d A i row0 st =
     (case facet_rejects A row0 of
        Some t \<Rightarrow> Inr (st\<lparr>ar_rejected := ar_rejected st @ [t]\<rparr>)
      | None \<Rightarrow> (case sanitized_row E d (aa_tier A) row0 of Inl e \<Rightarrow> Inl e
          | Inr (row, sec) \<Rightarrow> (case validate_row (de_repr E) (da_row_schema d) row of Inl e \<Rightarrow> Inl e
              | Inr errors \<Rightarrow>
                  if errors \<noteq> [] then Inr (st\<lparr>ar_errors := ar_errors st @ [(i, errors)]\<rparr>)
                  else (let identity = row_identity_hash (de_digest E) (dm_identity (da_manifest d)) row in
                    if identity \<in> set (ar_seen st) then Inr (st\<lparr>ar_duplicates := ar_duplicates st + 1\<rparr>)
                    else if aa_dry_run A then Inr (st\<lparr>ar_would := ar_would st + 1, ar_seen := ar_seen st @ [identity]\<rparr>)
                    else Inr (add_row E d A identity row sec st)))))"

fun append_rows_loop ::
  "dataset_env \<Rightarrow> dataset \<Rightarrow> append_args \<Rightarrow> nat \<Rightarrow> (string, json) dict list \<Rightarrow> append_run \<Rightarrow> py_error + append_run" where
  "append_rows_loop E d A i [] st = Inr st"
| "append_rows_loop E d A i (row # rows) st =
     (case append_row E d A i row st of Inl e \<Rightarrow> Inl e | Inr st' \<Rightarrow> append_rows_loop E d A (i + 1) rows st')"

definition initial_run :: "dataset \<Rightarrow> append_run" where
  "initial_run d =
     \<lparr>ar_seen = map ie_identity (da_index d), ar_line = line_count (file_text d TRAIN_FILE), ar_entries = [], ar_rows = [],
      ar_provenance = [], ar_security = [], ar_duplicates = 0, ar_would = 0, ar_errors = [], ar_rejected = []\<rparr>"

text \<open>
  The writes, made under the append lock: the rows at the end of the file, then the entries of the index
  and the provenance. What is written was computed before the lock was taken.
\<close>

definition rows_text :: "dataset_env \<Rightarrow> (string, json) dict list \<Rightarrow> string" where
  "rows_text E rows = concat (map (\<lambda>row. row_text E (JObj row) @ [CHR 10]) rows)"

definition commit_rows :: "dataset_env \<Rightarrow> append_run \<Rightarrow> dataset \<Rightarrow> dataset" where
  "commit_rows E st d =
     d\<lparr>da_files := dset (da_files d) TRAIN_FILE (file_text d TRAIN_FILE @ rows_text E (ar_rows st)),
       da_index := da_index d @ ar_entries st, da_provenance := da_provenance d @ ar_provenance st\<rparr>"

section \<open>The publication state\<close>

definition scan_serialized :: "string \<Rightarrow> bool option \<Rightarrow> secret_match list" where
  "scan_serialized s include_entropy = sr_matches (scan_content s GENERAL include_entropy)"

record evaluation =
  el_security :: "(string, dataset_row_security) dict"
  el_tier :: "string option"
  el_selected :: "string list"

definition entry_tier :: "evaluation \<Rightarrow> string \<Rightarrow> dataset_row_security option \<Rightarrow> state_entry option \<Rightarrow> string" where
  "entry_tier V default_tier sec existing =
     (case sec of Some s \<Rightarrow> ds_tier s
      | None \<Rightarrow> (case existing of
            Some e \<Rightarrow> (case se_tier e of Some t \<Rightarrow> if t = [] then default_tier else t | None \<Rightarrow> default_tier)
          | None \<Rightarrow> default_tier))"

definition entry_version :: "string \<Rightarrow> dataset_row_security option \<Rightarrow> state_entry option \<Rightarrow> string option" where
  "entry_version tier sec existing =
     (let fallback = (if tier = ''off'' then None else Some SECURITY_VERSION) in
      case sec of Some s \<Rightarrow> Some SECURITY_VERSION
      | None \<Rightarrow> (case existing of
            Some e \<Rightarrow> (case se_version e of Some v \<Rightarrow> if v = [] then fallback else Some v | None \<Rightarrow> fallback)
          | None \<Rightarrow> fallback))"

text \<open>The tools that ran over a row: those of the fresh run, else those its provenance records.\<close>

definition row_tools :: "(string, json) dict \<Rightarrow> string \<Rightarrow> dataset_row_security option \<Rightarrow> string list" where
  "row_tools provenance row_id sec =
     (case sec of Some s \<Rightarrow> ds_applied s
      | None \<Rightarrow> json_strings (jlist (jfield (jfield (jget provenance row_id) ''security_policy'') ''tools_applied'')))"

definition block_reasons :: "dataset_env \<Rightarrow> dataset \<Rightarrow> json \<Rightarrow> string \<Rightarrow> string option \<Rightarrow> string list \<Rightarrow> string set" where
  "block_reasons E d row tier version tools =
     sm_pattern ` set (scan_serialized (row_text E row @ [CHR 10]) (Some (tier \<noteq> ''low''))) \<union>
     (if tier = ''off'' \<and> tools = [] then {''privacy_tier_off''} else {}) \<union>
     (if set DATASET_ROW_FLOOR \<subseteq> set tools then {} else {''dataset_reader_floor_unsatisfied''}) \<union>
     (if tier \<noteq> ''off'' \<and> version \<noteq> Some SECURITY_VERSION then {''security_version_stale''} else {}) \<union>
     (if set (po_required (dm_security (da_manifest d))) \<subseteq> set tools then {} else {''required_security_tools_missing''})"

definition next_status :: "dataset \<Rightarrow> bool \<Rightarrow> state_entry option \<Rightarrow> row_status" where
  "next_status d blocked existing =
     (let fresh = (if dm_review (da_manifest d) = ''auto'' then Publishable else Needs_review) in
      if blocked then Blocked
      else (case existing of None \<Rightarrow> fresh
        | Some e \<Rightarrow> if se_status e \<in> {Rejected, Published, Publishable} then se_status e else fresh))"

definition evaluated_entry ::
  "dataset_env \<Rightarrow> dataset \<Rightarrow> evaluation \<Rightarrow> string \<Rightarrow> string \<Rightarrow> json \<Rightarrow> state_entry option \<Rightarrow> state_entry" where
  "evaluated_entry E d V default_tier row_id row existing =
     (let sec = dget (el_security V) row_id; tier = entry_tier V default_tier sec existing; version = entry_version tier sec existing;
          reasons = block_reasons E d row tier version (row_tools (read_row_provenance d) row_id sec)
      in \<lparr>se_row_id = row_id, se_status = next_status d (reasons \<noteq> {}) existing,
          se_uploaded = (case existing of None \<Rightarrow> [] | Some e \<Rightarrow> se_uploaded e),
          se_reviewed_at = (case existing of None \<Rightarrow> None | Some e \<Rightarrow> se_reviewed_at e),
          se_reviewed_by = (case existing of None \<Rightarrow> None | Some e \<Rightarrow> se_reviewed_by e),
          se_reasons = sorted_list_of_set reasons, se_version = version,
          se_source_version = (case sec of Some s \<Rightarrow> Some SECURITY_VERSION
             | None \<Rightarrow> (case existing of Some e \<Rightarrow> se_source_version e | None \<Rightarrow> version)),
          se_tier = Some tier, se_stale = (tier \<noteq> ''off'' \<and> version \<noteq> Some SECURITY_VERSION),
          se_redactions = (case sec of Some s \<Rightarrow> ds_redactions s | None \<Rightarrow> (case existing of Some e \<Rightarrow> se_redactions e | None \<Rightarrow> 0)),
          se_updated_at = Some (de_now E)\<rparr>)"

definition evaluate_entry ::
  "dataset_env \<Rightarrow> dataset \<Rightarrow> evaluation \<Rightarrow> string \<Rightarrow> (string, json) dict \<Rightarrow> index_entry \<Rightarrow> publication_state \<Rightarrow> publication_state" where
  "evaluate_entry E d V default_tier rows e S =
     (let r = ie_row_id e in
      if el_selected V \<noteq> [] \<and> r \<notin> set (el_selected V) then S
      else if jget rows r = JNull then S
      else dset S r (evaluated_entry E d V default_tier r (jget rows r) (dget S r)))"

text \<open>The default tier is computed for the first row that needs it; a tier outside the vocabulary is refused by the callers.\<close>

definition evaluate_publication_state :: "dataset_env \<Rightarrow> evaluation \<Rightarrow> dataset \<Rightarrow> py_error + publication_state" where
  "evaluate_publication_state E V d =
     (case read_rows_by_id E d of Inl e \<Rightarrow> Inl e
      | Inr rows \<Rightarrow> (case normalize_privacy_tier (el_tier V) ''off'' of Inl e \<Rightarrow> Inl e
          | Inr default_tier \<Rightarrow> Inr (fold (evaluate_entry E d V default_tier rows) (da_index d) (da_state d))))"

definition whole_dataset :: evaluation where
  "whole_dataset = \<lparr>el_security = [], el_tier = None, el_selected = []\<rparr>"

section \<open>The append operation\<close>

text \<open>An operation that raises returns its error with the dataset it leaves behind: what was written before stays written.\<close>

definition append_rows ::
  "dataset_env \<Rightarrow> append_args \<Rightarrow> string option \<Rightarrow> (string, json) dict list \<Rightarrow> dataset \<Rightarrow>
    py_error \<times> dataset + dataset \<times> append_run" where
  "append_rows E A tier rows d =
     (case resolved_privacy_tier (da_manifest d) tier of Inl e \<Rightarrow> Inl (e, d)
      | Inr t \<Rightarrow> (case append_rows_loop E d (A\<lparr>aa_tier := t\<rparr>) 1 rows (initial_run d) of Inl e \<Rightarrow> Inl (e, d)
          | Inr st \<Rightarrow>
              if ar_rows st = [] then Inr (d, st)
              else (let d' = commit_rows E st d;
                        V = \<lparr>el_security = ar_security st, el_tier = Some t, el_selected = map ie_row_id (ar_entries st)\<rparr>
                    in case evaluate_publication_state E V d' of Inl e \<Rightarrow> Inl (e, d')
                       | Inr S \<Rightarrow> Inr (d'\<lparr>da_state := S\<rparr>, st))))"

text \<open>Projecting raw rows without a write, for the byte comparison of a re-run.\<close>

fun reproduce_loop ::
  "dataset_env \<Rightarrow> dataset \<Rightarrow> string \<Rightarrow> (string, json) dict list \<Rightarrow> string list \<Rightarrow> py_error + string list" where
  "reproduce_loop E d tier [] seen = Inr []"
| "reproduce_loop E d tier (row # rows) seen =
     (case sanitized_row E d tier row of Inl e \<Rightarrow> Inl e
      | Inr (candidate, _) \<Rightarrow> (case validate_row (de_repr E) (da_row_schema d) candidate of Inl e \<Rightarrow> Inl e
          | Inr errors \<Rightarrow>
              if errors \<noteq> [] then reproduce_loop E d tier rows seen
              else (let identity = row_identity_hash (de_digest E) (dm_identity (da_manifest d)) candidate in
                if identity \<in> set seen then reproduce_loop E d tier rows seen
                else (case reproduce_loop E d tier rows (seen @ [identity]) of Inl e \<Rightarrow> Inl e
                  | Inr lines \<Rightarrow> Inr (row_text E (JObj candidate) # lines)))))"

definition reproduce_train_lines ::
  "dataset_env \<Rightarrow> dataset \<Rightarrow> string option \<Rightarrow> (string, json) dict list \<Rightarrow> py_error + string list" where
  "reproduce_train_lines E d tier rows =
     (case resolved_privacy_tier (da_manifest d) tier of Inl e \<Rightarrow> Inl e | Inr t \<Rightarrow> reproduce_loop E d t rows [])"

section \<open>Review\<close>

datatype review = ReviewPublishable | ReviewRejected | ReviewReset

definition review_of :: "string \<Rightarrow> review option" where
  "review_of s = (if s = ''publishable'' then Some ReviewPublishable else if s = ''rejected'' then Some ReviewRejected
     else if s = ''reset'' then Some ReviewReset else None)"

definition review_entry :: "dataset_env \<Rightarrow> dataset \<Rightarrow> review \<Rightarrow> string option \<Rightarrow> state_entry \<Rightarrow> state_entry" where
  "review_entry E d v reviewer e =
     (if se_status e = Blocked then e
      else (case v of
          ReviewReset \<Rightarrow> e\<lparr>se_status := if dm_review (da_manifest d) = ''auto'' then Publishable else Needs_review,
             se_reviewed_at := None, se_reviewed_by := None, se_updated_at := Some (de_now E)\<rparr>
        | _ \<Rightarrow> e\<lparr>se_status := if v = ReviewPublishable then Publishable else Rejected, se_reviewed_at := Some (de_now E),
             se_reviewed_by := Some (case reviewer of None \<Rightarrow> ''cli'' | Some n \<Rightarrow> if n = [] then ''cli'' else n),
             se_updated_at := Some (de_now E)\<rparr>))"

definition review_row :: "dataset_env \<Rightarrow> dataset \<Rightarrow> review \<Rightarrow> string option \<Rightarrow> string \<Rightarrow> publication_state \<Rightarrow> publication_state" where
  "review_row E d v reviewer r S = (case dget S r of None \<Rightarrow> S | Some e \<Rightarrow> dset S r (review_entry E d v reviewer e))"

definition set_publication_review_status ::
  "dataset_env \<Rightarrow> string list \<Rightarrow> string \<Rightarrow> string option \<Rightarrow> dataset \<Rightarrow> py_error \<times> dataset + dataset" where
  "set_publication_review_status E row_ids status reviewer d =
     (case review_of status of None \<Rightarrow> Inl (ValueError, d)
      | Some v \<Rightarrow> (case evaluate_publication_state E whole_dataset d of Inl e \<Rightarrow> Inl (e, d)
          | Inr S \<Rightarrow> if list_ex (\<lambda>r. \<not> dmem S r) row_ids then Inl (ValueError, d\<lparr>da_state := S\<rparr>)
                     else Inr (d\<lparr>da_state := fold (review_row E d v reviewer) row_ids S\<rparr>)))"

section \<open>Withdrawal\<close>

definition ascii_alnum :: "char \<Rightarrow> bool" where
  "ascii_alnum c \<longleftrightarrow> ord_of c < 128 \<and> is_alnum c"

definition withdrawal_json :: "withdrawal \<Rightarrow> json" where
  "withdrawal_json w = JObj [(''target'', JStr (wd_target w)), (''target_id'', JStr (wd_target_id w)),
     (''reason'', JStr (wd_reason w)), (''requested_at'', JStr (wd_requested_at w))]"

definition withdrawal_path :: "dataset_env \<Rightarrow> withdrawal \<Rightarrow> string" where
  "withdrawal_path E w =
     ''_withdrawals/'' @ take 15 (filter ascii_alnum (wd_requested_at w)) @ ''-local-'' @
     take 12 (dg_sha (de_digest E) (row_text E (withdrawal_json w))) @ ''.jsonl''"

definition write_withdrawal_record :: "dataset_env \<Rightarrow> withdrawal \<Rightarrow> dataset \<Rightarrow> dataset" where
  "write_withdrawal_record E w d =
     (let f = withdrawal_path E w
      in d\<lparr>da_files := dset (da_files d) f (file_text d f @ row_text E (withdrawal_json w) @ [CHR 10])\<rparr>)"

definition jsonl_in :: "string \<Rightarrow> string \<Rightarrow> bool" where
  "jsonl_in dir f \<longleftrightarrow> starts_with f dir \<and> ends_with f ''.jsonl'' \<and> CHR ''/'' \<notin> set (drop (length dir) f)"

definition files_in :: "dataset \<Rightarrow> string \<Rightarrow> (string \<times> string) list" where
  "files_in d dir = sort_key fst (filter (\<lambda>(f, s). jsonl_in dir f) (da_files d))"

definition withdrawn_id :: "dataset_env \<Rightarrow> json \<Rightarrow> string option" where
  "withdrawn_id E payload =
     (if jfield payload ''target'' = JStr ''row'' \<and> truthy (jfield payload ''target_id'')
      then Some (py_str (de_repr E) (jfield payload ''target_id'')) else None)"

definition file_payloads :: "dataset_env \<Rightarrow> string \<Rightarrow> py_error + json list" where
  "file_payloads E s =
     map_err (\<lambda>l. case de_loads E l of None \<Rightarrow> Inl ValueError | Some v \<Rightarrow> Inr v) (filter (\<lambda>l. strip l \<noteq> []) (splitlines s))"

definition withdrawn_row_ids :: "dataset_env \<Rightarrow> dataset \<Rightarrow> py_error + string list" where
  "withdrawn_row_ids E d =
     (case map_err (file_payloads E) (map snd (files_in d ''_withdrawals/'')) of Inl e \<Rightarrow> Inl e
      | Inr ps \<Rightarrow> Inr (somes (map (withdrawn_id E) (concat ps))))"

definition load_public_rows :: "dataset_env \<Rightarrow> bool \<Rightarrow> dataset \<Rightarrow> py_error + json list" where
  "load_public_rows E apply_withdrawals d =
     (case read_rows_by_id E d of Inl e \<Rightarrow> Inl e
      | Inr rows \<Rightarrow> (case (if apply_withdrawals then withdrawn_row_ids E d else Inr []) of Inl e \<Rightarrow> Inl e
          | Inr gone \<Rightarrow> Inr (map snd (filter (\<lambda>(r, v). r \<notin> set gone) rows))))"

subsection \<open>The index rebuilt from the files\<close>

definition json_identity_hash :: "dataset_env \<Rightarrow> dataset_identity \<Rightarrow> json \<Rightarrow> py_error + string" where
  "json_identity_hash E i v =
     (case v of JObj row \<Rightarrow> Inr (row_identity_hash (de_digest E) i row)
      | _ \<Rightarrow> if id_mode i = ''fields'' then Inl AttributeError else Inr (digest_payload (de_digest E) v))"

definition rebuilt_entry :: "dataset_env \<Rightarrow> dataset \<Rightarrow> string \<Rightarrow> nat \<times> string \<Rightarrow> py_error + index_entry" where
  "rebuilt_entry E d f nl =
     (case de_loads E (snd nl) of None \<Rightarrow> Inl ValueError
      | Some v \<Rightarrow> (case json_identity_hash E (dm_identity (da_manifest d)) v of Inl e \<Rightarrow> Inl e
          | Inr identity \<Rightarrow> Inr \<lparr>ie_row_id = row_id_of identity, ie_identity = identity, ie_payload = digest_payload (de_digest E) v,
              ie_schema_digest = schema_digest_of E d, ie_file = f, ie_line = fst nl, ie_run_id = ''rebuild_'' @ de_now E,
              ie_appended_at = de_now E, ie_trace = None, ie_unit = None, ie_slice = None, ie_provenance = []\<rparr>))"

definition rebuilt_entries :: "dataset_env \<Rightarrow> dataset \<Rightarrow> string \<times> string \<Rightarrow> py_error + index_entry list" where
  "rebuilt_entries E d fs =
     map_err (rebuilt_entry E d (fst fs)) (filter (\<lambda>(n, l). strip l \<noteq> []) (enumerate 1 (splitlines (snd fs))))"

definition iter_data_files :: "dataset \<Rightarrow> (string \<times> string) list" where
  "iter_data_files d = (let fs = files_in d ''data/'' in if fs = [] then [(TRAIN_FILE, file_text d TRAIN_FILE)] else fs)"

definition rebuild_row_index :: "dataset_env \<Rightarrow> dataset \<Rightarrow> py_error + dataset" where
  "rebuild_row_index E d =
     (case map_err (rebuilt_entries E d) (iter_data_files d) of Inl e \<Rightarrow> Inl e
      | Inr es \<Rightarrow> Inr (d\<lparr>da_index := concat es\<rparr>))"

definition lines_of_row :: "index_entry list \<Rightarrow> string \<Rightarrow> (string, nat list) dict" where
  "lines_of_row es r = fold (\<lambda>e m. dappend m (ie_file e) (ie_line e)) (filter (\<lambda>e. ie_row_id e = r) es) []"

definition without_lines :: "nat list \<Rightarrow> string \<Rightarrow> string" where
  "without_lines gone s =
     (let kept = map snd (filter (\<lambda>(n, l). n \<notin> set gone) (enumerate 1 (splitlines s)))
      in if kept = [] then [] else join [CHR 10] kept @ [CHR 10])"

definition hard_delete_row :: "dataset_env \<Rightarrow> string \<Rightarrow> dataset \<Rightarrow> py_error \<times> dataset + dataset" where
  "hard_delete_row E r d =
     (let files = fold (\<lambda>(f, gone) fs. dset fs f (without_lines gone (case dget fs f of None \<Rightarrow> [] | Some s \<Rightarrow> s)))
                    (lines_of_row (da_index d) r) (da_files d)
      in case rebuild_row_index E (d\<lparr>da_files := files\<rparr>) of Inl e \<Rightarrow> Inl (e, d\<lparr>da_files := files\<rparr>)
         | Inr d' \<Rightarrow> Inr (d'\<lparr>da_state := dpop (da_state d') r\<rparr>))"

definition withdraw_dataset_row ::
  "dataset_env \<Rightarrow> string \<Rightarrow> string \<Rightarrow> bool \<Rightarrow> string option \<Rightarrow> dataset \<Rightarrow> py_error \<times> dataset + dataset" where
  "withdraw_dataset_row E r reason hard confirm d =
     (if hard \<and> confirm \<noteq> Some ''HARD_DELETE'' then Inl (ValueError, d)
      else (case read_rows_by_id E d of Inl e \<Rightarrow> Inl (e, d)
        | Inr rows \<Rightarrow> if \<not> dmem rows r then Inl (ValueError, d)
            else (let d' = write_withdrawal_record E \<lparr>wd_target = ''row'', wd_target_id = r, wd_reason = reason, wd_requested_at = de_now E\<rparr> d
                  in if hard then hard_delete_row E r d' else Inr d')))"

definition index_entry_source_trace :: "index_entry \<Rightarrow> string option" where
  "index_entry_source_trace e =
     (if truthy_str (ie_trace e) then ie_trace e
      else (case jfield (jget (ie_provenance e) ''source_refs'') ''trace_id'' of
          JStr t \<Rightarrow> if t \<noteq> [] then Some t else None | _ \<Rightarrow> None))"

text \<open>Withdrawing every row of a source trace, dataset by dataset.\<close>

definition rows_of_trace :: "string \<Rightarrow> index_entry list \<Rightarrow> string list" where
  "rows_of_trace t es = dedupe [] (map ie_row_id (filter (\<lambda>e. index_entry_source_trace e = Some t) es))"

fun withdraw_rows :: "dataset_env \<Rightarrow> string \<Rightarrow> string list \<Rightarrow> dataset \<Rightarrow> py_error \<times> dataset + dataset" where
  "withdraw_rows E reason [] d = Inr d"
| "withdraw_rows E reason (r # rs) d =
     (case withdraw_dataset_row E r reason False None d of Inl ed \<Rightarrow> Inl ed | Inr d' \<Rightarrow> withdraw_rows E reason rs d')"

definition forget_in_dataset :: "dataset_env \<Rightarrow> string \<Rightarrow> string \<Rightarrow> dataset \<Rightarrow> py_error \<times> dataset + dataset \<times> string list" where
  "forget_in_dataset E t reason d =
     (let rs = rows_of_trace t (da_index d)
      in case withdraw_rows E reason rs d of Inl ed \<Rightarrow> Inl ed | Inr d' \<Rightarrow> Inr (d', rs))"

fun forget_trace_cascade ::
  "dataset_env \<Rightarrow> string \<Rightarrow> string \<Rightarrow> dataset list \<Rightarrow> py_error \<times> dataset list + (dataset \<times> string list) list" where
  "forget_trace_cascade E t reason [] = Inr []"
| "forget_trace_cascade E t reason (d # ds) =
     (case forget_in_dataset E t reason d of Inl (e, d') \<Rightarrow> Inl (e, d' # ds)
      | Inr (d', rs) \<Rightarrow> (case forget_trace_cascade E t reason ds of Inl (e, ds') \<Rightarrow> Inl (e, d' # ds')
          | Inr out \<Rightarrow> Inr ((d', rs) # out)))"

end
