(* ===== verification/DatasetPublish.thy ===== *)
theory DatasetPublish
  imports DatasetStore
begin

text \<open>
  Publishing a dataset (\<^verbatim>\<open>core/datasets.py\<close>): the selection of rows, the quality filters, the egress gate on the
  source trace of each row (Door B), staging, and the upload with its retries.
\<close>

section \<open>Quality filters\<close>

definition survival_items :: "json \<Rightarrow> py_error + json list" where
  "survival_items row = iter_or_empty (jfield row ''patches_with_survival'')"

definition number_of :: "json \<Rightarrow> py_error + rat" where
  "number_of v = (case v of JInt i \<Rightarrow> Inr (of_int i) | JFloat q \<Rightarrow> Inr q | JBool b \<Rightarrow> Inr (if b then 1 else 0) | _ \<Rightarrow> Inl TypeError)"

definition row_mean_retention :: "json \<Rightarrow> py_error + rat option" where
  "row_mean_retention row =
     (case survival_items row of Inl e \<Rightarrow> Inl e
      | Inr ps \<Rightarrow>
          (let fractions = filter (\<lambda>v. v \<noteq> JNull) (map (\<lambda>p. jfield p ''retention_fraction'') ps)
           in if fractions = [] then Inr None
              else (case map_err number_of fractions of Inl e \<Rightarrow> Inl e
                | Inr qs \<Rightarrow> Inr (Some (sum_list qs / of_nat (length qs))))))"

definition row_has_state :: "json \<Rightarrow> string \<Rightarrow> py_error + bool" where
  "row_has_state row state =
     (case survival_items row of Inl e \<Rightarrow> Inl e
      | Inr ps \<Rightarrow> Inr (list_ex (\<lambda>p. jfield p ''survival_state'' = JStr state) ps))"

record publish_filter =
  pf_min_retention :: "rat option"
  pf_exclude :: "string list"

record filter_telemetry =
  ft_low_retention :: nat
  ft_by_state :: "(string, nat) dict"
  ft_dropped :: nat

definition excluded_states :: "string list \<Rightarrow> json \<Rightarrow> py_error + string list" where
  "excluded_states states row =
     (case map_err (row_has_state row) states of Inl e \<Rightarrow> Inl e
      | Inr bs \<Rightarrow> Inr (map fst (filter snd (zip states bs))))"

definition below_retention :: "rat option \<Rightarrow> json \<Rightarrow> py_error + bool" where
  "below_retention minimum row =
     (case minimum of None \<Rightarrow> Inr False
      | Some q \<Rightarrow> (case row_mean_retention row of Inl e \<Rightarrow> Inl e
          | Inr None \<Rightarrow> Inr False | Inr (Some m) \<Rightarrow> Inr (m < q)))"

definition count_state :: "string \<Rightarrow> (string, nat) dict \<Rightarrow> (string, nat) dict" where
  "count_state s d = dset d s ((case dget d s of None \<Rightarrow> 0 | Some n \<Rightarrow> n) + 1)"

fun filter_loop ::
  "publish_filter \<Rightarrow> (string \<times> json) list \<Rightarrow> filter_telemetry \<Rightarrow> py_error + (string \<times> json) list \<times> filter_telemetry" where
  "filter_loop F [] T = Inr ([], T)"
| "filter_loop F ((r, row) # rest) T =
     (case excluded_states (pf_exclude F) row of Inl e \<Rightarrow> Inl e
      | Inr states \<Rightarrow> (case below_retention (pf_min_retention F) row of Inl e \<Rightarrow> Inl e
          | Inr low \<Rightarrow>
              if states \<noteq> [] \<or> low then
                filter_loop F rest
                  (T\<lparr>ft_low_retention := ft_low_retention T + (if low then 1 else 0),
                     ft_by_state := fold count_state states (ft_by_state T), ft_dropped := ft_dropped T + 1\<rparr>)
              else (case filter_loop F rest T of Inl e \<Rightarrow> Inl e | Inr (kept, T') \<Rightarrow> Inr ((r, row) # kept, T'))))"

definition filter_rows_for_publish ::
  "publish_filter \<Rightarrow> (string \<times> json) list \<Rightarrow> py_error + (string \<times> json) list \<times> filter_telemetry" where
  "filter_rows_for_publish F rows =
     (let T = \<lparr>ft_low_retention = 0, ft_by_state = fold (\<lambda>s d. dset d s 0) (pf_exclude F) [], ft_dropped = 0\<rparr>
      in if pf_min_retention F = None \<and> pf_exclude F = [] then Inr (rows, T) else filter_loop F rows T)"

section \<open>Door B: the source trace of each row\<close>

text \<open>\<open>lookup\<close> is the summary of one trace, \<^verbatim>\<open>None\<close> when the bucket has none.\<close>

definition row_source_is_gateable_trace :: "(string \<Rightarrow> json) \<Rightarrow> string option \<Rightarrow> bool" where
  "row_source_is_gateable_trace lookup t =
     (case t of None \<Rightarrow> False
      | Some s \<Rightarrow> s \<noteq> [] \<and> (snd (parse_trail_ref s) \<noteq> Invalid \<or> lookup s \<noteq> JNull))"

definition trace_by_row :: "index_entry list \<Rightarrow> (string, string option) dict" where
  "trace_by_row es = fold (\<lambda>e d. if dmem d (ie_row_id e) then d else dset d (ie_row_id e) (index_entry_source_trace e)) es []"

record refused_row =
  rr_row_id :: string
  rr_trace_id :: "string option"
  rr_reason :: string
  rr_sub_reason :: string

definition DATASET_WITHHOLD_REASON :: string where "DATASET_WITHHOLD_REASON = ''not_cleared_for_egress''"

definition gate_row ::
  "(json \<Rightarrow> string) \<Rightarrow> (string \<Rightarrow> json) \<Rightarrow> json \<Rightarrow> (string, string option) dict \<Rightarrow> string \<Rightarrow>
    string list \<times> refused_row list \<Rightarrow> string list \<times> refused_row list" where
  "gate_row repr lookup manifest sources r acc =
     (let t = (case dget sources r of None \<Rightarrow> None | Some t \<Rightarrow> t) in
      if \<not> row_source_is_gateable_trace lookup t then (fst acc @ [r], snd acc)
      else (let state = clearance_for_trace repr lookup (Some manifest) (case t of None \<Rightarrow> [] | Some s \<Rightarrow> s)
            in if state = CLEARED then (fst acc @ [r], snd acc)
               else (fst acc, snd acc @ [\<lparr>rr_row_id = r, rr_trace_id = t, rr_reason = DATASET_WITHHOLD_REASON,
                       rr_sub_reason = sub_reason state\<rparr>])))"

definition dataset_egress_clearance ::
  "(json \<Rightarrow> string) \<Rightarrow> (string \<Rightarrow> json) \<Rightarrow> json \<Rightarrow> index_entry list \<Rightarrow> string list \<Rightarrow> string list \<times> refused_row list" where
  "dataset_egress_clearance repr lookup manifest es row_ids =
     fold (gate_row repr lookup manifest (trace_by_row es)) row_ids ([], [])"

section \<open>Selection and staging\<close>

record selection =
  sl_rows :: "(string \<times> json) list"
  sl_duplicates :: nat
  sl_blocked :: nat
  sl_needs_review :: nat

definition select_row ::
  "string list \<Rightarrow> string \<Rightarrow> (string, json) dict \<Rightarrow> string \<times> state_entry \<Rightarrow> selection \<Rightarrow> selection" where
  "select_row remote_ids remote rows re st =
     (let r = fst re; e = snd re in
      if r \<in> set remote_ids \<or> dmem (se_uploaded e) remote then st\<lparr>sl_duplicates := sl_duplicates st + 1\<rparr>
      else if se_status e = Blocked then st\<lparr>sl_blocked := sl_blocked st + 1\<rparr>
      else if se_status e = Needs_review \<or> se_status e = Rejected then st\<lparr>sl_needs_review := sl_needs_review st + 1\<rparr>
      else (case dget rows r of None \<Rightarrow> st | Some row \<Rightarrow> st\<lparr>sl_rows := sl_rows st @ [(r, row)]\<rparr>))"

definition select_rows :: "string list \<Rightarrow> string \<Rightarrow> (string, json) dict \<Rightarrow> publication_state \<Rightarrow> selection" where
  "select_rows remote_ids remote rows S =
     fold (select_row remote_ids remote rows) (sort_key fst S) \<lparr>sl_rows = [], sl_duplicates = 0, sl_blocked = 0, sl_needs_review = 0\<rparr>"

definition r_slug_run :: rx where
  "r_slug_run = r_plus (RChar (\<lambda>c. \<not> (ascii_alnum c \<or> c \<in> set ''_.-'')))"

definition safe_slug :: "string \<Rightarrow> string" where
  "safe_slug v = (let t = strip_by (\<lambda>c. c = CHR ''-'') (rx_sub r_slug_run ''-'' v) in if t = [] then ''local'' else t)"

definition shard_path :: "dataset_env \<Rightarrow> string \<Rightarrow> string \<Rightarrow> string list \<Rightarrow> string" where
  "shard_path E contributor run_id lines =
     ''data/'' @ safe_slug contributor @ ''-'' @ run_id @ ''-'' @ take 12 (dg_sha (de_digest E) (concat lines)) @ ''.jsonl''"

datatype publish_error =
    PublishRaised py_error
  | RemoteUnavailable
  | RemoteFailed string
  | RemoteSchemaAhead string string
  | SecurityFindings "(string \<times> string) list"
  | PublishWithheld "refused_row list"
  | HeadMoved
  | AcknowledgmentMissing

definition withdrawal_findings :: "(string \<times> string) list \<Rightarrow> (string \<times> string) list" where
  "withdrawal_findings fs = concat (map (\<lambda>(f, s). map (\<lambda>m. (f, sm_pattern m)) (scan_serialized s None)) fs)"

text \<open>
  \<open>surface\<close> holds the rendered card, the dataset infos, the schema and the quality report. What is staged is
  the surface, the withdrawal records, and one shard with the selected rows.
\<close>

definition stage_publication ::
  "dataset_env \<Rightarrow> (string, string) dict \<Rightarrow> string \<Rightarrow> string \<Rightarrow> dataset \<Rightarrow> (string \<times> json) list \<Rightarrow> publish_error + (string, string) dict" where
  "stage_publication E surface contributor run_id d rows =
     (let ws = files_in d ''_withdrawals/''; found = withdrawal_findings ws in
      if found \<noteq> [] then Inl (SecurityFindings found)
      else (let staged = fold (\<lambda>(f, s) out. dset out f s) ws surface;
                lines = map (\<lambda>(r, row). row_text E row) rows
            in Inr (if rows = [] then staged
                    else dset staged (shard_path E contributor run_id lines) (join [CHR 10] lines @ [CHR 10]))))"

definition changed_staged_files :: "(string, string) dict option \<Rightarrow> (string, string) dict \<Rightarrow> string list" where
  "changed_staged_files remote staged =
     sort (map fst (filter (\<lambda>(f, s). \<not> starts_with f ''.opentraces/'' \<and>
        (case remote of None \<Rightarrow> True | Some fs \<Rightarrow> dget fs f \<noteq> Some s)) staged))"

section \<open>The remote\<close>

definition semver_tuple :: "string option \<Rightarrow> (int \<times> int \<times> int) option" where
  "semver_tuple v =
     (case v of None \<Rightarrow> None
      | Some s \<Rightarrow> if s = [] then None
          else (case map py_int (split_on (CHR ''.'') s) of [Some a, Some b, Some c] \<Rightarrow> Some (a, b, c) | _ \<Rightarrow> None))"

definition remote_schema_ahead :: "string option \<Rightarrow> string \<Rightarrow> bool" where
  "remote_schema_ahead remote here =
     (case (semver_tuple remote, semver_tuple (Some here)) of (Some r, Some l) \<Rightarrow> l < r | _ \<Rightarrow> False)"

text \<open>
  What one attempt sees of the remote: its head or a failure (\<open>True\<close> for a transport error), the schema version of its
  card, the ids of its rows, its files when they can be compared, the manifest recomputed for the gate, and
  how the upload onto a parent ends.
\<close>

datatype upload_outcome = UploadAnswered "string option" | UploadConflict | UploadFailed bool string

record remote_view =
  rv_head :: "(bool \<times> string) + string option"
  rv_version :: "string option"
  rv_row_ids :: "string list"
  rv_files :: "(string, string) dict option"
  rv_manifest :: json
  rv_upload :: "string option \<Rightarrow> (string, string) dict \<Rightarrow> upload_outcome"

definition remote_failure :: "bool \<times> string \<Rightarrow> publish_error" where
  "remote_failure f = (if fst f then RemoteUnavailable else RemoteFailed (snd f))"

definition is_commit_id :: "string \<Rightarrow> bool" where
  "is_commit_id s \<longleftrightarrow> length s = 40 \<and> list_all (\<lambda>c. is_digit c \<or> c \<in> set ''abcdef'') s"

text \<open>The live remote must answer with a new commit id; a comparable remote answers with its head.\<close>

definition acknowledged :: "bool \<Rightarrow> string option \<Rightarrow> string option \<Rightarrow> publish_error + string" where
  "acknowledged live parent answer =
     (case answer of None \<Rightarrow> Inl AcknowledgmentMissing
      | Some oid \<Rightarrow> if live \<and> (\<not> is_commit_id oid \<or> parent = Some oid) then Inl AcknowledgmentMissing else Inr oid)"

section \<open>The publish operation\<close>

record publish_args =
  pa_to :: "string option"
  pa_check_only :: bool
  pa_contributor :: string
  pa_run_id :: string
  pa_filter :: publish_filter
  pa_surface :: "(string, string) dict"

record publish_summary =
  ps_remote :: string
  ps_repo_id :: string
  ps_uploaded :: bool
  ps_new_rows :: nat
  ps_duplicates :: nat
  ps_needs_review :: nat
  ps_blocked :: nat
  ps_staged :: "string list"
  ps_head_before :: "string option"
  ps_head_after :: "string option"
  ps_attempts :: nat
  ps_message :: string
  ps_filter :: "filter_telemetry option"

definition mark_row_uploaded :: "dataset_env \<Rightarrow> string \<Rightarrow> string \<Rightarrow> publication_state \<Rightarrow> publication_state" where
  "mark_row_uploaded E remote r S =
     (case dget S r of None \<Rightarrow> S
      | Some e \<Rightarrow> dset S r (e\<lparr>se_status := Published, se_uploaded := dset (se_uploaded e) remote (de_now E), se_updated_at := Some (de_now E)\<rparr>))"

definition mark_rows_uploaded :: "dataset_env \<Rightarrow> string \<Rightarrow> string list \<Rightarrow> publication_state \<Rightarrow> publication_state" where
  "mark_rows_uploaded E remote rs S = fold (mark_row_uploaded E remote) rs S"

definition file_digest :: "dataset_env \<Rightarrow> string \<Rightarrow> string" where
  "file_digest E s = HASH_PREFIX @ dg_sha (de_digest E) s"

definition publication_event ::
  "dataset_env \<Rightarrow> publish_args \<Rightarrow> string \<Rightarrow> string \<Rightarrow> string option \<Rightarrow> string \<Rightarrow> (string, string) dict \<Rightarrow> string list \<Rightarrow> string list \<Rightarrow> json" where
  "publication_event E A remote repo before after staged changed rs =
     JObj [(''run_id'', JStr (pa_run_id A)), (''remote'', JStr remote), (''repo_id'', JStr repo),
       (''remote_head_before'', of_opt_str before), (''remote_head_after'', JStr after),
       (''files'', JObj (somes (map (\<lambda>f. case dget staged f of None \<Rightarrow> None | Some s \<Rightarrow> Some (f, JStr (file_digest E s))) changed))),
       (''row_ids'', json_texts_of rs), (''published_at'', JStr (de_now E))]"

datatype attempt = Failed publish_error | Retry | Finished publish_summary dataset

definition base_summary :: "string \<Rightarrow> string \<Rightarrow> selection \<Rightarrow> string option \<Rightarrow> nat \<Rightarrow> filter_telemetry option \<Rightarrow> publish_summary" where
  "base_summary remote repo sel before n telemetry =
     \<lparr>ps_remote = remote, ps_repo_id = repo, ps_uploaded = False, ps_new_rows = 0, ps_duplicates = sl_duplicates sel,
      ps_needs_review = sl_needs_review sel, ps_blocked = sl_blocked sel, ps_staged = [], ps_head_before = before,
      ps_head_after = before, ps_attempts = n, ps_message = ''nothing to publish'', ps_filter = telemetry\<rparr>"

text \<open>The end of an attempt: nothing changed, a check only, or the upload and what it records.\<close>

definition finish_attempt ::
  "dataset_env \<Rightarrow> publish_args \<Rightarrow> dataset \<Rightarrow> remote_view \<Rightarrow> publication_state \<Rightarrow> string list \<Rightarrow> publish_summary \<Rightarrow>
    (string, string) dict \<Rightarrow> attempt" where
  "finish_attempt E A d v S ids summary staged =
     (let changed = changed_staged_files (rv_files v) staged; before = ps_head_before summary; remote = ps_remote summary in
      if changed = [] then Finished summary (d\<lparr>da_state := S\<rparr>)
      else if pa_check_only A then
        Finished (summary\<lparr>ps_new_rows := length ids, ps_staged := changed, ps_message := ''check passed''\<rparr>) (d\<lparr>da_state := S\<rparr>)
      else (case rv_upload v before staged of
          UploadConflict \<Rightarrow> Retry
        | UploadFailed transport msg \<Rightarrow> Failed (remote_failure (transport, msg))
        | UploadAnswered answer \<Rightarrow> (case acknowledged (rv_files v = None) before answer of Inl e \<Rightarrow> Failed e
            | Inr after \<Rightarrow>
              Finished (summary\<lparr>ps_uploaded := True, ps_new_rows := length ids, ps_staged := changed,
                  ps_head_after := Some after, ps_message := ''published''\<rparr>)
                (d\<lparr>da_state := mark_rows_uploaded E remote ids S,
                   da_publications := da_publications d @
                     [publication_event E A remote (ps_repo_id summary) before after staged changed ids]\<rparr>))))"

definition refused_rows :: "dataset_env \<Rightarrow> (string \<Rightarrow> json) \<Rightarrow> dataset \<Rightarrow> remote_view \<Rightarrow> string list \<Rightarrow> refused_row list" where
  "refused_rows E lookup d v ids =
     (if ids = [] then [] else snd (dataset_egress_clearance (de_repr E) lookup (rv_manifest v) (da_index d) ids))"

definition emitted_filter :: "publish_filter \<Rightarrow> filter_telemetry \<Rightarrow> filter_telemetry option" where
  "emitted_filter F T = (if pf_min_retention F \<noteq> None \<or> pf_exclude F \<noteq> [] then Some T else None)"

definition publish_attempt ::
  "dataset_env \<Rightarrow> (string \<Rightarrow> json) \<Rightarrow> publish_args \<Rightarrow> string \<Rightarrow> string \<Rightarrow> dataset \<Rightarrow> nat \<Rightarrow> remote_view \<Rightarrow> attempt" where
  "publish_attempt E lookup A remote repo d n v =
     (case rv_head v of Inl f \<Rightarrow> Failed (remote_failure f)
      | Inr before \<Rightarrow>
        if remote_schema_ahead (rv_version v) (dm_schema_version (da_manifest d))
        then Failed (RemoteSchemaAhead (case rv_version v of None \<Rightarrow> [] | Some s \<Rightarrow> s) (dm_schema_version (da_manifest d)))
        else (case evaluate_publication_state E whole_dataset d of Inl e \<Rightarrow> Failed (PublishRaised e)
          | Inr S \<Rightarrow> (case read_rows_by_id E d of Inl e \<Rightarrow> Failed (PublishRaised e)
            | Inr rows \<Rightarrow>
              (let sel = select_rows (rv_row_ids v) remote rows S in
               case filter_rows_for_publish (pa_filter A) (sl_rows sel) of Inl e \<Rightarrow> Failed (PublishRaised e)
               | Inr (kept, T) \<Rightarrow>
                 (let refused = refused_rows E lookup d v (map fst kept) in
                  if refused \<noteq> [] then Failed (PublishWithheld refused)
                  else (case stage_publication E (pa_surface A) (pa_contributor A) (pa_run_id A) d kept of Inl e \<Rightarrow> Failed e
                    | Inr staged \<Rightarrow>
                      finish_attempt E A d v S (map fst kept)
                        (base_summary remote repo sel before n (emitted_filter (pa_filter A) T)) staged))))))"

definition MAX_PARENT_COMMIT_RETRIES :: nat where "MAX_PARENT_COMMIT_RETRIES = 5"

function publish_loop ::
  "dataset_env \<Rightarrow> (string \<Rightarrow> json) \<Rightarrow> publish_args \<Rightarrow> string \<Rightarrow> string \<Rightarrow> dataset \<Rightarrow> (nat \<Rightarrow> remote_view) \<Rightarrow> nat \<Rightarrow> nat \<Rightarrow>
    publish_error + publish_summary \<times> dataset" where
  "publish_loop E lookup A remote repo d views max_retries n =
     (case publish_attempt E lookup A remote repo d n (views n) of
        Failed e \<Rightarrow> Inl e
      | Finished s d' \<Rightarrow> Inr (s, d')
      | Retry \<Rightarrow> if max_retries < n then Inl HeadMoved
          else publish_loop E lookup A remote repo d views max_retries (n + 1))"
  by pat_completeness auto

termination by (relation "measure (\<lambda>(E, lookup, A, remote, repo, d, views, m, n). Suc m - n)") auto

declare publish_loop.simps [simp del]

definition publish_dataset ::
  "dataset_env \<Rightarrow> (string \<Rightarrow> json) \<Rightarrow> publish_args \<Rightarrow> nat \<Rightarrow> (nat \<Rightarrow> remote_view) \<Rightarrow> dataset \<Rightarrow> publish_error + publish_summary \<times> dataset" where
  "publish_dataset E lookup A max_retries views d =
     (let m = da_manifest d; remote = (if truthy_str (pa_to A) then pa_to A else dm_active m) in
      case remote of
        None \<Rightarrow> Inl (PublishRaised ValueError)
      | Some r \<Rightarrow> if r = [] then Inl (PublishRaised ValueError)
          else (case dget (dm_remotes m) r of
              None \<Rightarrow> Inl (PublishRaised ValueError)
            | Some remote \<Rightarrow> publish_loop E lookup A r (repo_id_from_remote remote) d views max_retries 1))"

end
