(* ===== verification/DatasetProps.thy ===== *)
theory DatasetProps
  imports DatasetPublish SecurityProps
begin

text \<open>
  The row store of a dataset: lines of JSON are lines of the file unless a text holds the next-line
  character, the index enumerates the rows it was given, and reading gives back what was appended.
\<close>

section \<open>Lines\<close>

definition unbroken :: "string \<Rightarrow> bool" where
  "unbroken s \<longleftrightarrow> (\<forall>c\<in>set s. \<not> is_break c)"

lemma unbroken_simps [simp]: "unbroken []" "unbroken (s @ t) \<longleftrightarrow> unbroken s \<and> unbroken t" "unbroken (c # s) \<longleftrightarrow> \<not> is_break c \<and> unbroken s"
  by (auto simp: unbroken_def)

definition lines_text :: "string list \<Rightarrow> string" where
  "lines_text ls = concat (map (\<lambda>l. l @ [CHR 10]) ls)"

lemma split_breaks_line: "unbroken l \<Longrightarrow> split_breaks acc (l @ CHR 10 # rest) = (rev acc @ l) # split_breaks [] rest"
  by (induction l arbitrary: acc) (simp_all add: is_break_def ord_of_def skip_lf_def)

lemma splitlines_lines: "list_all unbroken ls \<Longrightarrow> splitlines (lines_text ls) = ls"
  by (induction ls) (simp_all add: splitlines_def lines_text_def split_breaks_line)

text \<open>JSON text: the encoder escapes every line end except the next-line character.\<close>

fun next_line_free :: "json \<Rightarrow> bool" where
  "next_line_free (JStr s) \<longleftrightarrow> CHR 133 \<notin> set s"
| "next_line_free (JList xs) \<longleftrightarrow> list_all next_line_free xs"
| "next_line_free (JObj kvs) \<longleftrightarrow> list_all (\<lambda>(k, v). CHR 133 \<notin> set k \<and> next_line_free v) kvs"
| "next_line_free v \<longleftrightarrow> True"

definition plain_floats :: "(rat \<Rightarrow> string) \<Rightarrow> bool" where
  "plain_floats ftext \<longleftrightarrow> (\<forall>q. unbroken (ftext q))"

lemma unbroken_digits: "unbroken (digits_of n)"
proof (induction n rule: digits_of.induct)
  case (1 n)
  have one: "m < 10 \<Longrightarrow> \<not> is_break (char_of (48 + m))" for m :: nat by (simp add: is_break_def ord_of_def)
  show ?case using 1 by (subst digits_of.simps) (auto simp: one)
qed

lemma unbroken_int: "unbroken (str_of_int i)"
  by (auto simp: str_of_int_def unbroken_digits is_break_def ord_of_def)

lemma ord_of_next_line: "ord_of c = 133 \<longleftrightarrow> c = CHR 133"
proof
  assume "ord_of c = 133"
  then have "char_of (ord_of c) = (char_of (133::nat) :: char)" by (rule arg_cong)
  moreover have "(char_of (133::nat) :: char) = CHR 133" by code_simp
  ultimately show "c = CHR 133" by (simp add: ord_of_def)
qed (simp add: ord_of_def)

lemma hex_unbroken: "m < 16 \<Longrightarrow> \<not> is_break (low_hex_digit m)"
  by (auto simp: low_hex_digit_def is_break_def ord_of_def)

lemma unbroken_escape: "c \<noteq> CHR 133 \<Longrightarrow> unbroken (escape_char c)"
proof -
  have special: "list_all (\<lambda>c. \<not> is_break c) [CHR 92, CHR 34, CHR ''n'', CHR ''r'', CHR ''t'', CHR ''f'', CHR ''b'', CHR ''u'', CHR ''0'']"
    by (simp add: is_break_def ord_of_def)
  have plain: "c \<notin> {CHR 10, CHR 13, CHR 12} \<Longrightarrow> \<not> ord_of c < 32 \<Longrightarrow> c \<noteq> CHR 133 \<Longrightarrow> \<not> is_break c"
    by (auto simp: is_break_def ord_of_next_line)
  have "ord_of c < 32 \<Longrightarrow> unbroken (hex4 (ord_of c))" using special by (simp add: hex4_def hex_unbroken)
  then show "c \<noteq> CHR 133 \<Longrightarrow> ?thesis" using special plain unfolding escape_char_def by simp
qed

lemma unbroken_json_string: "CHR 133 \<notin> set s \<Longrightarrow> unbroken (json_string s)"
proof -
  assume "CHR 133 \<notin> set s"
  then have "unbroken (concat (map escape_char s))" by (induction s) (auto simp: unbroken_escape)
  then show ?thesis by (simp add: json_string_def is_break_def ord_of_def)
qed

lemma unbroken_join: "unbroken sep \<Longrightarrow> list_all unbroken ws \<Longrightarrow> unbroken (join sep ws)"
  by (induction sep ws rule: join.induct) auto

lemma unbroken_dumps: "plain_floats ftext \<Longrightarrow> next_line_free v \<Longrightarrow> unbroken (dumps ftext v)"
proof (induction v)
  case (JList xs)
  then have "list_all unbroken (map (dumps ftext) xs)" by (auto simp: list_all_iff)
  then show ?case using unbroken_join [of "'',''"] by (simp add: is_break_def ord_of_def)
next
  case (JObj kvs)
  have "list_all unbroken (map (\<lambda>(k, v). json_string k @ '':'' @ dumps ftext v) kvs)"
    using JObj by (fastforce simp: list_all_iff unbroken_json_string is_break_def ord_of_def)
  then show ?case using unbroken_join [of "'',''"] by (simp add: is_break_def ord_of_def)
qed (auto simp: unbroken_int unbroken_json_string is_break_def ord_of_def plain_floats_def)

lemma next_line_free_canon: "next_line_free (canon v) = next_line_free v"
proof (induction v)
  case (JObj kvs)
  have "next_line_free (canon (JObj kvs)) \<longleftrightarrow> (\<forall>(k, v)\<in>set kvs. CHR 133 \<notin> set k \<and> next_line_free (canon v))"
    by (auto simp: list_all_iff case_prod_unfold)
  then show ?case using JObj by (fastforce simp: list_all_iff)
qed (auto simp: list_all_iff)

lemma unbroken_row: "plain_floats (dg_float (de_digest E)) \<Longrightarrow> next_line_free v \<Longrightarrow> unbroken (row_text E v)"
  by (simp add: row_text_def canonical_json_def unbroken_dumps next_line_free_canon)

lemma row_not_blank: "strip (row_text E (JObj row)) \<noteq> []"
proof -
  have "\<exists>t. row_text E (JObj row) = ''{'' @ t" by (simp add: row_text_def canonical_json_def)
  then obtain t where t: "row_text E (JObj row) = CHR ''{'' # t" by auto
  have "\<not> is_space (CHR ''{'')" by code_simp
  then show ?thesis unfolding t by (simp add: strip_by_def lstrip_by_def rstrip_by_def dropWhile_append3)
qed

lemma rows_lines: "rows_text E rows = lines_text (map (\<lambda>row. row_text E (JObj row)) rows)"
  by (simp add: rows_text_def lines_text_def comp_def)

lemma rows_splitlines:
  assumes "plain_floats (dg_float (de_digest E))" "list_all (\<lambda>row. next_line_free (JObj row)) rows"
  shows "splitlines (rows_text E rows) = map (\<lambda>row. row_text E (JObj row)) rows"
  unfolding rows_lines using assms by (intro splitlines_lines) (auto simp: list_all_iff simp del: next_line_free.simps intro!: unbroken_row)

section \<open>The index and the file\<close>

definition identity_of :: "dataset_env \<Rightarrow> dataset_manifest \<Rightarrow> (string, json) dict \<Rightarrow> string" where
  "identity_of E m row = row_identity_hash (de_digest E) (dm_identity m) row"

definition id_of_row :: "dataset_env \<Rightarrow> dataset_manifest \<Rightarrow> (string, json) dict \<Rightarrow> string" where
  "id_of_row E m row = row_id_of (identity_of E m row)"

definition place :: "index_entry \<Rightarrow> string \<times> string \<times> string \<times> nat" where
  "place e = (ie_row_id e, ie_identity e, ie_file e, ie_line e)"

definition places :: "dataset_env \<Rightarrow> dataset_manifest \<Rightarrow> nat \<Rightarrow> (string, json) dict list \<Rightarrow> (string \<times> string \<times> string \<times> nat) list" where
  "places E m n rows = map (\<lambda>(i, row). (id_of_row E m row, identity_of E m row, TRAIN_FILE, i)) (enumerate n rows)"

text \<open>
  The store holds \<open>rows\<close>: the file is their lines, the index has one entry for each in order, and no two
  have the same identity.
\<close>

definition rows_stored :: "dataset_env \<Rightarrow> dataset \<Rightarrow> (string, json) dict list \<Rightarrow> bool" where
  "rows_stored E d rows \<longleftrightarrow>
     file_text d TRAIN_FILE = rows_text E rows \<and> map place (da_index d) = places E (da_manifest d) 1 rows \<and>
     distinct (map (identity_of E (da_manifest d)) rows) \<and> list_all (\<lambda>row. next_line_free (JObj row)) rows"

lemma places_simps [simp]:
  "places E m n [] = []"
  "places E m n (row # rows) = (id_of_row E m row, identity_of E m row, TRAIN_FILE, n) # places E m (Suc n) rows"
  by (simp_all add: places_def)

lemma places_append: "places E m n (xs @ ys) = places E m n xs @ places E m (n + length xs) ys"
  by (induction xs arbitrary: n) simp_all

lemma length_places [simp]: "length (places E m n rows) = length rows"
  by (simp add: places_def)

lemma places_identities: "map (fst \<circ> snd) (places E m n rows) = map (identity_of E m) rows"
  by (induction rows arbitrary: n) simp_all

lemma place_identities: "map place es = places E m n rows \<Longrightarrow> map ie_identity es = map (identity_of E m) rows"
proof -
  assume "map place es = places E m n rows"
  then have "map (fst \<circ> snd) (map place es) = map (identity_of E m) rows" by (simp only: places_identities)
  then show ?thesis by (simp add: place_def comp_def)
qed

section \<open>The append loop\<close>

text \<open>What a run has collected from a store of \<open>n\<close> rows with the identities \<open>old\<close>.\<close>

definition run_ok :: "dataset_env \<Rightarrow> dataset \<Rightarrow> nat \<Rightarrow> string list \<Rightarrow> append_run \<Rightarrow> bool" where
  "run_ok E d n old st \<longleftrightarrow>
     ar_line st = n + length (ar_rows st) \<and> map place (ar_entries st) = places E (da_manifest d) (Suc n) (ar_rows st) \<and>
     distinct (old @ map (identity_of E (da_manifest d)) (ar_rows st)) \<and>
     ar_seen st = old @ map (identity_of E (da_manifest d)) (ar_rows st)"

lemma add_row_ok:
  assumes "run_ok E d n old st" "identity_of E (da_manifest d) row \<notin> set (ar_seen st)"
  shows "run_ok E d n old (add_row E d A (identity_of E (da_manifest d) row) row sec st)"
  using assms
  by (simp add: run_ok_def add_row_def new_entry_def place_def places_append id_of_row_def TRAIN_FILE_def Let_def)

lemma append_row_cases:
  assumes "append_row E d A i row0 st = Inr st'"
  obtains (kept) "ar_rows st' = ar_rows st" "ar_entries st' = ar_entries st" "ar_line st' = ar_line st"
      "ar_provenance st' = ar_provenance st" "ar_seen st' = ar_seen st \<or> aa_dry_run A"
  | (added) row sec where "\<not> aa_dry_run A" "facet_rejects A row0 = None" "sanitized_row E d (aa_tier A) row0 = Inr (row, sec)"
      "validate_row (de_repr E) (da_row_schema d) row = Inr []" "identity_of E (da_manifest d) row \<notin> set (ar_seen st)"
      "st' = add_row E d A (identity_of E (da_manifest d) row) row sec st"
  using assms
  by (auto simp: append_row_def identity_of_def Let_def split: option.splits sum.splits prod.splits if_splits)

lemma append_row_ok:
  "append_row E d A i row0 st = Inr st' \<Longrightarrow> \<not> aa_dry_run A \<Longrightarrow> run_ok E d n old st \<Longrightarrow> run_ok E d n old st'"
proof -
  assume row: "append_row E d A i row0 st = Inr st'" and wet: "\<not> aa_dry_run A" and ok: "run_ok E d n old st"
  from row show "run_ok E d n old st'"
  proof (cases rule: append_row_cases)
    case kept
    then show ?thesis using ok wet by (simp add: run_ok_def)
  next
    case added
    then show ?thesis using add_row_ok [OF ok] by simp
  qed
qed

lemma append_loop_ok:
  "append_rows_loop E d A i rows st = Inr st' \<Longrightarrow> \<not> aa_dry_run A \<Longrightarrow> run_ok E d n old st \<Longrightarrow> run_ok E d n old st'"
  by (induction rows arbitrary: i st) (auto split: sum.splits dest: append_row_ok)

lemma append_loop_dry:
  "append_rows_loop E d A i rows st = Inr st' \<Longrightarrow> aa_dry_run A \<Longrightarrow> ar_rows st' = ar_rows st"
  by (induction rows arbitrary: i st) (auto split: sum.splits elim!: append_row_cases)

lemma lines_counted:
  assumes "plain_floats (dg_float (de_digest E))" "list_all (\<lambda>row. next_line_free (JObj row)) rows"
  shows "line_count (rows_text E rows) = length rows"
  by (simp add: line_count_def count_by_def rows_splitlines [OF assms] row_not_blank filter_map comp_def)

lemma initial_run_ok:
  assumes "rows_stored E d rows" "plain_floats (dg_float (de_digest E))"
  shows "run_ok E d (length rows) (map ie_identity (da_index d)) (initial_run d)"
  using assms place_identities [of "da_index d" E "da_manifest d" 1 rows]
  by (simp add: rows_stored_def initial_run_def run_ok_def lines_counted)

lemma commit_stored:
  assumes "rows_stored E d rows" "run_ok E d (length rows) (map ie_identity (da_index d)) st"
    and "list_all (\<lambda>row. next_line_free (JObj row)) (ar_rows st)"
  shows "rows_stored E (commit_rows E st d) (rows @ ar_rows st)"
  using assms place_identities [of "da_index d" E "da_manifest d" 1 rows]
  by (simp add: rows_stored_def run_ok_def commit_rows_def file_text_def rows_text_def places_append)

lemma rows_stored_cong: "da_manifest d' = da_manifest d \<Longrightarrow> da_files d' = da_files d \<Longrightarrow> da_index d' = da_index d \<Longrightarrow>
    rows_stored E d' rows = rows_stored E d rows"
  by (simp add: rows_stored_def file_text_def)

lemma append_stored:
  assumes "rows_stored E d rows" "plain_floats (dg_float (de_digest E))" "append_rows E A tier new d = Inr (d', st)"
    and "list_all (\<lambda>row. next_line_free (JObj row)) (ar_rows st)"
  shows "rows_stored E d' (rows @ ar_rows st)" "aa_dry_run A \<Longrightarrow> d' = d \<and> ar_rows st = []"
proof -
  obtain t where loop: "append_rows_loop E d (A\<lparr>aa_tier := t\<rparr>) 1 new (initial_run d) = Inr st"
    and d': "ar_rows st = [] \<and> d' = d \<or> (\<exists>S. d' = (commit_rows E st d)\<lparr>da_state := S\<rparr>)"
    using assms(3) by (auto simp: append_rows_def Let_def split: sum.splits if_splits)
  show dry: "aa_dry_run A \<Longrightarrow> d' = d \<and> ar_rows st = []"
    using append_loop_dry [OF loop] assms(3) loop
    by (auto simp: initial_run_def append_rows_def Let_def split: sum.splits if_splits)
  show "rows_stored E d' (rows @ ar_rows st)"
  proof (cases "ar_rows st = [] \<and> d' = d")
    case False
    then have "\<not> aa_dry_run (A\<lparr>aa_tier := t\<rparr>)" using dry by auto
    from append_loop_ok [OF loop this initial_run_ok [OF assms(1,2)]]
    have "rows_stored E (commit_rows E st d) (rows @ ar_rows st)" by (rule commit_stored [OF assms(1) _ assms(4)])
    with d' False show ?thesis by (auto simp: rows_stored_cong [of "(commit_rows E st d)\<lparr>da_state := S\<rparr>" "commit_rows E st d" for S])
  qed (use assms(1) in simp)
qed

section \<open>Reading\<close>

text \<open>The decoder reads every stored line back as the canonical form of its row.\<close>

definition decodes :: "dataset_env \<Rightarrow> (string, json) dict list \<Rightarrow> bool" where
  "decodes E rows \<longleftrightarrow> (\<forall>row\<in>set rows. de_loads E (row_text E (JObj row)) = Some (canon (JObj row)))"

lemma dset_at_end: "k \<notin> set (dkeys d) \<Longrightarrow> dset d k v = d @ [(k, v)]"
  by (induction d) (auto simp: dset_def dkeys_def)

lemma read_places:
  assumes "splitlines (file_text d TRAIN_FILE) = map (\<lambda>row. row_text E (JObj row)) (pre @ xs @ post)" "decodes E xs"
    and "map place es = places E m (Suc (length pre)) xs" "distinct (dkeys acc @ map (id_of_row E m) xs)"
  shows "read_entries E d es acc = Inr (acc @ map (\<lambda>row. (id_of_row E m row, canon (JObj row))) xs)"
  using assms
proof (induction xs arbitrary: pre es acc)
  case (Cons row xs)
  then obtain e es' where es: "es = e # es'" by (cases es) auto
  have e: "ie_row_id e = id_of_row E m row" "ie_file e = TRAIN_FILE" "ie_line e = Suc (length pre)"
    and es': "map place es' = places E m (Suc (length (pre @ [row]))) xs"
    using Cons.prems(3) unfolding es by (simp_all add: place_def [of e])
  have "file_text d TRAIN_FILE \<noteq> []" using Cons.prems(1) by (auto simp: splitlines_def)
  then have found: "dget (da_files d) TRAIN_FILE = Some (file_text d TRAIN_FILE)" by (auto simp: file_text_def split: option.splits)
  have "de_loads E (row_text E (JObj row)) = Some (canon (JObj row))" using Cons.prems(2) by (simp add: decodes_def)
  then have "read_entry E d e acc = Inr (dset acc (id_of_row E m row) (canon (JObj row)))"
    by (simp add: read_entry_def e found Cons.prems(1) row_not_blank nth_append Let_def)
  moreover have "dset acc (id_of_row E m row) (canon (JObj row)) = acc @ [(id_of_row E m row, canon (JObj row))]"
    using Cons.prems(4) by (intro dset_at_end) auto
  ultimately show ?case
    using Cons.IH [of "pre @ [row]" es' "acc @ [(id_of_row E m row, canon (JObj row))]"] es' Cons.prems
    unfolding es by (simp add: dkeys_def decodes_def)
qed auto

lemma read_stored:
  assumes "rows_stored E d rows" "plain_floats (dg_float (de_digest E))" "decodes E rows"
    and "distinct (map (id_of_row E (da_manifest d)) rows)"
  shows "read_rows_by_id E d = Inr (map (\<lambda>row. (id_of_row E (da_manifest d) row, canon (JObj row))) rows)"
  using read_places [of d E "[]" rows "[]" "da_index d" "da_manifest d" "[]"] assms
  by (simp add: read_rows_by_id_def rows_stored_def rows_splitlines dkeys_def)

lemma append_keeps_manifest: "append_rows E A tier new d = Inr (d', st) \<Longrightarrow> da_manifest d' = da_manifest d"
  by (auto simp: append_rows_def commit_rows_def Let_def split: sum.splits if_splits)

text \<open>
  C7. Appending and reading: on a store that holds some rows, an append leaves a store that holds these and the
  rows it kept, in order, each once and under its own id; reading gives every one of them back, in
  canonical form; a dry run changes nothing. The texts must not hold the next-line character.
\<close>

theorem append_then_read:
  assumes "rows_stored E d rows" "plain_floats (dg_float (de_digest E))" "append_rows E A tier new d = Inr (d', st)"
    and "list_all (\<lambda>row. next_line_free (JObj row)) (ar_rows st)" "decodes E (rows @ ar_rows st)"
    and "distinct (map (id_of_row E (da_manifest d)) (rows @ ar_rows st))"
  shows "rows_stored E d' (rows @ ar_rows st) \<and> (aa_dry_run A \<longrightarrow> d' = d) \<and>
    read_rows_by_id E d' = Inr (map (\<lambda>row. (id_of_row E (da_manifest d) row, canon (JObj row))) (rows @ ar_rows st))"
  using append_stored [OF assms(1-4)] read_stored [OF _ assms(2,5)] assms(6) append_keeps_manifest [OF assms(3)] by simp

section \<open>Rows without texts\<close>

text \<open>The tools rewrite texts only: a row of numbers and truth values passes unchanged.\<close>

fun text_free :: "json \<Rightarrow> bool" where
  "text_free (JStr s) \<longleftrightarrow> False"
| "text_free (JList xs) \<longleftrightarrow> list_all text_free xs"
| "text_free (JObj kvs) \<longleftrightarrow> list_all (\<lambda>(k, v). text_free v) kvs"
| "text_free v \<longleftrightarrow> True"

lemma walk_text_free:
  "text_free v \<Longrightarrow> walk_dict_strings T p ft v = (v, 0, [])"
  "list_all text_free xs \<Longrightarrow> walk_dict_items T p ft i xs = (xs, False, 0, [])"
  "list_all (\<lambda>(k, v). text_free v) d \<Longrightarrow> walk_dict_fields T p ft d = (d, False, 0, [])"
  by (induction T p ft v and T p ft i xs and T p ft d rule: walk_dict_strings_walk_dict_items_walk_dict_fields.induct) auto

lemma fold_dict_pass_text_free: "text_free v \<Longrightarrow> fst (fold (dict_pass ft) ds (v, rep)) = v"
proof (induction ds arbitrary: rep)
  case (Cons p ds)
  have "fst (dict_pass ft p (v, rep)) = v" using Cons.prems by (simp add: dict_pass_def walk_text_free)
  then show ?case using Cons.IH [OF Cons.prems, of "snd (dict_pass ft p (v, rep))"] by (metis fold_simps(2) prod.collapse)
qed simp

lemma sanitize_parts:
  assumes "sanitize_dataset_row B C tier names row = Inr (row', sec)"
  obtains t d rep b where "normalize_privacy_tier tier ''off'' = Inr t" "ds_tier sec = t"
    "sanitize_dict (all_tools B C) (Some (effective_tools (requested_tools t names))) None GENERAL row = Inr (d, rep)"
    "row' = (case if b then fst (walk_dict_strings (anon_leaf (be_env B)) [] GENERAL (JObj d)) else JObj d of JObj d' \<Rightarrow> d' | _ \<Rightarrow> row)"
proof (cases "normalize_privacy_tier tier ''off''")
  case (Inr t)
  note t = this
  show thesis
  proof (cases "sanitize_dict (all_tools B C) (Some (effective_tools (requested_tools t names))) None GENERAL row")
    case (Inr p)
    then have p: "sanitize_dict (all_tools B C) (Some (effective_tools (requested_tools t names))) None GENERAL row = Inr (fst p, snd p)" by simp
    note eq = assms [unfolded sanitize_dataset_row_def t sum.case Let_def p prod.case, unfolded sum.inject prod.inject]
    have "ds_tier sec = t" using arg_cong [OF conjunct2 [OF eq], of ds_tier] by (simp only: dataset_row_security.simps)
    then show thesis using that [OF t _ p conjunct1 [OF eq, symmetric]] by blast
  qed (use assms in \<open>simp add: sanitize_dataset_row_def t Let_def\<close>)
qed (use assms in \<open>simp add: sanitize_dataset_row_def\<close>)

lemma sanitize_text_free:
  assumes "text_free (JObj row)" "sanitize_dataset_row B C tier names row = Inr (row', sec)"
  shows "row' = row"
proof -
  from assms(2) obtain t d rep b where d: "sanitize_dict (all_tools B C) (Some (effective_tools (requested_tools t names))) None GENERAL row = Inr (d, rep)"
    and row': "row' = (case if b then fst (walk_dict_strings (anon_leaf (be_env B)) [] GENERAL (JObj d)) else JObj d of JObj d' \<Rightarrow> d' | _ \<Rightarrow> row)"
    by (rule sanitize_parts)
  have "d = row"
    using d fold_dict_pass_text_free [OF assms(1), of GENERAL _ empty_report]
    by (auto simp: sanitize_dict_def case_prod_unfold Let_def split: sum.splits)
  then show ?thesis using row' by (cases b) (simp_all only: walk_text_free(1) [OF assms(1)] fst_conv json.case if_True if_False)
qed

lemma known_tool_names: "known_tools (po_enabled p) \<Longrightarrow> set (requested_tools tier (Some (po_enabled p))) \<subseteq> set CANONICAL_NAMES"
proof -
  have "SECURITY_TOOL_ORDER = CANONICAL_NAMES" by (simp add: SECURITY_TOOL_ORDER_def CANONICAL_NAMES_def)
  then show "known_tools (po_enabled p) \<Longrightarrow> ?thesis"
    using dedupe_distinct [of "[]" "po_enabled p"] by (auto simp: requested_tools_def known_tools_def list_all_iff)
qed

lemma default_tool_names: "tier \<in> set PRIVACY_TIERS \<Longrightarrow> set (requested_tools tier None) \<subseteq> set CANONICAL_NAMES"
proof -
  have "list_all (\<lambda>t. list_all (\<lambda>n. n \<in> set CANONICAL_NAMES) (requested_tools t None)) PRIVACY_TIERS" by code_simp
  then show "tier \<in> set PRIVACY_TIERS \<Longrightarrow> ?thesis" by (auto simp: list_all_iff)
qed

text \<open>Under a policy of known tools and a known tier every row is sanitised.\<close>

lemma sanitized_row_total:
  assumes "known_tools (po_enabled (dm_security (da_manifest d)))" "tier \<in> set PRIVACY_TIERS"
    and "normalize_privacy_tier (Some tier) ''off'' = Inr tier"
  shows "\<exists>row' sec. sanitized_row E d tier row = Inr (row', sec) \<and> ds_floor_satisfied sec \<and> ds_tier sec = tier"
proof -
  have "set (requested_tools tier (policy_tools (da_manifest d))) \<subseteq> set CANONICAL_NAMES"
    using known_tool_names [OF assms(1), of tier] default_tool_names [OF assms(2)] by (simp add: policy_tools_def Let_def)
  from dataset_row_floor [OF assms(3) this, of "de_backends E" "de_cfg E" row]
  obtain row' sec where ok: "sanitized_row E d tier row = Inr (row', sec)" "ds_floor_satisfied sec"
    by (auto simp: sanitized_row_def)
  have "ds_tier sec = tier"
    using ok(1) [unfolded sanitized_row_def] assms(3) by (elim sanitize_parts) simp
  with ok show ?thesis by blast
qed

section \<open>Appending a row without texts\<close>

lemma resolved_tier_known: "resolved_privacy_tier m tier = Inr t \<Longrightarrow> t \<in> set PRIVACY_TIERS \<and> normalize_privacy_tier (Some t) ''off'' = Inr t"
proof -
  assume t: "resolved_privacy_tier m tier = Inr t"
  have "''off'' \<in> set PRIVACY_TIERS" "''medium'' \<in> set PRIVACY_TIERS" by (simp_all add: PRIVACY_TIERS_def)
  then have known: "t \<in> set PRIVACY_TIERS"
    using t by (auto simp: resolved_privacy_tier_def normalize_privacy_tier_def Let_def split: option.splits if_splits)
  have "list_all (\<lambda>t. strip t \<noteq> [] \<and> replace_char (CHR ''_'') ''-'' (lower (strip t)) = t) PRIVACY_TIERS" by code_simp
  then show ?thesis using known by (simp add: normalize_privacy_tier_def list_all_iff Let_def)
qed

lemma append_one:
  assumes "known_tools (po_enabled (dm_security (da_manifest d)))" "resolved_privacy_tier (da_manifest d) tier = Inr t"
    and "text_free (JObj row)" "validate_row (de_repr E) (da_row_schema d) row = Inr []" "aa_allowed A = None" "\<not> aa_dry_run A"
    and "identity_of E (da_manifest d) row \<notin> set (ar_seen st)"
  obtains sec where "append_rows_loop E d (A\<lparr>aa_tier := t\<rparr>) i [row] st =
      Inr (add_row E d (A\<lparr>aa_tier := t\<rparr>) (identity_of E (da_manifest d) row) row sec st)"
proof -
  obtain row' sec where s: "sanitized_row E d t row = Inr (row', sec)"
    using sanitized_row_total [OF assms(1)] resolved_tier_known [OF assms(2)] by blast
  then have "row' = row" using sanitize_text_free [OF assms(3)] by (simp add: sanitized_row_def)
  with s show thesis
    using assms(4-7) by (intro that [of sec]) (simp add: append_row_def facet_rejects_def identity_of_def Let_def)
qed

lemma append_rows_reads:
  assumes "append_rows_loop E d (A\<lparr>aa_tier := t\<rparr>) 1 new (initial_run d) = Inr st" "resolved_privacy_tier (da_manifest d) tier = Inr t"
    and "ar_rows st \<noteq> []"
  shows "read_rows_by_id E (commit_rows E st d) = Inr m \<Longrightarrow> \<exists>S. append_rows E A tier new d = Inr ((commit_rows E st d)\<lparr>da_state := S\<rparr>, st)"
    and "read_rows_by_id E (commit_rows E st d) = Inl e \<Longrightarrow> append_rows E A tier new d = Inl (e, commit_rows E st d)"
proof -
  have "normalize_privacy_tier (Some t) ''off'' = Inr t" using resolved_tier_known [OF assms(2)] by simp
  then show "read_rows_by_id E (commit_rows E st d) = Inr m \<Longrightarrow> \<exists>S. append_rows E A tier new d = Inr ((commit_rows E st d)\<lparr>da_state := S\<rparr>, st)"
    using assms by (simp add: append_rows_def evaluate_publication_state_def Let_def) (rule exI, rule refl)
  show "read_rows_by_id E (commit_rows E st d) = Inl e \<Longrightarrow> append_rows E A tier new d = Inl (e, commit_rows E st d)"
    using assms by (simp add: append_rows_def evaluate_publication_state_def Let_def)
qed

lemma add_row_rows: "ar_rows (add_row E d A i row sec st) = ar_rows st @ [row]"
  by (simp add: add_row_def Let_def)

lemma append_succeeds:
  assumes "rows_stored E d rows" "plain_floats (dg_float (de_digest E))" "known_tools (po_enabled (dm_security (da_manifest d)))"
    and "resolved_privacy_tier (da_manifest d) tier = Inr t" "text_free (JObj row)"
    and "validate_row (de_repr E) (da_row_schema d) row = Inr []" "aa_allowed A = None" "\<not> aa_dry_run A"
    and "next_line_free (JObj row)" "decodes E (rows @ [row])" "distinct (map (id_of_row E (da_manifest d)) (rows @ [row]))"
  obtains d' st where "append_rows E A tier [row] d = Inr (d', st)" "ar_rows st = [row]"
proof -
  let ?m = "da_manifest d"
  have "identity_of E ?m row \<notin> set (ar_seen (initial_run d))"
    using assms(1,11) place_identities [of "da_index d" E ?m 1 rows] by (auto simp: initial_run_def rows_stored_def id_of_row_def)
  from append_one [OF assms(3-8) this, of 1] obtain sec where
    loop: "append_rows_loop E d (A\<lparr>aa_tier := t\<rparr>) 1 [row] (initial_run d) =
      Inr (add_row E d (A\<lparr>aa_tier := t\<rparr>) (identity_of E ?m row) row sec (initial_run d))" .
  let ?st = "add_row E d (A\<lparr>aa_tier := t\<rparr>) (identity_of E ?m row) row sec (initial_run d)"
  have rows: "ar_rows ?st = [row]" by (simp add: add_row_rows initial_run_def)
  have "run_ok E d (length rows) (map ie_identity (da_index d)) ?st"
    by (rule append_loop_ok [OF loop _ initial_run_ok [OF assms(1,2)]]) (use assms(8) in simp)
  then have stored: "rows_stored E (commit_rows E ?st d) (rows @ [row])"
    using commit_stored [OF assms(1), of ?st, unfolded rows] assms(9) by simp
  have "da_manifest (commit_rows E ?st d) = ?m" by (simp add: commit_rows_def)
  then have "\<exists>m. read_rows_by_id E (commit_rows E ?st d) = Inr m"
    using read_stored [OF stored assms(2,10)] assms(11) by simp
  then show thesis using append_rows_reads(1) [OF loop assms(4)] rows that by (metis list.distinct(1))
qed

definition sample_policy :: security_policy where
  "sample_policy = \<lparr>po_source = ''default'', po_workflow_digest = None, po_required = [], po_optional = [], po_enabled = [],
     po_disallowed = [], po_allow_disable = False, po_overrides = []\<rparr>"

definition sample_manifest :: dataset_manifest where
  "sample_manifest = \<lparr>dm_name = ''demo'', dm_schema_path = ''schemas/row.schema.json'', dm_schema_version = ''1.0.0'',
     dm_schema_digest = None, dm_workflow = \<lparr>wf_skill = ''w'', wf_digest = ''sha256:0'', wf_config = []\<rparr>,
     dm_identity = \<lparr>id_mode = ''payload_hash'', id_fields = []\<rparr>, dm_remotes = [], dm_active = None, dm_review = ''auto'',
     dm_security = sample_policy\<rparr>"

definition sample_dataset :: dataset where
  "sample_dataset = \<lparr>da_manifest = sample_manifest, da_row_schema = [], da_files = [(TRAIN_FILE, [])], da_index = [], da_provenance = [],
     da_source = JNull, da_state = [], da_publications = []\<rparr>"

definition sample_row :: "(string, json) dict" where
  "sample_row = [(''n'', JInt 3)]"

definition sample_dataset_env :: dataset_env where
  "sample_dataset_env = \<lparr>de_digest = \<lparr>dg_float = (\<lambda>_. ''0.0''), dg_sha = (\<lambda>s. s)\<rparr>,
     de_loads = (\<lambda>s. if s = [CHR ''{'', CHR 34, CHR ''n'', CHR 34, CHR '':'', CHR ''3'', CHR ''}''] then Some (JObj sample_row) else None),
     de_repr = (\<lambda>_. []), de_now = ''2026-01-01T00:00:00Z'', de_backends = sample_backends, de_cfg = sample_security_cfg,
     de_answers = (\<lambda>_. JNull), de_record_ref = (\<lambda>_. JNull)\<rparr>"

definition sample_args :: append_args where
  "sample_args = \<lparr>aa_run_id = ''run_1'', aa_dry_run = False, aa_tier = [], aa_run = [], aa_freshness = [], aa_allowed = None\<rparr>"

lemma sample_floats: "plain_floats (dg_float (de_digest sample_dataset_env))"
  by (simp add: plain_floats_def sample_dataset_env_def is_break_def ord_of_def)

lemma sample_stored: "rows_stored sample_dataset_env sample_dataset []"
  by (simp add: rows_stored_def sample_dataset_def file_text_def rows_text_def)

lemma sample_decodes: "decodes sample_dataset_env [sample_row]"
proof -
  have "de_loads sample_dataset_env (row_text sample_dataset_env (JObj sample_row)) = Some (canon (JObj sample_row))" by code_simp
  then show ?thesis by (simp add: decodes_def)
qed

lemma sample_tier: "resolved_privacy_tier (da_manifest sample_dataset) None = Inr ''off''"
  by code_simp

lemma sample_append:
  obtains d' st where "append_rows sample_dataset_env sample_args None [sample_row] sample_dataset = Inr (d', st)" "ar_rows st = [sample_row]"
proof -
  have "validate_row (de_repr sample_dataset_env) (da_row_schema sample_dataset) sample_row = Inr []" by code_simp
  moreover have "known_tools (po_enabled (dm_security (da_manifest sample_dataset)))" by code_simp
  ultimately show thesis
    by (rule_tac append_succeeds [OF sample_stored sample_floats _ sample_tier, of sample_row sample_args])
      (use sample_decodes that in \<open>simp_all add: sample_row_def sample_args_def\<close>)
qed

theorem append_then_read_witness:
  "\<exists>d' st. append_rows sample_dataset_env sample_args None [sample_row] sample_dataset = Inr (d', st) \<and>
     rows_stored sample_dataset_env d' [sample_row] \<and>
     read_rows_by_id sample_dataset_env d' = Inr [(id_of_row sample_dataset_env sample_manifest sample_row, JObj sample_row)]"
proof -
  obtain d' st where a: "append_rows sample_dataset_env sample_args None [sample_row] sample_dataset = Inr (d', st)" "ar_rows st = [sample_row]"
    by (rule sample_append)
  have "list_all (\<lambda>row. next_line_free (JObj row)) (ar_rows st)" "decodes sample_dataset_env ([] @ ar_rows st)"
    using sample_decodes by (simp_all add: a(2) sample_row_def)
  from append_then_read [OF sample_stored sample_floats a(1) this] show ?thesis
    using a by (auto simp: sample_dataset_def sample_row_def)
qed

end
