(* ===== verification/PolicyProps.thy ===== *)
theory PolicyProps
  imports DatasetProps
begin

text \<open>
  The policy of a dataset stays coherent through every edit, and so do its remotes.
\<close>


section \<open>Edits of the security policy\<close>

lemma set_canonical_tools [simp]: "set (canonical_tools N) = N \<inter> set SECURITY_TOOL_ORDER"
  by (auto simp: canonical_tools_def)

lemma known_tools_iff: "known_tools ns \<longleftrightarrow> set ns \<subseteq> set SECURITY_TOOL_ORDER"
  by (auto simp: known_tools_def list_all_iff)

lemma apart_iff: "apart_lists xs ys \<longleftrightarrow> set xs \<inter> set ys = {}"
  by (auto simp: apart_lists_def list_all_iff)

lemma keys_iff: "k \<in> set (dkeys d) \<longleftrightarrow> dget d k \<noteq> None"
  using dmem_iff [of d k] by (simp add: dmem_def)

lemma keys_dset [simp]: "set (dkeys (dset d k v)) = insert k (set (dkeys d))"
  by (auto simp: set_eq_iff keys_iff)

lemma keys_dpop [simp]: "set (dkeys (dpop d k)) = set (dkeys d) - {k}"
  by (auto simp: set_eq_iff keys_iff)

text \<open>The sets an edit works on: the enabled tools and the tools with an override.\<close>

definition edit_ok :: "security_policy \<Rightarrow> edit_state \<Rightarrow> bool" where
  "edit_ok p st \<longleftrightarrow>
     set (fst st) \<subseteq> (set (po_required p) \<union> set (po_optional p)) - set (po_disallowed p) \<and>
     set (po_required p) \<subseteq> set (fst st) \<union> set (dkeys (snd st)) \<and>
     set (dkeys (snd st)) \<subseteq> set (po_required p) \<and> (set (dkeys (snd st)) = {} \<or> po_allow_disable p)"

lemma enable_keeps:
  "enable_tools p ts st = Inr st' \<Longrightarrow> edit_ok p st \<Longrightarrow>
    edit_ok p st' \<and> set (fst st') = set (fst st) \<union> set ts \<and> set (dkeys (snd st')) = set (dkeys (snd st)) - set ts"
proof (induction p ts st rule: enable_tools.induct)
  case (2 p t ts en ov)
  let ?st = "(if t \<in> set en then en else en @ [t], dpop ov t)"
  from "2.prems" have t: "\<not> (t \<in> set (po_disallowed p) \<or> \<not> in_contract p t)" "enable_tools p ts ?st = Inr st'" by (auto split: if_splits)
  have "edit_ok p ?st" using "2.prems"(2) t(1) by (auto simp: edit_ok_def in_contract_def)
  from "2.IH" [OF t this] show ?case by auto
qed simp

lemma disable_keeps:
  "disable_tools p unsafe reason ts st = Inr st' \<Longrightarrow> edit_ok p st \<Longrightarrow>
    edit_ok p st' \<and> set (fst st') = set (fst st) - set ts \<and>
    set (dkeys (snd st')) = set (dkeys (snd st)) \<union> (set ts \<inter> set (po_required p)) \<and>
    (set ts \<inter> set (po_required p) \<noteq> {} \<longrightarrow> po_allow_disable p \<and> unsafe)"
proof (induction p unsafe reason ts st rule: disable_tools.induct)
  case (2 p unsafe reason t ts en ov)
  let ?st = "(filter (\<lambda>n. n \<noteq> t) en, if t \<in> set (po_required p) then dset ov t reason else ov)"
  from "2.prems" have t: "\<not> \<not> in_contract p t" "\<not> (t \<in> set (po_required p) \<and> (\<not> po_allow_disable p \<or> \<not> unsafe))"
    "disable_tools p unsafe reason ts ?st = Inr st'" by (auto split: if_splits)
  have "edit_ok p ?st" using "2.prems"(2) t(1,2) by (auto simp: edit_ok_def in_contract_def)
  from "2.IH" [OF t this] t show ?case by auto
qed simp

lemma overrides_kept: "map fst (ordered_overrides ov) = filter (\<lambda>n. n \<in> set (dkeys ov)) SECURITY_TOOL_ORDER"
proof -
  have "map fst (concat (map (\<lambda>n. case dget ov n of None \<Rightarrow> [] | Some r \<Rightarrow> [(n, r)]) ns)) = filter (\<lambda>n. n \<in> set (dkeys ov)) ns" for ns
    by (induction ns) (auto simp: keys_iff split: option.splits)
  then show ?thesis by (simp add: ordered_overrides_def)
qed

lemma edit_ok_policy:
  assumes "policy_ok p" "edit_ok p st"
  shows "policy_ok (edited_policy p touched st)"
proof -
  have o: "set (overridden (edited_policy p touched st)) = set (dkeys (snd st)) \<inter> set SECURITY_TOOL_ORDER"
    by (auto simp: overridden_def edited_policy_def overrides_kept)
  have known: "set (po_required p) \<subseteq> set SECURITY_TOOL_ORDER" "set (po_optional p) \<subseteq> set SECURITY_TOOL_ORDER"
      "set (po_disallowed p) \<subseteq> set SECURITY_TOOL_ORDER" "set (po_required p) \<inter> set (po_disallowed p) = {}"
    using assms(1) by (simp_all add: policy_ok_def known_tools_iff apart_iff)
  have fields: "po_required (edited_policy p touched st) = po_required p" "po_optional (edited_policy p touched st) = po_optional p"
      "po_disallowed (edited_policy p touched st) = po_disallowed p" "po_allow_disable (edited_policy p touched st) = po_allow_disable p"
      "set (po_enabled (edited_policy p touched st)) = set (fst st) \<inter> set SECURITY_TOOL_ORDER"
    by (simp_all add: edited_policy_def)
  note st = assms(2) [unfolded edit_ok_def]
  have within: "set (fst st) \<inter> set SECURITY_TOOL_ORDER = set (fst st)" "set (dkeys (snd st)) \<inter> set SECURITY_TOOL_ORDER = set (dkeys (snd st))"
    using st known by blast+
  note sets = o [unfolded within] fields(5) [unfolded within]
  have "set (fst st) \<subseteq> set SECURITY_TOOL_ORDER" "set (dkeys (snd st)) \<subseteq> set SECURITY_TOOL_ORDER" using within by blast+
  moreover have "overridden (edited_policy p touched st) = [] \<or> po_allow_disable p" using st sets(1) by fastforce
  moreover have "\<forall>n\<in>set (fst st). n \<in> set (po_required p) \<union> set (po_optional p)" "set (fst st) \<inter> set (po_disallowed p) = {}"
    "\<forall>n\<in>set (po_required p). n \<in> set (fst st) \<union> set (dkeys (snd st))" "\<forall>n\<in>set (dkeys (snd st)). n \<in> set (po_required p)"
    using st by blast+
  ultimately show ?thesis using known by (simp add: policy_ok_def known_tools_iff apart_iff list_all_iff fields(1-4) sets)
qed

text \<open>
  C22. Editing the security policy of a dataset. From a coherent policy an accepted edit gives a coherent one, with the
  contract of the workflow untouched; the enabled tools are the old ones, the enabled, less the disabled. A tool the workflow
  requires is off afterwards only under a recorded override, which the workflow allows; an edit that turns one
  off was marked unsafe.
\<close>

theorem security_edit_coherent:
  assumes "apply_dataset_security_edit p enable disable unsafe reason = Inr (q, added, removed)" "policy_ok p"
  shows "policy_ok q \<and> po_required q = po_required p \<and> po_disallowed q = po_disallowed p \<and>
    set (po_enabled q) = (set (po_enabled p) \<union> (set enable - {[]})) - (set disable - {[]}) \<and>
    set added = set (po_enabled q) - set (po_enabled p) \<and> set removed = set (po_enabled p) - set (po_enabled q) \<and>
    (\<forall>t\<in>set (po_required p) - set (po_enabled q). po_allow_disable p \<and> t \<in> set (overridden q)) \<and>
    (set removed \<inter> set (po_required p) \<noteq> {} \<longrightarrow> unsafe)"
proof -
  let ?en = "nonempty_names enable" and ?dis = "nonempty_names disable"
  let ?st0 = "(po_enabled p, fold (\<lambda>(n, r) d. dset d n r) (po_overrides p) [])"
  obtain st st' where apart: "\<not> list_ex (\<lambda>n. n \<in> set ?dis) ?en"
    and st: "enable_tools p ?en ?st0 = Inr st" "disable_tools p unsafe reason ?dis st = Inr st'"
    and q: "q = edited_policy p (?en \<noteq> [] \<or> ?dis \<noteq> []) st'" "added = canonical_tools (set (po_enabled q) - set (po_enabled p))"
      "removed = canonical_tools (set (po_enabled p) - set (po_enabled q))"
    using assms(1) by (auto simp: apply_dataset_security_edit_def Let_def split: if_splits sum.splits)
  have fold: "set (dkeys (fold (\<lambda>(n, r) d. dset d n r) os d)) = set (dkeys d) \<union> fst ` set os" for os and d :: "(string, string option) dict"
    by (induction os arbitrary: d) auto
  have names: "set (nonempty_names ns) = set ns - {[]}" for ns by (auto simp: nonempty_names_def dedupe_distinct)
  note p = assms(2) [unfolded policy_ok_def known_tools_iff apart_iff list_all_iff overridden_def]
  have keys: "set (dkeys (snd ?st0)) = fst ` set (po_overrides p)" using fold [of "po_overrides p" "[]"] by (simp add: dkeys_def)
  have "edit_ok p ?st0" using p unfolding edit_ok_def keys by auto
  note en = enable_keeps [OF st(1) this]
  note dis = disable_keeps [OF st(2) conjunct1 [OF en]]
  have ok: "policy_ok q" unfolding q(1) by (rule edit_ok_policy [OF assms(2) conjunct1 [OF dis]])
  have sub: "set (fst st') \<subseteq> set SECURITY_TOOL_ORDER" "set (po_enabled p) \<subseteq> set SECURITY_TOOL_ORDER"
    using dis p unfolding edit_ok_def by auto
  have enabled: "set (po_enabled q) = set (fst st')" using sub by (auto simp: q(1) edited_policy_def)
  have same: "po_required q = po_required p" "po_disallowed q = po_disallowed p" "po_allow_disable q = po_allow_disable p"
    by (simp_all add: q(1) edited_policy_def)
  have set_q: "set (po_enabled q) = (set (po_enabled p) \<union> (set enable - {[]})) - (set disable - {[]})"
    using en dis unfolding enabled names by auto
  have changes: "set added = set (po_enabled q) - set (po_enabled p)" "set removed = set (po_enabled p) - set (po_enabled q)"
    using sub unfolding q(2,3) enabled by auto
  have req: "\<forall>t\<in>set (po_required q). t \<in> set (po_enabled q) \<or> t \<in> set (overridden q)" "overridden q = [] \<or> po_allow_disable q"
    using ok by (simp_all add: policy_ok_def list_all_iff)
  have "unsafe" if "t \<in> set removed" "t \<in> set (po_required p)" for t
    using that changes set_q dis unfolding names by auto
  then have risky: "set removed \<inter> set (po_required p) \<noteq> {} \<longrightarrow> unsafe" by blast
  have off: "\<forall>t\<in>set (po_required p) - set (po_enabled q). po_allow_disable p \<and> t \<in> set (overridden q)"
    using req unfolding same by fastforce
  show ?thesis by (intro conjI ok same(1,2) set_q changes off risky)
qed

definition edit_sample :: security_policy where
  "edit_sample = sample_policy\<lparr>po_required := [''regex'', ''entropy''], po_optional := [''llm_pii''], po_enabled := [''regex'', ''entropy''],
     po_allow_disable := True\<rparr>"

theorem security_edit_coherent_witness:
  "\<exists>q added removed. apply_dataset_security_edit edit_sample [''llm_pii''] [''entropy''] True (Some ''slow'') = Inr (q, added, removed) \<and>
     policy_ok q \<and> po_enabled q = [''regex'', ''llm_pii''] \<and> removed = [''entropy''] \<and> overridden q = [''entropy'']"
proof -
  have run: "case apply_dataset_security_edit edit_sample [''llm_pii''] [''entropy''] True (Some ''slow'') of
      Inr (q, a, r) \<Rightarrow> po_enabled q = [''regex'', ''llm_pii''] \<and> r = [''entropy''] \<and> overridden q = [''entropy''] | _ \<Rightarrow> False"
    by code_simp
  have "policy_ok edit_sample" by code_simp
  with run security_edit_coherent [of edit_sample] show ?thesis by (fastforce split: sum.splits)
qed

section \<open>Edits of the remotes\<close>

text \<open>
  The remotes of a dataset. Adding a remote, changing its visibility and removing it keep the manifest coherent: the
  active remote, when there is one, is an entry of the table. A remote that was added is resolved by its name, and
  a removed one no longer; none of the three touches the security policy or the identity.
\<close>

theorem remote_edits_coherent:
  assumes "manifest_ok m"
  shows "(\<forall>repo v a m'. add_dataset_remote m repo v a = Inr m' \<longrightarrow>
            manifest_ok m' \<and> resolve_dataset_remote_name m' (Some repo) = Inr repo \<and> dm_security m' = dm_security m) \<and>
         (\<forall>n v m'. set_dataset_remote_visibility m n v = Inr m' \<longrightarrow> manifest_ok m' \<and> dm_active m' = dm_active m \<and> dm_security m' = dm_security m) \<and>
         (\<forall>n m'. remove_dataset_remote m n = Inr m' \<longrightarrow>
            (\<exists>r. resolve_dataset_remote_name m n = Inr r \<and> dm_remotes m' = dpop (dm_remotes m) r \<and> dm_active m' \<noteq> Some r) \<and>
            manifest_ok m' \<and> dm_security m' = dm_security m)"
proof (intro conjI allI impI)
  fix repo v a m'
  assume h: "add_dataset_remote m repo v a = Inr m'"
  have "dset d k v \<noteq> []" for d :: "(string, dataset_remote) dict" and k v by (metis dget_Nil dget_dset option.distinct(1))
  then show "manifest_ok m'" "resolve_dataset_remote_name m' (Some repo) = Inr repo" "dm_security m' = dm_security m"
    using assms h by (auto simp: add_dataset_remote_def manifest_ok_def resolve_dataset_remote_name_def dmem_def Let_def split: if_splits option.splits)
next
  fix n v m'
  assume h: "set_dataset_remote_visibility m n v = Inr m'"
  show "manifest_ok m'" "dm_active m' = dm_active m" "dm_security m' = dm_security m"
    using assms h by (auto simp: set_dataset_remote_visibility_def manifest_ok_def dmem_def split: sum.splits option.splits if_splits)
next
  fix n m'
  assume h: "remove_dataset_remote m n = Inr m'"
  obtain r R where r: "resolve_dataset_remote_name m n = Inr r" "dget (dm_remotes m) r = Some R"
    and m': "m' = m\<lparr>dm_remotes := dpop (dm_remotes m) r,
      dm_active := (if dm_active m = Some r then (case dpop (dm_remotes m) r of [] \<Rightarrow> None | (k, _) # _ \<Rightarrow> Some k) else dm_active m)\<rparr>"
    using h by (auto simp: remove_dataset_remote_def Let_def split: sum.splits option.splits)
  have head: "k \<noteq> r \<and> dget (dm_remotes m) k \<noteq> None" if "dpop (dm_remotes m) r = (k, x) # d" for k x d
  proof -
    have "dget (dpop (dm_remotes m) r) k = Some x" by (simp add: that)
    then show ?thesis by (simp split: if_splits)
  qed
  have only: "dget (dm_remotes m) k = None" if "dpop (dm_remotes m) r = []" "k \<noteq> r" for k
  proof -
    have "dget (dpop (dm_remotes m) r) k = None" by (simp add: that)
    then show ?thesis using that(2) by simp
  qed
  show "\<exists>r. resolve_dataset_remote_name m n = Inr r \<and> dm_remotes m' = dpop (dm_remotes m) r \<and> dm_active m' \<noteq> Some r"
    using r(1) head by (auto simp: m' split: list.splits)
  show "manifest_ok m'" "dm_security m' = dm_security m"
    using assms head only by (auto simp: m' manifest_ok_def dmem_def split: list.splits option.splits if_splits)
qed

theorem remote_edits_coherent_witness:
  "case add_dataset_remote sample_manifest ''o/r'' ''private'' False of
     Inr m \<Rightarrow> manifest_ok m \<and> dm_active m = Some ''o/r'' \<and> (\<exists>m'. remove_dataset_remote m None = Inr m' \<and> manifest_ok m' \<and> dm_active m' = None)
   | Inl _ \<Rightarrow> False"
proof -
  have run: "case add_dataset_remote sample_manifest ''o/r'' ''private'' False of
      Inr m \<Rightarrow> dm_active m = Some ''o/r'' \<and> (case remove_dataset_remote m None of Inr m' \<Rightarrow> dm_active m' = None | _ \<Rightarrow> False) | _ \<Rightarrow> False"
    by code_simp
  then obtain m m' where m: "add_dataset_remote sample_manifest ''o/r'' ''private'' False = Inr m" "dm_active m = Some ''o/r''"
    "remove_dataset_remote m None = Inr m'" "dm_active m' = None" by (auto split: sum.splits)
  have "policy_ok sample_policy" by code_simp
  then have "manifest_ok sample_manifest" by (simp add: manifest_ok_def sample_manifest_def identity_ok_def)
  then have ok: "manifest_ok m" using conjunct1 [OF remote_edits_coherent] m(1) by blast
  have "manifest_ok m'" using conjunct2 [OF conjunct2 [OF remote_edits_coherent [OF ok]]] m(3) by blast
  with ok m show ?thesis by simp
qed

end
