(* ===== verification/DatasetIndexProps.thy ===== *)
theory DatasetIndexProps
  imports DatasetProps
begin

text \<open>
  The index of a dataset beyond a single append: the projection without a write, the rebuild from the files,
  and what two appends do to each other.
\<close>

section \<open>The projection without a write\<close>

lemma reproduce_error:
  assumes "aa_allowed A = None" "\<not> aa_dry_run A"
  shows "reproduce_loop E d (aa_tier A) rows (ar_seen st) = Inl e \<Longrightarrow> append_rows_loop E d A i rows st = Inl e"
proof (induction rows arbitrary: i st)
  case (Cons row0 rows)
  have seen: "ar_seen (add_row E d A ident row sec st) = ar_seen st @ [ident]" for ident row sec by (simp add: add_row_def Let_def)
  show ?case
  proof (cases "append_row E d A i row0 st")
    case (Inr st')
    have "reproduce_loop E d (aa_tier A) rows (ar_seen st') = Inl e"
      using Cons.prems Inr assms
      by (auto simp: append_row_def facet_rejects_def seen Let_def split: sum.splits prod.splits if_splits)
    then show ?thesis using Cons.IH Inr by simp
  next
    case (Inl e')
    then show ?thesis using Cons.prems assms
      by (auto simp: append_row_def facet_rejects_def Let_def split: sum.splits prod.splits if_splits)
  qed
qed simp

lemma reproduce_append:
  assumes "aa_allowed A = None" "\<not> aa_dry_run A"
  shows "append_rows_loop E d A i rows st = Inr st' \<Longrightarrow> \<exists>new. ar_rows st' = ar_rows st @ new \<and>
     reproduce_loop E d (aa_tier A) rows (ar_seen st) = Inr (map (\<lambda>row. row_text E (JObj row)) new)"
proof (induction rows arbitrary: i st)
  case (Cons row0 rows)
  then obtain st1 where st1: "append_row E d A i row0 st = Inr st1" "append_rows_loop E d A (i + 1) rows st1 = Inr st'"
    by (auto split: sum.splits)
  obtain new where new: "ar_rows st' = ar_rows st1 @ new"
    "reproduce_loop E d (aa_tier A) rows (ar_seen st1) = Inr (map (\<lambda>row. row_text E (JObj row)) new)"
    using Cons.IH [OF st1(2)] by blast
  obtain row sec where s: "sanitized_row E d (aa_tier A) row0 = Inr (row, sec)"
    using st1(1) assms by (auto simp: append_row_def facet_rejects_def split: sum.splits prod.splits)
  obtain es where es: "validate_row (de_repr E) (da_row_schema d) row = Inr es"
    using st1(1) assms by (auto simp: append_row_def facet_rejects_def s split: sum.splits)
  let ?i = "row_identity_hash (de_digest E) (dm_identity (da_manifest d)) row"
  show ?case
  proof (cases "es = [] \<and> ?i \<notin> set (ar_seen st)")
    case True
    then have "st1 = add_row E d A ?i row sec st" using st1(1) assms by (simp add: append_row_def facet_rejects_def s es Let_def)
    then have "ar_rows st1 = ar_rows st @ [row]" "ar_seen st1 = ar_seen st @ [?i]" by (simp_all add: add_row_def Let_def)
    then show ?thesis using new True by (intro exI [of _ "row # new"]) (simp add: s es Let_def)
  next
    case False
    then have "ar_rows st1 = ar_rows st" "ar_seen st1 = ar_seen st"
      using st1(1) assms by (auto simp: append_row_def facet_rejects_def s es Let_def split: if_splits)
    then show ?thesis using new False by (intro exI [of _ new]) (auto simp: s es Let_def)
  qed
qed simp

text \<open>
  C23. The projection without a write is the append: on a dataset without rows, whatever raw rows a run
  emits, projecting them fails as the append would, which then leaves the dataset as it was, and when the append succeeds the projected lines are,
  byte for byte, the lines it added to the file.
\<close>

theorem reproduce_exact:
  assumes "da_index d = []" "aa_allowed A = None" "\<not> aa_dry_run A"
  shows "(\<forall>e. reproduce_train_lines E d tier rows = Inl e \<longrightarrow> append_rows E A tier rows d = Inl (e, d)) \<and>
    (\<forall>d' st. append_rows E A tier rows d = Inr (d', st) \<longrightarrow>
      (\<exists>lines. reproduce_train_lines E d tier rows = Inr lines \<and> length lines = length (ar_rows st) \<and>
         file_text d' TRAIN_FILE = file_text d TRAIN_FILE @ lines_text lines))"
proof (cases "resolved_privacy_tier (da_manifest d) tier")
  case (Inl e)
  then show ?thesis by (simp add: reproduce_train_lines_def append_rows_def)
next
  case (Inr t)
  let ?A = "A\<lparr>aa_tier := t\<rparr>"
  have start: "ar_seen (initial_run d) = []" "ar_rows (initial_run d) = []" using assms(1) by (simp_all add: initial_run_def)
  have err: "append_rows E A tier rows d = Inl (e, d)" if "reproduce_train_lines E d tier rows = Inl e" for e
    using reproduce_error [of ?A E d rows "initial_run d" e 1] that assms(2,3)
    by (simp add: reproduce_train_lines_def append_rows_def Inr start)
  have ok: "\<exists>lines. reproduce_train_lines E d tier rows = Inr lines \<and> length lines = length (ar_rows st) \<and>
         file_text d' TRAIN_FILE = file_text d TRAIN_FILE @ lines_text lines"
    if run: "append_rows E A tier rows d = Inr (d', st)" for d' st
  proof -
    have st: "append_rows_loop E d ?A 1 rows (initial_run d) = Inr st"
      and d': "ar_rows st = [] \<and> d' = d \<or> (\<exists>S. d' = (commit_rows E st d)\<lparr>da_state := S\<rparr>)"
      using run by (auto simp: append_rows_def Inr Let_def split: sum.splits if_splits)
    from reproduce_append [OF _ _ st] assms(2,3)
    have lines: "reproduce_train_lines E d tier rows = Inr (map (\<lambda>row. row_text E (JObj row)) (ar_rows st))"
      by (auto simp: reproduce_train_lines_def Inr start)
    from d' have "file_text d' TRAIN_FILE = file_text d TRAIN_FILE @ rows_text E (ar_rows st)"
      by (auto simp: commit_rows_def file_text_def rows_text_def)
    with lines show ?thesis by (simp add: rows_lines)
  qed
  from err ok show ?thesis by blast
qed

theorem reproduce_exact_witness:
  "\<exists>d' st. append_rows sample_dataset_env sample_args None [sample_row] sample_dataset = Inr (d', st) \<and> ar_rows st = [sample_row] \<and>
     (\<exists>lines. reproduce_train_lines sample_dataset_env sample_dataset None [sample_row] = Inr lines \<and> length lines = 1 \<and>
        file_text d' TRAIN_FILE = lines_text lines)"
proof -
  obtain d' st where a: "append_rows sample_dataset_env sample_args None [sample_row] sample_dataset = Inr (d', st)" "ar_rows st = [sample_row]"
    by (rule sample_append)
  have "da_index sample_dataset = []" "aa_allowed sample_args = None" "\<not> aa_dry_run sample_args" "file_text sample_dataset TRAIN_FILE = []"
    by (simp_all add: sample_dataset_def sample_args_def file_text_def)
  with reproduce_exact [of sample_dataset sample_args sample_dataset_env None "[sample_row]"] a show ?thesis by auto
qed

section \<open>Two appends\<close>

lemma read_entries_append:
  "read_entries E d (xs @ ys) acc = (case read_entries E d xs acc of Inl e \<Rightarrow> Inl e | Inr m \<Rightarrow> read_entries E d ys m)"
  by (induction xs arbitrary: acc) (auto split: sum.splits)

text \<open>
  C34. Appends must not overlap: the lines and the known identities are read before the append lock is taken.
  When two appends prepare on the same store and then commit one after the other, the index gives the row
  of the second the line of the first, and reading the id of the second returns the content of the first.
\<close>

theorem overlapping_appends_misread:
  assumes "rows_stored E d rows" "plain_floats (dg_float (de_digest E))" "\<not> aa_dry_run A" "\<not> aa_dry_run A'"
    and "append_rows_loop E d A 1 new (initial_run d) = Inr st" "append_rows_loop E d A' 1 new' (initial_run d) = Inr st'"
    and "ar_rows st = [row]" "ar_rows st' = [row']" "list_all (\<lambda>r. next_line_free (JObj r)) [row, row']"
    and "decodes E (rows @ [row])" "distinct (map (id_of_row E (da_manifest d)) (rows @ [row, row']))"
  shows "\<exists>kept. read_rows_by_id E (commit_rows E st' (commit_rows E st d)) =
    Inr (kept @ [(id_of_row E (da_manifest d) row', canon (JObj row))])"
proof -
  let ?m = "da_manifest d"
  let ?d1 = "commit_rows E st d" and ?d2 = "commit_rows E st' (commit_rows E st d)"
  have run: "run_ok E d (length rows) (map ie_identity (da_index d)) st" "run_ok E d (length rows) (map ie_identity (da_index d)) st'"
    using append_loop_ok [OF assms(5,3) initial_run_ok [OF assms(1,2)]] append_loop_ok [OF assms(6,4) initial_run_ok [OF assms(1,2)]] by auto
  have stored: "rows_stored E ?d1 (rows @ [row])"
    using commit_stored [OF assms(1) run(1)] assms(7,9) by simp
  have content: "file_text ?d2 TRAIN_FILE = rows_text E (rows @ [row] @ [row'])"
    using stored assms(8) by (simp add: rows_stored_def commit_rows_def file_text_def rows_text_def)
  have free: "list_all (\<lambda>r. next_line_free (JObj r)) (rows @ [row] @ [row'])" using assms(1,9) by (simp add: rows_stored_def)
  have lines: "splitlines (file_text ?d2 TRAIN_FILE) = map (\<lambda>r. row_text E (JObj r)) ([] @ (rows @ [row]) @ [row'])"
    by (simp only: content append_Nil append_assoc rows_splitlines [OF assms(2) free])
  have idx: "da_index ?d2 = da_index ?d1 @ ar_entries st'" by (simp add: commit_rows_def)
  have places: "map place (da_index ?d1) = places E ?m (Suc (length [])) (rows @ [row])" using stored by (simp add: rows_stored_def commit_rows_def)
  obtain e where e: "ar_entries st' = [e]" "ie_row_id e = id_of_row E ?m row'" "ie_file e = TRAIN_FILE" "ie_line e = Suc (length rows)"
    using run(2) assms(8) by (auto simp: run_ok_def place_def map_eq_Cons_conv)
  let ?kept = "map (\<lambda>r. (id_of_row E ?m r, canon (JObj r))) (rows @ [row])"
  have "read_entries E ?d2 (da_index ?d1) [] = Inr ([] @ ?kept)"
    by (rule read_places [OF lines assms(10) places]) (use assms(11) in \<open>auto simp: dkeys_def\<close>)
  moreover have "dget (da_files ?d2) TRAIN_FILE = Some (file_text ?d2 TRAIN_FILE)" by (simp add: commit_rows_def file_text_def)
  then have "read_entry E ?d2 e ?kept = Inr (dset ?kept (id_of_row E ?m row') (canon (JObj row)))"
    using assms(10) by (simp add: read_entry_def e lines nth_append row_not_blank decodes_def Let_def)
  moreover have "dset ?kept (id_of_row E ?m row') (canon (JObj row)) = ?kept @ [(id_of_row E ?m row', canon (JObj row))]"
    using assms(11) by (intro dset_at_end) (auto simp: dkeys_def)
  ultimately have "read_rows_by_id E ?d2 = Inr (?kept @ [(id_of_row E ?m row', canon (JObj row))])"
    unfolding read_rows_by_id_def idx e(1) read_entries_append by simp
  then show ?thesis by blast
qed

definition other_row :: "(string, json) dict" where
  "other_row = [(''n'', JInt 4)]"

theorem overlapping_appends_misread_witness:
  "\<exists>st st'. append_rows_loop sample_dataset_env sample_dataset (sample_args\<lparr>aa_tier := ''off''\<rparr>) 1 [sample_row] (initial_run sample_dataset) = Inr st \<and>
     append_rows_loop sample_dataset_env sample_dataset (sample_args\<lparr>aa_tier := ''off''\<rparr>) 1 [other_row] (initial_run sample_dataset) = Inr st' \<and>
     (\<exists>kept. read_rows_by_id sample_dataset_env (commit_rows sample_dataset_env st' (commit_rows sample_dataset_env st sample_dataset)) =
        Inr (kept @ [(id_of_row sample_dataset_env sample_manifest other_row, JObj sample_row)]))"
proof -
  let ?E = sample_dataset_env and ?d = sample_dataset
  have known: "known_tools (po_enabled (dm_security (da_manifest ?d)))" by code_simp
  have wet: "aa_allowed sample_args = None" "\<not> aa_dry_run sample_args" by (simp_all add: sample_args_def)
  have new: "i \<notin> set (ar_seen (initial_run ?d))" for i by (simp add: initial_run_def sample_dataset_def)
  have valid: "validate_row (de_repr ?E) (da_row_schema ?d) sample_row = Inr []" "validate_row (de_repr ?E) (da_row_schema ?d) other_row = Inr []"
    by code_simp+
  have free: "text_free (JObj sample_row)" "text_free (JObj other_row)" by (simp_all add: sample_row_def other_row_def)
  obtain sec where a: "append_rows_loop ?E ?d (sample_args\<lparr>aa_tier := ''off''\<rparr>) 1 [sample_row] (initial_run ?d) =
      Inr (add_row ?E ?d (sample_args\<lparr>aa_tier := ''off''\<rparr>) (identity_of ?E (da_manifest ?d) sample_row) sample_row sec (initial_run ?d))"
    by (rule append_one [OF known sample_tier free(1) valid(1) wet new])
  obtain sec' where b: "append_rows_loop ?E ?d (sample_args\<lparr>aa_tier := ''off''\<rparr>) 1 [other_row] (initial_run ?d) =
      Inr (add_row ?E ?d (sample_args\<lparr>aa_tier := ''off''\<rparr>) (identity_of ?E (da_manifest ?d) other_row) other_row sec' (initial_run ?d))"
    by (rule append_one [OF known sample_tier free(2) valid(2) wet new])
  have ids: "distinct (map (id_of_row ?E (da_manifest ?d)) ([] @ [sample_row, other_row]))" by code_simp
  have "\<exists>kept. read_rows_by_id ?E (commit_rows ?E (add_row ?E ?d (sample_args\<lparr>aa_tier := ''off''\<rparr>) (identity_of ?E (da_manifest ?d) other_row) other_row sec' (initial_run ?d))
      (commit_rows ?E (add_row ?E ?d (sample_args\<lparr>aa_tier := ''off''\<rparr>) (identity_of ?E (da_manifest ?d) sample_row) sample_row sec (initial_run ?d)) ?d)) =
      Inr (kept @ [(id_of_row ?E (da_manifest ?d) other_row, canon (JObj sample_row))])"
    by (rule overlapping_appends_misread [OF sample_stored sample_floats _ _ a b _ _ _ _ ids])
      (use sample_decodes in \<open>simp_all add: add_row_rows initial_run_def wet, simp_all add: sample_row_def other_row_def\<close>)
  then show ?thesis using a b by (auto simp: sample_dataset_def) (auto simp: sample_row_def)
qed

section \<open>A text that breaks the line\<close>

definition broken_row :: "(string, json) dict" where
  "broken_row = [(CHR ''a'' # CHR 133 # ''b'', JInt 3)]"

text \<open>
  The next-line character is written raw and read as the end of a line: appending a row with it to a
  dataset without rows, under any policy of known tools and any known tier, raises \<^verbatim>\<open>ValueError\<close> from the
  reading that follows the write, as soon as the decoder rejects the unfinished text before the character: the file is
  left with the row, and its rows cannot be read any more.
\<close>

theorem next_line_breaks_append:
  assumes "da_index d = []" "file_text d TRAIN_FILE = []" "plain_floats (dg_float (de_digest E))"
    and "known_tools (po_enabled (dm_security (da_manifest d)))" "resolved_privacy_tier (da_manifest d) tier = Inr t"
    and "validate_row (de_repr E) (da_row_schema d) broken_row = Inr []" "aa_allowed A = None" "\<not> aa_dry_run A"
    and "de_loads E [CHR ''{'', CHR 34, CHR ''a''] = None"
  shows "\<exists>d'. append_rows E A tier [broken_row] d = Inl (ValueError, d') \<and>
    file_text d' TRAIN_FILE = rows_text E [broken_row] \<and> read_rows_by_id E d' = Inl ValueError"
proof -
  have new: "identity_of E (da_manifest d) broken_row \<notin> set (ar_seen (initial_run d))" using assms(1) by (simp add: initial_run_def)
  have "text_free (JObj broken_row)" by (simp add: broken_row_def)
  from append_one [OF assms(4,5) this assms(6-8) new, of 1] obtain sec where
    loop: "append_rows_loop E d (A\<lparr>aa_tier := t\<rparr>) 1 [broken_row] (initial_run d) =
      Inr (add_row E d (A\<lparr>aa_tier := t\<rparr>) (identity_of E (da_manifest d) broken_row) broken_row sec (initial_run d))" .
  let ?st = "add_row E d (A\<lparr>aa_tier := t\<rparr>) (identity_of E (da_manifest d) broken_row) broken_row sec (initial_run d)"
  let ?d = "commit_rows E ?st d"
  have rows: "ar_rows ?st = [broken_row]" by (simp add: add_row_rows initial_run_def)
  have three: "(char_of (51::nat) :: char) = CHR ''3''" by code_simp
  have row: "row_text E (JObj broken_row) = [CHR ''{'', CHR 34, CHR ''a'', CHR 133, CHR ''b'', CHR 34, CHR '':'', CHR ''3'', CHR ''}'']"
    by (simp add: broken_row_def row_text_def canonical_json_def json_string_def escape_char_def ord_of_def str_of_int_def digits_of.simps three)
  have content: "file_text ?d TRAIN_FILE = rows_text E [broken_row]" using assms(2) by (simp add: commit_rows_def file_text_def rows)
  have lines: "splitlines (rows_text E [broken_row]) = [[CHR ''{'', CHR 34, CHR ''a''], [CHR ''b'', CHR 34, CHR '':'', CHR ''3'', CHR ''}'']]"
    by (simp add: rows_text_def row splitlines_def is_break_def ord_of_def skip_lf_def)
  have "ar_line (initial_run d) = 0" using assms(2) by (simp add: initial_run_def line_count_def count_by_def splitlines_def)
  then obtain e where idx: "da_index ?d = [e]" and e: "ie_file e = TRAIN_FILE" "ie_line e = 1"
    using assms(1) by (simp add: commit_rows_def add_row_def new_entry_def initial_run_def Let_def)
  have "strip [CHR ''{'', CHR 34, CHR ''a''] \<noteq> []" by code_simp
  moreover have "dget (da_files ?d) TRAIN_FILE = Some (rows_text E [broken_row])"
    using content by (simp add: commit_rows_def file_text_def)
  ultimately have "read_rows_by_id E ?d = Inl ValueError"
    by (simp add: read_rows_by_id_def idx read_entry_def e lines assms(9) Let_def)
  then show ?thesis using append_rows_reads(2) [OF loop assms(5)] rows content by simp
qed

theorem next_line_breaks_append_witness:
  "\<exists>d'. append_rows sample_dataset_env sample_args None [broken_row] sample_dataset = Inl (ValueError, d') \<and>
     read_rows_by_id sample_dataset_env d' = Inl ValueError"
proof -
  have "known_tools (po_enabled (dm_security (da_manifest sample_dataset)))" "validate_row (de_repr sample_dataset_env) (da_row_schema sample_dataset) broken_row = Inr []"
    by code_simp+
  moreover have "da_index sample_dataset = []" "file_text sample_dataset TRAIN_FILE = []" "aa_allowed sample_args = None" "\<not> aa_dry_run sample_args"
    "de_loads sample_dataset_env [CHR ''{'', CHR 34, CHR ''a''] = None"
    by (simp_all add: sample_dataset_def sample_args_def file_text_def sample_dataset_env_def)
  ultimately show ?thesis using next_line_breaks_append [OF _ _ sample_floats _ sample_tier] by blast
qed

section \<open>The index rebuilt\<close>

lemma canon_canon [simp]: "canon (canon v) = canon v"
proof (induction v)
  case (JObj kvs)
  let ?l = "map (\<lambda>(k, v). (k, canon v)) kvs"
  have "canon (canon (JObj kvs)) = JObj (sort_key fst (map (\<lambda>(k, v). (k, canon v)) (sort_key fst ?l)))" by simp
  also have "map (\<lambda>(k, v). (k, canon v)) (sort_key fst ?l) = sort_key fst ?l"
    by (rule map_idI) (use JObj in force)
  also have "sort_key fst (sort_key fst ?l) = sort_key fst ?l" by (rule sort_key_id_if_sorted) simp
  finally show ?case by simp
qed auto

lemma digest_canon: "digest_payload D (canon v) = digest_payload D v"
  by (simp add: digest_payload_def canonical_json_def)

lemma jget_canon:
  assumes "dict_ok row" shows "jget (case canon (JObj row) of JObj d \<Rightarrow> d | _ \<Rightarrow> []) f = canon (jget row f)"
proof -
  have "dict_ok (map (\<lambda>(k, v). (k, canon v)) row)" using assms dict_ok_map_snd [of "\<lambda>_. canon"] by blast
  then have "dget (sort_key fst (map (\<lambda>(k, v). (k, canon v)) row)) f = map_option canon (dget row f)"
    using dget_sort_key dget_map_snd [of "\<lambda>_. canon"] by metis
  then show ?thesis by (simp add: jget_def split: option.splits)
qed

lemma fold_dset_canon:
  "map (\<lambda>(k, v). (k, canon v)) (fold (\<lambda>f d. dset d f (canon (g f))) fs acc) =
   map (\<lambda>(k, v). (k, canon v)) (fold (\<lambda>f d. dset d f (g f)) fs acc')"
  if "map (\<lambda>(k, v). (k, canon v)) acc = map (\<lambda>(k, v). (k, canon v)) acc'" for acc acc'
  using that
proof (induction fs arbitrary: acc acc')
  case (Cons f fs)
  have upd: "map (\<lambda>(k, v). (k, canon v)) (dset a f x) = dset (map (\<lambda>(k, v). (k, canon v)) a) f (canon x)" for a x
    by (induction a) (auto simp: dset_def)
  show ?case using Cons.IH [of "dset acc f (canon (g f))" "dset acc' f (g f)"] Cons.prems by (simp add: upd)
qed simp

lemma identity_canon:
  assumes "dict_ok row" "canon (JObj row) = JObj row'"
  shows "row_identity_hash D i row' = row_identity_hash D i row"
proof -
  have "row_payload_hash D row' = row_payload_hash D row"
    using digest_canon [of D "JObj row"] by (simp add: row_payload_hash_def assms(2) del: canon.simps)
  moreover have "canon (JObj (identity_payload i row')) = canon (JObj (identity_payload i row))"
  proof -
    have "jget row' f = canon (jget row f)" for f using jget_canon [OF assms(1), of f] by (simp add: assms(2) del: canon.simps)
    then show ?thesis using fold_dset_canon [of "[]" "[]" "jget row" "id_fields i"] by (simp add: identity_payload_def)
  qed
  then have "digest_payload D (JObj (identity_payload i row')) = digest_payload D (JObj (identity_payload i row))" by (metis digest_canon)
  ultimately show ?thesis by (simp add: row_identity_hash_def)
qed

definition sourceless :: "index_entry \<Rightarrow> bool" where
  "sourceless e \<longleftrightarrow> index_entry_source_trace e = None"

lemma rebuilt_lines:
  assumes "decodes E rows" "list_all dict_ok rows"
  shows "\<exists>es. map_err (rebuilt_entry E d TRAIN_FILE) (enumerate n (map (\<lambda>row. row_text E (JObj row)) rows)) = Inr es \<and>
    map place es = places E (da_manifest d) n rows \<and> list_all sourceless es"
  using assms
proof (induction rows arbitrary: n)
  case (Cons row rows)
  obtain es where es: "map_err (rebuilt_entry E d TRAIN_FILE) (enumerate (Suc n) (map (\<lambda>row. row_text E (JObj row)) rows)) = Inr es"
    "map place es = places E (da_manifest d) (Suc n) rows" "list_all sourceless es"
    using Cons.IH [of "Suc n"] Cons.prems by (auto simp: decodes_def)
  obtain row' where row': "canon (JObj row) = JObj row'" by simp
  have id: "row_identity_hash (de_digest E) (dm_identity (da_manifest d)) row' = identity_of E (da_manifest d) row"
    using identity_canon [OF _ row'] Cons.prems(2) by (simp add: identity_of_def)
  have "de_loads E (row_text E (JObj row)) = Some (JObj row')" using Cons.prems(1) by (simp add: decodes_def row' del: canon.simps)
  then obtain e where e: "rebuilt_entry E d TRAIN_FILE (n, row_text E (JObj row)) = Inr e"
    "place e = (id_of_row E (da_manifest d) row, identity_of E (da_manifest d) row, TRAIN_FILE, n)" "sourceless e"
    by (auto simp: rebuilt_entry_def json_identity_hash_def id place_def id_of_row_def sourceless_def index_entry_source_trace_def truthy_str_def jfield_def)
  show ?case using es e by (intro exI [of _ "e # es"]) simp
qed simp

lemma sourceless_rows: "list_all sourceless es \<Longrightarrow> case dget (trace_by_row es) r of None \<Rightarrow> True | Some t \<Rightarrow> t = None"
proof -
  have "list_all sourceless es \<Longrightarrow> (\<And>r t. dget acc r = Some t \<Longrightarrow> t = None) \<Longrightarrow>
      dget (fold (\<lambda>e d. if dmem d (ie_row_id e) then d else dset d (ie_row_id e) (index_entry_source_trace e)) es acc) r = Some t \<Longrightarrow> t = None" for acc r t
  proof (induction es arbitrary: acc)
    case (Cons e es)
    let ?acc = "if dmem acc (ie_row_id e) then acc else dset acc (ie_row_id e) (index_entry_source_trace e)"
    have "dget ?acc r = Some t \<Longrightarrow> t = None" for r t using Cons.prems(1,2) by (auto simp: sourceless_def split: if_splits)
    from Cons.IH [OF _ this] Cons.prems(1,3) show ?case by simp
  qed simp
  from this [of "[]"] show "list_all sourceless es \<Longrightarrow> ?thesis" by (auto simp: trace_by_row_def split: option.splits)
qed

lemma gate_sourceless:
  assumes "list_all sourceless es"
  shows "dataset_egress_clearance repr lookup manifest es ids = (ids, [])"
proof -
  have src: "(case dget (trace_by_row es) r of None \<Rightarrow> None | Some t \<Rightarrow> t) = None" for r
    using sourceless_rows [OF assms, of r] by (auto split: option.splits)
  have "gate_row repr lookup manifest (trace_by_row es) r acc = (fst acc @ [r], snd acc)" for r acc
    by (simp add: gate_row_def src row_source_is_gateable_trace_def Let_def)
  then have "fold (gate_row repr lookup manifest (trace_by_row es)) ids acc = (fst acc @ ids, snd acc)" for acc
    by (induction ids arbitrary: acc) simp_all
  then show ?thesis by (simp add: dataset_egress_clearance_def)
qed

text \<open>
  C35. What a rebuild of the index keeps and what it loses. Every row keeps its id, identity and line, so the
  store still holds the same rows. The sources are lost: afterwards the egress gate passes every row, whatever
  the manifest says of the traces, and forgetting a trace finds none of its rows.
\<close>

theorem rebuild_opens_gate:
  assumes "rows_stored E d rows" "plain_floats (dg_float (de_digest E))" "decodes E rows" "list_all dict_ok rows"
    and "files_in d ''data/'' = [(TRAIN_FILE, file_text d TRAIN_FILE)]"
  shows "\<exists>d'. rebuild_row_index E d = Inr d' \<and> rows_stored E d' rows \<and>
    dataset_egress_clearance repr lookup manifest (da_index d') ids = (ids, []) \<and> rows_of_trace t (da_index d') = []"
proof -
  have lines: "splitlines (file_text d TRAIN_FILE) = map (\<lambda>row. row_text E (JObj row)) rows"
    using assms(1) rows_splitlines [OF assms(2)] by (simp add: rows_stored_def)
  have "filter (\<lambda>(n, l). strip l \<noteq> []) (enumerate 1 (map (\<lambda>row. row_text E (JObj row)) rows)) = enumerate 1 (map (\<lambda>row. row_text E (JObj row)) rows)"
    by (rule filter_True) (auto simp: in_set_enumerate_eq row_not_blank)
  with rebuilt_lines [OF assms(3,4), of d 1] obtain es where es: "rebuilt_entries E d (TRAIN_FILE, file_text d TRAIN_FILE) = Inr es"
    "map place es = places E (da_manifest d) 1 rows" "list_all sourceless es"
    by (auto simp: rebuilt_entries_def lines)
  let ?d = "d\<lparr>da_index := es\<rparr>"
  have "rebuild_row_index E d = Inr ?d" by (simp add: rebuild_row_index_def iter_data_files_def assms(5) es(1))
  moreover have "rows_stored E ?d rows" using assms(1) es(2) by (simp add: rows_stored_def file_text_def)
  moreover have "rows_of_trace t es = []"
  proof -
    have "filter (\<lambda>e. index_entry_source_trace e = Some t) es = []"
      using es(3) by (auto simp: sourceless_def list_all_iff filter_empty_conv)
    then show ?thesis by (simp add: rows_of_trace_def)
  qed
  ultimately show ?thesis using gate_sourceless [OF es(3)] by (intro exI [of _ ?d]) simp
qed

definition private_index :: "index_entry list" where
  "private_index = [\<lparr>ie_row_id = id_of_row sample_dataset_env sample_manifest sample_row,
     ie_identity = identity_of sample_dataset_env sample_manifest sample_row, ie_payload = [], ie_schema_digest = [],
     ie_file = TRAIN_FILE, ie_line = 1, ie_run_id = ''run_1'', ie_appended_at = [], ie_trace = Some ''t1'', ie_unit = None,
     ie_slice = None, ie_provenance = []\<rparr>]"

definition private_dataset :: dataset where
  "private_dataset = sample_dataset\<lparr>da_files := [(TRAIN_FILE, rows_text sample_dataset_env [sample_row])], da_index := private_index\<rparr>"

theorem rebuild_opens_gate_witness:
  "(let r = id_of_row sample_dataset_env sample_manifest sample_row in
     snd (dataset_egress_clearance (\<lambda>_. []) (\<lambda>_. JNull) (JObj []) (da_index private_dataset) [r]) \<noteq> [] \<and>
     (\<exists>d'. rebuild_row_index sample_dataset_env private_dataset = Inr d' \<and>
       dataset_egress_clearance (\<lambda>_. []) (\<lambda>_. JNull) (JObj []) (da_index d') [r] = ([r], [])))"
proof -
  let ?r = "id_of_row sample_dataset_env sample_manifest sample_row"
  have "snd (dataset_egress_clearance (\<lambda>_. []) (\<lambda>_. JNull) (JObj []) (da_index private_dataset) [?r]) \<noteq> []" by code_simp
  moreover have "rows_stored sample_dataset_env private_dataset [sample_row]"
    by (simp add: rows_stored_def private_dataset_def private_index_def file_text_def place_def sample_dataset_def) (simp add: sample_row_def)
  moreover have "list_all dict_ok [sample_row]" by (simp add: sample_row_def dict_ok_def dkeys_def)
  moreover have "files_in private_dataset ''data/'' = [(TRAIN_FILE, file_text private_dataset TRAIN_FILE)]" by code_simp
  ultimately show ?thesis
    using rebuild_opens_gate [OF _ sample_floats sample_decodes, of private_dataset "\<lambda>_. []" "\<lambda>_. JNull" "JObj []" "[?r]"]
    by (auto simp: Let_def)
qed

end
