(* ===== verification/EgressProps.thy ===== *)
theory EgressProps
  imports Egress SecurityProps
begin

text \<open>
  What clears a record for leaving: the security pass stamps exactly the tools that ran, the stamp decides
  the security state, the state survives the bucket, and the predicate reads it. The run over the bucket
  leaves nothing pending.
\<close>

section \<open>Tools return and keep the identity of a trace\<close>

lemma walk_keeps_id [simp]: "rec_trace_id (fst (walk_string_fields T r)) = rec_trace_id r"
  by (simp add: walk_string_fields_def case_prod_unfold Let_def)

lemma set_security_keeps_id [simp]: "rec_trace_id (set_security k v r) = rec_trace_id r"
  by (simp add: set_security_def ensure_security_metadata_def case_prod_unfold Let_def split: option.splits json.splits)

lemma set_tool_section_keeps_id [simp]: "rec_trace_id (set_tool_section n p r) = rec_trace_id r"
proof -
  have "rec_trace_id (fst (ensure_security_metadata r)) = rec_trace_id r"
    by (simp add: ensure_security_metadata_def split: option.splits json.splits)
  then show ?thesis by (simp add: set_tool_section_def case_prod_unfold Let_def)
qed

lemma detector_keeps_id [simp]: "rec_trace_id (fst (detector_apply f r)) = rec_trace_id r"
  by (simp add: detector_apply_def case_prod_unfold Let_def)

lemma backends_keep_id [simp]:
  "rec_trace_id (fst (trufflehog_apply v scan r)) = rec_trace_id r"
  "rec_trace_id (fst (privacy_filter_apply m r)) = rec_trace_id r"
  "rec_trace_id (fst (llm_pii_apply p d r)) = rec_trace_id r"
  "rec_trace_id (fst (path_anonymizer_apply E x r)) = rec_trace_id r"
  "rec_trace_id (fst (capsule_scope_apply ps r)) = rec_trace_id r"
  "rec_trace_id (fst (classifier_apply fmt s r)) = rec_trace_id r"
  by (auto simp: trufflehog_apply_def privacy_filter_apply_def llm_pii_apply_def path_anonymizer_apply_def
      capsule_scope_apply_def classifier_apply_def case_prod_unfold Let_def split: sum.splits option.splits)

lemma returns_apply: "returns f r = (fst (f r), Inr (snd (f r)))"
  by (simp add: returns_def case_prod_unfold Let_def)

lemma tool_returns:
  "t \<in> set (all_tools B C) \<Longrightarrow> \<exists>r' res. to_apply t r = (r', Inr res) \<and> rec_trace_id r' = rec_trace_id r"
  by (auto simp: all_tools_def returns_apply)

lemma run_tool_facts:
  assumes "t \<in> set (all_tools B C)"
  shows "rp_applied (snd (run_tool t st)) = rp_applied (snd st) @ [to_name t]"
    and "rec_trace_id (fst (run_tool t st)) = rec_trace_id (fst st)"
  using tool_returns [OF assms, of "fst st"] by (auto simp: run_tool_def add_tool_result_def)

lemma fold_run_tool:
  "set ts \<subseteq> set (all_tools B C) \<Longrightarrow>
    rp_applied (snd (fold run_tool ts st)) = rp_applied (snd st) @ map to_name ts \<and>
    rec_trace_id (fst (fold run_tool ts st)) = rec_trace_id (fst st)"
  by (induction ts arbitrary: st) (auto simp: run_tool_facts [where B = B and C = C])

lemma run_tools_facts:
  assumes "set ts \<subseteq> set (all_tools B C)"
  shows "rp_applied (snd (run_tools r ts)) = map to_name ts"
    and "rec_trace_id (fst (run_tools r ts)) = rec_trace_id r"
  using fold_run_tool [OF assms, of "(set_security ''tools'' (JObj []) r, empty_report)"]
  by (simp_all add: run_tools_def case_prod_unfold Let_def empty_report_def)

section \<open>The stamp\<close>

lemma metadata_security: "jget (rec_metadata (set_security k v r)) ''security'' = JObj (dset (snd (ensure_security_metadata r)) k v)"
  by (simp add: set_security_def case_prod_unfold Let_def jget_def)

lemma ensure_set_security: "snd (ensure_security_metadata (set_security k v r)) = dset (snd (ensure_security_metadata r)) k v"
proof -
  have "dget (rec_metadata (set_security k v r)) ''security'' = Some (JObj (dset (snd (ensure_security_metadata r)) k v))"
    by (simp add: set_security_def case_prod_unfold Let_def)
  then show ?thesis by (simp add: ensure_security_metadata_def)
qed

lemma json_strings_map: "json_strings (map JStr ns) = ns"
  by (induction ns) (simp_all add: json_strings_def)

lemma jget_of_dset: "jget (dset d k v) k' = (if k' = k then v else jget d k')"
  by (simp add: jget_def)

lemma marked_tools: "record_tools_applied (mark_record_tools_applied (Some ns) r) = ns"
  by (simp add: record_tools_applied_def mark_record_tools_applied_def metadata_security ensure_set_security
      jget_of_dset json_strings_map json_strings_map [of "[]", simplified] Let_def)

lemma mark_keeps:
  "rec_security (mark_record_tools_applied ns r) = rec_security r"
  "rec_trace_id (mark_record_tools_applied ns r) = rec_trace_id r"
  by (auto simp: mark_record_tools_applied_def set_security_def ensure_security_metadata_def case_prod_unfold Let_def
      split: option.splits json.splits)

lemma syncable_iff: "syncable tier r \<longleftrightarrow> filtered_state tier r \<and> \<not> stale_state tier r"
  by (simp add: syncable_def bucket_security_state_def)

lemma stamped_syncable:
  assumes "sec_scanned (rec_security r)" "classifier_version (rec_security r) = Some SECURITY_VERSION"
    and "record_tools_applied r \<noteq> []"
  shows "syncable tier r"
  using assms by (simp add: syncable_iff filtered_state_def stale_state_def SECURITY_VERSION_def)

lemma unscanned_not_syncable: "\<not> sec_scanned (rec_security r) \<Longrightarrow> \<not> syncable tier r"
  by (simp add: syncable_iff filtered_state_def)

lemma resolved_names_known: "set (resolved_tool_names (all_tools B C) C skip) \<subseteq> set CANONICAL_NAMES"
proof -
  have "set (map to_name (iter_enabled C (all_tools B C))) \<subseteq> set (map to_name (all_tools B C))"
    by (auto simp: iter_enabled_def)
  then show ?thesis unfolding registry_names resolved_tool_names_def Let_def by auto
qed

lemma filter_in_filter: "filter (\<lambda>n. n \<in> set (filter Q xs)) xs = filter Q xs"
  by (rule filter_cong) auto

lemma enabled_names: "map to_name (iter_enabled C (all_tools B C)) = filter (sc_enabled C) CANONICAL_NAMES"
proof -
  have "map to_name (filter (\<lambda>t. sc_enabled C (to_name t)) ts) = filter (sc_enabled C) (map to_name ts)" for ts
    by (induction ts) auto
  from this [of "all_tools B C"] show ?thesis by (simp only: iter_enabled_def registry_names)
qed

lemma resolved_names:
  "resolved_tool_names (all_tools B C) C skip = filter (\<lambda>n. sc_enabled C n \<and> \<not> (skip \<and> n = ''trufflehog'')) CANONICAL_NAMES"
  unfolding resolved_tool_names_def Let_def enabled_names by (auto simp: filter_empty_conv intro!: filter_cong)

lemma resolved_names_order:
  "filter (\<lambda>n. n \<in> set (resolved_tool_names (all_tools B C) C skip)) CANONICAL_NAMES = resolved_tool_names (all_tools B C) C skip"
  unfolding resolved_names by (rule filter_in_filter)

section \<open>The pass over a trace\<close>

lemma privacy_pass:
  obtains pt where "run_privacy_pipeline (all_tools B C) C skip review r = Inr pt"
    "record_tools_applied (pt_record pt) = resolved_tool_names (all_tools B C) C skip"
    "rec_trace_id (pt_record pt) = rec_trace_id r"
    "syncable tier (pt_record pt) \<longleftrightarrow> resolved_tool_names (all_tools B C) C skip \<noteq> []"
proof (cases "resolved_tool_names (all_tools B C) C skip = []")
  case True
  let ?r = "mark_record_tools_applied (Some []) (r\<lparr>rec_security := unscanned\<rparr>)"
  have "\<not> syncable tier ?r" by (rule unscanned_not_syncable) (simp add: mark_keeps unscanned_def)
  with True show thesis
    by (intro that [of "\<lparr>pt_record = ?r, pt_needs_review = False, pt_redactions = 0, pt_trufflehog_blocked = False\<rparr>"])
      (simp_all add: run_privacy_pipeline_def marked_tools mark_keeps)
next
  case False
  let ?names = "resolved_tool_names (all_tools B C) C skip"
  obtain ts where ts: "resolve_tools (all_tools B C) (Some ?names) (Some C) = Inr ts" "set ts \<subseteq> set (all_tools B C)"
    "map to_name ts = ?names" using resolve_names [OF resolved_names_known] resolved_names_order by metis
  obtain r' rep where run: "run_tools r ts = (r', rep)" by fastforce
  have applied: "rp_applied rep = ?names" and same: "rec_trace_id r' = rec_trace_id r"
    using run_tools_facts [OF ts(2), of r] by (simp_all add: run ts(3))
  obtain pt where pt: "run_privacy_pipeline (all_tools B C) C skip review r = Inr pt"
    and rec: "pt_record pt = mark_record_tools_applied (Some ?names) (r'\<lparr>rec_security := \<lparr>sec_scanned = True,
        flags_reviewed = int (classifier_flag_count (rp_verdicts rep)), redactions_applied = int (rp_redactions rep),
        classifier_version = Some SECURITY_VERSION\<rparr>\<rparr>)"
    using False by (simp add: run_privacy_pipeline_def sanitize_record_def ts(1) run applied Let_def)
  have "syncable tier (pt_record pt)"
    unfolding rec by (rule stamped_syncable) (simp_all add: mark_keeps marked_tools False)
  with pt rec same False show thesis by (intro that [OF pt]) (simp_all add: marked_tools mark_keeps)
qed

text \<open>
  C33. What the security pass certifies: it never fails, it records as applied exactly the configured tools, in
  canonical order, and the record becomes eligible for the remote exactly when at least one tool is configured.
  Nothing a tool reports enters: a scanner that could not run at all is recorded as applied, and the record
  is eligible.
\<close>

theorem security_pass_clears:
  "\<exists>pt. run_privacy_pipeline (all_tools B C) C skip review r = Inr pt \<and>
     record_tools_applied (pt_record pt) = filter (\<lambda>n. sc_enabled C n \<and> \<not> (skip \<and> n = ''trufflehog'')) CANONICAL_NAMES \<and>
     (syncable tier (pt_record pt) \<longleftrightarrow> (\<exists>n\<in>set CANONICAL_NAMES. sc_enabled C n \<and> \<not> (skip \<and> n = ''trufflehog'')))"
proof -
  obtain pt where "run_privacy_pipeline (all_tools B C) C skip review r = Inr pt"
    "record_tools_applied (pt_record pt) = resolved_tool_names (all_tools B C) C skip"
    "syncable tier (pt_record pt) \<longleftrightarrow> resolved_tool_names (all_tools B C) C skip \<noteq> []" by (rule privacy_pass)
  then show ?thesis by (auto simp: resolved_names filter_empty_conv)
qed

theorem security_pass_clears_witness:
  "\<exists>pt. run_privacy_pipeline (all_tools sample_backends sample_security_cfg) sample_security_cfg False True (mk_trace_record ''t'' []) = Inr pt \<and>
     be_scan sample_backends (mk_trace_record ''t'' []) = Inl ''trufflehog is not installed'' \<and>
     record_tools_applied (pt_record pt) = [''trufflehog''] \<and> syncable None (pt_record pt)"
  using security_pass_clears [of sample_backends sample_security_cfg False True "mk_trace_record ''t'' []" None]
  by (auto simp: sample_security_cfg_def sample_backends_def CANONICAL_NAMES_def)

section \<open>The bucket\<close>

lemma explicit_tier_known: "explicit_tier tier r \<in> set PRIVACY_TIERS"
proof -
  have norm: "normalize_privacy_tier v d = Inr t \<Longrightarrow> d \<in> set PRIVACY_TIERS \<Longrightarrow> t \<in> set PRIVACY_TIERS" for v d t
    by (auto simp: normalize_privacy_tier_def Let_def split: option.splits if_splits)
  have off: "''off'' \<in> set PRIVACY_TIERS" "''medium'' \<in> set PRIVACY_TIERS" by (simp_all add: PRIVACY_TIERS_def)
  then have rec: "record_privacy_tier r = Some t \<Longrightarrow> t \<in> set PRIVACY_TIERS" for t
    by (auto simp: record_privacy_tier_def split: json.splits sum.splits intro: norm)
  show ?thesis
    using off rec by (auto simp: explicit_tier_def split: sum.splits option.splits intro: norm)
qed

lemma normalize_known: "t \<in> set PRIVACY_TIERS \<Longrightarrow> normalize_privacy_tier (Some t) d = Inr t"
proof -
  have "list_all (\<lambda>t. strip t \<noteq> [] \<and> replace_char (CHR ''_'') ''-'' (lower (strip t)) = t) PRIVACY_TIERS" by code_simp
  moreover assume "t \<in> set PRIVACY_TIERS"
  ultimately show ?thesis by (simp add: normalize_privacy_tier_def list_all_iff Let_def)
qed

lemma security_state_stable: "bucket_security_state (Some (explicit_tier tier r)) r = bucket_security_state tier r"
proof -
  have "explicit_tier (Some (explicit_tier tier r)) r = explicit_tier tier r"
    by (subst explicit_tier_def) (simp add: normalize_known [OF explicit_tier_known])
  then show ?thesis by (simp add: bucket_security_state_def filtered_state_def stale_state_def cong: option.case_cong)
qed

lemma syncable_normalized: "syncable tier (normalized_record W r) = syncable tier r"
proof -
  have same: "record_privacy_tier (normalized_record W r) = record_privacy_tier r" "legacy_scanned (normalized_record W r) = legacy_scanned r"
    "record_tools_applied (normalized_record W r) = record_tools_applied r" "rec_security (normalized_record W r) = rec_security r"
    by (simp_all add: normalized_record_def record_privacy_tier_def legacy_scanned_def record_tools_applied_def)
  have "explicit_tier tier (normalized_record W r) = explicit_tier tier r" by (simp only: explicit_tier_def same)
  then have "filtered_state tier (normalized_record W r) = filtered_state tier r" by (simp only: filtered_state_def same)
  then show ?thesis by (simp only: syncable_iff stale_state_def same)
qed

lemma cleared_block:
  "clearance_state (JObj (row_status_block (Some ob))) = CLEARED \<longleftrightarrow> truthy (jget (bo_security ob) ''syncable'')"
  by (simp add: clearance_state_def row_status_block_def)

text \<open>
  C10. Clearance means a scan by the current version: an object written to the bucket reads back with the same
  security state, and the status row made of it is cleared exactly when its record was scanned at the current
  security version and either names a tool that was applied or carries a privacy tier other than off.
\<close>

theorem cleared_means_scanned:
  assumes "write_trace_record W project layer legacy tier r S = Some (S', ob)"
    and "project \<noteq> []" "layer \<noteq> []" "rec_trace_id r \<noteq> []"
  shows "\<exists>ob'. read_trace_record_object ob = Some ob' \<and> bo_security ob' = bo_security ob \<and> bo_record ob' = bo_record ob \<and>
    dget (os_current S') (project, rec_trace_id r) = Some ob \<and>
    (clearance_state (JObj (row_status_block (Some ob'))) = CLEARED \<longleftrightarrow>
       sec_scanned (rec_security r) \<and> classifier_version (rec_security r) = Some SECURITY_VERSION \<and>
       (record_tools_applied r \<noteq> [] \<or> explicit_tier tier r \<noteq> ''off''))"
proof -
  let ?n = "normalized_record W r"
  have ob: "ob = \<lparr>bo_project = project, bo_layer = layer, bo_trace_id = rec_trace_id ?n, bo_record_hash = bu_digest W ?n,
      bo_legacy_mirror = legacy, bo_security = bucket_security_state tier ?n, bo_written_at = bu_now W, bo_record = ?n\<rparr>"
    and S': "S' = S\<lparr>os_current := dset (os_current S) (project, rec_trace_id ?n) ob\<rparr>"
    using assms(1) by (auto simp: write_trace_record_def Let_def split: if_splits)
  have id: "rec_trace_id ?n = rec_trace_id r" by (simp add: normalized_record_def)
  let ?ob' = "ob\<lparr>bo_trace_id := rec_trace_id ?n\<rparr>"
  have tier: "jget (bo_security ob) ''privacy_tier'' = JStr (explicit_tier tier ?n)" by (simp add: ob bucket_security_state_def)
  have read: "read_trace_record_object ob = Some ?ob'"
    using assms(2-4) by (simp add: read_trace_record_object_def tier id) (simp add: ob id security_state_stable)
  have sync: "truthy (jget (bo_security ob) ''syncable'') \<longleftrightarrow> syncable tier r"
    using syncable_normalized [of tier W r] by (simp add: ob bucket_security_state_def syncable_iff)
  have "syncable tier r \<longleftrightarrow> sec_scanned (rec_security r) \<and> classifier_version (rec_security r) = Some SECURITY_VERSION \<and>
      (record_tools_applied r \<noteq> [] \<or> explicit_tier tier r \<noteq> ''off'')"
    by (auto simp: syncable_iff filtered_state_def stale_state_def SECURITY_VERSION_def split: option.splits if_splits)
  then show ?thesis using read S' id sync by (intro exI [of _ ?ob']) (simp add: cleared_block)
qed

definition sample_bucket_env :: bucket_env where
  "sample_bucket_env = \<lparr>bu_content_hash = (\<lambda>_. ''sha256:0''), bu_digest = (\<lambda>_. ''sha256:1''), bu_now = ''2026-01-01T00:00:00Z'', bu_writable = (\<lambda>_. True)\<rparr>"

definition objects_of :: "((string \<times> string) \<times> bucket_object) list \<Rightarrow> object_store" where
  "objects_of obs = \<lparr>os_current = obs, os_legacy = []\<rparr>"

definition sample_scanned :: trace_record where
  "sample_scanned = mark_record_tools_applied (Some [''regex''])
     ((mk_trace_record ''t1'' [])\<lparr>rec_security := \<lparr>sec_scanned = True, flags_reviewed = 0, redactions_applied = 0,
        classifier_version = Some SECURITY_VERSION\<rparr>\<rparr>)"

theorem cleared_means_scanned_witness:
  "\<exists>ob ob'. write_trace_record sample_bucket_env ''p'' ''canonical'' False None sample_scanned (objects_of []) = Some (objects_of [((''p'', ''t1''), ob)], ob) \<and>
     read_trace_record_object ob = Some ob' \<and> clearance_state (JObj (row_status_block (Some ob'))) = CLEARED"
proof -
  let ?n = "normalized_record sample_bucket_env sample_scanned"
  have id: "rec_trace_id sample_scanned = ''t1''" by (simp add: sample_scanned_def mark_keeps mk_trace_record_def)
  obtain ob where w: "write_trace_record sample_bucket_env ''p'' ''canonical'' False None sample_scanned (objects_of []) = Some (objects_of [((''p'', ''t1''), ob)], ob)"
    by (simp add: write_trace_record_def sample_bucket_env_def normalized_record_def id Let_def dset_def objects_of_def)
  from cleared_means_scanned [OF w] show ?thesis
    using w by (simp add: id) (auto simp: sample_scanned_def mark_keeps marked_tools)
qed

section \<open>The run over the bucket\<close>

definition object_key :: "bucket_object \<Rightarrow> string \<times> string" where
  "object_key ob = (bo_project ob, rec_trace_id (bo_record ob))"

definition keyed :: "((string \<times> string) \<times> bucket_object) list \<Rightarrow> bool" where
  "keyed obs \<longleftrightarrow> dict_ok obs \<and> list_all (\<lambda>(k, ob). object_key ob = k) obs"

definition store_ok :: "object_store \<Rightarrow> bool" where
  "store_ok S \<longleftrightarrow> keyed (os_current S) \<and> keyed (os_legacy S)"

definition readable :: "bucket_object \<Rightarrow> bool" where
  "readable ob \<longleftrightarrow> bo_project ob \<noteq> [] \<and> bo_layer ob \<noteq> [] \<and> rec_trace_id (bo_record ob) \<noteq> []"

lemma read_keeps: "read_trace_record_object ob = Some ob' \<Longrightarrow> bo_record ob' = bo_record ob \<and> object_key ob' = object_key ob \<and>
    object_key ob' = (bo_project ob', bo_trace_id ob') \<and> readable ob \<and> readable ob'"
  by (auto simp: read_trace_record_object_def object_key_def readable_def split: if_splits json.splits)

lemma readable_reads: "readable ob \<Longrightarrow> \<exists>ob'. read_trace_record_object ob = Some ob'"
  by (auto simp: read_trace_record_object_def readable_def split: json.splits)

lemma set_dset: "set (dset d k v) \<subseteq> insert (k, v) (set d)"
  by (induction d) (auto simp: dset_def)

lemma set_somes: "x \<in> set (somes xs) \<longleftrightarrow> Some x \<in> set xs"
  by (induction xs) (auto simp: somes_def split: option.splits)

lemma somes_subseq: "map f (somes (map g xs)) = somes (map (\<lambda>x. map_option f (g x)) xs)"
  by (induction xs) (auto simp: somes_def split: option.splits)

lemma distinct_somes: "distinct (map k xs) \<Longrightarrow> (\<And>x y. x \<in> set xs \<Longrightarrow> g x = Some y \<Longrightarrow> f y = k x) \<Longrightarrow> distinct (map f (somes (map g xs)))"
proof (induction xs)
  case (Cons x xs)
  have IH: "distinct (map f (somes (map g xs)))" by (rule Cons.IH) (use Cons.prems in auto)
  show ?case
  proof (cases "g x")
    case (Some y)
    have "f y \<notin> f ` set (somes (map g xs))"
    proof
      assume "f y \<in> f ` set (somes (map g xs))"
      then obtain z x' where z: "f y = f z" "x' \<in> set xs" "g x' = Some z" by (auto simp: set_somes)
      then have "k x = k x'" using Cons.prems(2) Some by (metis list.set_intros)
      then show False using Cons.prems(1) z(2) by auto
    qed
    with IH Some show ?thesis by (simp add: somes_def)
  qed (use IH in \<open>simp add: somes_def\<close>)
qed (simp add: somes_def)

lemma keyed_get: "keyed obs \<Longrightarrow> (k, ob) \<in> set obs \<longleftrightarrow> dget obs k = Some ob"
  by (auto simp: keyed_def dget_def dict_ok_def dkeys_def dest: map_of_SomeD)

text \<open>The objects of a store: the current ones that read, and the legacy ones that read under a key no current one reads under.\<close>

lemma objects_read:
  assumes "keyed obs"
  shows "y \<in> set (somes (map read_trace_record_object (dvalues (sort_key f obs)))) \<longleftrightarrow>
      (\<exists>ob. dget obs (object_key ob) = Some ob \<and> read_trace_record_object ob = Some y)"
    and "distinct (map object_key (somes (map read_trace_record_object (dvalues (sort_key f obs)))))"
proof -
  have key: "object_key ob = k" if "(k, ob) \<in> set obs" for k ob using that assms by (auto simp: keyed_def list_all_iff)
  then have "(\<exists>k. (k, ob) \<in> set obs) \<longleftrightarrow> dget obs (object_key ob) = Some ob" for ob
    using keyed_get [OF assms, of "object_key ob" ob] by metis
  then show "y \<in> set (somes (map read_trace_record_object (dvalues (sort_key f obs)))) \<longleftrightarrow>
      (\<exists>ob. dget obs (object_key ob) = Some ob \<and> read_trace_record_object ob = Some y)"
    by (auto simp: set_somes dvalues_def image_iff) (metis snd_conv)+
  have "mset (map fst (sort_key f obs)) = mset (map fst obs)" by simp
  then have "distinct (map fst (sort_key f obs))" using assms mset_eq_imp_distinct_iff by (fastforce simp: keyed_def dict_ok_def dkeys_def)
  then have "distinct (map object_key (somes (map (\<lambda>x. read_trace_record_object (snd x)) (sort_key f obs))))"
    by (rule distinct_somes) (use key in \<open>auto dest!: read_keeps\<close>)
  then show "distinct (map object_key (somes (map read_trace_record_object (dvalues (sort_key f obs)))))"
    by (simp add: dvalues_def comp_def)
qed

lemma store_objects:
  assumes "store_ok S"
  shows "y \<in> set (current_objects S) \<longleftrightarrow> (\<exists>ob. dget (os_current S) (object_key ob) = Some ob \<and> read_trace_record_object ob = Some y)"
    and "y \<in> set (legacy_objects S) \<longleftrightarrow> (\<exists>ob. dget (os_legacy S) (object_key ob) = Some ob \<and> read_trace_record_object ob = Some y)"
    and "distinct (map object_key (current_objects S))" "distinct (map object_key (legacy_objects S))"
  using assms objects_read unfolding store_ok_def current_objects_def legacy_objects_def by blast+

lemma iter_read: "ob' \<in> set (iter_trace_record_objects S) \<Longrightarrow> \<exists>ob. read_trace_record_object ob = Some ob'"
  by (auto simp: iter_trace_record_objects_def current_objects_def legacy_objects_def set_somes Let_def)

lemma read_pair: "y \<in> set (current_objects S) \<union> set (legacy_objects S) \<Longrightarrow> (bo_project y, bo_trace_id y) = object_key y"
proof -
  assume "y \<in> set (current_objects S) \<union> set (legacy_objects S)"
  then obtain x where "read_trace_record_object x = Some y" by (auto simp: current_objects_def legacy_objects_def set_somes)
  then show ?thesis using read_keeps [of x y] by argo
qed

lemma iter_parts:
  "iter_trace_record_objects S =
    current_objects S @ filter (\<lambda>ob. object_key ob \<notin> object_key ` set (current_objects S)) (legacy_objects S)"
proof -
  have "(\<lambda>ob. (bo_project ob, bo_trace_id ob)) ` set (current_objects S) = object_key ` set (current_objects S)"
    by (rule image_cong [OF refl]) (use read_pair [of _ S] in blast)
  moreover have "(bo_project ob, bo_trace_id ob) = object_key ob" if "ob \<in> set (legacy_objects S)" for ob
    using read_pair [of ob S] that by blast
  ultimately show ?thesis by (simp add: iter_trace_record_objects_def Let_def cong: filter_cong)
qed

lemma current_keys:
  assumes "store_ok S"
  shows "k \<in> object_key ` set (current_objects S) \<longleftrightarrow> (\<exists>x. dget (os_current S) k = Some x \<and> readable x)"
proof
  assume "k \<in> object_key ` set (current_objects S)"
  then obtain y where y: "y \<in> set (current_objects S)" "k = object_key y" by blast
  obtain x where x: "dget (os_current S) (object_key x) = Some x" "read_trace_record_object x = Some y"
    using y(1) unfolding store_objects(1) [OF assms] by blast
  show "\<exists>x. dget (os_current S) k = Some x \<and> readable x" using x(1) read_keeps [OF x(2)] y(2) by metis
next
  assume "\<exists>x. dget (os_current S) k = Some x \<and> readable x"
  then obtain x where x: "dget (os_current S) k = Some x" "readable x" by blast
  obtain y where y: "read_trace_record_object x = Some y" using readable_reads [OF x(2)] by blast
  have "object_key x = k" using assms keyed_get [of "os_current S" k x] x(1) by (auto simp: store_ok_def keyed_def list_all_iff)
  then have "y \<in> set (current_objects S)" "object_key y = k" using store_objects(1) [OF assms] x(1) y read_keeps [OF y] by auto
  then show "k \<in> object_key ` set (current_objects S)" by blast
qed

lemma iter_objects:
  assumes "store_ok S"
  shows "ob' \<in> set (iter_trace_record_objects S) \<longleftrightarrow>
    (\<exists>ob. dget (os_current S) (object_key ob) = Some ob \<and> read_trace_record_object ob = Some ob') \<or>
    (\<exists>ob. dget (os_legacy S) (object_key ob) = Some ob \<and> read_trace_record_object ob = Some ob' \<and>
       \<not> (\<exists>x. dget (os_current S) (object_key ob) = Some x \<and> readable x))"
proof -
  let ?K = "object_key ` set (current_objects S)"
  have parts: "ob' \<in> set (iter_trace_record_objects S) \<longleftrightarrow> ob' \<in> set (current_objects S) \<or> ob' \<in> set (legacy_objects S) \<and> object_key ob' \<notin> ?K"
    by (auto simp: iter_parts)
  have same: "object_key ob \<in> ?K \<longleftrightarrow> object_key ob' \<in> ?K" if "read_trace_record_object ob = Some ob'" for ob
    using read_keeps [OF that] by presburger
  show ?thesis unfolding parts store_objects(1,2) [OF assms] current_keys [OF assms, symmetric] using same by blast
qed

lemma iter_distinct: "store_ok S \<Longrightarrow> distinct (map object_key (iter_trace_record_objects S))"
  using store_objects(3,4) [of S] by (auto simp: iter_parts distinct_map_filter)

lemma filter_counts:
  "(let F = fold (filter_object W enrich reg C) obs st in fr_already F + fr_filtered F + fr_blocked F + fr_failed F) =
    fr_already st + fr_filtered st + fr_blocked st + fr_failed st + length obs"
  by (induction obs arbitrary: st) (auto simp: filter_object_def Let_def split: sum.splits option.splits)

text \<open>What an enrichment and a file system that never refuse guarantee.\<close>

definition never_refuses :: "enrichment \<Rightarrow> bucket_env \<Rightarrow> bool" where
  "never_refuses enrich W \<longleftrightarrow> (\<forall>r. \<exists>r'. enrich r = Inr r' \<and> rec_trace_id r' = rec_trace_id r) \<and> (\<forall>t. bu_writable W t)"

lemma filter_object_step:
  assumes "resolved_tool_names (all_tools B C) C False \<noteq> []" "never_refuses enrich W"
  shows "(if syncable None (bo_record ob) then fr_store (filter_object W enrich (all_tools B C) C ob st) = fr_store st
     else \<exists>ob'. fr_store (filter_object W enrich (all_tools B C) C ob st) =
          (fr_store st)\<lparr>os_current := dset (os_current (fr_store st)) (object_key ob) ob'\<rparr> \<and>
        object_key ob' = object_key ob \<and> bo_layer ob' = bo_layer ob \<and> syncable None (bo_record ob')) \<and>
     fr_blocked (filter_object W enrich (all_tools B C) C ob st) = fr_blocked st \<and>
     fr_failed (filter_object W enrich (all_tools B C) C ob st) = fr_failed st"
proof (cases "syncable None (bo_record ob)")
  case False
  obtain r' where r': "enrich (bo_record ob) = Inr r'" "rec_trace_id r' = rec_trace_id (bo_record ob)"
    using assms(2) by (auto simp: never_refuses_def)
  obtain pt where pt: "run_privacy_pipeline (all_tools B C) C False False r' = Inr pt" "rec_trace_id (pt_record pt) = rec_trace_id r'"
    "syncable (record_privacy_tier (bo_record ob)) (pt_record pt)"
    using assms(1) by (rule_tac privacy_pass [of B C False False r' "record_privacy_tier (bo_record ob)"]) simp
  obtain pt' where pt': "run_privacy_pipeline (all_tools B C) C False False r' = Inr pt'" "syncable None (pt_record pt')"
    using assms(1) by (rule_tac privacy_pass [of B C False False r' None]) simp
  have "syncable None (pt_record pt)" using pt(1) pt' by simp
  then have sync: "syncable None (normalized_record W (pt_record pt))" by (simp add: syncable_normalized)
  have "bu_writable W t" for t using assms(2) by (simp add: never_refuses_def)
  moreover have "rec_trace_id (normalized_record W (pt_record pt)) = rec_trace_id (bo_record ob)"
    by (simp add: normalized_record_def pt r')
  ultimately show ?thesis
    using False sync
    by (simp add: filter_object_def process_imported_trace_def r' pt write_trace_record_def Let_def object_key_def)
      (intro exI conjI, rule refl, simp_all)
qed (simp add: filter_object_def)

lemma empty_run_simps: "fr_store (empty_run S) = S" "fr_blocked (empty_run S) = 0" "fr_failed (empty_run S) = 0"
  "fr_already (empty_run S) = 0" "fr_filtered (empty_run S) = 0"
  by (simp_all add: empty_run_def)

text \<open>What the run leaves of the current objects, for the objects it went through and for the others.\<close>

definition filtered_to :: "bucket_object \<Rightarrow> bucket_object option \<Rightarrow> bool" where
  "filtered_to ob after \<longleftrightarrow>
     (\<exists>x. after = Some x \<and> object_key x = object_key ob \<and> bo_layer x = bo_layer ob \<and> syncable None (bo_record x))"

definition run_effect :: "bucket_object list \<Rightarrow> object_store \<Rightarrow> object_store \<Rightarrow> bool" where
  "run_effect obs S S' \<longleftrightarrow> os_legacy S' = os_legacy S \<and>
    (\<forall>k. k \<notin> object_key ` {ob \<in> set obs. \<not> syncable None (bo_record ob)} \<longrightarrow> dget (os_current S') k = dget (os_current S) k) \<and>
    (\<forall>ob\<in>set obs. \<not> syncable None (bo_record ob) \<longrightarrow> filtered_to ob (dget (os_current S') (object_key ob)))"

lemma filter_fold:
  assumes "resolved_tool_names (all_tools B C) C False \<noteq> []" "never_refuses enrich W"
    and "distinct (map object_key obs)" "keyed (os_current (fr_store st))"
  shows "let F = fold (filter_object W enrich (all_tools B C) C) obs st in
    keyed (os_current (fr_store F)) \<and> fr_blocked F = fr_blocked st \<and> fr_failed F = fr_failed st \<and> run_effect obs (fr_store st) (fr_store F)"
  using assms(3,4)
proof (induction obs arbitrary: st)
  case (Cons ob obs)
  let ?st = "filter_object W enrich (all_tools B C) C ob st"
  let ?F = "fold (filter_object W enrich (all_tools B C) C) obs ?st"
  note step = filter_object_step [OF assms(1,2), of ob st]
  have keep: "keyed (dset d k x)" if "keyed d" "object_key x = k" for d k x
    using that set_dset [of d k x] by (auto simp: keyed_def list_all_iff)
  have new: "object_key ob \<notin> object_key ` set obs" using Cons.prems(1) by simp
  have ok: "keyed (os_current (fr_store ?st)) \<and> run_effect [ob] (fr_store st) (fr_store ?st)"
  proof (cases "syncable None (bo_record ob)")
    case True
    with step Cons.prems(2) show ?thesis by (simp add: run_effect_def)
  next
    case False
    then obtain ob' where w: "fr_store ?st = (fr_store st)\<lparr>os_current := dset (os_current (fr_store st)) (object_key ob) ob'\<rparr>"
      "object_key ob' = object_key ob" "bo_layer ob' = bo_layer ob" "syncable None (bo_record ob')" using step by auto
    then show ?thesis using keep [OF Cons.prems(2), of ob' "object_key ob"] False by (simp add: run_effect_def filtered_to_def)
  qed
  then have IH: "keyed (os_current (fr_store ?F))" "fr_blocked ?F = fr_blocked ?st" "fr_failed ?F = fr_failed ?st"
    "run_effect obs (fr_store ?st) (fr_store ?F)"
    using Cons.IH [of ?st] Cons.prems(1) by (auto simp: Let_def)
  have "run_effect (ob # obs) (fr_store st) (fr_store ?F)"
    unfolding run_effect_def
  proof (intro conjI allI impI ballI)
    show "os_legacy (fr_store ?F) = os_legacy (fr_store st)" using ok IH(4) by (simp add: run_effect_def)
  next
    fix k
    assume "k \<notin> object_key ` {x \<in> set (ob # obs). \<not> syncable None (bo_record x)}"
    then have "k \<notin> object_key ` {x \<in> set obs. \<not> syncable None (bo_record x)}"
      and "k \<notin> object_key ` {x \<in> set [ob]. \<not> syncable None (bo_record x)}" by auto
    then show "dget (os_current (fr_store ?F)) k = dget (os_current (fr_store st)) k"
      using ok IH(4) unfolding run_effect_def by presburger
  next
    fix o'
    assume o': "o' \<in> set (ob # obs)" "\<not> syncable None (bo_record o')"
    show "filtered_to o' (dget (os_current (fr_store ?F)) (object_key o'))"
    proof (cases "o' = ob")
      case True
      have "object_key ob \<notin> object_key ` {x \<in> set obs. \<not> syncable None (bo_record x)}" using new by auto
      then have "dget (os_current (fr_store ?F)) (object_key ob) = dget (os_current (fr_store ?st)) (object_key ob)"
        using IH(4) unfolding run_effect_def by blast
      then show ?thesis using ok o'(2) True by (simp add: run_effect_def)
    next
      case False
      then show ?thesis using o' IH(4) by (simp add: run_effect_def)
    qed
  qed
  then show ?case using IH(1-3) step by (simp add: Let_def)
qed (simp add: Let_def run_effect_def)

lemma run_syncs:
  assumes "store_ok S" "run_effect (iter_trace_record_objects S) S S'" "keyed (os_current S')" "ob \<in> set (iter_trace_record_objects S')"
  shows "syncable None (bo_record ob)"
proof -
  let ?obs = "iter_trace_record_objects S"
  have ok: "store_ok S'" using assms(1-3) by (simp add: store_ok_def run_effect_def)
  have wrote: "\<exists>x. dget (os_current S') (object_key o') = Some x \<and> readable x \<and> syncable None (bo_record x)"
    if "o' \<in> set ?obs" "\<not> syncable None (bo_record o')" for o'
  proof -
    have "filtered_to o' (dget (os_current S') (object_key o'))" using assms(2) that unfolding run_effect_def by blast
    moreover have "readable o'" using iter_read [OF that(1)] read_keeps by blast
    ultimately show ?thesis by (auto simp: readable_def object_key_def filtered_to_def)
  qed
  have kept: "dget (os_current S') k = dget (os_current S) k" if "k \<notin> object_key ` {ob \<in> set ?obs. \<not> syncable None (bo_record ob)}" for k
    using assms(2) that unfolding run_effect_def by blast
  have only: "o1 = o2" if "o1 \<in> set ?obs" "o2 \<in> set ?obs" "object_key o1 = object_key o2" for o1 o2
    using iter_distinct [OF assms(1)] that by (simp add: distinct_map inj_on_def)
  from assms(4) consider x where "dget (os_current S') (object_key x) = Some x" "read_trace_record_object x = Some ob"
    | x where "dget (os_legacy S') (object_key x) = Some x" "read_trace_record_object x = Some ob"
        "\<not> (\<exists>y. dget (os_current S') (object_key x) = Some y \<and> readable y)"
    unfolding iter_objects [OF ok] by blast
  then show ?thesis
  proof cases
    case 1
    note rd = read_keeps [OF 1(2)]
    show ?thesis
    proof (cases "object_key x \<in> object_key ` {ob \<in> set ?obs. \<not> syncable None (bo_record ob)}")
      case True
      then obtain o' where o': "o' \<in> set ?obs" "\<not> syncable None (bo_record o')" "object_key x = object_key o'" by auto
      then show ?thesis using wrote [OF o'(1,2)] 1(1) rd by auto
    next
      case False
      then have "dget (os_current S) (object_key x) = Some x" using kept 1(1) by simp
      then have "ob \<in> set ?obs" unfolding iter_objects [OF assms(1)] using 1(2) by blast
      with False rd show ?thesis by (metis (mono_tags, lifting) image_eqI mem_Collect_eq)
    qed
  next
    case 2
    note rd = read_keeps [OF 2(2)]
    have "\<not> (\<exists>y. dget (os_current S) (object_key x) = Some y \<and> readable y)"
    proof
      assume "\<exists>y. dget (os_current S) (object_key x) = Some y \<and> readable y"
      then obtain y where y: "dget (os_current S) (object_key x) = Some y" "readable y" by blast
      then obtain y' where y': "read_trace_record_object y = Some y'" using readable_reads by blast
      have "object_key y = object_key x" using assms(1) y(1) keyed_get [of "os_current S" "object_key x" y]
        by (auto simp: store_ok_def keyed_def list_all_iff)
      then have o': "y' \<in> set ?obs" "object_key y' = object_key x"
        unfolding iter_objects [OF assms(1)] using y(1) y' read_keeps [OF y'] by auto
      show False
      proof (cases "syncable None (bo_record y')")
        case True
        have "object_key x \<notin> object_key ` {ob \<in> set ?obs. \<not> syncable None (bo_record ob)}"
        proof
          assume "object_key x \<in> object_key ` {ob \<in> set ?obs. \<not> syncable None (bo_record ob)}"
          then obtain z where "z \<in> set ?obs" "\<not> syncable None (bo_record z)" "object_key z = object_key y'" using o'(2) by auto
          then show False using only [of z y'] o'(1) True by blast
        qed
        then have "dget (os_current S') (object_key x) = Some y" using kept y(1) by simp
        with 2(3) y(2) show False by blast
      qed (use wrote [OF o'(1)] o'(2) 2(3) in auto)
    qed
    then have o': "ob \<in> set ?obs" unfolding iter_objects [OF assms(1)] using 2(1,2) assms(2) by (auto simp: run_effect_def)
    then show ?thesis using wrote [OF o'] 2(3) rd by auto
  qed
qed


definition sample_object :: bucket_object where
  "sample_object = \<lparr>bo_project = ''p'', bo_layer = ''canonical'', bo_trace_id = ''t1'', bo_record_hash = ''sha256:1'', bo_legacy_mirror = True,
     bo_security = [], bo_written_at = ''2026-01-01T00:00:00Z'', bo_record = mk_trace_record ''t1'' []\<rparr>"


end
