(* ===== verification/PublishProps.thy ===== *)
theory PublishProps
  imports DatasetIndexProps EgressProps
begin

text \<open>
  What publishing guarantees: the publication state is coherent in every reachable dataset, an uploaded row was
  approved, carries no reason to block it and comes from a cleared trace, and the retries are bounded.
\<close>

section \<open>The publication state\<close>

definition entry_coherent :: "string \<times> state_entry \<Rightarrow> bool" where
  "entry_coherent re \<longleftrightarrow> se_row_id (snd re) = fst re \<and> (se_status (snd re) = Blocked \<longleftrightarrow> se_reasons (snd re) \<noteq> []) \<and>
     (se_status (snd re) = Published \<longrightarrow> se_uploaded (snd re) \<noteq> []) \<and>
     (se_status (snd re) = Rejected \<longrightarrow> se_reviewed_by (snd re) \<noteq> None)"

definition state_coherent :: "publication_state \<Rightarrow> bool" where
  "state_coherent S \<longleftrightarrow> dict_ok S \<and> list_all entry_coherent S"

lemma coherent_dget: "state_coherent S \<Longrightarrow> dget S r = Some e \<Longrightarrow> entry_coherent (r, e)"
  by (auto simp: state_coherent_def list_all_iff dget_def dest: map_of_SomeD)

lemma coherent_dset: "state_coherent S \<Longrightarrow> entry_coherent (r, e) \<Longrightarrow> state_coherent (dset S r e)"
  using set_dset [of S r e] by (auto simp: state_coherent_def list_all_iff)

lemma dset_not_empty: "dset d k v \<noteq> []"
  by (metis dget_Nil dget_dset option.distinct(1))

lemma finite_reasons: "finite (block_reasons E d row tier version tools)"
  by (simp add: block_reasons_def)

lemma evaluated_coherent:
  "state_coherent S \<Longrightarrow> entry_coherent (r, evaluated_entry E d V t r row (dget S r))"
  by (cases "dget S r")
    (auto dest: coherent_dget simp: entry_coherent_def evaluated_entry_def next_status_def Let_def finite_reasons)

lemma evaluate_coherent: "evaluate_publication_state E V d = Inr S \<Longrightarrow> state_coherent (da_state d) \<Longrightarrow> state_coherent S"
proof -
  have "state_coherent S0 \<Longrightarrow> state_coherent (fold (evaluate_entry E d V t rows) es S0)" for t rows es S0
    by (induction es arbitrary: S0) (auto simp: evaluate_entry_def Let_def intro: coherent_dset evaluated_coherent)
  then show "evaluate_publication_state E V d = Inr S \<Longrightarrow> state_coherent (da_state d) \<Longrightarrow> ?thesis"
    by (auto simp: evaluate_publication_state_def split: sum.splits)
qed

lemma review_coherent: "state_coherent S \<Longrightarrow> state_coherent (fold (review_row E d v reviewer) rs S)"
proof (induction rs arbitrary: S)
  case (Cons r rs)
  have "entry_coherent (r, review_entry E d v reviewer e)" if "dget S r = Some e" for e
    using coherent_dget [OF Cons.prems that] by (auto simp: review_entry_def entry_coherent_def split: review.splits)
  then have "state_coherent (review_row E d v reviewer r S)"
    using Cons.prems by (auto simp: review_row_def split: option.splits intro: coherent_dset)
  then show ?case using Cons.IH by simp
qed simp

definition approved :: "publication_state \<Rightarrow> string \<Rightarrow> bool" where
  "approved S r \<longleftrightarrow> (case dget S r of None \<Rightarrow> False | Some e \<Rightarrow> se_status e = Publishable \<or> se_status e = Published)"

lemma mark_coherent:
  "state_coherent S \<Longrightarrow> list_all (approved S) rs \<Longrightarrow> state_coherent (mark_rows_uploaded E remote rs S)"
  unfolding mark_rows_uploaded_def
proof (induction rs arbitrary: S)
  case (Cons r rs)
  then obtain e where e: "dget S r = Some e" "se_status e = Publishable \<or> se_status e = Published"
    by (auto simp: approved_def split: option.splits)
  let ?e = "e\<lparr>se_status := Published, se_uploaded := dset (se_uploaded e) remote (de_now E), se_updated_at := Some (de_now E)\<rparr>"
  have "entry_coherent (r, ?e)" using coherent_dget [OF Cons.prems(1) e(1)] e(2) by (auto simp: entry_coherent_def dset_not_empty)
  then have S: "state_coherent (dset S r ?e)" by (rule coherent_dset [OF Cons.prems(1)])
  have "list_all (approved (dset S r ?e)) rs" using Cons.prems(2) by (auto simp: list_all_iff approved_def)
  then show ?case using Cons.IH [OF S] e(1) by (simp add: mark_row_uploaded_def)
qed simp

section \<open>Selection\<close>

lemma select_facts:
  assumes "(r, row) \<in> set (sl_rows (fold (select_row ids remote rows) es st))"
  shows "(r, row) \<in> set (sl_rows st) \<or> (\<exists>e. (r, e) \<in> set es \<and> r \<notin> set ids \<and> \<not> dmem (se_uploaded e) remote \<and>
    (se_status e = Publishable \<or> se_status e = Published) \<and> dget rows r = Some row)"
  using assms
proof (induction es arbitrary: st)
  case (Cons re es)
  obtain r' e' where re: "re = (r', e')" by fastforce
  from Cons.IH [of "select_row ids remote rows re st"] Cons.prems show ?case
    by (cases "se_status e'") (auto simp: re select_row_def split: if_splits option.splits)
qed simp

lemma selected:
  assumes "state_coherent S" "(r, row) \<in> set (sl_rows (select_rows ids remote rows S))"
  obtains e where "dget S r = Some e" "se_status e = Publishable \<or> se_status e = Published" "se_reasons e = []"
    "r \<notin> set ids" "\<not> dmem (se_uploaded e) remote" "dget rows r = Some row"
proof -
  obtain e where e: "(r, e) \<in> set S" "r \<notin> set ids" "\<not> dmem (se_uploaded e) remote" "se_status e = Publishable \<or> se_status e = Published"
    "dget rows r = Some row" using select_facts [OF assms(2) [unfolded select_rows_def]] by auto
  then have get: "dget S r = Some e" using assms(1) by (simp add: state_coherent_def dict_ok_def dkeys_def dget_def)
  then have "se_reasons e = []" using coherent_dget [OF assms(1) get] e(4) by (auto simp: entry_coherent_def)
  then show thesis using that get e by blast
qed

lemma filter_loop_subset: "filter_loop F rows T = Inr (kept, T') \<Longrightarrow> set kept \<subseteq> set rows"
proof (induction rows arbitrary: T kept)
  case (Cons p rows)
  obtain r row where p: "p = (r, row)" by fastforce
  obtain states low where sl: "excluded_states (pf_exclude F) row = Inr states" "below_retention (pf_min_retention F) row = Inr low"
    using Cons.prems by (auto simp: p split: sum.splits)
  show ?case
  proof (cases "states \<noteq> [] \<or> low")
    case True
    then obtain T1 where "filter_loop F rows T1 = Inr (kept, T')" using Cons.prems by (simp add: p sl)
    then show ?thesis using Cons.IH by auto
  next
    case False
    then obtain kept' where "filter_loop F rows T = Inr (kept', T')" "kept = p # kept'"
      using Cons.prems by (auto simp: p sl split: sum.splits)
    then show ?thesis using Cons.IH by auto
  qed
qed simp

lemma filter_subset: "filter_rows_for_publish F rows = Inr (kept, T) \<Longrightarrow> set kept \<subseteq> set rows"
  by (auto simp: filter_rows_for_publish_def Let_def split: if_splits dest: filter_loop_subset)

section \<open>Door B\<close>

definition source_clear :: "(json \<Rightarrow> string) \<Rightarrow> (string \<Rightarrow> json) \<Rightarrow> json \<Rightarrow> index_entry list \<Rightarrow> string \<Rightarrow> bool" where
  "source_clear repr lookup manifest es r \<longleftrightarrow>
     (let t = (case dget (trace_by_row es) r of None \<Rightarrow> None | Some t \<Rightarrow> t) in
      \<not> row_source_is_gateable_trace lookup t \<or>
      (\<exists>s. t = Some s \<and> clearance_for_trace repr lookup (Some manifest) s = CLEARED))"

lemma gate_partition:
  "dataset_egress_clearance repr lookup manifest es ids =
    (filter (source_clear repr lookup manifest es) ids, snd (dataset_egress_clearance repr lookup manifest es ids)) \<and>
   map rr_row_id (snd (dataset_egress_clearance repr lookup manifest es ids)) = filter (\<lambda>r. \<not> source_clear repr lookup manifest es r) ids"
proof -
  have "fst (gate_row repr lookup manifest (trace_by_row es) r acc) = fst acc @ (if source_clear repr lookup manifest es r then [r] else []) \<and>
      map rr_row_id (snd (gate_row repr lookup manifest (trace_by_row es) r acc)) =
        map rr_row_id (snd acc) @ (if source_clear repr lookup manifest es r then [] else [r])" for r acc
    by (auto simp: gate_row_def source_clear_def row_source_is_gateable_trace_def Let_def split: option.splits)
  then have "fst (fold (gate_row repr lookup manifest (trace_by_row es)) ids acc) = fst acc @ filter (source_clear repr lookup manifest es) ids \<and>
      map rr_row_id (snd (fold (gate_row repr lookup manifest (trace_by_row es)) ids acc)) =
        map rr_row_id (snd acc) @ filter (\<lambda>r. \<not> source_clear repr lookup manifest es r) ids" for acc
    by (induction ids arbitrary: acc) auto
  from this [of "([], [])"] show ?thesis by (simp add: dataset_egress_clearance_def prod_eq_iff)
qed

lemma none_refused:
  assumes "snd (dataset_egress_clearance repr lookup manifest es ids) = []" "r \<in> set ids"
  shows "source_clear repr lookup manifest es r"
proof (rule ccontr)
  assume "\<not> source_clear repr lookup manifest es r"
  then have "r \<in> set (filter (\<lambda>r. \<not> source_clear repr lookup manifest es r) ids)" using assms(2) by simp
  then show False using gate_partition [of repr lookup manifest es ids] assms(1) by (metis list.set_map empty_iff image_empty list.set(1))
qed

section \<open>One attempt\<close>

lemma finish_facts:
  assumes "finish_attempt E A d v S ids summary staged = Finished s d'"
  shows "ps_attempts s = ps_attempts summary \<and>
    (if ps_uploaded s then ps_uploaded summary \<or> (\<exists>before after changed answer.
        rv_upload v (ps_head_before summary) staged = UploadAnswered answer \<and>
        da_publications d' = da_publications d @ [publication_event E A (ps_remote summary) (ps_repo_id summary) before after staged changed ids] \<and>
        da_state d' = mark_rows_uploaded E (ps_remote summary) ids S)
     else da_publications d' = da_publications d \<and> da_state d' = S)"
  using assms by (auto simp: finish_attempt_def Let_def split: if_splits upload_outcome.splits sum.splits) blast+

lemma finish_keeps:
  "finish_attempt E A d v S ids summary staged = Finished s d' \<Longrightarrow>
    da_state d' = S \<or> da_state d' = mark_rows_uploaded E (ps_remote summary) ids S"
  by (auto simp: finish_attempt_def Let_def split: if_splits upload_outcome.splits sum.splits)

lemma attempt_parts:
  assumes "publish_attempt E lookup A remote repo d n v = Finished s d'"
  obtains before S rows kept T staged where "rv_head v = Inr before" "evaluate_publication_state E whole_dataset d = Inr S"
    "read_rows_by_id E d = Inr rows"
    "filter_rows_for_publish (pa_filter A) (sl_rows (select_rows (rv_row_ids v) remote rows S)) = Inr (kept, T)"
    "refused_rows E lookup d v (map fst kept) = []"
    "stage_publication E (pa_surface A) (pa_contributor A) (pa_run_id A) d kept = Inr staged"
    "finish_attempt E A d v S (map fst kept)
       (base_summary remote repo (select_rows (rv_row_ids v) remote rows S) before n (emitted_filter (pa_filter A) T)) staged = Finished s d'"
  using assms by (auto simp: publish_attempt_def Let_def split: sum.splits if_splits)

text \<open>
  A row an upload carries: the stored one, approved, without a reason to block it, new to the remote, its source clear.
\<close>

definition row_clear :: "dataset_env \<Rightarrow> (string \<Rightarrow> json) \<Rightarrow> string \<Rightarrow> dataset \<Rightarrow> remote_view \<Rightarrow> string \<times> json \<Rightarrow> bool" where
  "row_clear E lookup remote d v = (\<lambda>(r, row).
     \<exists>S rows e. evaluate_publication_state E whole_dataset d = Inr S \<and> read_rows_by_id E d = Inr rows \<and> dget rows r = Some row \<and>
        dget S r = Some e \<and> (se_status e = Publishable \<or> se_status e = Published) \<and> se_reasons e = [] \<and>
        \<not> dmem (se_uploaded e) remote \<and> r \<notin> set (rv_row_ids v) \<and>
        source_clear (de_repr E) lookup (rv_manifest v) (da_index d) r)"

lemma kept_clear:
  assumes "state_coherent (da_state d)" "evaluate_publication_state E whole_dataset d = Inr S" "read_rows_by_id E d = Inr rows"
    and "filter_rows_for_publish F (sl_rows (select_rows (rv_row_ids v) remote rows S)) = Inr (kept, T)"
    and "refused_rows E lookup d v (map fst kept) = []" "(r, row) \<in> set kept"
  shows "row_clear E lookup remote d v (r, row)" "approved S r"
proof -
  have id: "r \<in> set (map fst kept)" using assms(6) by force
  have "(r, row) \<in> set (sl_rows (select_rows (rv_row_ids v) remote rows S))" using filter_subset [OF assms(4)] assms(6) by blast
  then obtain e where e: "dget S r = Some e" "se_status e = Publishable \<or> se_status e = Published" "se_reasons e = []"
    "r \<notin> set (rv_row_ids v)" "\<not> dmem (se_uploaded e) remote" "dget rows r = Some row"
    by (rule selected [OF evaluate_coherent [OF assms(2,1)]])
  have "source_clear (de_repr E) lookup (rv_manifest v) (da_index d) r"
    using assms(5) id by (intro none_refused [OF _ id]) (auto simp: refused_rows_def split: if_splits)
  with e assms(2,3) show "row_clear E lookup remote d v (r, row)" by (auto simp: row_clear_def)
  show "approved S r" using e by (simp add: approved_def)
qed

text \<open>
  What the files of an upload hold: one shard with these rows, one line each, if there are any, the withdrawal records, in which
  the scan found nothing, and the surface; no other file, and no other content under these names.
\<close>

definition rows_shard :: "dataset_env \<Rightarrow> publish_args \<Rightarrow> (string \<times> json) list \<Rightarrow> string \<times> string" where
  "rows_shard E A rows = (shard_path E (pa_contributor A) (pa_run_id A) (map (\<lambda>(r, row). row_text E row) rows),
     lines_text (map (\<lambda>(r, row). row_text E row) rows))"

definition upload_holds :: "dataset_env \<Rightarrow> publish_args \<Rightarrow> dataset \<Rightarrow> (string \<times> json) list \<Rightarrow> (string, string) dict \<Rightarrow> bool" where
  "upload_holds E A d rows staged \<longleftrightarrow>
     (rows \<noteq> [] \<longrightarrow> dget staged (fst (rows_shard E A rows)) = Some (snd (rows_shard E A rows))) \<and>
     (\<forall>f s. dget staged f = Some s \<longrightarrow> rows \<noteq> [] \<and> (f, s) = rows_shard E A rows \<or>
        (f, s) \<in> set (files_in d ''_withdrawals/'') \<or> dget (pa_surface A) f = Some s) \<and>
     withdrawal_findings (files_in d ''_withdrawals/'') = []"

lemma join_lines: "ls \<noteq> [] \<Longrightarrow> join [CHR 10] ls @ [CHR 10] = lines_text ls"
  by (induction ls rule: induct_list012) (simp_all add: lines_text_def)

lemma staged_holds:
  assumes "stage_publication E (pa_surface A) (pa_contributor A) (pa_run_id A) d rows = Inr staged"
  shows "upload_holds E A d rows staged"
proof -
  let ?ws = "files_in d ''_withdrawals/''" and ?lines = "map (\<lambda>(r, row). row_text E row) rows"
  let ?base = "fold (\<lambda>(f, s) out. dset out f s) ?ws (pa_surface A)"
  have base: "(f, s) \<in> set ws \<or> dget out f = Some s" if "dget (fold (\<lambda>(f, s) out. dset out f s) ws out) f = Some s" for ws out f s
    using that by (induction ws arbitrary: out) (force split: if_splits)+
  from assms have none: "withdrawal_findings ?ws = []"
    and st: "staged = (if rows = [] then ?base else dset ?base (fst (rows_shard E A rows)) (join [CHR 10] ?lines @ [CHR 10]))"
    by (auto simp: stage_publication_def rows_shard_def Let_def split: if_splits)
  have "join [CHR 10] ?lines @ [CHR 10] = snd (rows_shard E A rows)" if "rows \<noteq> []"
    using join_lines [of ?lines] that by (simp add: rows_shard_def)
  then show ?thesis
    using none base [of ?ws "pa_surface A"] unfolding upload_holds_def st
    by (auto simp: prod_eq_iff split: if_splits)
qed

lemma attempt_uploads:
  assumes "state_coherent (da_state d)" "publish_attempt E lookup A remote repo d n v = Finished s d'"
  shows "state_coherent (da_state d') \<and> ps_attempts s = n \<and>
    (if ps_uploaded s then \<exists>rows staged before answer ev. da_publications d' = da_publications d @ [ev] \<and>
        jfield ev ''row_ids'' = json_texts_of (map fst rows) \<and>
        rv_upload v before staged = UploadAnswered answer \<and> upload_holds E A d rows staged \<and> list_all (row_clear E lookup remote d v) rows
     else da_publications d' = da_publications d)"
proof -
  obtain before S rows kept T staged where p: "evaluate_publication_state E whole_dataset d = Inr S" "read_rows_by_id E d = Inr rows"
    "filter_rows_for_publish (pa_filter A) (sl_rows (select_rows (rv_row_ids v) remote rows S)) = Inr (kept, T)"
    "refused_rows E lookup d v (map fst kept) = []"
    and st: "stage_publication E (pa_surface A) (pa_contributor A) (pa_run_id A) d kept = Inr staged"
    and fin: "finish_attempt E A d v S (map fst kept)
       (base_summary remote repo (select_rows (rv_row_ids v) remote rows S) before n (emitted_filter (pa_filter A) T)) staged = Finished s d'"
    by (rule attempt_parts [OF assms(2)])
  note clear = kept_clear [OF assms(1) p]
  have S: "state_coherent S" by (rule evaluate_coherent [OF p(1) assms(1)])
  have "list_all (approved S) (map fst kept)" using clear(2) by (auto simp: list_all_iff)
  then have "state_coherent (mark_rows_uploaded E remote (map fst kept) S)" by (rule mark_coherent [OF S])
  then have coh: "state_coherent (da_state d')" using finish_keeps [OF fin] S by (auto simp: base_summary_def)
  have ids: "jfield (publication_event E A a b c d e f ids) ''row_ids'' = json_texts_of ids" for a b c d e f ids
    by (simp add: publication_event_def)
  have rows: "list_all (row_clear E lookup remote d v) kept" using clear(1) by (auto simp: list_all_iff)
  show ?thesis
  proof (cases "ps_uploaded s")
    case True
    then obtain bef after changed answer where
      up: "rv_upload v before staged = UploadAnswered answer"
      "da_publications d' = da_publications d @ [publication_event E A remote repo bef after staged changed (map fst kept)]"
      using finish_facts [OF fin] by (auto simp: base_summary_def)
    then have "\<exists>ev. da_publications d' = da_publications d @ [ev] \<and> jfield ev ''row_ids'' = json_texts_of (map fst kept)"
      using ids by blast
    moreover have "ps_attempts s = n" using finish_facts [OF fin] by (simp add: base_summary_def)
    ultimately show ?thesis using True coh up(1) staged_holds [OF st] rows by (simp only: if_True) blast
  next
    case False
    then show ?thesis using coh finish_facts [OF fin] by (simp add: base_summary_def)
  qed
qed

section \<open>The retries\<close>

lemma publish_loop_Finished:
  "publish_loop E lookup A remote repo d views m n = Inr (s, d') \<Longrightarrow>
    \<exists>k\<ge>n. k \<le> max n (Suc m) \<and> publish_attempt E lookup A remote repo d k (views k) = Finished s d'"
proof (induction E lookup A remote repo d views m n rule: publish_loop.induct)
  case (1 E lookup A remote repo d views m n)
  show ?case
  proof (cases "publish_attempt E lookup A remote repo d n (views n)")
    case Retry
    then have "\<not> m < n" using "1.prems" by (auto simp: publish_loop.simps [of E lookup A remote repo d views m n] split: if_splits)
    moreover have "publish_loop E lookup A remote repo d views m (n + 1) = Inr (s, d')"
      using "1.prems" Retry \<open>\<not> m < n\<close> by (simp add: publish_loop.simps [of E lookup A remote repo d views m n])
    ultimately show ?thesis using "1.IH" [OF Retry] by (auto intro: Suc_leD simp: max_def split: if_splits)
  next
    case (Finished s1 d1)
    then show ?thesis using "1.prems" by (intro exI [of _ n]) (simp add: publish_loop.simps [of E lookup A remote repo d views m n])
  qed (use "1.prems" in \<open>simp add: publish_loop.simps [of E lookup A remote repo d views m n]\<close>)
qed

lemma publish_loop_settles:
  assumes "n \<le> m + 1"
  shows "publish_loop E lookup A remote repo d views m n =
    (case find (\<lambda>k. publish_attempt E lookup A remote repo d k (views k) \<noteq> Retry) [n..<m + 2] of None \<Rightarrow> Inl HeadMoved
     | Some k \<Rightarrow> (case publish_attempt E lookup A remote repo d k (views k) of
         Failed e \<Rightarrow> Inl e | Finished s d' \<Rightarrow> Inr (s, d') | Retry \<Rightarrow> Inl HeadMoved))"
  using assms
proof (induction "m + 1 - n" arbitrary: n)
  case 0
  then have "[n..<m + 2] = [n]" "m < n" by auto
  then show ?case by (auto simp: publish_loop.simps [of E lookup A remote repo d views m n] split: attempt.splits)
next
  case (Suc j)
  have range: "[n..<m + 2] = n # [Suc n..<m + 2]" using Suc.hyps(2) by (intro upt_conv_Cons) simp
  show ?case
  proof (cases "publish_attempt E lookup A remote repo d n (views n)")
    case Retry
    moreover have "n \<le> m" using Suc.hyps(2) by linarith
    ultimately have "publish_loop E lookup A remote repo d views m n = publish_loop E lookup A remote repo d views m (Suc n)"
      by (subst publish_loop.simps) simp
    moreover have "j = m + 1 - Suc n" "Suc n \<le> m + 1" using Suc.hyps(2) by linarith+
    ultimately show ?thesis using Suc.hyps(1) [of "Suc n"] Retry unfolding range by (simp del: upt_Suc)
  qed (unfold range, simp_all add: publish_loop.simps [of E lookup A remote repo d views m n] del: upt_Suc)
qed

text \<open>The remote a publish goes to: the one named, else the active one.\<close>

definition publish_target :: "publish_args \<Rightarrow> dataset \<Rightarrow> string option" where
  "publish_target A d = (if truthy_str (pa_to A) then pa_to A else dm_active (da_manifest d))"

lemma publish_dataset_remote:
  assumes "publish_target A d = Some r" "r \<noteq> []" "dget (dm_remotes (da_manifest d)) r = Some R"
  shows "publish_dataset E lookup A m views d = publish_loop E lookup A r (repo_id_from_remote R) d views m 1"
  using assms by (simp add: publish_dataset_def publish_target_def Let_def)

lemma publish_remote:
  assumes "publish_dataset E lookup A m views d = Inr (s, d')"
  obtains r R where "publish_target A d = Some r" "r \<noteq> []" "dget (dm_remotes (da_manifest d)) r = Some R"
    "publish_loop E lookup A r (repo_id_from_remote R) d views m 1 = Inr (s, d')"
  using assms by (auto simp: publish_dataset_def publish_target_def Let_def split: option.splits if_splits)

lemma publish_attempted:
  assumes "publish_dataset E lookup A m views d = Inr (s, d')"
  obtains r R k where "publish_target A d = Some r" "1 \<le> k" "k \<le> m + 1"
    "publish_attempt E lookup A r (repo_id_from_remote R) d k (views k) = Finished s d'"
proof -
  obtain r R where r: "publish_target A d = Some r" and loop: "publish_loop E lookup A r (repo_id_from_remote R) d views m 1 = Inr (s, d')"
    by (rule publish_remote [OF assms])
  obtain k where "1 \<le> k" "k \<le> max 1 (Suc m)" "publish_attempt E lookup A r (repo_id_from_remote R) d k (views k) = Finished s d'"
    using publish_loop_Finished [OF loop] by auto
  with r show thesis by (intro that) (auto simp: max_def split: if_splits)
qed

section \<open>A publish that loses the race once\<close>

definition shared_entry :: state_entry where
  "shared_entry = \<lparr>se_row_id = id_of_row sample_dataset_env sample_manifest sample_row, se_status = Publishable, se_uploaded = [],
     se_reviewed_at = None, se_reviewed_by = None, se_reasons = [], se_version = Some SECURITY_VERSION, se_source_version = None,
     se_tier = Some ''low'', se_stale = False, se_redactions = 0, se_updated_at = None\<rparr>"

definition shared_dataset :: dataset where
  "shared_dataset = private_dataset\<lparr>
     da_manifest := sample_manifest\<lparr>dm_remotes := [(''o/r'', \<lparr>dr_url = ''hf://o/r'', dr_visibility = ''private''\<rparr>)], dm_active := Some ''o/r''\<rparr>,
     da_provenance := [JObj [(''row_id'', JStr (se_row_id shared_entry)),
       (''security_policy'', JObj [(''tools_applied'', json_texts_of DATASET_ROW_FLOOR)])]],
     da_state := [(se_row_id shared_entry, shared_entry)]\<rparr>"

definition moving_remote :: "nat \<Rightarrow> remote_view" where
  "moving_remote n = \<lparr>rv_head = Inr (Some ''h''), rv_version = None, rv_row_ids = [], rv_files = Some [],
     rv_manifest = JObj [(''traces'', JList [JObj [(''trace_id'', JStr ''t1''),
       (''status'', JObj [(''known'', JBool True), (''syncable'', JBool True)])]])],
     rv_upload = (\<lambda>_ _. if n = 1 then UploadConflict else UploadAnswered (Some ''h2''))\<rparr>"

definition plain_publish :: publish_args where
  "plain_publish = \<lparr>pa_to = None, pa_check_only = False, pa_contributor = ''me'', pa_run_id = ''run_2'',
     pa_filter = \<lparr>pf_min_retention = None, pf_exclude = []\<rparr>, pa_surface = []\<rparr>"



lemma unmatched_text:
  assumes "s \<noteq> []" "list_all (\<lambda>p. rx_spans (sp_rx p) s = []) PATTERNS"
  shows "scan_serialized s (Some False) = []"
proof -
  have "fold (\<lambda>pat ms. fold (add_match s pat) (rx_spans (sp_rx pat) s) ms) ps ms = ms" if "list_all (\<lambda>p. rx_spans (sp_rx p) s = []) ps" for ps ms
    using that by (induction ps arbitrary: ms) auto
  from this [OF assms(2)] show ?thesis
    using assms(1) by (simp add: scan_serialized_def scan_content_def scan_text_def regex_matches_def)
qed

abbreviation "E0 \<equiv> sample_dataset_env"
abbreviation "row0 \<equiv> JObj sample_row"

lemma shared_unblocked:
  "block_reasons E0 shared_dataset row0 ''low'' (Some SECURITY_VERSION) DATASET_ROW_FLOOR = {}"
proof -
  have "list_all (\<lambda>p. rx_spans (sp_rx p) (row_text E0 row0 @ [CHR 10]) = []) PATTERNS" by code_simp
  then have "scan_serialized (row_text E0 row0 @ [CHR 10]) (Some False) = []" by (intro unmatched_text) simp_all
  then show ?thesis by (simp add: block_reasons_def shared_dataset_def sample_manifest_def sample_policy_def)
qed

lemma shared_read: "read_rows_by_id E0 shared_dataset = Inr [(se_row_id shared_entry, row0)]"
  by code_simp

lemma shared_tools: "row_tools (read_row_provenance shared_dataset) (se_row_id shared_entry) None = DATASET_ROW_FLOOR"
  by code_simp

lemma shared_evaluated:
  "evaluate_publication_state E0 whole_dataset shared_dataset =
    Inr [(se_row_id shared_entry, shared_entry\<lparr>se_source_version := None, se_updated_at := Some (de_now E0)\<rparr>)]"
proof -
  have tier: "normalize_privacy_tier None ''off'' = Inr ''off''" by code_simp
  have entry: "evaluated_entry E0 shared_dataset whole_dataset ''off'' (se_row_id shared_entry) row0 (Some shared_entry) =
      shared_entry\<lparr>se_source_version := None, se_updated_at := Some (de_now E0)\<rparr>"
    using shared_unblocked shared_tools
    by (simp add: evaluated_entry_def whole_dataset_def entry_tier_def entry_version_def next_status_def Let_def shared_entry_def SECURITY_VERSION_def)
  have index: "da_index shared_dataset = private_index" "da_state shared_dataset = [(se_row_id shared_entry, shared_entry)]"
    by (simp_all add: shared_dataset_def private_dataset_def)
  have "ie_row_id (hd private_index) = se_row_id shared_entry" "private_index = [hd private_index]" by (simp_all add: private_index_def shared_entry_def)
  then obtain e where e: "private_index = [e]" "ie_row_id e = se_row_id shared_entry" by metis
  have whole: "el_tier whole_dataset = None" "el_selected whole_dataset = []" by (simp_all add: whole_dataset_def)
  show ?thesis
    by (simp add: evaluate_publication_state_def shared_read tier index e evaluate_entry_def Let_def dset_def jget_def dget_def whole entry)
qed

abbreviation "repo0 \<equiv> ''o/r''"
abbreviation "state0 \<equiv> [(se_row_id shared_entry, shared_entry\<lparr>se_source_version := None, se_updated_at := Some (de_now E0)\<rparr>)]"
abbreviation "selection0 \<equiv> \<lparr>sl_rows = [(se_row_id shared_entry, row0)], sl_duplicates = 0, sl_blocked = 0, sl_needs_review = 0\<rparr>"
abbreviation "staged0 \<equiv> [(shard_path E0 ''me'' ''run_2'' [row_text E0 row0], row_text E0 row0 @ [CHR 10])]"

lemma shared_attempt:
  "publish_attempt E0 (\<lambda>_. JNull) plain_publish repo0 repo0 shared_dataset n (moving_remote n) =
    finish_attempt E0 plain_publish shared_dataset (moving_remote n) state0 [se_row_id shared_entry]
      (base_summary repo0 repo0 selection0 (Some ''h'') n None) staged0"
proof -
  have v: "rv_head (moving_remote n) = Inr (Some ''h'')" "rv_version (moving_remote n) = None" "rv_row_ids (moving_remote n) = []"
    by (simp_all add: moving_remote_def)
  have select: "select_rows [] repo0 [(se_row_id shared_entry, row0)] state0 = selection0" by code_simp
  have refused: "refused_rows E0 (\<lambda>_. JNull) shared_dataset (moving_remote n) [se_row_id shared_entry] = []"
  proof -
    have "refused_rows E0 (\<lambda>_. JNull) shared_dataset (moving_remote 1) [se_row_id shared_entry] = []" by code_simp
    then show ?thesis by (simp add: refused_rows_def moving_remote_def)
  qed
  have none: "files_in shared_dataset ''_withdrawals/'' = []" by code_simp
  have ahead: "remote_schema_ahead None s = False" for s by (simp add: remote_schema_ahead_def semver_tuple_def)
  show ?thesis
    unfolding publish_attempt_def v shared_evaluated shared_read sum.case ahead select
    by (simp add: Let_def filter_rows_for_publish_def plain_publish_def refused stage_publication_def none withdrawal_findings_def
        emitted_filter_def dset_def)
qed

lemma shared_outcome:
  "publish_attempt E0 (\<lambda>_. JNull) plain_publish repo0 repo0 shared_dataset 1 (moving_remote 1) = Retry \<and>
   (\<exists>s d'. publish_attempt E0 (\<lambda>_. JNull) plain_publish repo0 repo0 shared_dataset 2 (moving_remote 2) = Finished s d' \<and>
     ps_uploaded s \<and> ps_attempts s = 2)"
proof -
  have "changed_staged_files (Some []) staged0 \<noteq> []" by code_simp
  then show ?thesis
    unfolding shared_attempt
    by (simp add: finish_attempt_def moving_remote_def Let_def plain_publish_def acknowledged_def base_summary_def)
qed

lemma shared_target: "publish_target plain_publish shared_dataset = Some repo0"
  "dget (dm_remotes (da_manifest shared_dataset)) repo0 = Some \<lparr>dr_url = ''hf://o/r'', dr_visibility = ''private''\<rparr>"
  "repo_id_from_remote \<lparr>dr_url = ''hf://o/r'', dr_visibility = ''private''\<rparr> = repo0" by code_simp+

lemma shared_run:
  assumes "publish_attempt E0 (\<lambda>_. JNull) plain_publish repo0 repo0 shared_dataset 1 (moving_remote 1) = Retry"
    "publish_attempt E0 (\<lambda>_. JNull) plain_publish repo0 repo0 shared_dataset 2 (moving_remote 2) = Finished s d'"
  shows "publish_dataset E0 (\<lambda>_. JNull) plain_publish 5 moving_remote shared_dataset = Inr (s, d')"
proof -
  have "publish_loop E0 (\<lambda>_. JNull) plain_publish repo0 repo0 shared_dataset moving_remote 5 1 = Inr (s, d')"
    using assms by (simp add: publish_loop.simps [of _ _ _ _ _ _ _ _ "Suc 0"] publish_loop.simps [of _ _ _ _ _ _ _ _ "Suc (Suc 0)"] numeral_2_eq_2)
  then show "publish_dataset E0 (\<lambda>_. JNull) plain_publish 5 moving_remote shared_dataset = Inr (s, d')"
    using publish_dataset_remote [OF shared_target(1) _ shared_target(2)] by (simp add: shared_target(3))
qed

lemma shared_coherent: "state_coherent (da_state shared_dataset)"
  by (simp add: state_coherent_def shared_dataset_def entry_coherent_def shared_entry_def dict_ok_def dkeys_def)

section \<open>The publish operation\<close>

text \<open>
  C25. Publishing retries exactly while the remote head moves under it. The outcome is that of the first attempt that
  does not lose the race, among attempts 1 to max_retries + 1; if every one of those loses it, the command fails with
  HeadMoved. So it always settles, after at most max_retries + 1 uploads, whatever the remote does.
\<close>

theorem publish_settles:
  assumes "publish_target A d = Some r" "r \<noteq> []" "dget (dm_remotes (da_manifest d)) r = Some R"
  shows "publish_dataset E lookup A m views d =
    (case find (\<lambda>k. publish_attempt E lookup A r (repo_id_from_remote R) d k (views k) \<noteq> Retry) [1..<m + 2] of None \<Rightarrow> Inl HeadMoved
     | Some k \<Rightarrow> (case publish_attempt E lookup A r (repo_id_from_remote R) d k (views k) of
         Failed e \<Rightarrow> Inl e | Finished s d' \<Rightarrow> Inr (s, d') | Retry \<Rightarrow> Inl HeadMoved))"
  unfolding publish_dataset_remote [OF assms] by (rule publish_loop_settles) simp

theorem publish_settles_witness:
  "\<exists>s d'. publish_dataset sample_dataset_env (\<lambda>_. JNull) plain_publish 5 moving_remote shared_dataset = Inr (s, d') \<and>
     ps_attempts s = 2 \<and> ps_uploaded s"
proof -
  obtain s d' where out: "publish_attempt E0 (\<lambda>_. JNull) plain_publish repo0 repo0 shared_dataset 1 (moving_remote 1) = Retry"
    "publish_attempt E0 (\<lambda>_. JNull) plain_publish repo0 repo0 shared_dataset 2 (moving_remote 2) = Finished s d'"
    "ps_uploaded s" "ps_attempts s = 2" using shared_outcome by blast
  have "[1..<5 + 2::nat] = [1, 2, 3, 4, 5, 6]" by code_simp
  with publish_settles [OF shared_target(1) _ shared_target(2), of E0 "\<lambda>_. JNull" 5 moving_remote] show ?thesis
    by (simp add: shared_target(3) out [simplified] del: upt_Suc)
qed

text \<open>
  C1. What an upload carries. From a dataset whose publication state is coherent, a publish that returns leaves it
  coherent and made at most max_retries + 1 attempts. If it uploaded, it appended one event to the publication log,
  and what the remote accepted at that attempt is one shard with the rows the event names, one line each, the withdrawal records and
  the surface, and nothing else. Each of these rows was, at that attempt, the stored row of its id, approved, without a reason to
  block it, not yet on the remote, and taken from a trace that is cleared in the manifest (or from no gateable trace). If it did
  not upload the log is unchanged.
\<close>

theorem publish_safe:
  assumes "publish_dataset E lookup A m views d = Inr (s, d')" "state_coherent (da_state d)"
  shows "state_coherent (da_state d') \<and> 1 \<le> ps_attempts s \<and> ps_attempts s \<le> m + 1 \<and>
    (if ps_uploaded s
     then \<exists>r rows staged before answer ev. publish_target A d = Some r \<and> da_publications d' = da_publications d @ [ev] \<and>
        jfield ev ''row_ids'' = json_texts_of (map fst rows) \<and>
        rv_upload (views (ps_attempts s)) before staged = UploadAnswered answer \<and> upload_holds E A d rows staged \<and>
        list_all (row_clear E lookup r d (views (ps_attempts s))) rows
     else da_publications d' = da_publications d)"
proof -
  obtain r R k where k: "publish_target A d = Some r" "1 \<le> k" "k \<le> m + 1"
    "publish_attempt E lookup A r (repo_id_from_remote R) d k (views k) = Finished s d'"
    by (rule publish_attempted [OF assms(1)])
  have "ps_attempts s = k" using attempt_uploads [OF assms(2) k(4)] by blast
  with attempt_uploads [OF assms(2) k(4)] k(1-3) show ?thesis by (auto split: if_splits)
qed

theorem publish_safe_witness:
  "\<exists>s d' rows staged before answer ev. publish_dataset sample_dataset_env (\<lambda>_. JNull) plain_publish 5 moving_remote shared_dataset = Inr (s, d') \<and>
     state_coherent (da_state d') \<and> da_publications d' = [ev] \<and> jfield ev ''row_ids'' = json_texts_of (map fst rows) \<and>
     rv_upload (moving_remote 2) before staged = UploadAnswered answer \<and>
     upload_holds sample_dataset_env plain_publish shared_dataset rows staged \<and>
     list_all (row_clear sample_dataset_env (\<lambda>_. JNull) ''o/r'' shared_dataset (moving_remote 2)) rows"
proof -
  obtain s d' where out: "publish_attempt E0 (\<lambda>_. JNull) plain_publish repo0 repo0 shared_dataset 1 (moving_remote 1) = Retry"
    "publish_attempt E0 (\<lambda>_. JNull) plain_publish repo0 repo0 shared_dataset 2 (moving_remote 2) = Finished s d'"
    "ps_uploaded s" "ps_attempts s = 2" using shared_outcome by blast
  note run = shared_run [OF out(1,2)]
  have "da_publications shared_dataset = []" by (simp add: shared_dataset_def private_dataset_def sample_dataset_def)
  with publish_safe [OF run shared_coherent] run out(3,4) shared_target(1) show ?thesis by simp
qed

section \<open>The life of a dataset\<close>

lemma append_state:
  "case append_rows E A tier rows d of
     Inr (d', st) \<Rightarrow> da_publications d' = da_publications d \<and>
       (da_state d' = da_state d \<or> (\<exists>V. evaluate_publication_state E V (commit_rows E st d) = Inr (da_state d')))
   | Inl (e, d') \<Rightarrow> da_publications d' = da_publications d \<and> da_state d' = da_state d"
  by (auto simp: append_rows_def Let_def commit_rows_def split: sum.splits)

lemma coherent_dpop: "state_coherent S \<Longrightarrow> state_coherent (dpop S r)"
  using dget_dpop [of S r] by (auto simp: state_coherent_def list_all_iff in_dict_iff split: if_splits)

lemma rebuild_keeps: "rebuild_row_index E d = Inr d' \<Longrightarrow> da_state d' = da_state d \<and> da_publications d' = da_publications d"
  by (auto simp: rebuild_row_index_def split: sum.splits)

lemma withdraw_keeps:
  "case withdraw_dataset_row E r reason hard confirm d of
     Inr d' \<Rightarrow> (da_state d' = da_state d \<or> da_state d' = dpop (da_state d) r) \<and> da_publications d' = da_publications d
   | Inl (e, d') \<Rightarrow> da_state d' = da_state d \<and> da_publications d' = da_publications d"
  using rebuild_keeps [of E]
  by (fastforce simp: withdraw_dataset_row_def hard_delete_row_def write_withdrawal_record_def Let_def split: sum.splits)

text \<open>
  The operations that change a dataset, each in an environment (clock, tools, answers) of its own. One that raises
  leaves behind what it had written by then.
\<close>

inductive dataset_step :: "dataset \<Rightarrow> dataset \<Rightarrow> bool" where
  appended: "append_rows E A tier rows d = Inr (d', st) \<Longrightarrow> dataset_step d d'"
| append_raised: "append_rows E A tier rows d = Inl (e, d') \<Longrightarrow> dataset_step d d'"
| reviewed: "set_publication_review_status E ids status reviewer d = Inr d' \<Longrightarrow> dataset_step d d'"
| review_raised: "set_publication_review_status E ids status reviewer d = Inl (e, d') \<Longrightarrow> dataset_step d d'"
| withdrawn: "withdraw_dataset_row E r reason hard confirm d = Inr d' \<Longrightarrow> dataset_step d d'"
| withdraw_raised: "withdraw_dataset_row E r reason hard confirm d = Inl (e, d') \<Longrightarrow> dataset_step d d'"
| reindexed: "rebuild_row_index E d = Inr d' \<Longrightarrow> dataset_step d d'"
| published: "publish_dataset E lookup A m views d = Inr (s, d') \<Longrightarrow> dataset_step d d'"

lemma review_state:
  "case set_publication_review_status E ids status reviewer d of
     Inr d' \<Rightarrow> da_publications d' = da_publications d \<and>
       (\<exists>v S. evaluate_publication_state E whole_dataset d = Inr S \<and> da_state d' = fold (review_row E d v reviewer) ids S)
   | Inl (e, d') \<Rightarrow> da_publications d' = da_publications d \<and>
       (da_state d' = da_state d \<or> evaluate_publication_state E whole_dataset d = Inr (da_state d'))"
  by (auto simp: set_publication_review_status_def split: option.splits sum.splits)

lemma step_keeps:
  assumes "dataset_step d d'" "state_coherent (da_state d)"
  shows "state_coherent (da_state d') \<and> (\<exists>es. da_publications d' = da_publications d @ es \<and> length es \<le> 1)"
  using assms
proof (cases rule: dataset_step.cases)
  case (appended E A tier rows st)
  with append_state [where E = E and A = A and tier = tier and rows = rows and d = d] show ?thesis using assms(2) evaluate_coherent [of E _ "commit_rows E st d"] by (auto simp: commit_rows_def)
next
  case (append_raised E A tier rows e)
  with append_state [where E = E and A = A and tier = tier and rows = rows and d = d] show ?thesis using assms(2) by simp
next
  case (reviewed E ids status reviewer)
  with review_state [where E = E and ids = ids and status = status and reviewer = reviewer and d = d] show ?thesis using assms(2) by (auto intro!: review_coherent intro: evaluate_coherent)
next
  case (review_raised E ids status reviewer e)
  with review_state [where E = E and ids = ids and status = status and reviewer = reviewer and d = d] show ?thesis using assms(2) by (auto intro: evaluate_coherent)
next
  case (withdrawn E r reason hard confirm)
  with withdraw_keeps [where E = E and r = r and reason = reason and hard = hard and confirm = confirm and d = d] show ?thesis using assms(2) coherent_dpop by auto
next
  case (withdraw_raised E r reason hard confirm e)
  with withdraw_keeps [where E = E and r = r and reason = reason and hard = hard and confirm = confirm and d = d] show ?thesis using assms(2) by simp
next
  case (reindexed E)
  from rebuild_keeps [OF this] show ?thesis using assms(2) by auto
next
  case (published E lookup A m views s)
  obtain r R k where "publish_attempt E lookup A r (repo_id_from_remote R) d k (views k) = Finished s d'"
    by (rule publish_attempted [OF published])
  from attempt_uploads [OF assms(2) this] show ?thesis by (auto split: if_splits)
qed

text \<open>
  C14. The publication state in every reachable dataset. Start from a coherent state (that of a new dataset is empty) and
  append, review, withdraw, rebuild and publish in any order, the operations that raise part of the way included: each row has one entry, under its own id; a row is blocked
  exactly when reasons against it are recorded; a published row names a remote it went to and a rejected one its reviewer;
  and the publication log only grows.
\<close>

theorem publication_invariant:
  assumes "dataset_step\<^sup>*\<^sup>* d0 d" "state_coherent (da_state d0)"
  shows "state_coherent (da_state d) \<and> (\<exists>es. da_publications d = da_publications d0 @ es)"
  using assms(1)
proof (induction rule: rtranclp_induct)
  case (step d1 d2)
  then show ?case using step_keeps [OF step.hyps(2)] by (metis append_assoc)
qed (use assms(2) in simp)

theorem publication_invariant_witness:
  "\<exists>d ev. dataset_step\<^sup>*\<^sup>* shared_dataset d \<and> d \<noteq> shared_dataset \<and> state_coherent (da_state d) \<and> da_publications d = [ev]"
proof -
  obtain s d' where out: "publish_attempt E0 (\<lambda>_. JNull) plain_publish repo0 repo0 shared_dataset 1 (moving_remote 1) = Retry"
    "publish_attempt E0 (\<lambda>_. JNull) plain_publish repo0 repo0 shared_dataset 2 (moving_remote 2) = Finished s d'"
    "ps_uploaded s" "ps_attempts s = 2" using shared_outcome by blast
  note shared_run [OF out(1,2)]
  then have step: "dataset_step\<^sup>*\<^sup>* shared_dataset d'" by (blast intro: dataset_step.published)
  have none: "da_publications shared_dataset = []" by (simp add: shared_dataset_def private_dataset_def sample_dataset_def)
  moreover obtain ev where "da_publications d' = [ev]"
    using attempt_uploads [OF shared_coherent out(2)] out(3) none by auto
  ultimately show ?thesis using publication_invariant [OF step shared_coherent] step by (metis list.distinct(1))
qed

end
