(* ===== verification/DoorProps.thy ===== *)
theory DoorProps
  imports PublishProps
begin

text \<open>
  The interface of an egress door, its interpretation on the bucket push and on the dataset publish, and their
  agreement on one predicate.
\<close>


section \<open>The interface of a door\<close>

text \<open>
  What every door promises of the items it is asked to let out. \<open>verdict\<close> is the clearance of the source of an item,
  None for an item that has none; the door releases, in order, the items without a source and those whose source is
  cleared, and refuses all the others.
\<close>

locale egress_door =
  fixes verdict :: "'r \<Rightarrow> clearance option"
    and key :: "'r \<Rightarrow> string"
    and released :: "'r list \<Rightarrow> string list"
    and refused :: "'r list \<Rightarrow> string list"
  assumes released_eq: "released rs = map key (filter (\<lambda>r. verdict r = None \<or> verdict r = Some CLEARED) rs)"
    and refused_eq: "refused rs = map key (filter (\<lambda>r. verdict r \<noteq> None \<and> verdict r \<noteq> Some CLEARED) rs)"
begin

text \<open>Fail closed: an item whose source is unknown or not cleared does not leave.\<close>

lemma fail_closed: "k \<in> set (released rs) \<Longrightarrow> \<exists>r\<in>set rs. key r = k \<and> (verdict r = None \<or> verdict r = Some CLEARED)"
  by (auto simp: released_eq)

text \<open>Every item gets one answer.\<close>

lemma answered: "mset (released rs) + mset (refused rs) = mset (map key rs)"
  by (induction rs) (auto simp: released_eq refused_eq)

lemma all_released: "refused rs = [] \<longleftrightarrow> released rs = map key rs"
proof
  assume "refused rs = []"
  then have "filter (\<lambda>r. verdict r = None \<or> verdict r = Some CLEARED) rs = rs" by (auto simp: refused_eq filter_empty_conv intro: filter_True)
  then show "released rs = map key rs" by (simp add: released_eq)
next
  assume "released rs = map key rs"
  then have "mset (refused rs) = {#}" using answered [of rs] by simp
  then show "refused rs = []" by simp
qed

lemma refused_none: "refused rs = [] \<Longrightarrow> r \<in> set rs \<Longrightarrow> verdict r = None \<or> verdict r = Some CLEARED"
  by (auto simp: refused_eq filter_empty_conv)

lemma composed: "released (rs @ ss) = released rs @ released ss" "refused (rs @ ss) = refused rs @ refused ss"
  by (simp_all add: released_eq refused_eq)

end

section \<open>The doors of the program\<close>

text \<open>Door A asks the row of the manifest.\<close>

definition push_verdict :: "(string, json) dict \<Rightarrow> clearance option" where
  "push_verdict row = Some (clearance_state (jget row ''status''))"

lemma push_rows:
  "pp_pushed (push_withhold_partition repr (map JObj rows)) =
    map (\<lambda>row. row_trace_id repr (JObj row)) (filter (\<lambda>row. push_verdict row = None \<or> push_verdict row = Some CLEARED) rows) \<and>
   map wh_trace_id (pp_withheld (push_withhold_partition repr (map JObj rows))) =
    map (\<lambda>row. row_trace_id repr (JObj row)) (filter (\<lambda>row. push_verdict row \<noteq> None \<and> push_verdict row \<noteq> Some CLEARED) rows)"
proof -
  have "pp_pushed (fold (partition_row repr) (map JObj rows) p) = pp_pushed p @
      map (\<lambda>row. row_trace_id repr (JObj row)) (filter (\<lambda>row. push_verdict row = None \<or> push_verdict row = Some CLEARED) rows) \<and>
    map wh_trace_id (pp_withheld (fold (partition_row repr) (map JObj rows) p)) = map wh_trace_id (pp_withheld p) @
      map (\<lambda>row. row_trace_id repr (JObj row)) (filter (\<lambda>row. push_verdict row \<noteq> None \<and> push_verdict row \<noteq> Some CLEARED) rows)" for p
    by (induction rows arbitrary: p) (auto simp: partition_row_def push_verdict_def Let_def)
  then show ?thesis by (simp add: push_withhold_partition_def)
qed

interpretation push_door: egress_door push_verdict "\<lambda>row. row_trace_id repr (JObj row)"
  "\<lambda>rows. pp_pushed (push_withhold_partition repr (map JObj rows))"
  "\<lambda>rows. map wh_trace_id (pp_withheld (push_withhold_partition repr (map JObj rows)))" for repr
  by unfold_locales (simp_all only: push_rows)

text \<open>Door B asks the manifest for the source trace of the row; a row without a gateable source has none.\<close>

definition row_verdict :: "(json \<Rightarrow> string) \<Rightarrow> (string \<Rightarrow> json) \<Rightarrow> json \<Rightarrow> index_entry list \<Rightarrow> string \<Rightarrow> clearance option" where
  "row_verdict repr lookup manifest es r =
     (case dget (trace_by_row es) r of
        Some (Some t) \<Rightarrow> if row_source_is_gateable_trace lookup (Some t) then Some (clearance_for_trace repr lookup (Some manifest) t) else None
      | _ \<Rightarrow> None)"

lemma source_clear_verdict:
  "source_clear repr lookup manifest es =
    (\<lambda>r. row_verdict repr lookup manifest es r = None \<or> row_verdict repr lookup manifest es r = Some CLEARED)"
  by (rule ext) (auto simp: source_clear_def row_verdict_def row_source_is_gateable_trace_def Let_def split: option.splits)

interpretation row_door: egress_door "row_verdict repr lookup manifest es" "\<lambda>r. r"
  "\<lambda>ids. fst (dataset_egress_clearance repr lookup manifest es ids)"
  "\<lambda>ids. map rr_row_id (snd (dataset_egress_clearance repr lookup manifest es ids))" for repr lookup manifest es
proof
  fix ids
  note gate = gate_partition [of repr lookup manifest es ids]
  show "fst (dataset_egress_clearance repr lookup manifest es ids) =
      map (\<lambda>r. r) (filter (\<lambda>r. row_verdict repr lookup manifest es r = None \<or> row_verdict repr lookup manifest es r = Some CLEARED) ids)"
    using conjunct1 [OF gate] by (simp add: prod_eq_iff source_clear_verdict)
  show "map rr_row_id (snd (dataset_egress_clearance repr lookup manifest es ids)) =
      map (\<lambda>r. r) (filter (\<lambda>r. row_verdict repr lookup manifest es r \<noteq> None \<and> row_verdict repr lookup manifest es r \<noteq> Some CLEARED) ids)"
    using conjunct2 [OF gate] by (simp add: source_clear_verdict)
qed

text \<open>Door C asks the manifest for each source of the capsule.\<close>

definition capsule_refused :: "capsule_error + string list \<Rightarrow> string list" where
  "capsule_refused out = (case out of Inl (CapsuleWithheld ws) \<Rightarrow> map fst ws | _ \<Rightarrow> [])"

lemma capsule_clear:
  "enforce_capsule_clearance repr lookup manifest allow capsule = Inr ids \<Longrightarrow>
    t \<in> set ids \<Longrightarrow> clearance_for_trace repr lookup manifest t = CLEARED"
  by (auto simp: enforce_capsule_clearance_def Let_def filter_empty_conv split: sum.splits if_splits)

section \<open>One predicate for the three doors\<close>

lemma jobj_rows: "filter is_jobj rows = map JObj (map (\<lambda>r. case r of JObj d \<Rightarrow> d | _ \<Rightarrow> []) (filter is_jobj rows))"
proof -
  have "map (\<lambda>r. JObj (case r of JObj d \<Rightarrow> d | _ \<Rightarrow> [])) (filter is_jobj rows) = filter is_jobj rows"
    by (rule map_idI) (auto simp: is_jobj_def split: json.splits)
  then show ?thesis by (simp add: comp_def)
qed

lemma find_distinct:
  assumes "distinct (map k rows)" "row \<in> set rows"
  shows "find (\<lambda>r. k r = k row) rows = Some row"
  using assms by (induction rows) (auto simp: image_iff)

lemma manifest_clearance:
  assumes "distinct (map (row_trace_id repr) (filter is_jobj rows))" "jfield m ''traces'' = JList rows"
  shows "clearance_for_trace repr lookup (Some m) t = CLEARED \<longleftrightarrow>
    (\<exists>row\<in>set rows. is_jobj row \<and> row_trace_id repr row = t \<and> clearance_state (jfield row ''status'') = CLEARED)"
proof -
  have f: "find (\<lambda>row. is_jobj row \<and> row_trace_id repr row = t) rows = find (\<lambda>row. row_trace_id repr row = t) (filter is_jobj rows)"
    by (induction rows) auto
  show ?thesis
  proof (cases "find (\<lambda>row. row_trace_id repr row = t) (filter is_jobj rows)")
    case None
    then have "\<forall>row\<in>set rows. is_jobj row \<longrightarrow> row_trace_id repr row \<noteq> t" by (auto simp: find_None_iff)
    then show ?thesis using None by (auto simp: clearance_for_trace_def assms(2) f)
  next
    case (Some row)
    then obtain i where i: "i < length (filter is_jobj rows)" "row_trace_id repr (filter is_jobj rows ! i) = t" "row = filter is_jobj rows ! i"
      unfolding find_Some_iff by blast
    from nth_mem [OF i(1)] i(2) have "row \<in> set (filter is_jobj rows)" "row_trace_id repr row = t" unfolding i(3) .
    then have row: "row \<in> set rows" "is_jobj row" "row_trace_id repr row = t" by simp_all
    have same: "row' = row" if "row' \<in> set rows" "is_jobj row'" "row_trace_id repr row' = t" for row'
      using find_distinct [OF assms(1), of row'] Some that by simp
    have state: "clearance_for_trace repr lookup (Some m) t = clearance_state (jfield row ''status'')"
      by (simp add: clearance_for_trace_def assms(2) f Some)
    show ?thesis unfolding state
    proof
      assume "clearance_state (jfield row ''status'') = CLEARED"
      with row show "\<exists>row\<in>set rows. is_jobj row \<and> row_trace_id repr row = t \<and> clearance_state (jfield row ''status'') = CLEARED"
        by (intro bexI [of _ row]) simp_all
    next
      assume "\<exists>row\<in>set rows. is_jobj row \<and> row_trace_id repr row = t \<and> clearance_state (jfield row ''status'') = CLEARED"
      then obtain row' where "row' \<in> set rows" "is_jobj row'" "row_trace_id repr row' = t" "clearance_state (jfield row' ''status'') = CLEARED"
        by blast
      with same show "clearance_state (jfield row ''status'') = CLEARED" by metis
    qed
  qed
qed

text \<open>
  C2. The three doors read one predicate. For a manifest with one row per trace, what Door A pushes is exactly what
  the clearance predicate clears. Every source of a capsule that Door C lets out is among the pushed traces, and when
  Door B refuses no row, the source trace of every row that has a gateable one is among them too. So no door is
  a way round another.
\<close>

theorem doors_agree:
  assumes "m = JObj d" "jget d ''traces'' = JList rows" "distinct (map (row_trace_id repr) (filter is_jobj rows))"
  shows "\<exists>p. partition_from_manifest repr m = Inr p \<and>
    (\<forall>t. t \<in> set (pp_pushed p) \<longleftrightarrow> clearance_for_trace repr lookup (Some m) t = CLEARED) \<and>
    (\<forall>allow capsule ids. enforce_capsule_clearance repr lookup (Some m) allow capsule = Inr ids \<longrightarrow> set ids \<subseteq> set (pp_pushed p)) \<and>
    (\<forall>es ids r t. snd (dataset_egress_clearance repr lookup m es ids) = [] \<and> r \<in> set ids \<and> dget (trace_by_row es) r = Some (Some t) \<and>
       row_source_is_gateable_trace lookup (Some t) \<longrightarrow> t \<in> set (pp_pushed p))"
proof -
  let ?p = "push_withhold_partition repr (filter is_jobj rows)"
  have p: "partition_from_manifest repr m = Inr ?p"
    by (auto simp: assms(1,2) partition_from_manifest_def iter_or_empty_def py_iter_def push_withhold_partition_def)
  have field: "jfield m ''traces'' = JList rows" by (simp add: assms(1,2))
  let ?ds = "map (\<lambda>r. case r of JObj d \<Rightarrow> d | _ \<Rightarrow> []) (filter is_jobj rows)"
  have "t \<in> set (pp_pushed ?p) \<longleftrightarrow> (\<exists>row\<in>set (filter is_jobj rows). row_trace_id repr row = t \<and> clearance_state (jfield row ''status'') = CLEARED)" for t
  proof -
    have eq: "map JObj ?ds = filter is_jobj rows" by (rule jobj_rows [symmetric])
    have "t \<in> set (pp_pushed (push_withhold_partition repr (map JObj ?ds))) \<longleftrightarrow>
        (\<exists>row\<in>set (map JObj ?ds). row_trace_id repr row = t \<and> clearance_state (jfield row ''status'') = CLEARED)"
      unfolding conjunct1 [OF push_rows] by (auto simp: push_verdict_def)
    then show ?thesis unfolding eq .
  qed
  then have pushed: "t \<in> set (pp_pushed ?p) \<longleftrightarrow> clearance_for_trace repr lookup (Some m) t = CLEARED" for t
    by (auto simp: manifest_clearance [OF assms(3) field])
  have "t \<in> set (pp_pushed ?p)" if "snd (dataset_egress_clearance repr lookup m es ids) = []" "r \<in> set ids"
    "dget (trace_by_row es) r = Some (Some t)" "row_source_is_gateable_trace lookup (Some t)" for es ids r t
    using row_door.refused_none [of repr lookup m es ids r] that by (simp add: pushed row_verdict_def)
  then show ?thesis using p pushed capsule_clear by (intro exI [of _ ?p]) blast
qed


theorem doors_agree_witness:
  "(let rows = [JObj [(''trace_id'', JStr ''a''), (''status'', JObj [(''known'', JBool True), (''syncable'', JBool True)])],
                JObj [(''trace_id'', JStr ''b''), (''status'', JObj [(''known'', JBool True), (''syncable'', JBool False)])]];
        m = JObj [(''traces'', JList rows)]
    in \<exists>p. partition_from_manifest (\<lambda>_. []) m = Inr p \<and> pp_pushed p = [''a''] \<and>
       clearance_for_trace (\<lambda>_. []) (\<lambda>_. JNull) (Some m) ''b'' \<noteq> CLEARED)"
proof -
  let ?rows = "[JObj [(''trace_id'', JStr ''a''), (''status'', JObj [(''known'', JBool True), (''syncable'', JBool True)])],
                JObj [(''trace_id'', JStr ''b''), (''status'', JObj [(''known'', JBool True), (''syncable'', JBool False)])]]"
  let ?m = "JObj [(''traces'', JList ?rows)]"
  have ids: "distinct (map (row_trace_id (\<lambda>_. [])) (filter is_jobj ?rows))" by code_simp
  have run: "case partition_from_manifest (\<lambda>_. []) ?m of Inr p \<Rightarrow> pp_pushed p = [''a''] | _ \<Rightarrow> False" by code_simp
  obtain p where p: "partition_from_manifest (\<lambda>_. []) ?m = Inr p"
    "\<forall>t. t \<in> set (pp_pushed p) \<longleftrightarrow> clearance_for_trace (\<lambda>_. []) (\<lambda>_. JNull) (Some ?m) t = CLEARED"
    using doors_agree [OF refl _ ids, of "[(''traces'', JList ?rows)]" "\<lambda>_. JNull"] by auto
  with run have "pp_pushed p = [''a'']" by simp
  moreover have "''b'' \<notin> set (pp_pushed p)" by (simp add: calculation)
  ultimately show ?thesis unfolding Let_def using p by blast
qed

end
