(* ===== verification/BucketEnvelope.thy ===== *)
theory BucketEnvelope
  imports DatasetModel SearchRecords ContextModel
begin

text \<open>
  The files the bucket keeps for one trace (\<^verbatim>\<open>core/bucket_envelope.py\<close>): the events of the trace split into trail and
  context, the anchors the event log proves, the patches of a record rewritten from those anchors, the writer of the
  files, the projection that chooses its source of events, and the row that summarises them in the manifest.
\<close>

section \<open>The events of one trace\<close>

definition CONTEXT_EVENT_TYPES :: "string list" where
  "CONTEXT_EVENT_TYPES = [CONTEXT_LAYER_CAPTURED, CONTEXT_NODE_OBSERVED, CONTEXT_COMPACTION_OBSERVED, CONTEXT_TREE_RECONCILED]"

text \<open>An event belongs to the trace it names, in its header or in its payload, or to each trace its search touched.\<close>

definition event_belongs :: "string \<Rightarrow> trail_event \<Rightarrow> py_error + bool" where
  "event_belongs t e =
     (if jor (of_opt_str (ev_trace e)) (jget (ev_payload e) ''trace_id'') = JStr t then Inr True
      else summary_search_touches_trace e t)"

fun split_events :: "string \<Rightarrow> trail_event list \<Rightarrow> py_error + trail_event list \<times> trail_event list" where
  "split_events t [] = Inr ([], [])"
| "split_events t (e # es) =
     (case event_belongs t e of Inl err \<Rightarrow> Inl err
      | Inr b \<Rightarrow> (case split_events t es of Inl err \<Rightarrow> Inl err
          | Inr (trail, ctx) \<Rightarrow>
              Inr (if \<not> b then (trail, ctx)
                   else if ev_type e \<in> set CONTEXT_EVENT_TYPES then (trail, e # ctx) else (e # trail, ctx))))"

definition events_for_trace_from_iter :: "trail_event list \<Rightarrow> string \<Rightarrow> py_error + trail_event list \<times> trail_event list" where
  "events_for_trace_from_iter es t = split_events t (sort_key ev_seq es)"

text \<open>
  The sources of events: the projects opted in, in their order; the read of a repository that is scoped to one trace,
  the full read, and the read of its anchors (None when they raise); and the bucket's own mirror, which is absent
  (or of another layout), broken, or there.
\<close>

datatype mirror_read = MirrorAbsent | MirrorBroken py_error | MirrorEvents "trail_event list"

record event_sources =
  es_repr :: "json \<Rightarrow> string"
  es_projects :: "(string \<times> string) list"
  es_scoped :: "string \<Rightarrow> string \<Rightarrow> trail_event list option"
  es_full :: "string \<Rightarrow> trail_event list option"
  es_anchors :: "string \<Rightarrow> trail_event list option"
  es_mirror :: "string \<Rightarrow> mirror_read"

definition slug_repo :: "event_sources \<Rightarrow> (string, string) dict" where
  "slug_repo X = fold (\<lambda>(path, slug) d. dset d slug path) (es_projects X) []"

definition context_events_for_trace_readonly :: "event_sources \<Rightarrow> string \<Rightarrow> string \<Rightarrow> py_error + trail_event list" where
  "context_events_for_trace_readonly X project t =
     (let es = (case find (\<lambda>(path, slug). slug = project) (es_projects X) of None \<Rightarrow> []
          | Some (path, _) \<Rightarrow> (case es_full X path of None \<Rightarrow> [] | Some es \<Rightarrow> es))
      in case events_for_trace_from_iter es t of Inl err \<Rightarrow> Inl err
         | Inr (trail, ctx) \<Rightarrow>
             if trail \<noteq> [] \<or> ctx \<noteq> [] then Inr ctx
             else (case es_mirror X t of MirrorBroken err \<Rightarrow> Inl err
               | MirrorAbsent \<Rightarrow> Inr []
               | MirrorEvents ms \<Rightarrow> (case events_for_trace_from_iter ms t of Inl err \<Rightarrow> Inl err | Inr (_, c) \<Rightarrow> Inr c)))"

section \<open>The anchors the log proves\<close>

record anchor_event =
  ae_seq :: int
  ae_commit :: json
  ae_tier :: json
  ae_firm :: json
  ae_path :: json
  ae_time :: string

definition GIT_ANCHOR_CREATED :: string where "GIT_ANCHOR_CREATED = ''git_anchor_created''"

text \<open>The patch and the commit of an anchor event; None for an event without one of them.\<close>

definition anchor_of :: "(json \<Rightarrow> string) \<Rightarrow> trail_event \<Rightarrow> py_error + (string \<times> anchor_event) option" where
  "anchor_of repr e =
     (let p = ev_payload e in
      case jor (jget p ''commit_id'') (JObj []) of
        JObj c \<Rightarrow> Inr (case id_from_payload repr p ''trace_patch'' of None \<Rightarrow> None
          | Some pid \<Rightarrow> if pid = [] \<or> \<not> truthy (jget c ''hex'') then None
              else Some (pid, \<lparr>ae_seq = ev_seq e, ae_commit = jget c ''hex'', ae_tier = jget p ''evidence_tier'',
                ae_firm = jget p ''evidence_firmness'', ae_path = jget p ''path'', ae_time = ev_time e\<rparr>))
      | _ \<Rightarrow> Inl AttributeError)"

type_synonym patch_anchors = "(string, anchor_event list) dict"

fun anchor_map_from_trail_events :: "(json \<Rightarrow> string) \<Rightarrow> trail_event list \<Rightarrow> patch_anchors \<Rightarrow> py_error + patch_anchors" where
  "anchor_map_from_trail_events repr [] m = Inr m"
| "anchor_map_from_trail_events repr (e # es) m =
     (if ev_type e \<noteq> GIT_ANCHOR_CREATED then anchor_map_from_trail_events repr es m
      else (case anchor_of repr e of Inl err \<Rightarrow> Inl err
        | Inr None \<Rightarrow> anchor_map_from_trail_events repr es m
        | Inr (Some (pid, a)) \<Rightarrow> anchor_map_from_trail_events repr es (dappend m pid a)))"

definition add_new :: "'a list \<Rightarrow> 'a \<Rightarrow> 'a list" where
  "add_new xs x = (if x \<in> set xs then xs else xs @ [x])"

text \<open>A read that fails is no authority: it proves nothing about the anchors of the trace.\<close>

fun anchored_ids :: "(json \<Rightarrow> string) \<Rightarrow> trail_event list \<Rightarrow> string list \<Rightarrow> py_error + string list" where
  "anchored_ids repr [] acc = Inr acc"
| "anchored_ids repr (e # es) acc =
     (if ev_type e \<noteq> GIT_ANCHOR_CREATED then anchored_ids repr es acc
      else (case anchor_of repr e of Inl err \<Rightarrow> Inl err
        | Inr None \<Rightarrow> anchored_ids repr es acc
        | Inr (Some (pid, _)) \<Rightarrow> anchored_ids repr es (add_new acc pid)))"

definition canonical_anchor_ids_for_trace :: "event_sources \<Rightarrow> string option \<Rightarrow> string \<Rightarrow> py_error + string list \<times> bool" where
  "canonical_anchor_ids_for_trace X repo t =
     (case repo of None \<Rightarrow> Inr ([], False)
      | Some r \<Rightarrow> (case es_scoped X r t of None \<Rightarrow> Inr ([], False)
          | Some es \<Rightarrow> (case anchored_ids (es_repr X) es [] of Inl err \<Rightarrow> Inl err | Inr ids \<Rightarrow> Inr (ids, True))))"

record anchor_maps =
  am_anchors :: "(string, patch_anchors) dict"
  am_anchored :: "(string, string list) dict"
  am_resolved :: "string list"
  am_read :: "string list"
  am_failed :: "string list"

definition no_anchors :: anchor_maps where
  "no_anchors = \<lparr>am_anchors = [], am_anchored = [], am_resolved = [], am_read = [], am_failed = []\<rparr>"

fun add_anchors :: "(json \<Rightarrow> string) \<Rightarrow> trail_event list \<Rightarrow> anchor_maps \<Rightarrow> py_error + anchor_maps" where
  "add_anchors repr [] M = Inr M"
| "add_anchors repr (e # es) M =
     (case anchor_of repr e of Inl err \<Rightarrow> Inl err
      | Inr None \<Rightarrow> add_anchors repr es M
      | Inr (Some (pid, a)) \<Rightarrow>
          (case ev_trace e of None \<Rightarrow> add_anchors repr es M
           | Some t \<Rightarrow> if t = [] then add_anchors repr es M
              else add_anchors repr es (M\<lparr>
                am_anchors := dset (am_anchors M) t (dappend (case dget (am_anchors M) t of None \<Rightarrow> [] | Some m \<Rightarrow> m) pid a),
                am_anchored := dset (am_anchored M) t (add_new (case dget (am_anchored M) t of None \<Rightarrow> [] | Some ids \<Rightarrow> ids) pid)\<rparr>)))"

text \<open>Every repository is read once; a project is resolved only after the read of its repository succeeded.\<close>

fun canonical_anchor_maps :: "event_sources \<Rightarrow> string list \<Rightarrow> anchor_maps \<Rightarrow> py_error + anchor_maps" where
  "canonical_anchor_maps X [] M = Inr M"
| "canonical_anchor_maps X (slug # slugs) M =
     (case dget (slug_repo X) slug of None \<Rightarrow> canonical_anchor_maps X slugs M
      | Some repo \<Rightarrow>
          if repo \<in> set (am_failed M) then canonical_anchor_maps X slugs M
          else if repo \<in> set (am_read M) then canonical_anchor_maps X slugs (M\<lparr>am_resolved := add_new (am_resolved M) slug\<rparr>)
          else (case es_anchors X repo of
              None \<Rightarrow> canonical_anchor_maps X slugs (M\<lparr>am_failed := am_failed M @ [repo]\<rparr>)
            | Some es \<Rightarrow> (case add_anchors (es_repr X) es (M\<lparr>am_read := am_read M @ [repo]\<rparr>) of Inl err \<Rightarrow> Inl err
                | Inr M' \<Rightarrow> canonical_anchor_maps X slugs (M'\<lparr>am_resolved := add_new (am_resolved M') slug\<rparr>))))"

section \<open>The patches of a record, rewritten from the anchors\<close>

type_synonym patch_row = "(string, json) dict"

fun collapse_rows :: "json list \<Rightarrow> patch_row list \<Rightarrow> patch_row list" where
  "collapse_rows seen [] = []"
| "collapse_rows seen (p # ps) =
     (if jget p ''patch_id'' \<in> set seen then collapse_rows seen ps
      else dpop p ''superseded_by'' # collapse_rows (jget p ''patch_id'' # seen) ps)"

fun first_commits :: "json list \<Rightarrow> anchor_event list \<Rightarrow> anchor_event list" where
  "first_commits seen [] = []"
| "first_commits seen (a # as) =
     (if ae_commit a \<in> set seen then first_commits seen as else a # first_commits (ae_commit a # seen) as)"

text \<open>
  The anchors of a patch are sorted by their sequence number first; the numbers of one log are distinct, so the
  comparison of the code never reaches the other members of the tuple.
\<close>

definition ordered_anchors :: "anchor_event list \<Rightarrow> anchor_event list" where
  "ordered_anchors as = first_commits [] (sort_key ae_seq as)"

definition patch_anchor :: "json \<Rightarrow> bool \<Rightarrow> json \<Rightarrow> json \<Rightarrow> json \<Rightarrow> json \<Rightarrow> json" where
  "patch_anchor searched found commit path tier firm =
     JObj [(''last_searched_at'', searched), (''found'', JBool found), (''commit_sha'', commit), (''path'', path), (''blob_sha'', JNull),
       (''git_patch_id'', JNull), (''evidence_tier'', tier), (''evidence_firmness'', firm)]"

definition anchored_row :: "patch_row \<Rightarrow> json list \<Rightarrow> anchor_event \<Rightarrow> patch_row" where
  "anchored_row p commits a =
     dset (dset p ''anchor'' (patch_anchor (JStr (ae_time a)) True (ae_commit a) (jor (ae_path a) (jget p ''file_path''))
         (jor (ae_tier a) (JStr ''exact_range_hash'')) (jor (ae_firm a) (JStr ''firm_observed''))))
       ''superseded_by'' (JList (filter (\<lambda>c. c \<noteq> ae_commit a) (rev commits)))"

definition deattributed_row :: "patch_row \<Rightarrow> patch_row" where
  "deattributed_row p =
     (let prev = jget p ''anchor'' in
      dset (dset p ''anchor'' (if truthy (jfield prev ''last_searched_at'')
          then patch_anchor (jfield prev ''last_searched_at'') False JNull JNull JNull JNull else JNull))
        ''superseded_by'' (JList []))"

definition anchors_for :: "patch_anchors \<Rightarrow> patch_row \<Rightarrow> anchor_event list" where
  "anchors_for m p = (case jget p ''patch_id'' of JStr pid \<Rightarrow> (case dget m pid of None \<Rightarrow> [] | Some as \<Rightarrow> as) | _ \<Rightarrow> [])"

definition rederive_row :: "patch_anchors \<Rightarrow> patch_row \<Rightarrow> patch_row list" where
  "rederive_row m p =
     (if anchors_for m p = [] then [deattributed_row p]
      else (let as = ordered_anchors (anchors_for m p) in map (anchored_row p (map ae_commit as)) as))"

record rederived =
  rd_rows :: "patch_row list"
  rd_anchored :: nat
  rd_deattributed :: nat

definition rederive_patch_rows :: "patch_row list \<Rightarrow> patch_anchors \<Rightarrow> rederived" where
  "rederive_patch_rows ps m =
     (let base = collapse_rows [] ps
      in \<lparr>rd_rows = concat (map (rederive_row m) base),
          rd_anchored = count_by (\<lambda>p. anchors_for m p \<noteq> []) base,
          rd_deattributed = count_by (\<lambda>p. anchors_for m p = [] \<and> truthy (jfield (jget p ''anchor'') ''found'')) base\<rparr>)"

section \<open>Writing the files\<close>

text \<open>
  The files of one trace: \<^verbatim>\<open>trace.json\<close> (written last, so it may be missing when the others are there), the events of
  its trail and of its context (a file holds one canonical line for each), and whether the sources are there.
\<close>

datatype spine = SpineAbsent | SpineUnreadable | SpineHolds trace_record

definition spine_record :: "spine \<Rightarrow> trace_record option" where
  "spine_record s = (case s of SpineHolds r \<Rightarrow> Some r | _ \<Rightarrow> None)"

record trace_files =
  tf_spine :: spine
  tf_trail :: "trail_event list option"
  tf_context :: "trail_event list option"
  tf_sources :: bool

definition no_files :: trace_files where
  "no_files = \<lparr>tf_spine = SpineAbsent, tf_trail = None, tf_context = None, tf_sources = False\<rparr>"

definition patch_rows :: "json list \<Rightarrow> patch_row list" where
  "patch_rows ps = concat (map (\<lambda>p. case p of JObj d \<Rightarrow> [d] | _ \<Rightarrow> []) ps)"

definition stored_record :: "object_store \<Rightarrow> string \<Rightarrow> string \<Rightarrow> trace_record option" where
  "stored_record S project t =
     (case (case dget (os_current S) (project, t) of None \<Rightarrow> None | Some ob \<Rightarrow> read_trace_record_object ob) of
        None \<Rightarrow> None | Some ob \<Rightarrow> Some (bo_record ob))"

definition write_per_trace_envelope ::
  "object_store \<Rightarrow> string \<Rightarrow> string \<Rightarrow> trace_record option \<Rightarrow> trail_event list \<Rightarrow> trail_event list \<Rightarrow> patch_anchors option \<Rightarrow> bool \<Rightarrow>
    trace_files \<Rightarrow> trace_files" where
  "write_per_trace_envelope S project t r trail ctx anchors keep files =
     (let r' = (case r of Some x \<Rightarrow> Some x | None \<Rightarrow> stored_record S project t)
      in \<lparr>tf_spine = (case r' of None \<Rightarrow> tf_spine files
            | Some x \<Rightarrow> SpineHolds (case anchors of None \<Rightarrow> x
                | Some m \<Rightarrow> x\<lparr>rec_patches := map JObj (rd_rows (rederive_patch_rows (patch_rows (rec_patches x)) m))\<rparr>)),
          tf_trail = (if keep \<and> tf_trail files \<noteq> None then tf_trail files else Some trail),
          tf_context = (if keep \<and> tf_context files \<noteq> None then tf_context files else Some ctx),
          tf_sources = True\<rparr>)"

text \<open>\<open>events\<close> is the shared read of a loop with its authority; without one the repository is read for this trace.\<close>

definition project_per_trace_exports ::
  "event_sources \<Rightarrow> object_store \<Rightarrow> string option \<Rightarrow> string \<Rightarrow> string \<Rightarrow> trace_record option \<Rightarrow> (trail_event list \<times> bool) option \<Rightarrow> bool \<Rightarrow>
    trace_files \<Rightarrow> py_error + trace_files" where
  "project_per_trace_exports X S repo project t r events mirror_fallback files =
     (let (es, source_ok) = (case events of Some (xs, authoritative) \<Rightarrow> (xs, authoritative)
            | None \<Rightarrow> (case repo of None \<Rightarrow> ([], False)
                | Some p \<Rightarrow> (case es_scoped X p t of None \<Rightarrow> ([], False) | Some xs \<Rightarrow> (xs, xs \<noteq> []))));
          explicit = (case events of Some (_, authoritative) \<Rightarrow> authoritative | None \<Rightarrow> False)
      in case events_for_trace_from_iter es t of Inl err \<Rightarrow> Inl err
         | Inr (trail, ctx) \<Rightarrow>
             (let fallback = (trail = [] \<and> ctx = [] \<and> mirror_fallback \<and> \<not> explicit);
                  mirrored = (case es_mirror X t of MirrorEvents ms \<Rightarrow> ms | _ \<Rightarrow> []);
                  anchor_ok = (if fallback then mirrored \<noteq> [] else source_ok);
                  companions_ok = (if fallback then mirrored \<noteq> [] else explicit)
              in case (if fallback then events_for_trace_from_iter mirrored t else Inr (trail, ctx)) of Inl err \<Rightarrow> Inl err
                 | Inr (trail', ctx') \<Rightarrow>
                     (case (if anchor_ok then map_sum id Some (anchor_map_from_trail_events (es_repr X) trail' []) else Inr None) of
                        Inl err \<Rightarrow> Inl err
                      | Inr anchors \<Rightarrow> Inr (write_per_trace_envelope S project t r trail' ctx' anchors
                          (trail' = [] \<and> ctx' = [] \<and> \<not> companions_ok) files))))"

section \<open>The row of one trace\<close>

text \<open>The object of the trace decides its status; without one, the state computed from the record at hand.\<close>

definition record_envelope_only :: "trace_record \<Rightarrow> bucket_object" where
  "record_envelope_only r =
     \<lparr>bo_project = [], bo_layer = [], bo_trace_id = rec_trace_id r, bo_record_hash = [], bo_legacy_mirror = False,
      bo_security = bucket_security_state None r, bo_written_at = [], bo_record = r\<rparr>"

definition resolve_record_envelope :: "object_store \<Rightarrow> string \<Rightarrow> string \<Rightarrow> trace_record option \<Rightarrow> bucket_object option" where
  "resolve_record_envelope S project t r =
     (case (case dget (os_current S) (project, t) of None \<Rightarrow> None | Some ob \<Rightarrow> read_trace_record_object ob) of
        Some ob \<Rightarrow> Some ob
      | None \<Rightarrow> (case r of None \<Rightarrow> None | Some x \<Rightarrow> Some (record_envelope_only x)))"

definition found_patch :: "json \<Rightarrow> bool" where
  "found_patch p \<longleftrightarrow> jfield p ''anchor'' \<noteq> JNull \<and> truthy (jfield (jfield p ''anchor'') ''found'')"

definition anchored_in_record :: "trace_record \<Rightarrow> nat" where
  "anchored_in_record r = length (remdups (map (\<lambda>p. jfield p ''patch_id'') (filter found_patch (rec_patches r))))"

definition context_nodes :: "trail_event list \<Rightarrow> nat" where
  "context_nodes es = count_by (\<lambda>e. ev_type e = CONTEXT_NODE_OBSERVED) es"

definition summary_capture_methods :: "(json \<Rightarrow> string) \<Rightarrow> trace_record \<Rightarrow> string list" where
  "summary_capture_methods repr r =
     (case jget (context_tree_summary r) ''capture_methods'' of
        JList ms \<Rightarrow> sort (map (py_str repr) (filter truthy ms)) | _ \<Rightarrow> [])"

text \<open>\<open>present\<close> is the mode of a read that must not write: the row as it will be once the files are there, with the nodes counted.\<close>

definition per_trace_v2_summary ::
  "digest_env \<Rightarrow> (json \<Rightarrow> string) \<Rightarrow> string \<Rightarrow> string \<Rightarrow> trace_record option \<Rightarrow> nat option \<Rightarrow> trace_files \<Rightarrow> bucket_object option \<Rightarrow>
    string list option \<Rightarrow> bool \<Rightarrow> (string, json) dict" where
  "per_trace_v2_summary D repr project t r present files envelope ids resolved =
     (let has_trail = (present \<noteq> None \<or> tf_trail files \<noteq> None); has_context = (present \<noteq> None \<or> tf_context files \<noteq> None);
          has_sources = (present \<noteq> None \<or> tf_sources files);
          count = (\<lambda>n. JInt (int n));
          step_n = count (case r of None \<Rightarrow> 0 | Some x \<Rightarrow> length (steps x));
          patch_n = count (case r of None \<Rightarrow> 0 | Some x \<Rightarrow> length (rec_patches x));
          anchor_n = count (case r of None \<Rightarrow> 0
            | Some x \<Rightarrow> if resolved then (case ids of None \<Rightarrow> 0 | Some xs \<Rightarrow> length xs) else anchored_in_record x);
          node_n = count (case present of Some n \<Rightarrow> n
            | None \<Rightarrow> (case tf_context files of None \<Rightarrow> 0 | Some es \<Rightarrow> context_nodes es));
          methods = JList (map JStr (case r of None \<Rightarrow> [] | Some x \<Rightarrow> summary_capture_methods repr x));
          title = (case r of None \<Rightarrow> JNull
            | Some x \<Rightarrow> if truthy_str (task_description (rec_task x)) then of_opt_str (task_description (rec_task x)) else JNull);
          cycle = (case r of None \<Rightarrow> JNull | Some x \<Rightarrow> JStr (lifecycle x));
          agent = (case r of None \<Rightarrow> (JNull, JNull, JNull)
            | Some x \<Rightarrow> (JStr (agent_name (rec_agent x)), of_opt_str (agent_version (rec_agent x)), of_opt_str (agent_model (rec_agent x))));
          material = JObj [(''project_slug'', JStr project), (''trace_id'', JStr t), (''step_count'', step_n), (''patch_count'', patch_n),
            (''anchored_count'', anchor_n), (''node_count'', node_n), (''capture_methods'', methods), (''lifecycle'', cycle),
            (''agent_name'', fst agent), (''agent_version'', fst (snd agent)), (''agent_model'', snd (snd agent)),
            (''has_trail'', JBool has_trail), (''has_context'', JBool has_context), (''has_sources'', JBool has_sources)]
      in [(''project_slug'', JStr project), (''trace_id'', JStr t), (''title'', title),
          (''agent_name'', fst agent), (''agent_version'', fst (snd agent)), (''agent_model'', snd (snd agent)),
          (''trace_path'', JStr (''traces/v1/'' @ path_part project @ ''/'' @ path_part t @ ''/trace.json'')),
          (''lifecycle'', jor cycle (JStr ''provisional'')),
          (''summary'', JObj [(''step_count'', step_n), (''patch_count'', patch_n), (''anchored_count'', anchor_n), (''node_count'', node_n),
             (''capture_methods'', methods)]),
          (''files'', JObj [(''has_trail'', JBool has_trail), (''has_context'', JBool has_context), (''has_sources'', JBool has_sources)]),
          (''remote_sync_eligible'', JBool False),
          (''status'', JObj (row_status_block envelope)),
          (''digest'', JStr (digest_payload D material))])"

end
