(* ===== verification/BucketManifest.thy ===== *)
theory BucketManifest
  imports BucketEnvelope
begin

text \<open>
  The manifest of the bucket (\<^verbatim>\<open>core/bucket_store.py\<close>, \<^verbatim>\<open>core/bucket_envelope.py\<close>): one row per trace with the summary of
  its files and the status the doors read, the sweep that computes all of them, the upsert of one row at capture
  time, the digest that is the same on every machine, and the status that is read off the persisted rows.
\<close>

section \<open>What the bucket holds\<close>

text \<open>The manifest file with its size in bytes. What is written is the canonical form.\<close>

datatype manifest_file = ManifestAbsent | ManifestUnreadable | ManifestHolds nat json

record bucket =
  bk_objects :: object_store
  bk_traces :: "(string \<times> string, trace_files) dict"
  bk_manifest :: manifest_file
  bk_marker :: "string option"

text \<open>
  What a sweep needs from outside: digests and printing, the clock, the absolute root, the size of a file, the path of an
  object, the event logs, whether the trace still lies in place in a legacy store and whether a link to its captured
  source exists, and the snapshots of the other parts of the bucket.
\<close>

record manifest_env =
  mf_digest :: digest_env
  mf_repr :: "json \<Rightarrow> string"
  mf_now :: string
  mf_root :: string
  mf_size :: "json \<Rightarrow> nat"
  mf_object_path :: "bucket_object \<Rightarrow> string"
  mf_sources :: event_sources
  mf_in_place :: "string \<Rightarrow> string \<Rightarrow> bool"
  mf_linked :: "string \<Rightarrow> string \<Rightarrow> bool"
  mf_freshness :: "json list"
  mf_raw :: json
  mf_trail_events :: json
  mf_contexts :: json
  mf_events_index :: json

definition BUCKET_MANIFEST_SCHEMA :: string where "BUCKET_MANIFEST_SCHEMA = ''opentraces.bucket.manifest.v2''"
definition BUCKET_EVENTS_INDEX_SCHEMA :: string where "BUCKET_EVENTS_INDEX_SCHEMA = ''opentraces.bucket.events.v2''"

definition is_legacy_read_in_place_mirror :: "manifest_env \<Rightarrow> string \<Rightarrow> string \<Rightarrow> bool" where
  "is_legacy_read_in_place_mirror E project t \<longleftrightarrow> mf_in_place E project t \<and> \<not> mf_linked E project t"

text \<open>Rows are ordered by project and trace; the rows of a sweep carry both as texts.\<close>

definition row_pair :: "(string, json) dict \<Rightarrow> (string \<times> string) option" where
  "row_pair row = (case (jget row ''project_slug'', jget row ''trace_id'') of (JStr p, JStr t) \<Rightarrow> Some (p, t) | _ \<Rightarrow> None)"

definition row_order :: "(string, json) dict \<Rightarrow> string \<times> string" where
  "row_order row = (case row_pair row of Some p \<Rightarrow> p | None \<Rightarrow> ([], []))"

section \<open>The sweep\<close>

definition object_envelopes :: "bucket_object list \<Rightarrow> (string \<times> string, bucket_object) dict" where
  "object_envelopes obs = fold (\<lambda>ob d. dset d (bo_project ob, bo_trace_id ob) ob) obs []"

text \<open>The anchors of the projects that have objects; a read that raises leaves every project unresolved.\<close>

definition sweep_anchors :: "manifest_env \<Rightarrow> bucket_object list \<Rightarrow> anchor_maps" where
  "sweep_anchors E obs =
     (case canonical_anchor_maps (mf_sources E) (remdups (map bo_project obs)) no_anchors of Inl err \<Rightarrow> no_anchors | Inr M \<Rightarrow> M)"

definition summary_row ::
  "manifest_env \<Rightarrow> anchor_maps \<Rightarrow> string \<Rightarrow> string \<Rightarrow> trace_record option \<Rightarrow> nat option \<Rightarrow> trace_files \<Rightarrow> bucket_object option \<Rightarrow> (string, json) dict" where
  "summary_row E M p t r present files envelope =
     per_trace_v2_summary (mf_digest E) (mf_repr E) p t r present files envelope (dget (am_anchored M) t) (p \<in> set (am_resolved M))"

definition iter_traces_v2 :: "manifest_env \<Rightarrow> anchor_maps \<Rightarrow> bucket_object list \<Rightarrow> bucket \<Rightarrow> (string, json) dict list" where
  "iter_traces_v2 E M obs B =
     sort_key row_order (map (\<lambda>((p, t), files).
       summary_row E M p t (spine_record (tf_spine files)) None files
         (case dget (object_envelopes obs) (p, t) of Some ob \<Rightarrow> Some ob
          | None \<Rightarrow> resolve_record_envelope (bk_objects B) p t (spine_record (tf_spine files))))
       (filter (\<lambda>(_, files). tf_spine files \<noteq> SpineAbsent) (bk_traces B)))"

record sweep =
  sw_rows :: "(string, json) dict list"
  sw_pairs :: "(string \<times> string) list"
  sw_traces :: "(string \<times> string, trace_files) dict"

definition files_of :: "(string \<times> string, trace_files) dict \<Rightarrow> string \<Rightarrow> string \<Rightarrow> trace_files" where
  "files_of traces p t = (case dget traces (p, t) of None \<Rightarrow> no_files | Some files \<Rightarrow> files)"

text \<open>The files of an object that has none: exported from the events, or from its record alone when that raises.\<close>

definition healed_files :: "manifest_env \<Rightarrow> object_store \<Rightarrow> bucket_object \<Rightarrow> trace_files \<Rightarrow> trace_files" where
  "healed_files E S ob files =
     (case project_per_trace_exports (mf_sources E) S (dget (slug_repo (mf_sources E)) (bo_project ob)) (bo_project ob) (bo_trace_id ob)
         (Some (bo_record ob)) None True files of
        Inr files' \<Rightarrow> files'
      | Inl err \<Rightarrow> write_per_trace_envelope S (bo_project ob) (bo_trace_id ob) (Some (bo_record ob)) [] [] None False files)"

definition note_row :: "sweep \<Rightarrow> string \<times> string \<Rightarrow> (string, json) dict \<Rightarrow> sweep" where
  "note_row st pair row = st\<lparr>sw_rows := sw_rows st @ [row], sw_pairs := sw_pairs st @ [pair]\<rparr>"

definition sweep_object :: "manifest_env \<Rightarrow> anchor_maps \<Rightarrow> object_store \<Rightarrow> bool \<Rightarrow> bucket_object \<Rightarrow> sweep \<Rightarrow> py_error + sweep" where
  "sweep_object E M S heal ob st =
     (let p = bo_project ob; t = bo_trace_id ob in
      if (p, t) \<in> set (sw_pairs st) then Inr st
      else if is_legacy_read_in_place_mirror E p t then Inr st
      else if \<not> heal then
        (case context_events_for_trace_readonly (mf_sources E) p t of Inl err \<Rightarrow> Inl err
         | Inr ctx \<Rightarrow> Inr (note_row st (p, t) (summary_row E M p t (Some (bo_record ob)) (Some (context_nodes ctx)) no_files (Some ob))))
      else (let files = healed_files E S ob (files_of (sw_traces st) p t)
            in Inr ((note_row st (p, t) (summary_row E M p t (Some (bo_record ob)) None files (Some ob)))
                 \<lparr>sw_traces := dset (sw_traces st) (p, t) files\<rparr>)))"

fun sweep_objects :: "manifest_env \<Rightarrow> anchor_maps \<Rightarrow> object_store \<Rightarrow> bool \<Rightarrow> bucket_object list \<Rightarrow> sweep \<Rightarrow> py_error + sweep" where
  "sweep_objects E M S heal [] st = Inr st"
| "sweep_objects E M S heal (ob # obs) st =
     (case sweep_object E M S heal ob st of Inl err \<Rightarrow> Inl err | Inr st' \<Rightarrow> sweep_objects E M S heal obs st')"

definition sweep_traces :: "manifest_env \<Rightarrow> bool \<Rightarrow> bucket \<Rightarrow> py_error + sweep" where
  "sweep_traces E heal B =
     (let obs = iter_trace_record_objects (bk_objects B); M = sweep_anchors E obs; rows = iter_traces_v2 E M obs B
      in case sweep_objects E M (bk_objects B) heal obs \<lparr>sw_rows = rows, sw_pairs = map row_order rows, sw_traces = bk_traces B\<rparr> of
           Inl err \<Rightarrow> Inl err
         | Inr st \<Rightarrow> Inr (st\<lparr>sw_rows := sort_key row_order (sw_rows st)\<rparr>))"

section \<open>The counts of the objects\<close>

definition object_flag :: "string \<Rightarrow> bool \<Rightarrow> bucket_object \<Rightarrow> bool" where
  "object_flag k b ob \<longleftrightarrow> jget (bo_security ob) k = JBool b"

definition latest :: "string list \<Rightarrow> json" where
  "latest ts = (let m = fold max ts [] in if m = [] then JNull else JStr m)"

definition bucket_sync_blockers :: "bool \<Rightarrow> bool \<Rightarrow> string list" where
  "bucket_sync_blockers unfiltered stale =
     (if unfiltered then [''unfiltered_records''] else []) @ (if stale then [''security_version_stale''] else [])"

text \<open>One line of the snapshot digest per object, in the order of the paths.\<close>

definition object_line :: "manifest_env \<Rightarrow> bucket_object \<Rightarrow> string" where
  "object_line E ob =
     join '' '' (mf_object_path E ob # bo_record_hash ob #
       map (\<lambda>k. py_str (mf_repr E) (jget (bo_security ob) k)) [''privacy_tier'', ''security_version'', ''syncable'', ''stale''])"

definition trace_record_snapshot :: "manifest_env \<Rightarrow> bucket_object list \<Rightarrow> json" where
  "trace_record_snapshot E obs =
     JObj [(''schema_version'', JStr ''opentraces.bucket.trace_records_snapshot.v1''),
       (''root'', JStr (mf_root E @ ''/objects/traces/v1'')), (''object_count'', JInt (int (length obs))),
       (''digest'', JStr (digest_payload (mf_digest E) (JList (map (\<lambda>ob. JStr (object_line E ob)) (sort_key (mf_object_path E) obs)))))]"

definition trace_records_block :: "manifest_env \<Rightarrow> bucket_object list \<Rightarrow> json" where
  "trace_records_block E obs =
     (let count = (\<lambda>p. JInt (int (count_by p obs)))
      in JObj [(''snapshot'', trace_record_snapshot E obs), (''object_count'', JInt (int (length obs))),
        (''syncable_count'', count (object_flag ''syncable'' True)), (''unfiltered_count'', count (object_flag ''syncable'' False)),
        (''privacy_off_count'', count (\<lambda>ob. jget (bo_security ob) ''privacy_tier'' = JStr ''off'')),
        (''security_stale_count'', count (object_flag ''stale'' True)), (''last_write_at'', latest (map bo_written_at obs))])"

definition trail_block :: "manifest_env \<Rightarrow> json" where
  "trail_block E =
     JObj [(''freshness'', JList (mf_freshness E)),
       (''stale_count'', JInt (int (count_by (\<lambda>i. jfield i ''severity'' = JStr ''warning'') (mf_freshness E)))),
       (''last_projection_sync_at'', latest (map (\<lambda>i. py_str (mf_repr E) (jor (jfield i ''last_synced_at'') (JStr []))) (mf_freshness E)))]"

definition sync_block :: "bucket_object list \<Rightarrow> json" where
  "sync_block obs =
     (let unfiltered = (count_by (object_flag ''syncable'' False) obs \<noteq> 0); stale = (count_by (object_flag ''stale'' True) obs \<noteq> 0)
      in JObj [(''eligible'', JBool (\<not> unfiltered \<and> \<not> stale)), (''blocked_reasons'', JList (map JStr (bucket_sync_blockers unfiltered stale)))])"

section \<open>The digest\<close>

definition digest_safe_trace_rows :: "(string, json) dict list \<Rightarrow> json list" where
  "digest_safe_trace_rows rows = map (\<lambda>row. JObj (filter (\<lambda>(k, v). k \<noteq> ''status'') row)) rows"

definition MACHINE_LOCAL_DIGEST_KEYS :: "string list" where "MACHINE_LOCAL_DIGEST_KEYS = [''root'', ''repo_path'']"

fun machine_neutral_digest_view :: "json \<Rightarrow> json" where
  "machine_neutral_digest_view (JObj kvs) =
     JObj (concat (map (\<lambda>(k, v). if k \<in> set MACHINE_LOCAL_DIGEST_KEYS then [] else [(k, machine_neutral_digest_view v)]) kvs))"
| "machine_neutral_digest_view (JList xs) = JList (map machine_neutral_digest_view xs)"
| "machine_neutral_digest_view v = v"

definition DIGEST_BLOCKS :: "string list" where
  "DIGEST_BLOCKS = [''events_v1'', ''trace_records'', ''trail'', ''raw_sources'', ''trail_events'', ''sync'']"

definition bucket_digest :: "digest_env \<Rightarrow> (string, json) dict \<Rightarrow> (string, json) dict list \<Rightarrow> string" where
  "bucket_digest D doc rows =
     digest_payload D (machine_neutral_digest_view (JObj
       ([(''schema_version'', jget doc ''schema_version''), (''bucket_root'', jget doc ''bucket_root''),
         (''security_version'', (case dget doc ''security_version'' of None \<Rightarrow> JStr SECURITY_VERSION | Some v \<Rightarrow> v)),
         (''traces'', JList (digest_safe_trace_rows rows))] @
        map (\<lambda>k. (k, (case dget doc k of None \<Rightarrow> JObj [] | Some v \<Rightarrow> v))) DIGEST_BLOCKS)))"

definition bucket_root_of :: "(string, json) dict list \<Rightarrow> string" where
  "bucket_root_of rows = (case remdups (map (fst \<circ> row_order) rows) of [p] \<Rightarrow> p | _ \<Rightarrow> [])"

section \<open>Writing the manifest\<close>

definition manifest_change_view :: "json \<Rightarrow> json" where
  "manifest_change_view v =
     (case v of JObj d \<Rightarrow> canon (JObj (filter (\<lambda>(k, x). k \<notin> {''generated_at'', ''updated_at''}) d)) | _ \<Rightarrow> v)"

definition existing_view :: "manifest_file \<Rightarrow> json option" where
  "existing_view f = (case f of ManifestHolds n (JObj d) \<Rightarrow> Some (manifest_change_view (JObj d)) | _ \<Rightarrow> None)"

definition write_if_changed :: "manifest_env \<Rightarrow> (string, json) dict \<Rightarrow> manifest_file \<Rightarrow> manifest_file" where
  "write_if_changed E doc f =
     (if existing_view f = Some (manifest_change_view (JObj doc)) then f
      else ManifestHolds (mf_size E (canon (JObj doc))) (canon (JObj doc)))"

text \<open>The marker is dropped if it still is what it was when the sweep began.\<close>

definition clear_if_unchanged :: "string option \<Rightarrow> string option \<Rightarrow> string option" where
  "clear_if_unchanged token slot = (if token \<noteq> None \<and> slot = token then None else slot)"

definition manifest_body :: "manifest_env \<Rightarrow> bucket_object list \<Rightarrow> (string, json) dict list \<Rightarrow> (string, json) dict" where
  "manifest_body E obs rows =
     [(''schema_version'', JStr BUCKET_MANIFEST_SCHEMA), (''bucket_root'', JStr (bucket_root_of rows)), (''root'', JStr (mf_root E)),
      (''generated_at'', JStr (mf_now E)), (''updated_at'', JStr (mf_now E)), (''security_version'', JStr SECURITY_VERSION),
      (''traces'', JList (map JObj rows)), (''events_v1'', mf_events_index E), (''trace_records'', trace_records_block E obs),
      (''trail'', trail_block E), (''sync'', sync_block obs), (''raw_sources'', mf_raw E), (''trail_events'', mf_trail_events E),
      (''context_trees'', mf_contexts E)]"

definition manifest_document :: "manifest_env \<Rightarrow> bucket_object list \<Rightarrow> (string, json) dict list \<Rightarrow> (string, json) dict" where
  "manifest_document E obs rows =
     (let digest = JStr (bucket_digest (mf_digest E) (manifest_body E obs rows) rows)
      in manifest_body E obs rows @ [(''bucket_digest'', digest), (''digest'', digest)])"

definition bucket_manifest :: "manifest_env \<Rightarrow> bool \<Rightarrow> bool \<Rightarrow> bucket \<Rightarrow> py_error + (string, json) dict \<times> bucket" where
  "bucket_manifest E wr heal B =
     (case sweep_traces E heal B of Inl err \<Rightarrow> Inl err
      | Inr st \<Rightarrow>
          (let doc = manifest_document E (iter_trace_record_objects (bk_objects B)) (sw_rows st)
           in Inr (doc, B\<lparr>bk_traces := sw_traces st,
                bk_manifest := (if wr then write_if_changed E doc (bk_manifest B) else bk_manifest B),
                bk_marker := (if wr then clear_if_unchanged (bk_marker B) (bk_marker B) else bk_marker B)\<rparr>)))"

section \<open>One row at capture time\<close>

definition minimal_manifest_doc :: "manifest_env \<Rightarrow> (string, json) dict" where
  "minimal_manifest_doc E =
     [(''schema_version'', JStr BUCKET_MANIFEST_SCHEMA), (''bucket_root'', JStr []), (''root'', JStr (mf_root E)),
      (''generated_at'', JStr (mf_now E)), (''updated_at'', JStr (mf_now E)), (''security_version'', JStr SECURITY_VERSION),
      (''traces'', JList []),
      (''events_v1'', JObj [(''schema_version'', JStr BUCKET_EVENTS_INDEX_SCHEMA), (''batch_count'', JInt 0),
         (''last_batch_id'', JNull), (''latest_event_sequence'', JInt 0)]),
      (''trace_records'', JObj []), (''trail'', JObj []), (''sync'', JObj []), (''raw_sources'', JObj []),
      (''trail_events'', JObj []), (''context_trees'', JObj [])]"

definition loaded_manifest :: "manifest_file \<Rightarrow> (string, json) dict option" where
  "loaded_manifest f =
     (case f of ManifestHolds n (JObj d) \<Rightarrow> if jget d ''schema_version'' = JStr BUCKET_MANIFEST_SCHEMA then Some d else None | _ \<Rightarrow> None)"

definition other_rows :: "string \<Rightarrow> string \<Rightarrow> json list \<Rightarrow> (string, json) dict list" where
  "other_rows p t vs =
     filter (\<lambda>r. \<not> (jget r ''project_slug'' = JStr p \<and> jget r ''trace_id'' = JStr t))
       (concat (map (\<lambda>v. case v of JObj r \<Rightarrow> [r] | _ \<Rightarrow> []) vs))"

text \<open>
  The rows that stay must carry a project and a trace as texts: the sort of the code compares them and raises
  otherwise (which exception it is depends on the values and is not distinguished here).
\<close>

definition upsert_document :: "manifest_env \<Rightarrow> string \<Rightarrow> string \<Rightarrow> (string, json) dict \<Rightarrow> (string, json) dict \<Rightarrow> py_error + (string, json) dict" where
  "upsert_document E p t row doc =
     (case iter_or_empty (jget doc ''traces'') of Inl e \<Rightarrow> Inl e
      | Inr vs \<Rightarrow>
          (let rows = other_rows p t vs @ [row] in
           if list_ex (\<lambda>r. row_pair r = None) rows then Inl TypeError
           else (let sorted_rows = sort_key row_order rows;
                     d1 = dset (dset (dset doc ''traces'' (JList (map JObj sorted_rows))) ''bucket_root'' (JStr (bucket_root_of sorted_rows)))
                            ''updated_at'' (JStr (mf_now E));
                     digest = JStr (bucket_digest (mf_digest E) d1 sorted_rows)
                 in Inr (dset (dset d1 ''bucket_digest'' digest) ''digest'' digest))))"

text \<open>The row is computed from the files the capture has just written.\<close>

definition upsert_manifest_trace_row ::
  "manifest_env \<Rightarrow> string option \<Rightarrow> string \<Rightarrow> string \<Rightarrow> trace_record option \<Rightarrow> bucket \<Rightarrow> py_error + (string, json) dict \<times> bucket" where
  "upsert_manifest_trace_row E repo p t r B =
     (case canonical_anchor_ids_for_trace (mf_sources E) repo t of Inl err \<Rightarrow> Inl err
      | Inr (ids, resolved) \<Rightarrow>
          (let row = per_trace_v2_summary (mf_digest E) (mf_repr E) p t r None (files_of (bk_traces B) p t)
                 (resolve_record_envelope (bk_objects B) p t r) (Some ids) resolved;
               doc = (case loaded_manifest (bk_manifest B) of Some d \<Rightarrow> d | None \<Rightarrow> minimal_manifest_doc E)
           in case upsert_document E p t row doc of Inl e \<Rightarrow> Inl e
              | Inr d \<Rightarrow> Inr (row, B\<lparr>bk_manifest := write_if_changed E d (bk_manifest B)\<rparr>)))"

section \<open>The status read off the rows\<close>

record status_counts =
  sn_syncable :: nat
  sn_unfiltered :: nat
  sn_stale :: nat
  sn_off :: nat
  sn_unknown :: nat
  sn_last :: string

definition count_status :: "(json \<Rightarrow> string) \<Rightarrow> json \<Rightarrow> status_counts \<Rightarrow> status_counts" where
  "count_status repr row n =
     (let s = jfield row ''status'' in
      if \<not> is_jobj s \<or> \<not> truthy (jfield s ''known'') then n\<lparr>sn_unknown := sn_unknown n + 1\<rparr>
      else n\<lparr>sn_syncable := sn_syncable n + (if jfield s ''syncable'' = JBool True then 1 else 0),
             sn_unfiltered := sn_unfiltered n + (if jfield s ''syncable'' = JBool False then 1 else 0),
             sn_stale := sn_stale n + (if truthy (jfield s ''security_stale'') then 1 else 0),
             sn_off := sn_off n + (if truthy (jfield s ''privacy_off'') then 1 else 0),
             sn_last := (if truthy (jfield s ''written_at'') then max (sn_last n) (py_str repr (jfield s ''written_at'')) else sn_last n)\<rparr>)"

definition aggregate_status_from_rows :: "(json \<Rightarrow> string) \<Rightarrow> json list \<Rightarrow> status_counts" where
  "aggregate_status_from_rows repr rows =
     fold (count_status repr) rows \<lparr>sn_syncable = 0, sn_unfiltered = 0, sn_stale = 0, sn_off = 0, sn_unknown = 0, sn_last = []\<rparr>"

definition bounded_status_view :: "(string, json) dict \<Rightarrow> py_error + (string, json) dict" where
  "bounded_status_view m =
     (case iter_or_empty (jget m ''traces'') of Inl e \<Rightarrow> Inl e
      | Inr vs \<Rightarrow>
          (let v1 = dset (dpop (dset m ''trace_count'' (JInt (int (length vs)))) ''traces'') ''traces_omitted'' (JBool True);
               v2 = (case jget m ''trace_records'' of JObj d \<Rightarrow> dset v1 ''trace_records'' (JObj (dpop d ''snapshot'')) | _ \<Rightarrow> v1)
           in Inr (case jget m ''trail'' of JObj d \<Rightarrow> dset v2 ''trail'' (JObj (dpop d ''freshness'')) | _ \<Rightarrow> v2)))"

record bucket_status =
  bs_view :: "(string, json) dict"
  bs_eligible :: bool
  bs_stale :: bool
  bs_reasons :: "string list"
  bs_source :: string
  bs_last_sweep :: json

definition is_zero :: "json \<Rightarrow> bool" where
  "is_zero v \<longleftrightarrow> v = JInt 0 \<or> v = JBool False \<or> v = JFloat 0"

definition get_default :: "(string, json) dict \<Rightarrow> string \<Rightarrow> json \<Rightarrow> json" where
  "get_default d k v = (case dget d k of None \<Rightarrow> v | Some x \<Rightarrow> x)"

definition status_reasons :: "string option \<Rightarrow> (string, json) dict \<Rightarrow> json \<Rightarrow> nat \<Rightarrow> nat \<Rightarrow> string list" where
  "status_reasons marker m object_count n unknown =
     (if marker \<noteq> None then [''out_of_band_security_change''] else []) @
     (if jget m ''security_version'' \<noteq> JStr SECURITY_VERSION then [''security_version_skew''] else []) @
     (case object_count of JInt c \<Rightarrow> if c \<noteq> int n then [''incomplete_rows''] else []
        | JBool b \<Rightarrow> if (if b then 1 else 0) \<noteq> n then [''incomplete_rows''] else [] | _ \<Rightarrow> []) @
     (if n \<noteq> 0 \<and> unknown = n then [''status_not_populated''] else if unknown \<noteq> 0 then [''status_partially_populated''] else [])"

definition status_count_block :: "(string, json) dict \<Rightarrow> nat \<Rightarrow> status_counts \<Rightarrow> (string, json) dict" where
  "status_count_block scalar n agg =
     (if n \<noteq> 0 \<and> sn_unknown agg = n then
        [(''object_count'', case jget scalar ''object_count'' of JInt c \<Rightarrow> JInt c | JBool b \<Rightarrow> JBool b | _ \<Rightarrow> JInt (int n))] @
        map (\<lambda>k. (k, get_default scalar k (JInt 0))) [''syncable_count'', ''unfiltered_count'', ''security_stale_count'', ''privacy_off_count''] @
        [(''last_write_at'', jget scalar ''last_write_at'')]
      else [(''object_count'', JInt (int n)), (''syncable_count'', JInt (int (sn_syncable agg))), (''unfiltered_count'', JInt (int (sn_unfiltered agg))),
        (''security_stale_count'', JInt (int (sn_stale agg))), (''privacy_off_count'', JInt (int (sn_off agg))),
        (''last_write_at'', if sn_last agg = [] then JNull else JStr (sn_last agg))])"

definition as_dict :: "json \<Rightarrow> py_error + (string, json) dict" where
  "as_dict v = (if \<not> truthy v then Inr [] else (case v of JObj d \<Rightarrow> Inr d | _ \<Rightarrow> Inl AttributeError))"

definition persisted_status ::
  "(json \<Rightarrow> string) \<Rightarrow> string option \<Rightarrow> (string, json) dict \<Rightarrow> json list \<Rightarrow> (string, json) dict \<Rightarrow> (string, json) dict \<Rightarrow> bucket_status" where
  "persisted_status repr marker m rows scalar view =
     (let n = length rows; agg = aggregate_status_from_rows repr rows;
          reasons = status_reasons marker m (jget scalar ''object_count'') n (sn_unknown agg);
          counts = status_count_block scalar n agg; stale = (reasons \<noteq> []);
          blocked = bucket_sync_blockers (truthy (jget counts ''unfiltered_count'')) (truthy (jget counts ''security_stale_count''));
          eligible = (\<not> stale \<and> is_zero (jget counts ''unfiltered_count'') \<and> is_zero (jget counts ''security_stale_count''));
          shown = (case jget view ''trace_records'' of JObj d \<Rightarrow> d | _ \<Rightarrow> []);
          v1 = dset (dset view ''trace_count'' (JInt (int n))) ''trace_records'' (JObj (fold (\<lambda>(k, x) d. dset d k x) counts shown));
          v2 = dset v1 ''sync'' (JObj [(''eligible'', JBool eligible),
                 (''blocked_reasons'', JList (map JStr (blocked @ (if stale then [''read_model_stale''] else []))))])
      in \<lparr>bs_view = v2, bs_eligible = eligible, bs_stale = stale, bs_reasons = reasons,
           bs_source = (if n \<noteq> 0 \<and> sn_unknown agg = n then ''scalar_block'' else ''row_status''),
           bs_last_sweep = jget m ''generated_at''\<rparr>)"

definition bucket_status_from_persisted :: "(json \<Rightarrow> string) \<Rightarrow> string option \<Rightarrow> (string, json) dict \<Rightarrow> py_error + bucket_status" where
  "bucket_status_from_persisted repr marker m =
     (case iter_or_empty (jget m ''traces'') of Inl e \<Rightarrow> Inl e
      | Inr vs \<Rightarrow> (case as_dict (jget m ''trace_records'') of Inl e \<Rightarrow> Inl e
          | Inr scalar \<Rightarrow> (case bounded_status_view m of Inl e \<Rightarrow> Inl e
              | Inr view \<Rightarrow> Inr (persisted_status repr marker m (filter is_jobj vs) scalar view))))"

definition read_persisted_manifest_capped :: "nat \<Rightarrow> manifest_file \<Rightarrow> string \<times> json" where
  "read_persisted_manifest_capped cap f =
     (case f of ManifestAbsent \<Rightarrow> (''absent'', JNull)
      | ManifestUnreadable \<Rightarrow> (''error'', JNull)
      | ManifestHolds n v \<Rightarrow>
          if cap < n then (''too_large'', JNull)
          else if jfield v ''schema_version'' = JStr BUCKET_MANIFEST_SCHEMA then (''ok'', v) else (''error'', JNull))"

definition too_large_status :: "manifest_env \<Rightarrow> bucket_status" where
  "too_large_status E =
     \<lparr>bs_view = [(''root'', JStr (mf_root E)), (''state'', JStr ''too-large''), (''trace_count'', JNull), (''trace_records'', JObj []),
        (''trail'', JObj []), (''raw_sources'', JObj []), (''trail_events'', JObj []),
        (''sync'', JObj [(''eligible'', JBool False), (''blocked_reasons'', JList [JStr ''manifest_too_large''])])],
      bs_eligible = False, bs_stale = True, bs_reasons = [''manifest_too_large''], bs_source = ''degraded'', bs_last_sweep = JNull\<rparr>"

text \<open>Without a usable manifest the status comes from a sweep in memory that writes nothing.\<close>

definition bucket_status_fast :: "manifest_env \<Rightarrow> nat \<Rightarrow> bucket \<Rightarrow> py_error + bucket_status" where
  "bucket_status_fast E cap B =
     (case read_persisted_manifest_capped cap (bk_manifest B) of
        (state, v) \<Rightarrow>
          if state = ''ok'' then (case v of JObj m \<Rightarrow> bucket_status_from_persisted (mf_repr E) (bk_marker B) m | _ \<Rightarrow> Inl AttributeError)
          else if state = ''too_large'' then Inr (too_large_status E)
          else (case bucket_manifest E False False B of Inl err \<Rightarrow> Inl err
            | Inr (doc, _) \<Rightarrow> (case bounded_status_view doc of Inl e \<Rightarrow> Inl e
                | Inr view \<Rightarrow> Inr \<lparr>bs_view = view, bs_eligible = (jfield (jget doc ''sync'') ''eligible'' = JBool True), bs_stale = False,
                    bs_reasons = [], bs_source = ''full_scan'', bs_last_sweep = jget doc ''generated_at''\<rparr>)))"

end
