(* ===== verification/BucketSync.thy ===== *)
theory BucketSync
  imports BucketManifest
begin

text \<open>
  The bucket and its remote: the marker that says the manifest is out of date (\<^verbatim>\<open>core/dirty_marker.py\<close>), the last sync
  point and the relation of the two sides it gives (\<^verbatim>\<open>core/bucket_store.py\<close>), the order in which a push uploads, the push
  with its gates, and the pull (\<^verbatim>\<open>core/bucket_remote.py\<close>).
\<close>

section \<open>The marker\<close>

text \<open>
  The marker is a file whose text is its token. A clear works in steps that other processes may interleave with: it
  renames the file away, and only then looks whether it holds the token the sweep began with; if not it links the file
  back, unless a newer marker is there. \<open>mk_last\<close> and \<open>mk_begun\<close> record what was marked last and with which tokens a
  sweep has begun; the program keeps neither.
\<close>

record clear_job =
  cj_token :: string
  cj_held :: "string option"

record marker =
  mk_slot :: "string option"
  mk_jobs :: "(nat, clear_job) dict"
  mk_last :: "string option"
  mk_begun :: "string list"
  mk_used :: "string list"

definition unmarked :: marker where
  "unmarked = \<lparr>mk_slot = None, mk_jobs = [], mk_last = None, mk_begun = [], mk_used = []\<rparr>"

datatype marker_op = Mark string | BeginSweep nat | RenameAway nat | InspectHeld nat

definition restore_or_discard :: "string \<Rightarrow> string option \<Rightarrow> string option" where
  "restore_or_discard held slot = (case slot of None \<Rightarrow> Some held | Some newer \<Rightarrow> Some newer)"

fun marker_apply :: "marker_op \<Rightarrow> marker \<Rightarrow> marker" where
  "marker_apply (Mark t) m = m\<lparr>mk_slot := Some t, mk_last := Some t, mk_used := t # mk_used m\<rparr>"
| "marker_apply (BeginSweep i) m =
     (case mk_slot m of None \<Rightarrow> m
      | Some t \<Rightarrow> m\<lparr>mk_jobs := dset (mk_jobs m) i \<lparr>cj_token = t, cj_held = None\<rparr>, mk_begun := t # mk_begun m\<rparr>)"
| "marker_apply (RenameAway i) m =
     (case dget (mk_jobs m) i of None \<Rightarrow> m
      | Some j \<Rightarrow> (case mk_slot m of
            None \<Rightarrow> m\<lparr>mk_jobs := dpop (mk_jobs m) i\<rparr>
          | Some x \<Rightarrow> m\<lparr>mk_slot := None, mk_jobs := dset (mk_jobs m) i (j\<lparr>cj_held := Some x\<rparr>)\<rparr>))"
| "marker_apply (InspectHeld i) m =
     (case dget (mk_jobs m) i of None \<Rightarrow> m
      | Some j \<Rightarrow> (case cj_held j of None \<Rightarrow> m
          | Some x \<Rightarrow> m\<lparr>mk_jobs := dpop (mk_jobs m) i,
                       mk_slot := (if x = cj_token j then mk_slot m else restore_or_discard x (mk_slot m))\<rparr>))"

definition holding :: "marker \<Rightarrow> nat \<Rightarrow> bool" where
  "holding m i = (case dget (mk_jobs m) i of None \<Rightarrow> False | Some j \<Rightarrow> cj_held j \<noteq> None)"

definition nobody_holds :: "marker \<Rightarrow> bool" where
  "nobody_holds m = list_all (\<lambda>(i, j). cj_held j = None) (mk_jobs m)"

text \<open>
  A token is the clock in nanoseconds, so no two marks carry the same. A job takes its steps in order; with
  \<open>alone\<close>, no job renames while another one holds a file.
\<close>

fun marker_enabled :: "bool \<Rightarrow> marker_op \<Rightarrow> marker \<Rightarrow> bool" where
  "marker_enabled alone (Mark t) m = (t \<notin> set (mk_used m))"
| "marker_enabled alone (BeginSweep i) m = (dget (mk_jobs m) i = None)"
| "marker_enabled alone (RenameAway i) m = (dget (mk_jobs m) i \<noteq> None \<and> \<not> holding m i \<and> (alone \<longrightarrow> nobody_holds m))"
| "marker_enabled alone (InspectHeld i) m = holding m i"

fun marker_run :: "bool \<Rightarrow> marker_op list \<Rightarrow> marker \<Rightarrow> marker option" where
  "marker_run alone [] m = Some m"
| "marker_run alone (x # xs) m = (if marker_enabled alone x m then marker_run alone xs (marker_apply x m) else None)"

section \<open>The last sync point\<close>

definition write_bucket_sync_state :: "string \<Rightarrow> string \<Rightarrow> json \<Rightarrow> json \<Rightarrow> string \<Rightarrow> string \<Rightarrow> (string, json) dict" where
  "write_bucket_sync_state provider target digest remote_digest direction now =
     [(''schema_version'', JStr ''opentraces.bucket.sync_state.v1''), (''provider'', JStr provider), (''target'', JStr target),
      (''last_sync_digest'', digest), (''last_remote_digest'', jor remote_digest digest), (''last_direction'', JStr direction),
      (''synced_at'', JStr now)]"

definition classify_bucket_remote_state :: "string \<Rightarrow> string \<Rightarrow> json \<Rightarrow> json \<Rightarrow> (string, json) dict \<Rightarrow> string \<times> json" where
  "classify_bucket_remote_state provider target local remote state =
     (if remote = JNull then (''missing'', JNull)
      else if remote = local then (''current'', remote)
      else (let last = (if jget state ''provider'' = JStr provider \<and> jget state ''target'' = JStr target
              then jget state ''last_sync_digest'' else JNull)
            in if \<not> truthy last then (''different'', JNull)
               else if local = last \<and> remote \<noteq> last then (''remote_ahead'', last)
               else if remote = last \<and> local \<noteq> last then (''local_ahead'', last)
               else if local \<noteq> last \<and> remote \<noteq> last then (''diverged'', last)
               else (''different'', last)))"

section \<open>The order of an upload\<close>

datatype push_pass = PassBlobs | PassEvents | PassEnvelopes | PassSpine | PassManifest

text \<open>\<open>blocked\<close> are the projects whose contexts may not leave; None skips the path.\<close>

definition classify_bucket_path_pass :: "string list \<Rightarrow> string \<Rightarrow> push_pass option" where
  "classify_bucket_path_pass blocked rel =
     (let parts = split_on (CHR ''/'') rel in
      if rel = ''manifest.json'' then Some PassManifest
      else if starts_with rel ''blobs/v1/'' then
        (if 4 \<le> length parts \<and> parts ! 3 = ''context'' \<and> parts ! 2 \<in> set blocked then None else Some PassBlobs)
      else if starts_with rel ''events/v1/'' then Some PassEvents
      else if starts_with rel ''traces/v1/'' then (if ends_with rel ''/trace.json'' then Some PassSpine else Some PassEnvelopes)
      else if starts_with rel ''contexts/v1/'' then
        (if 3 \<le> length parts \<and> parts ! 2 \<noteq> ''_shared'' \<and> parts ! 2 \<in> set blocked then None
         else if substr ''/layers/blobs/'' rel then Some PassBlobs else Some PassEnvelopes)
      else if starts_with rel ''events/trail/v1/'' then Some PassEvents
      else if starts_with rel ''objects/raw/v1/'' then Some PassBlobs
      else Some PassEnvelopes)"

definition push_passes :: "push_pass list" where
  "push_passes = [PassBlobs, PassEvents, PassEnvelopes, PassSpine, PassManifest]"

type_synonym file_list = "(string \<times> json) list"

definition ordered_bucket_upload_passes :: "string list \<Rightarrow> file_list \<Rightarrow> (push_pass \<times> file_list) list" where
  "ordered_bucket_upload_passes blocked fs =
     map (\<lambda>p. (p, filter (\<lambda>(rel, _). classify_bucket_path_pass blocked rel = Some p) fs)) push_passes"

definition context_tree_skip_set :: "json list \<Rightarrow> bool \<Rightarrow> string list \<times> string list" where
  "context_tree_skip_set rows unsafe_push =
     (if unsafe_push then ([], [])
      else (let blocked = remdups (concat (map (\<lambda>row. if jfield row ''remote_sync_eligible'' = JBool False
                  then (case jfield row ''project_slug'' of JStr p \<Rightarrow> if p = [] then [] else [p] | _ \<Rightarrow> []) else []) rows))
            in (blocked, if blocked = [] then [] else [''context_tree''])))"

definition is_lazy_blob_path :: "string \<Rightarrow> bool" where
  "is_lazy_blob_path rel \<longleftrightarrow>
     (let parts = split_on (CHR ''/'') rel in
      starts_with rel ''blobs/v1/'' \<and> 4 \<le> length parts \<and> parts ! 3 \<in> {''context'', ''raw''} \<or>
      substr ''/layers/blobs/'' rel \<or> starts_with rel ''objects/raw/v1/'')"

definition pull_targets :: "bool \<Rightarrow> string list \<Rightarrow> string list" where
  "pull_targets full names =
     filter (\<lambda>n. n \<noteq> [] \<and> n \<noteq> ''.gitattributes'' \<and> \<not> ends_with n ''/'' \<and> (full \<or> \<not> is_lazy_blob_path n)) names"

section \<open>The two sides\<close>

text \<open>
  What a transfer needs from outside: the manifest environment, the files of the bucket other than its manifest (the
  walk of its directory) and the reading of such files, what the refresh of the legacy stores and the other processes do
  to the bucket meanwhile, the heads of the context trees, whether the remote answers, and how many uploads succeed.
\<close>

record transfer_env =
  tv_manifest :: manifest_env
  tv_provider :: string
  tv_target :: string
  tv_walk :: "bucket \<Rightarrow> file_list"
  tv_refresh :: "bucket \<Rightarrow> bucket"
  tv_meanwhile :: "bucket \<Rightarrow> bucket"
  tv_heads :: "json list"
  tv_load :: "file_list \<Rightarrow> bucket"
  tv_reachable :: bool
  tv_uploads :: nat

text \<open>The remote is None while its repository does not exist.\<close>

record two_sides =
  wo_bucket :: bucket
  wo_sync :: "(string, json) dict"
  wo_remote :: "(string, json) dict option"

datatype transfer_error =
    TransferRaised py_error
  | NotEligible "json"
  | Withheld push_error
  | RemoteHasChanges
  | LocalHasChanges
  | SchemaMismatch json
  | RemoteMissing
  | RemoteUnreadable
  | TransferStopped

record remote_relation =
  re_state :: string
  re_local :: json
  re_remote :: json
  re_last :: json

definition hf_status :: "transfer_env \<Rightarrow> two_sides \<Rightarrow> (transfer_error + remote_relation) \<times> two_sides" where
  "hf_status V W =
     (case bucket_manifest (tv_manifest V) True True (wo_bucket W) of
        Inl e \<Rightarrow> (Inl (TransferRaised e), W)
      | Inr (doc, B) \<Rightarrow>
          (let W' = W\<lparr>wo_bucket := B\<rparr>; local = jget doc ''digest'';
               plain = (\<lambda>state. \<lparr>re_state = state, re_local = local, re_remote = JNull, re_last = JNull\<rparr>)
           in (if \<not> tv_reachable V then Inr (plain ''error'')
               else (case wo_remote W of None \<Rightarrow> Inr (plain ''missing'')
                 | Some fs \<Rightarrow> (case dget fs ''manifest.json'' of
                     None \<Rightarrow> Inr (plain ''missing'')
                   | Some (JObj m) \<Rightarrow>
                       if truthy (jget m ''schema_version'') \<and> jget m ''schema_version'' \<noteq> JStr BUCKET_MANIFEST_SCHEMA
                       then Inl (SchemaMismatch (jget m ''schema_version''))
                       else (let (state, last) = classify_bucket_remote_state (tv_provider V) (tv_target V) local (jget m ''digest'') (wo_sync W)
                             in Inr \<lparr>re_state = state, re_local = local, re_remote = jget m ''digest'', re_last = last\<rparr>)
                   | Some _ \<Rightarrow> Inl (TransferRaised AttributeError))), W')))"

definition bucket_files :: "transfer_env \<Rightarrow> bucket \<Rightarrow> file_list" where
  "bucket_files V B = tv_walk V B @ (case bk_manifest B of ManifestHolds n v \<Rightarrow> [(''manifest.json'', v)] | _ \<Rightarrow> [])"

definition upload :: "file_list \<Rightarrow> (string, json) dict option \<Rightarrow> (string, json) dict" where
  "upload fs remote = fold (\<lambda>(rel, v) d. dset d rel v) fs (case remote of None \<Rightarrow> [] | Some d \<Rightarrow> d)"

record push_report =
  ur_digest :: json
  ur_uploaded :: "string list"
  ur_partition :: push_partition
  ur_skipped :: "string list"

text \<open>The uploads: the ones before the first that fails have reached the remote.\<close>

definition push_files ::
  "transfer_env \<Rightarrow> bool \<Rightarrow> (string, json) dict \<Rightarrow> push_partition \<Rightarrow> two_sides \<Rightarrow> (transfer_error + push_report) \<times> two_sides" where
  "push_files V unsafe_push doc part W =
     (let (blocked, skipped) = context_tree_skip_set (tv_heads V) unsafe_push;
          fs = concat (map snd (ordered_bucket_upload_passes blocked (bucket_files V (wo_bucket W))));
          W' = W\<lparr>wo_remote := Some (upload (take (tv_uploads V) fs) (wo_remote W))\<rparr>
      in if tv_uploads V < length fs then (Inl TransferStopped, W')
         else (Inr \<lparr>ur_digest = jget doc ''digest'', ur_uploaded = map fst fs, ur_partition = part, ur_skipped = skipped\<rparr>,
           W'\<lparr>wo_sync := write_bucket_sync_state (tv_provider V) (tv_target V) (jget doc ''digest'') (jget doc ''digest'') ''push''
             (mf_now (tv_manifest V))\<rparr>))"

definition hf_push :: "transfer_env \<Rightarrow> bool \<Rightarrow> bool \<Rightarrow> two_sides \<Rightarrow> (transfer_error + push_report) \<times> two_sides" where
  "hf_push V force unsafe_push W =
     (let E = tv_manifest V; W0 = W\<lparr>wo_bucket := tv_refresh V (wo_bucket W)\<rparr> in
      case bucket_manifest E True True (wo_bucket W0) of
        Inl e \<Rightarrow> (Inl (TransferRaised e), W0)
      | Inr (doc1, B1) \<Rightarrow>
          (let W1 = W0\<lparr>wo_bucket := B1\<rparr> in
           if jfield (jget doc1 ''sync'') ''eligible'' \<noteq> JBool True then (Inl (NotEligible (jfield (jget doc1 ''sync'') ''blocked_reasons'')), W1)
           else (case enforce_push_clearance (mf_repr E) (JObj doc1) of
               Inl e \<Rightarrow> (Inl (Withheld e), W1)
             | Inr _ \<Rightarrow> (case hf_status V W1 of
                 (Inl e, W2) \<Rightarrow> (Inl e, W2)
               | (Inr rel, W2) \<Rightarrow>
                   if re_state rel \<in> {''remote_ahead'', ''diverged''} \<and> \<not> force then (Inl RemoteHasChanges, W2)
                   else (let W3 = W2\<lparr>wo_bucket := tv_meanwhile V (wo_bucket W2)\<rparr> in
                     case bucket_manifest E True True (wo_bucket W3) of
                       Inl e \<Rightarrow> (Inl (TransferRaised e), W3)
                     | Inr (doc2, B2) \<Rightarrow> (case enforce_push_clearance (mf_repr E) (JObj doc2) of
                           Inl e \<Rightarrow> (Inl (Withheld e), W3\<lparr>wo_bucket := B2\<rparr>)
                         | Inr part \<Rightarrow> push_files V unsafe_push doc2 part (W3\<lparr>wo_bucket := B2\<rparr>)))))))"

text \<open>
  The pulled files are copied over the files of the bucket; a full pull removes these first. The marker lies outside the
  directory of the bucket and stays as it is.
\<close>

definition copy_tree :: "file_list \<Rightarrow> file_list \<Rightarrow> file_list" where
  "copy_tree source destination = fold (\<lambda>(n, v) d. dset d n v) source destination"

definition install_pulled :: "bool \<Rightarrow> file_list \<Rightarrow> file_list \<Rightarrow> file_list" where
  "install_pulled full pulled local = copy_tree pulled (if full then [] else local)"

definition read_directory :: "transfer_env \<Rightarrow> file_list \<Rightarrow> string option \<Rightarrow> bucket" where
  "read_directory V fs token =
     (tv_load V fs)\<lparr>bk_manifest := (case dget fs ''manifest.json'' of None \<Rightarrow> ManifestAbsent
         | Some v \<Rightarrow> ManifestHolds (mf_size (tv_manifest V) v) v), bk_marker := token\<rparr>"

definition pulled_bucket :: "transfer_env \<Rightarrow> bool \<Rightarrow> (string, json) dict \<Rightarrow> bucket \<Rightarrow> bucket" where
  "pulled_bucket V full fs B =
     (let names = pull_targets full (dkeys fs)
      in read_directory V (install_pulled full (filter (\<lambda>(n, _). n \<in> set names) fs) (bucket_files V B)) (bk_marker B))"

definition hf_pull :: "transfer_env \<Rightarrow> bool \<Rightarrow> bool \<Rightarrow> two_sides \<Rightarrow> (transfer_error + json) \<times> two_sides" where
  "hf_pull V force eager W =
     (if \<not> tv_reachable V then (Inl RemoteUnreadable, W)
      else (case wo_remote W of None \<Rightarrow> (Inl RemoteUnreadable, W)
        | Some fs \<Rightarrow>
            if dget fs ''manifest.json'' = None then (Inl RemoteMissing, W)
            else (case hf_status V W of
                (Inl e, W1) \<Rightarrow> (Inl e, W1)
              | (Inr rel, W1) \<Rightarrow>
                  if re_state rel \<in> {''local_ahead'', ''diverged''} \<and> \<not> force then (Inl LocalHasChanges, W1)
                  else (let W2 = W1\<lparr>wo_bucket := pulled_bucket V (eager \<or> force) fs (wo_bucket W1)\<rparr>
                        in case bucket_manifest (tv_manifest V) True True (wo_bucket W2) of
                             Inl e \<Rightarrow> (Inl (TransferRaised e), W2)
                           | Inr (doc, B) \<Rightarrow> (Inr (jget doc ''digest''),
                               W2\<lparr>wo_bucket := B,
                                  wo_sync := write_bucket_sync_state (tv_provider V) (tv_target V) (jget doc ''digest'') (jget doc ''digest'') ''pull''
                                    (mf_now (tv_manifest V))\<rparr>)))))"

text \<open>The daemon pushes when the remote is missing or behind, and otherwise only reports.\<close>

definition reconcile_once :: "transfer_env \<Rightarrow> bool \<Rightarrow> bool \<Rightarrow> two_sides \<Rightarrow> (transfer_error + string) \<times> two_sides" where
  "reconcile_once V enabled daemon W =
     (if \<not> enabled then (Inr ''disabled'', W)
      else if \<not> daemon then (Inr ''manual'', W)
      else (case hf_status V W of
          (Inl e, W1) \<Rightarrow> (Inl e, W1)
        | (Inr rel, W1) \<Rightarrow>
            if re_state rel \<notin> {''missing'', ''local_ahead''} then (Inr (re_state rel), W1)
            else (case hf_push V False False W1 of (Inl e, W2) \<Rightarrow> (Inl e, W2) | (Inr _, W2) \<Rightarrow> (Inr ''pushed'', W2))))"

end
