(* ===== verification/EnvelopeProps.thy ===== *)
theory EnvelopeProps
  imports BucketEnvelope
begin

text \<open>
  The rows of the patches rebuilt from the anchors of the log: one row for each commit a patch is found in, none invented,
  and nothing changed when they are rebuilt again. An export without evidence keeps the record as it is.
\<close>

lemma jget_dset [simp]: "jget (dset d k v) k' = (if k' = k then v else jget d k')"
  by (simp add: jget_def)

lemma jfield_JNull [simp]: "jfield JNull k = JNull"
  by (simp add: jfield_def)

lemma jget_dpop [simp]: "jget (dpop d k) k' = (if k' = k then JNull else jget d k')"
  by (simp add: jget_def)

lemma dset_twice: "dset (dset d k v) k w = dset d k w"
  by (induction d) (auto simp: dset_def)

lemma dpop_dset_absent: "dget d k = None \<Longrightarrow> dpop (dset d k v) k = d"
  by (induction d) (auto simp: dset_def dpop_def split: if_splits)

lemma dget_dpop_self: "dget (dpop d k) k = None"
  by simp

lemma patch_id_anchored [simp]: "jget (anchored_row p cs a) ''patch_id'' = jget p ''patch_id''"
  by (simp add: anchored_row_def)

lemma patch_id_deattributed [simp]: "jget (deattributed_row p) ''patch_id'' = jget p ''patch_id''"
  by (simp add: deattributed_row_def Let_def)

lemma anchors_for_cong: "jget p ''patch_id'' = jget q ''patch_id'' \<Longrightarrow> anchors_for m p = anchors_for m q"
  by (simp add: anchors_for_def)

lemma first_commits_seen: "c \<in> set (map ae_commit (first_commits seen as)) \<longleftrightarrow> c \<in> ae_commit ` set as \<and> c \<notin> set seen"
  by (induction as arbitrary: seen) auto

lemma first_commits_distinct: "distinct (map ae_commit (first_commits seen as))"
  by (induction as arbitrary: seen) (use first_commits_seen in auto)

lemma first_commits_Nil: "first_commits [] as = [] \<longleftrightarrow> as = []"
  by (cases as) auto

lemma ordered_Nil [simp]: "ordered_anchors as = [] \<longleftrightarrow> as = []"
  by (simp add: ordered_anchors_def first_commits_Nil) (metis length_0_conv length_sort)

lemma ordered_commits: "ae_commit ` set (ordered_anchors as) = ae_commit ` set as"
  using first_commits_seen [of _ "[]" "sort_key ae_seq as"] by (auto simp: ordered_anchors_def)

lemma rederive_row_not_Nil [simp]: "rederive_row m p \<noteq> []"
  by (simp add: rederive_row_def Let_def)

lemma rederive_row_id: "r \<in> set (rederive_row m p) \<Longrightarrow> jget r ''patch_id'' = jget p ''patch_id''"
  by (auto simp: rederive_row_def Let_def split: if_splits)

lemma collapse_fresh: "p \<in> set (collapse_rows seen ps) \<Longrightarrow> jget p ''patch_id'' \<notin> set seen \<and> dget p ''superseded_by'' = None"
  by (induction ps arbitrary: seen) (fastforce split: if_splits)+

lemma collapse_ids: "distinct (map (\<lambda>p. jget p ''patch_id'') (collapse_rows seen ps))"
  by (induction ps arbitrary: seen) (use collapse_fresh in fastforce)+

lemma collapse_skip: "\<forall>r\<in>set rs. jget r ''patch_id'' \<in> set seen \<Longrightarrow> collapse_rows seen (rs @ qs) = collapse_rows seen qs"
  by (induction rs) auto

lemma collapse_blocks:
  assumes "\<And>p. f p \<noteq> []" and "\<And>p r. r \<in> set (f p) \<Longrightarrow> jget r ''patch_id'' = jget p ''patch_id''"
  shows "distinct (map (\<lambda>p. jget p ''patch_id'') ps) \<Longrightarrow> \<forall>p\<in>set ps. jget p ''patch_id'' \<notin> set seen \<Longrightarrow>
    collapse_rows seen (concat (map f ps)) = map (\<lambda>p. dpop (hd (f p)) ''superseded_by'') ps"
proof (induction ps arbitrary: seen)
  case (Cons p ps)
  obtain r rs where f: "f p = r # rs" using assms(1) [of p] by (cases "f p") auto
  have ids: "jget r ''patch_id'' = jget p ''patch_id''" "\<forall>q\<in>set rs. jget q ''patch_id'' = jget p ''patch_id''"
    using assms(2) [of _ p] f by auto
  have "collapse_rows (jget p ''patch_id'' # seen) (rs @ concat (map f ps)) = collapse_rows (jget p ''patch_id'' # seen) (concat (map f ps))"
    by (rule collapse_skip) (use ids in auto)
  also have "\<dots> = map (\<lambda>p. dpop (hd (f p)) ''superseded_by'') ps" using Cons.prems by (intro Cons.IH) (auto simp: image_iff)
  finally show ?case using Cons.prems ids f by simp
qed simp

lemma anchored_again: "dget p ''superseded_by'' = None \<Longrightarrow> anchored_row (dpop (anchored_row p cs a) ''superseded_by'') ds b = anchored_row p ds b"
  by (simp add: anchored_row_def dpop_dset_absent dset_twice)

lemma deattributed_again:
  "dget p ''superseded_by'' = None \<Longrightarrow> deattributed_row (dpop (deattributed_row p) ''superseded_by'') = deattributed_row p"
  by (auto simp: deattributed_row_def Let_def dpop_dset_absent dset_twice patch_anchor_def)

lemma rederive_row_again:
  assumes "dget p ''superseded_by'' = None"
  shows "rederive_row m (dpop (hd (rederive_row m p)) ''superseded_by'') = rederive_row m p"
proof -
  have id: "jget (dpop (hd (rederive_row m p)) ''superseded_by'') ''patch_id'' = jget p ''patch_id''"
    using rederive_row_id [of "hd (rederive_row m p)" m p] by simp
  have same: "anchors_for m (dpop (hd (rederive_row m p)) ''superseded_by'') = anchors_for m p" using id by (rule anchors_for_cong)
  show ?thesis
  proof (cases "anchors_for m p = []")
    case True
    then show ?thesis using same deattributed_again [OF assms] by (simp add: rederive_row_def)
  next
    case False
    then obtain a as where "ordered_anchors (anchors_for m p) = a # as" by (metis ordered_Nil neq_Nil_conv)
    then show ?thesis using same False by (simp add: rederive_row_def Let_def anchored_again [OF assms])
  qed
qed

theorem rederive_idempotent:
  "rd_rows (rederive_patch_rows (rd_rows (rederive_patch_rows ps m)) m) = rd_rows (rederive_patch_rows ps m) \<and>
   rd_anchored (rederive_patch_rows (rd_rows (rederive_patch_rows ps m)) m) = rd_anchored (rederive_patch_rows ps m) \<and>
   rd_deattributed (rederive_patch_rows (rd_rows (rederive_patch_rows ps m)) m) = 0"
proof -
  define base where "base = collapse_rows [] ps"
  define g where "g = (\<lambda>p. dpop (hd (rederive_row m p)) ''superseded_by'')"
  have base: "distinct (map (\<lambda>p. jget p ''patch_id'') base)" "\<forall>p\<in>set base. dget p ''superseded_by'' = None"
    using collapse_ids [of "[]" ps] collapse_fresh [of _ "[]" ps] by (auto simp: base_def)
  have again: "collapse_rows [] (concat (map (rederive_row m) base)) = map g base"
    unfolding g_def by (rule collapse_blocks) (use base(1) rederive_row_id in auto)
  have rows: "concat (map (\<lambda>x. rederive_row m (g x)) base) = concat (map (rederive_row m) base)"
    using base(2) rederive_row_again by (intro arg_cong [of _ _ concat]) (auto simp: g_def)
  have ids: "anchors_for m (g p) = anchors_for m p" for p
    using rederive_row_id [of "hd (rederive_row m p)" m p] by (intro anchors_for_cong) (simp add: g_def)
  have found: "\<not> truthy (jfield (jget (g p) ''anchor'') ''found'')" if "anchors_for m p = []" for p
    using that by (auto simp: g_def rederive_row_def deattributed_row_def Let_def patch_anchor_def)
  show ?thesis
    using again rows ids found
    by (auto simp: rederive_patch_rows_def Let_def base_def [symmetric] count_by_def filter_map comp_def filter_empty_conv)
qed

section \<open>Exactly the anchors of the log\<close>

definition row_found :: "patch_row \<Rightarrow> bool" where
  "row_found r \<longleftrightarrow> jfield (jget r ''anchor'') ''found'' = JBool True"

definition row_anchor :: "patch_row \<Rightarrow> json \<times> json" where
  "row_anchor r = (jget r ''patch_id'', jfield (jget r ''anchor'') ''commit_sha'')"

lemma anchored_row_shows [simp]: "row_found (anchored_row p cs a)" "row_anchor (anchored_row p cs a) = (jget p ''patch_id'', ae_commit a)"
  by (simp_all add: row_found_def row_anchor_def anchored_row_def patch_anchor_def)

lemma deattributed_not_found [simp]: "\<not> row_found (deattributed_row p)"
  by (simp add: row_found_def deattributed_row_def Let_def patch_anchor_def)

lemma collapse_covers: "jget p ''patch_id'' \<notin> set seen \<Longrightarrow> p \<in> set ps \<Longrightarrow> \<exists>q\<in>set (collapse_rows seen ps). jget q ''patch_id'' = jget p ''patch_id''"
proof (induction ps arbitrary: seen)
  case (Cons a ps)
  show ?case
  proof (cases "jget a ''patch_id'' = jget p ''patch_id''")
    case False
    then show ?thesis using Cons.prems Cons.IH [of seen] Cons.IH [of "jget a ''patch_id'' # seen"] by auto
  qed (use Cons.prems in auto)
qed simp

lemma collapse_from: "q \<in> set (collapse_rows seen ps) \<Longrightarrow> \<exists>p\<in>set ps. jget q ''patch_id'' = jget p ''patch_id''"
  by (induction ps arbitrary: seen) (auto split: if_splits)

lemma rederived_anchors:
  "map row_anchor (filter row_found (rederive_row m p)) = map (\<lambda>a. (jget p ''patch_id'', ae_commit a)) (ordered_anchors (anchors_for m p))"
  by (auto simp: rederive_row_def Let_def filter_map comp_def ordered_anchors_def)

lemma distinct_concat_ids:
  assumes "distinct (map k xs)" "\<And>x y. x \<in> set xs \<Longrightarrow> y \<in> set (f x) \<Longrightarrow> fst y = k x" "\<And>x. distinct (f x)"
  shows "distinct (concat (map f xs))"
  using assms by (induction xs) fastforce+

lemma collapse_image:
  "(\<lambda>p. (jget p ''patch_id'', anchors_for m p)) ` set (collapse_rows [] ps) = (\<lambda>p. (jget p ''patch_id'', anchors_for m p)) ` set ps"
  (is "?f ` _ = _")
proof (intro set_eqI iffI)
  fix z assume "z \<in> ?f ` set (collapse_rows [] ps)"
  then obtain q where q: "q \<in> set (collapse_rows [] ps)" "z = ?f q" by auto
  obtain p where p: "p \<in> set ps" "jget q ''patch_id'' = jget p ''patch_id''" using collapse_from [OF q(1)] by auto
  show "z \<in> ?f ` set ps" using p q(2) anchors_for_cong [OF p(2)] by (intro image_eqI [of _ _ p]) simp_all
next
  fix z assume "z \<in> ?f ` set ps"
  then obtain p where p: "p \<in> set ps" "z = ?f p" by auto
  obtain q where q: "q \<in> set (collapse_rows [] ps)" "jget q ''patch_id'' = jget p ''patch_id''" using collapse_covers [of p "[]" ps] p(1) by auto
  show "z \<in> ?f ` set (collapse_rows [] ps)" using q p(2) anchors_for_cong [OF q(2)] by (intro image_eqI [of _ _ q]) simp_all
qed

lemma found_anchors:
  "map row_anchor (filter row_found (rd_rows (rederive_patch_rows ps m))) =
     concat (map (\<lambda>p. map (\<lambda>a. (jget p ''patch_id'', ae_commit a)) (ordered_anchors (anchors_for m p))) (collapse_rows [] ps))"
  by (simp add: rederive_patch_rows_def Let_def filter_concat map_concat comp_def rederived_anchors)

lemma found_distinct: "distinct (map row_anchor (filter row_found (rd_rows (rederive_patch_rows ps m))))"
  unfolding found_anchors using collapse_ids
proof (rule distinct_concat_ids)
  fix p
  have "distinct (map ae_commit (ordered_anchors (anchors_for m p)))" by (simp add: ordered_anchors_def first_commits_distinct)
  then show "distinct (map (\<lambda>a. (jget p ''patch_id'', ae_commit a)) (ordered_anchors (anchors_for m p)))"
    by (auto simp: distinct_map inj_on_def)
qed auto

lemma anchor_pairs: "(\<lambda>a. (x, ae_commit a)) ` set (ordered_anchors as) = (\<lambda>a. (x, ae_commit a)) ` set as"
  using arg_cong [OF ordered_commits [of as], of "image (Pair x)"] by (simp add: image_image)

lemma keys_with_anchors: "fst ` {z \<in> (\<lambda>p. (k p, h p)) ` A. snd z \<noteq> []} = {k p | p. p \<in> A \<and> h p \<noteq> []}"
  by force

lemma rederived_not_found:
  "filter (\<lambda>r. \<not> row_found r) (rederive_row m p) = (if anchors_for m p = [] then [deattributed_row p] else [])"
  by (auto simp: rederive_row_def Let_def filter_empty_conv)

lemma not_found_rows:
  "map (\<lambda>r. jget r ''patch_id'') (filter (\<lambda>r. \<not> row_found r) (rd_rows (rederive_patch_rows ps m))) =
     map (\<lambda>p. jget p ''patch_id'') (filter (\<lambda>p. anchors_for m p = []) (collapse_rows [] ps))"
proof -
  have "map (\<lambda>r. jget r ''patch_id'') (concat (map (\<lambda>p. if anchors_for m p = [] then [deattributed_row p] else []) xs)) =
      map (\<lambda>p. jget p ''patch_id'') (filter (\<lambda>p. anchors_for m p = []) xs)" for xs
    by (induction xs) auto
  then show ?thesis by (simp add: rederive_patch_rows_def Let_def filter_concat comp_def rederived_not_found)
qed

text \<open>C16.
  The rows rebuilt from the anchors say what the anchors say: no patch is found twice in the same commit, the found rows
  are exactly the pairs of a patch and a commit that an anchor names, each distinct patch without an anchor keeps exactly
  one row, which is not found, and no other row is not found; the number of anchored patches is that of the distinct patches
  with an anchor.
\<close>

theorem rederive_exact:
  "distinct (map row_anchor (filter row_found (rd_rows (rederive_patch_rows ps m)))) \<and>
   row_anchor ` {r \<in> set (rd_rows (rederive_patch_rows ps m)). row_found r} =
     (\<Union>p\<in>set ps. (\<lambda>a. (jget p ''patch_id'', ae_commit a)) ` set (anchors_for m p)) \<and>
   (let lost = map (\<lambda>r. jget r ''patch_id'') (filter (\<lambda>r. \<not> row_found r) (rd_rows (rederive_patch_rows ps m)))
    in distinct lost \<and> set lost = {jget p ''patch_id'' | p. p \<in> set ps \<and> anchors_for m p = []}) \<and>
   rd_anchored (rederive_patch_rows ps m) = card {jget p ''patch_id'' | p. p \<in> set ps \<and> anchors_for m p \<noteq> []}"
proof -
  let ?base = "collapse_rows [] ps"
  have "row_anchor ` {r \<in> set (rd_rows (rederive_patch_rows ps m)). row_found r} =
      (\<Union>(x, as)\<in>(\<lambda>p. (jget p ''patch_id'', anchors_for m p)) ` set ?base. (\<lambda>a. (x, ae_commit a)) ` set as)"
    using arg_cong [OF found_anchors, of set ps m] by (simp add: image_set [symmetric] anchor_pairs)
  then have anchors: "row_anchor ` {r \<in> set (rd_rows (rederive_patch_rows ps m)). row_found r} =
      (\<Union>p\<in>set ps. (\<lambda>a. (jget p ''patch_id'', ae_commit a)) ` set (anchors_for m p))"
    unfolding collapse_image by simp
  have "rd_anchored (rederive_patch_rows ps m) = card (set (map (\<lambda>p. jget p ''patch_id'') (filter (\<lambda>p. anchors_for m p \<noteq> []) ?base)))"
    using distinct_card [OF distinct_map_filter [OF collapse_ids]] by (simp add: rederive_patch_rows_def Let_def count_by_def del: set_map)
  also have "set (map (\<lambda>p. jget p ''patch_id'') (filter (\<lambda>p. anchors_for m p \<noteq> []) ?base)) =
      {jget p ''patch_id'' | p. p \<in> set ?base \<and> anchors_for m p \<noteq> []}" by auto
  also have "\<dots> = {jget p ''patch_id'' | p. p \<in> set ps \<and> anchors_for m p \<noteq> []}"
    unfolding keys_with_anchors [symmetric] collapse_image ..
  finally have card: "rd_anchored (rederive_patch_rows ps m) = card {jget p ''patch_id'' | p. p \<in> set ps \<and> anchors_for m p \<noteq> []}" .
  have "{jget p ''patch_id'' | p. p \<in> set ?base \<and> anchors_for m p = []} =
      fst ` {z \<in> (\<lambda>p. (jget p ''patch_id'', anchors_for m p)) ` set ?base. snd z = []}" by force
  also have "\<dots> = {jget p ''patch_id'' | p. p \<in> set ps \<and> anchors_for m p = []}" unfolding collapse_image by force
  finally have "set (map (\<lambda>p. jget p ''patch_id'') (filter (\<lambda>p. anchors_for m p = []) ?base)) =
      {jget p ''patch_id'' | p. p \<in> set ps \<and> anchors_for m p = []}" by auto
  then show ?thesis
    unfolding Let_def not_found_rows
    by (intro conjI found_distinct anchors card distinct_map_filter [OF collapse_ids])
qed

section \<open>A read that proves nothing\<close>

definition no_evidence :: "event_sources \<Rightarrow> string option \<Rightarrow> string \<Rightarrow> bool" where
  "no_evidence X repo t \<longleftrightarrow>
     (case repo of None \<Rightarrow> True | Some p \<Rightarrow> es_scoped X p t = None \<or> es_scoped X p t = Some []) \<and>
     (case es_mirror X t of MirrorEvents ms \<Rightarrow> ms = [] | _ \<Rightarrow> True)"

text \<open>C38.
  A read that failed or found nothing proves nothing: without an event from the log or from the mirror, an export writes
  the record with the anchors it has, and the companion files that are there stay as they are.
\<close>

theorem export_keeps_attribution:
  assumes "no_evidence X repo t"
  shows "\<exists>files'. project_per_trace_exports X S repo p t (Some r) None fallback files = Inr files' \<and>
    tf_spine files' = SpineHolds r \<and> tf_sources files' \<and>
    (tf_trail files \<noteq> None \<longrightarrow> tf_trail files' = tf_trail files) \<and> (tf_context files \<noteq> None \<longrightarrow> tf_context files' = tf_context files)"
proof -
  have mirror: "(case es_mirror X t of MirrorEvents ms \<Rightarrow> ms | _ \<Rightarrow> []) = []"
    using assms by (auto simp: no_evidence_def split: mirror_read.splits)
  have source: "(case repo of None \<Rightarrow> ([], False)
      | Some q \<Rightarrow> (case es_scoped X q t of None \<Rightarrow> ([], False) | Some xs \<Rightarrow> (xs, xs \<noteq> []))) = ([], False)"
    using assms by (auto simp: no_evidence_def split: option.splits)
  have none: "events_for_trace_from_iter [] t = Inr ([], [])" by (simp add: events_for_trace_from_iter_def)
  show ?thesis
    by (simp add: project_per_trace_exports_def mirror source none write_per_trace_envelope_def Let_def cong: if_cong)
qed

definition silent_sources :: event_sources where
  "silent_sources = \<lparr>es_repr = (\<lambda>_. []), es_projects = [], es_scoped = (\<lambda>_ _. None), es_full = (\<lambda>_. None),
     es_anchors = (\<lambda>_. None), es_mirror = (\<lambda>_. MirrorAbsent)\<rparr>"

definition attributed_record :: trace_record where
  "attributed_record = (mk_trace_record ''t'' [])\<lparr>rec_patches :=
     [JObj [(''patch_id'', JStr ''p1''), (''anchor'', JObj [(''found'', JBool True), (''commit_sha'', JStr ''aa'')])]]\<rparr>"

theorem export_keeps_attribution_witness:
  "\<exists>files. project_per_trace_exports silent_sources \<lparr>os_current = [], os_legacy = []\<rparr> (Some ''/repo'') ''p'' ''t'' (Some attributed_record) None True no_files = Inr files \<and>
     tf_spine files = SpineHolds attributed_record"
proof -
  have "no_evidence silent_sources (Some ''/repo'') ''t''" by (simp add: no_evidence_def silent_sources_def)
  from export_keeps_attribution [OF this] show ?thesis by blast
qed

end
