(* ===== verification/SweepProps.thy ===== *)
theory SweepProps
  imports EnvelopeProps BucketManifest EgressProps DatasetIndexProps
begin

section \<open>The files a sweep writes\<close>

text \<open>The read of a repository that is scoped to a trace finds the events of the trace the full read finds.\<close>

definition reads_agree :: "event_sources \<Rightarrow> bool" where
  "reads_agree X \<longleftrightarrow> distinct (map snd (es_projects X)) \<and>
     (\<forall>path t. case es_scoped X path t of None \<Rightarrow> es_full X path = None
        | Some xs \<Rightarrow> (case es_full X path of None \<Rightarrow> False
            | Some ys \<Rightarrow> events_for_trace_from_iter xs t = events_for_trace_from_iter ys t))"

lemma slug_repo_fold:
  "distinct (map snd ps) \<Longrightarrow> dget (fold (\<lambda>(path, slug) d. dset d slug path) ps d) p =
     (case find (\<lambda>(path, slug). slug = p) ps of None \<Rightarrow> dget d p | Some (path, _) \<Rightarrow> Some path)"
proof (induction ps arbitrary: d)
  case (Cons x ps)
  obtain path slug where x: "x = (path, slug)" by (cases x)
  have "find (\<lambda>(path, slug). slug = p) ps = None" if "slug = p"
    using Cons.prems x that by (force simp: find_None_iff)
  then show ?case using Cons x by (auto split: option.splits)
qed simp

lemma slug_repo_find:
  "distinct (map snd (es_projects X)) \<Longrightarrow>
     dget (slug_repo X) p = map_option fst (find (\<lambda>(path, slug). slug = p) (es_projects X))"
  by (simp add: slug_repo_def slug_repo_fold split: option.splits)

definition live_events :: "event_sources \<Rightarrow> string option \<Rightarrow> string \<Rightarrow> trail_event list" where
  "live_events X repo t = (case repo of None \<Rightarrow> [] | Some p \<Rightarrow> (case es_scoped X p t of None \<Rightarrow> [] | Some xs \<Rightarrow> xs))"

lemma readonly_live:
  assumes "reads_agree X"
  shows "context_events_for_trace_readonly X p t =
    (case events_for_trace_from_iter (live_events X (dget (slug_repo X) p) t) t of Inl err \<Rightarrow> Inl err
     | Inr (trail, ctx) \<Rightarrow>
         if trail \<noteq> [] \<or> ctx \<noteq> [] then Inr ctx
         else (case es_mirror X t of MirrorBroken err \<Rightarrow> Inl err
           | MirrorAbsent \<Rightarrow> Inr []
           | MirrorEvents ms \<Rightarrow> (case events_for_trace_from_iter ms t of Inl err \<Rightarrow> Inl err | Inr (_, c) \<Rightarrow> Inr c)))"
proof -
  have same: "events_for_trace_from_iter (case find (\<lambda>(path, slug). slug = p) (es_projects X) of None \<Rightarrow> []
          | Some (path, _) \<Rightarrow> (case es_full X path of None \<Rightarrow> [] | Some es \<Rightarrow> es)) t =
      events_for_trace_from_iter (live_events X (dget (slug_repo X) p) t) t"
  proof (cases "find (\<lambda>(path, slug). slug = p) (es_projects X)")
    case (Some x)
    obtain path slug where x: "x = (path, slug)" by (cases x)
    have agree: "case es_scoped X path t of None \<Rightarrow> es_full X path = None
        | Some xs \<Rightarrow> (case es_full X path of None \<Rightarrow> False | Some ys \<Rightarrow> events_for_trace_from_iter xs t = events_for_trace_from_iter ys t)"
      using assms by (simp add: reads_agree_def)
    have repo: "dget (slug_repo X) p = Some path" using assms Some x by (simp add: reads_agree_def slug_repo_find)
    show ?thesis
    proof (cases "es_scoped X path t")
      case None
      then show ?thesis using agree Some x repo by (simp add: live_events_def)
    next
      case (Some xs)
      then show ?thesis using agree \<open>find _ _ = Some x\<close> x repo by (auto simp: live_events_def split: option.splits)
    qed
  qed (use assms in \<open>simp add: live_events_def slug_repo_find reads_agree_def\<close>)
  show ?thesis unfolding context_events_for_trace_readonly_def Let_def same ..
qed

text \<open>The export of a trace without companions writes the context events that the read-only count reads.\<close>

lemma exported_files:
  assumes "reads_agree X" "tf_trail files = None" "tf_context files = None"
    and exported: "project_per_trace_exports X S (dget (slug_repo X) p) p t (Some r) None True files = Inr files'"
    and ctx: "context_events_for_trace_readonly X p t = Inr ctx"
  shows "tf_trail files' \<noteq> None \<and> tf_context files' = Some ctx \<and> tf_sources files' \<and> tf_spine files' \<noteq> SpineAbsent"
proof -
  let ?live = "live_events X (dget (slug_repo X) p) t"
  obtain trail c where live: "events_for_trace_from_iter ?live t = Inr (trail, c)"
    using ctx readonly_live [OF assms(1), of p t] by (cases "events_for_trace_from_iter ?live t") auto
  have source: "(case dget (slug_repo X) p of None \<Rightarrow> ([], False)
      | Some q \<Rightarrow> (case es_scoped X q t of None \<Rightarrow> ([], False) | Some xs \<Rightarrow> (xs, xs \<noteq> []))) = (?live, ?live \<noteq> [])"
    by (simp add: live_events_def split: option.splits)
  have no_events: "events_for_trace_from_iter [] t = Inr ([], [])" by (simp add: events_for_trace_from_iter_def)
  show ?thesis
  proof (cases "trail \<noteq> [] \<or> c \<noteq> []")
    case True
    then have "ctx = c" using ctx readonly_live [OF assms(1), of p t] live by auto
    then show ?thesis using exported True assms(2,3) live
      by (auto simp: project_per_trace_exports_def source Let_def write_per_trace_envelope_def split: sum.splits if_splits)
  next
    case False
    then have mirror: "(case es_mirror X t of MirrorBroken err \<Rightarrow> Inl err | MirrorAbsent \<Rightarrow> Inr []
        | MirrorEvents ms \<Rightarrow> (case events_for_trace_from_iter ms t of Inl err \<Rightarrow> Inl err | Inr (_, c) \<Rightarrow> Inr c)) = Inr ctx"
      using ctx readonly_live [OF assms(1), of p t] live by auto
    let ?ms = "case es_mirror X t of MirrorEvents ms \<Rightarrow> ms | _ \<Rightarrow> []"
    obtain trail' where "events_for_trace_from_iter ?ms t = Inr (trail', ctx)"
    proof (cases "es_mirror X t")
      case MirrorAbsent
      with mirror have "ctx = []" by simp
      moreover have "?ms = []" by (simp add: MirrorAbsent)
      ultimately show ?thesis using no_events that [of "[]"] by simp
    qed (use mirror that in \<open>auto split: sum.splits\<close>)
    then show ?thesis using exported False assms(2,3) live
      by (auto simp: project_per_trace_exports_def source Let_def write_per_trace_envelope_def split: sum.splits if_splits)
  qed
qed

lemma same_summary:
  assumes "tf_trail files \<noteq> None" "tf_context files = Some ctx" "tf_sources files"
  shows "summary_row E M p t r (Some (context_nodes ctx)) any ob = summary_row E M p t r None files ob"
  using assms by (simp add: summary_row_def per_trace_v2_summary_def Let_def)

lemma summary_pair [simp]: "row_order (summary_row E M p t r present files ob) = (p, t)"
  by (simp add: summary_row_def per_trace_v2_summary_def Let_def row_order_def row_pair_def)

section \<open>A sweep that writes nothing reports what a sweep that writes reports\<close>

definition object_pair :: "bucket_object \<Rightarrow> string \<times> string" where
  "object_pair ob = (bo_project ob, bo_trace_id ob)"

text \<open>No trace without its spine has left-over companions, and no export raises.\<close>

definition clean_orphans :: "bucket \<Rightarrow> bool" where
  "clean_orphans B \<longleftrightarrow>
     list_all (\<lambda>ob. case dget (bk_traces B) (object_pair ob) of None \<Rightarrow> True
        | Some files \<Rightarrow> tf_spine files \<noteq> SpineAbsent \<or> tf_trail files = None \<and> tf_context files = None)
       (iter_trace_record_objects (bk_objects B))"

definition exports_succeed :: "manifest_env \<Rightarrow> bucket \<Rightarrow> bool" where
  "exports_succeed E B \<longleftrightarrow>
     list_all (\<lambda>ob. \<not> isl (project_per_trace_exports (mf_sources E) (bk_objects B) (dget (slug_repo (mf_sources E)) (bo_project ob))
         (bo_project ob) (bo_trace_id ob) (Some (bo_record ob)) None True (files_of (bk_traces B) (bo_project ob) (bo_trace_id ob))))
       (iter_trace_record_objects (bk_objects B))"

lemma sweep_object_skip:
  "object_pair ob \<in> set (sw_pairs st) \<or> is_legacy_read_in_place_mirror E (bo_project ob) (bo_trace_id ob) \<Longrightarrow>
     sweep_object E M S heal ob st = Inr st"
  by (auto simp: sweep_object_def object_pair_def Let_def)

lemma sweep_object_new:
  "object_pair ob \<notin> set (sw_pairs st) \<Longrightarrow> \<not> is_legacy_read_in_place_mirror E (bo_project ob) (bo_trace_id ob) \<Longrightarrow>
     sweep_object E M S heal ob st =
       (if \<not> heal then
         (case context_events_for_trace_readonly (mf_sources E) (bo_project ob) (bo_trace_id ob) of Inl err \<Rightarrow> Inl err
          | Inr ctx \<Rightarrow> Inr (note_row st (object_pair ob) (summary_row E M (bo_project ob) (bo_trace_id ob) (Some (bo_record ob))
              (Some (context_nodes ctx)) no_files (Some ob))))
       else (let files = healed_files E S ob (files_of (sw_traces st) (bo_project ob) (bo_trace_id ob))
            in Inr ((note_row st (object_pair ob) (summary_row E M (bo_project ob) (bo_trace_id ob) (Some (bo_record ob)) None files (Some ob)))
                 \<lparr>sw_traces := dset (sw_traces st) (object_pair ob) files\<rparr>)))"
  unfolding object_pair_def by (simp add: sweep_object_def Let_def)

lemma dry_sweep_object:
  assumes agree: "reads_agree (mf_sources E)"
    and pending: "object_pair ob \<notin> set (sw_pairs st) \<Longrightarrow>
      (let files = files_of (sw_traces st') (bo_project ob) (bo_trace_id ob) in
       tf_trail files = None \<and> tf_context files = None \<and>
       \<not> isl (project_per_trace_exports (mf_sources E) S (dget (slug_repo (mf_sources E)) (bo_project ob))
         (bo_project ob) (bo_trace_id ob) (Some (bo_record ob)) None True files))"
    and same: "sw_rows st' = sw_rows st" "sw_pairs st' = sw_pairs st"
    and dry: "sweep_object E M S False ob st = Inr st1"
  shows "sw_traces st1 = sw_traces st \<and>
    (\<exists>st1'. sweep_object E M S True ob st' = Inr st1' \<and> sw_rows st1' = sw_rows st1 \<and> sw_pairs st1' = sw_pairs st1 \<and>
      (\<forall>k. k \<notin> set (sw_pairs st1) \<longrightarrow> dget (sw_traces st1') k = dget (sw_traces st') k))"
proof (cases "object_pair ob \<in> set (sw_pairs st) \<or> is_legacy_read_in_place_mirror E (bo_project ob) (bo_trace_id ob)")
  case True
  then have "st1 = st" "sweep_object E M S True ob st' = Inr st'"
    using dry same sweep_object_skip [of ob st E M S False] sweep_object_skip [of ob st' E M S True] by auto
  then show ?thesis using same by simp
next
  case False
  let ?p = "bo_project ob" and ?t = "bo_trace_id ob" and ?files = "files_of (sw_traces st') (bo_project ob) (bo_trace_id ob)"
  obtain ctx where ctx: "context_events_for_trace_readonly (mf_sources E) ?p ?t = Inr ctx"
    and st1: "st1 = note_row st (?p, ?t) (summary_row E M ?p ?t (Some (bo_record ob)) (Some (context_nodes ctx)) no_files (Some ob))"
    using dry False by (auto simp: sweep_object_new object_pair_def split: sum.splits)
  obtain files' where ex: "project_per_trace_exports (mf_sources E) S (dget (slug_repo (mf_sources E)) ?p) ?p ?t (Some (bo_record ob)) None True ?files = Inr files'"
    using pending False by (auto simp: Let_def isl_def split: sum.splits) (metis sum.exhaust_sel)
  have files: "tf_trail files' \<noteq> None \<and> tf_context files' = Some ctx \<and> tf_sources files' \<and> tf_spine files' \<noteq> SpineAbsent"
    using exported_files [OF agree _ _ ex ctx] pending False by (auto simp: Let_def)
  have "healed_files E S ob ?files = files'" by (simp add: healed_files_def ex)
  then show ?thesis using False st1 same files same_summary [of files' ctx E M ?p ?t "Some (bo_record ob)" no_files "Some ob"]
      sweep_object_new [of ob st' E M S True]
    by (auto simp: object_pair_def Let_def note_row_def)
qed


lemma dry_sweep_objects:
  assumes agree: "reads_agree (mf_sources E)"
  shows "\<lbrakk>\<forall>ob\<in>set obs. object_pair ob \<notin> set (sw_pairs st) \<longrightarrow>
      (let files = files_of (sw_traces st') (bo_project ob) (bo_trace_id ob) in
       tf_trail files = None \<and> tf_context files = None \<and>
       \<not> isl (project_per_trace_exports (mf_sources E) S (dget (slug_repo (mf_sources E)) (bo_project ob))
         (bo_project ob) (bo_trace_id ob) (Some (bo_record ob)) None True files));
    sw_rows st' = sw_rows st; sw_pairs st' = sw_pairs st; sweep_objects E M S False obs st = Inr st1\<rbrakk> \<Longrightarrow>
    sw_traces st1 = sw_traces st \<and> (\<exists>st1'. sweep_objects E M S True obs st' = Inr st1' \<and> sw_rows st1' = sw_rows st1)"
proof (induction obs arbitrary: st st')
  case (Cons ob obs)
  obtain st2 where st2: "sweep_object E M S False ob st = Inr st2" "sweep_objects E M S False obs st2 = Inr st1"
    using Cons.prems(4) by (auto split: sum.splits)
  obtain st2' where step: "sw_traces st2 = sw_traces st" "sweep_object E M S True ob st' = Inr st2'" "sw_rows st2' = sw_rows st2"
      "sw_pairs st2' = sw_pairs st2" "\<forall>k. k \<notin> set (sw_pairs st2) \<longrightarrow> dget (sw_traces st2') k = dget (sw_traces st') k"
    using dry_sweep_object [OF agree _ Cons.prems(2,3) st2(1)] Cons.prems(1) by auto
  have grows: "set (sw_pairs st) \<subseteq> set (sw_pairs st2)"
    using st2(1) by (auto simp: sweep_object_def Let_def note_row_def split: if_splits sum.splits)
  have same: "files_of (sw_traces st2') (bo_project o') (bo_trace_id o') = files_of (sw_traces st') (bo_project o') (bo_trace_id o')"
    if "object_pair o' \<notin> set (sw_pairs st2)" for o'
    using step(5) that by (simp add: files_of_def object_pair_def)
  have "\<forall>o'\<in>set obs. object_pair o' \<notin> set (sw_pairs st2) \<longrightarrow>
      (let files = files_of (sw_traces st2') (bo_project o') (bo_trace_id o') in
       tf_trail files = None \<and> tf_context files = None \<and>
       \<not> isl (project_per_trace_exports (mf_sources E) S (dget (slug_repo (mf_sources E)) (bo_project o'))
         (bo_project o') (bo_trace_id o') (Some (bo_record o')) None True files))"
    using Cons.prems(1) grows same by (auto simp: Let_def)
  from Cons.IH [OF this step(3,4) st2(2)] show ?case using step(1,2) by simp
qed simp

lemma iter_pairs:
  "row_order ` set (iter_traces_v2 E M obs B) = {k. \<exists>files. (k, files) \<in> set (bk_traces B) \<and> tf_spine files \<noteq> SpineAbsent}"
  by (force simp: iter_traces_v2_def image_iff)

lemma dry_sweep:
  assumes "reads_agree (mf_sources E)" "dict_ok (bk_traces B)" "clean_orphans B" "exports_succeed E B"
    and dry: "sweep_traces E False B = Inr st"
  shows "sw_traces st = bk_traces B \<and> (\<exists>st'. sweep_traces E True B = Inr st' \<and> sw_rows st' = sw_rows st)"
proof -
  let ?obs = "iter_trace_record_objects (bk_objects B)" and ?M = "sweep_anchors E (iter_trace_record_objects (bk_objects B))"
  let ?rows = "iter_traces_v2 E ?M ?obs B"
  let ?st0 = "\<lparr>sw_rows = ?rows, sw_pairs = map row_order ?rows, sw_traces = bk_traces B\<rparr>"
  obtain st1 where st1: "sweep_objects E ?M (bk_objects B) False ?obs ?st0 = Inr st1" "st = st1\<lparr>sw_rows := sort_key row_order (sw_rows st1)\<rparr>"
    using dry by (auto simp: sweep_traces_def Let_def split: sum.splits)
  have "\<forall>ob\<in>set ?obs. object_pair ob \<notin> set (sw_pairs ?st0) \<longrightarrow>
      (let files = files_of (sw_traces ?st0) (bo_project ob) (bo_trace_id ob) in
       tf_trail files = None \<and> tf_context files = None \<and>
       \<not> isl (project_per_trace_exports (mf_sources E) (bk_objects B) (dget (slug_repo (mf_sources E)) (bo_project ob))
         (bo_project ob) (bo_trace_id ob) (Some (bo_record ob)) None True files))"
  proof (intro ballI impI)
    fix ob assume ob: "ob \<in> set ?obs" "object_pair ob \<notin> set (sw_pairs ?st0)"
    then have "dget (bk_traces B) (object_pair ob) = Some files \<Longrightarrow> tf_spine files = SpineAbsent" for files
      using iter_pairs [of E ?M ?obs B] dget_Some_in by force
    then have "tf_trail (files_of (bk_traces B) (bo_project ob) (bo_trace_id ob)) = None \<and>
        tf_context (files_of (bk_traces B) (bo_project ob) (bo_trace_id ob)) = None"
      using assms(3) ob(1) by (fastforce simp: clean_orphans_def list_all_iff files_of_def object_pair_def no_files_def split: option.splits)
    then show "let files = files_of (sw_traces ?st0) (bo_project ob) (bo_trace_id ob) in
       tf_trail files = None \<and> tf_context files = None \<and>
       \<not> isl (project_per_trace_exports (mf_sources E) (bk_objects B) (dget (slug_repo (mf_sources E)) (bo_project ob))
         (bo_project ob) (bo_trace_id ob) (Some (bo_record ob)) None True files)"
      using assms(4) ob(1) by (simp add: exports_succeed_def list_all_iff Let_def)
  qed
  from dry_sweep_objects [OF assms(1) this refl refl st1(1)] show ?thesis
    using st1 by (auto simp: sweep_traces_def Let_def)
qed

text \<open>C12.
  A sweep that heals nothing and writes nothing returns the very document that the healing sweep returns, digest included,
  and leaves the bucket as it is, when the reads of the log agree, no trace without a spine has other files, and the
  exports succeed.
\<close>

theorem read_only_sweep_agrees:
  assumes "reads_agree (mf_sources E)" "dict_ok (bk_traces B)" "clean_orphans B" "exports_succeed E B"
    and "bucket_manifest E False False B = Inr (doc, B')"
  shows "B' = B \<and> (\<exists>B''. bucket_manifest E True True B = Inr (doc, B''))"
proof -
  obtain st where st: "sweep_traces E False B = Inr st" using assms(5) by (auto simp: bucket_manifest_def split: sum.splits)
  from dry_sweep [OF assms(1-4) st] show ?thesis using assms(5) st by (auto simp: bucket_manifest_def Let_def)
qed

section \<open>The sweep again\<close>

text \<open>Every object has its spine or is read in place.\<close>

definition settled_bucket :: "manifest_env \<Rightarrow> bucket \<Rightarrow> bool" where
  "settled_bucket E B \<longleftrightarrow>
     list_all (\<lambda>ob. is_legacy_read_in_place_mirror E (bo_project ob) (bo_trace_id ob) \<or>
         (case dget (bk_traces B) (object_pair ob) of None \<Rightarrow> False | Some files \<Rightarrow> tf_spine files \<noteq> SpineAbsent))
       (iter_trace_record_objects (bk_objects B))"

lemma sweep_objects_skip:
  "\<forall>ob\<in>set obs. object_pair ob \<in> set (sw_pairs st) \<or> is_legacy_read_in_place_mirror E (bo_project ob) (bo_trace_id ob) \<Longrightarrow>
     sweep_objects E M S heal obs st = Inr st"
  by (induction obs) (auto simp: sweep_object_skip)

lemma settled_sweep:
  assumes "settled_bucket E B"
  shows "sweep_traces E heal B =
    (let obs = iter_trace_record_objects (bk_objects B); rows = iter_traces_v2 E (sweep_anchors E obs) obs B
     in Inr \<lparr>sw_rows = rows, sw_pairs = map row_order rows, sw_traces = bk_traces B\<rparr>)"
proof -
  let ?obs = "iter_trace_record_objects (bk_objects B)" and ?M = "sweep_anchors E (iter_trace_record_objects (bk_objects B))"
  let ?rows = "iter_traces_v2 E ?M ?obs B"
  let ?st0 = "\<lparr>sw_rows = ?rows, sw_pairs = map row_order ?rows, sw_traces = bk_traces B\<rparr>"
  have "object_pair ob \<in> set (sw_pairs ?st0) \<or> is_legacy_read_in_place_mirror E (bo_project ob) (bo_trace_id ob)" if "ob \<in> set ?obs" for ob
    using assms that iter_pairs [of E ?M ?obs B] dget_Some_in
    by (fastforce simp: settled_bucket_def list_all_iff split: option.splits)
  then have "sweep_objects E ?M (bk_objects B) heal ?obs ?st0 = Inr ?st0" by (intro sweep_objects_skip) auto
  moreover have "sort_key row_order ?rows = ?rows" by (simp add: iter_traces_v2_def sort_key_id_if_sorted)
  ultimately show ?thesis by (simp add: sweep_traces_def Let_def)
qed

lemma filter_canon: "filter (\<lambda>(k, x). P k) (sort_key fst d) = sort_key fst (filter (\<lambda>(k, x). P k) d)"
  by (simp add: filter_sort)

lemma change_view_canon: "manifest_change_view (canon (JObj d)) = manifest_change_view (JObj d)"
proof -
  let ?P = "\<lambda>(k, x :: json). k \<notin> {''generated_at'', ''updated_at''}"
  have "manifest_change_view (canon (JObj d)) = canon (JObj (filter ?P (sort_key fst (map (\<lambda>(k, v). (k, canon v)) d))))"
    by (simp add: manifest_change_view_def)
  also have "JObj (filter ?P (sort_key fst (map (\<lambda>(k, v). (k, canon v)) d))) = canon (JObj (filter ?P d))"
    by (simp add: filter_sort filter_map comp_def case_prod_unfold)
  finally show ?thesis by (simp add: manifest_change_view_def del: canon.simps)
qed

text \<open>What the sweep wrote is not written again, whatever the clock says.\<close>

lemma write_settles:
  assumes "manifest_change_view (JObj d') = manifest_change_view (JObj d)"
  shows "write_if_changed E' d' (write_if_changed E d f) = write_if_changed E d f"
proof (cases "existing_view f = Some (manifest_change_view (JObj d))")
  case False
  have "existing_view (ManifestHolds n (canon (JObj d))) = Some (manifest_change_view (JObj d))" for n
    using change_view_canon [of d] by (simp add: existing_view_def)
  then show ?thesis using False assms by (simp add: write_if_changed_def)
qed (use assms in \<open>simp add: write_if_changed_def\<close>)

lemma summary_row_clock: "summary_row (E\<lparr>mf_now := n\<rparr>) = summary_row E"
  by (intro ext) (simp add: summary_row_def)

lemma sweep_clock: "settled_bucket E B \<Longrightarrow> sweep_traces (E\<lparr>mf_now := n\<rparr>) heal B = sweep_traces E heal B"
proof -
  assume ok: "settled_bucket E B"
  then have "settled_bucket (E\<lparr>mf_now := n\<rparr>) B" by (simp add: settled_bucket_def is_legacy_read_in_place_mirror_def)
  then show ?thesis using ok by (simp add: settled_sweep iter_traces_v2_def summary_row_clock sweep_anchors_def)
qed

lemma object_line_clock: "object_line (E\<lparr>mf_now := n\<rparr>) = object_line E"
  by (intro ext) (simp add: object_line_def)

lemma snapshot_clock: "trace_record_snapshot (E\<lparr>mf_now := n\<rparr>) obs = trace_record_snapshot E obs"
  unfolding trace_record_snapshot_def object_line_clock by simp

lemma records_block_clock: "trace_records_block (E\<lparr>mf_now := n\<rparr>) obs = trace_records_block E obs"
  unfolding trace_records_block_def snapshot_clock ..

lemma trail_block_clock: "trail_block (E\<lparr>mf_now := n\<rparr>) = trail_block E"
  unfolding trail_block_def by simp

lemma body_clock:
  "filter (\<lambda>(k, x). k \<noteq> ''generated_at'' \<and> k \<noteq> ''updated_at'') (manifest_body (E\<lparr>mf_now := n\<rparr>) obs rows) =
   filter (\<lambda>(k, x). k \<noteq> ''generated_at'' \<and> k \<noteq> ''updated_at'') (manifest_body E obs rows)"
  unfolding manifest_body_def records_block_clock trail_block_clock by simp

lemma body_get_clock:
  assumes "k \<noteq> ''generated_at''" "k \<noteq> ''updated_at''"
  shows "dget (manifest_body (E\<lparr>mf_now := n\<rparr>) obs rows) k = dget (manifest_body E obs rows) k"
  unfolding manifest_body_def records_block_clock trail_block_clock using assms by simp

lemma digest_body_clock:
  "bucket_digest D (manifest_body (E\<lparr>mf_now := n\<rparr>) obs rows) rows = bucket_digest D (manifest_body E obs rows) rows"
  by (simp add: bucket_digest_def DIGEST_BLOCKS_def jget_def body_get_clock)

lemma document_clock: "manifest_change_view (JObj (manifest_document (E\<lparr>mf_now := n\<rparr>) obs rows)) = manifest_change_view (JObj (manifest_document E obs rows))"
  by (simp add: manifest_change_view_def manifest_document_def Let_def digest_body_clock body_clock del: canon.simps)

lemma body_no_digest: "dget (manifest_body E obs rows) ''digest'' = None"
  by (simp add: manifest_body_def)

lemma document_digest: "jget (manifest_document E obs rows) ''digest'' = JStr (bucket_digest (mf_digest E) (manifest_body E obs rows) rows)"
  using body_no_digest [of E obs rows] by (simp add: manifest_document_def Let_def jget_def dget_def map_add_def split: option.splits)

lemma settled_sweep_again:
  assumes "settled_bucket E B" and "bucket_manifest E True True B = Inr (doc, B')"
  shows "\<exists>doc'. bucket_manifest (E\<lparr>mf_now := later\<rparr>) True True B' = Inr (doc', B') \<and> jget doc' ''digest'' = jget doc ''digest''"
proof -
  obtain st where st: "sweep_traces E True B = Inr st" using assms(2) by (auto simp: bucket_manifest_def split: sum.splits)
  let ?obs = "iter_trace_record_objects (bk_objects B)"
  have B': "doc = manifest_document E ?obs (sw_rows st)" "B' = B\<lparr>bk_traces := sw_traces st,
      bk_manifest := write_if_changed E doc (bk_manifest B), bk_marker := clear_if_unchanged (bk_marker B) (bk_marker B)\<rparr>"
    using assms(2) st by (auto simp: bucket_manifest_def Let_def)
  have traces: "sw_traces st = bk_traces B" using st settled_sweep [OF assms(1)] by (auto simp: Let_def)
  have again: "settled_bucket E B'" using assms(1) by (simp add: B'(2) traces settled_bucket_def)
  have "sweep_traces E True B' = sweep_traces E True B"
    unfolding settled_sweep [OF assms(1)] settled_sweep [OF again] by (simp add: B'(2) traces iter_traces_v2_def Let_def cong: option.case_cong)
  then have st': "sweep_traces (E\<lparr>mf_now := later\<rparr>) True B' = Inr st" using st sweep_clock [OF again] by simp
  let ?doc = "manifest_document (E\<lparr>mf_now := later\<rparr>) ?obs (sw_rows st)"
  have kept: "write_if_changed (E\<lparr>mf_now := later\<rparr>) ?doc (write_if_changed E doc (bk_manifest B)) = write_if_changed E doc (bk_manifest B)"
    unfolding B'(1) by (rule write_settles) (rule document_clock)
  have "bucket_manifest (E\<lparr>mf_now := later\<rparr>) True True B' = Inr (?doc, B')"
    using st' kept B'(2) by (simp add: bucket_manifest_def Let_def traces clear_if_unchanged_def)
  moreover have "jget ?doc ''digest'' = jget doc ''digest''" unfolding B'(1) by (simp add: document_digest digest_body_clock)
  ultimately show ?thesis by blast
qed

text \<open>C36.
  Once every object has its files (or is read in place), a sweep settles: whenever it runs again, at any later time, it
  leaves the files, the manifest and the marker as the first one left them, and computes the same digest.
\<close>

theorem second_sweep_writes_nothing:
  assumes "settled_bucket E B" and "bucket_manifest E True True B = Inr (doc, B')"
  shows "\<exists>doc'. bucket_manifest (E\<lparr>mf_now := later\<rparr>) True True B' = Inr (doc', B') \<and> jget doc' ''digest'' = jget doc ''digest''"
  by (rule settled_sweep_again [OF assms])

section \<open>An example\<close>

text \<open>One trace in the object store whose patch the log anchors in two commits, and no file of the trace yet.\<close>

definition sample_fact :: "int \<Rightarrow> string \<Rightarrow> (string, json) dict \<Rightarrow> trail_event" where
  "sample_fact n ty p = \<lparr>ev_id = ''e'', ev_seq = n, ev_time = ''now'', ev_prev = None, ev_trace = Some ''t1'', ev_gen = None, ev_step = None,
     ev_batch = ''b'', ev_writer = ''w'', ev_capture = [], ev_type = ty, ev_payload = p, ev_content_hash = [], ev_schema = [],
     ev_security = [], ev_attribution = []\<rparr>"

definition sample_facts :: "trail_event list" where
  "sample_facts = [sample_fact 1 CONTEXT_NODE_OBSERVED [],
     sample_fact 2 GIT_ANCHOR_CREATED [(''trace_patch_id'', JStr ''p1''), (''commit_id'', JObj [(''hex'', JStr ''aa'')])],
     sample_fact 3 GIT_ANCHOR_CREATED [(''trace_patch_id'', JStr ''p1''), (''commit_id'', JObj [(''hex'', JStr ''bb'')])]]"

definition sample_sources :: event_sources where
  "sample_sources = \<lparr>es_repr = (\<lambda>_. []), es_projects = [(''/repo'', ''p'')], es_scoped = (\<lambda>_ t. Some sample_facts),
     es_full = (\<lambda>_. Some sample_facts), es_anchors = (\<lambda>_. Some (tl sample_facts)), es_mirror = (\<lambda>_. MirrorAbsent)\<rparr>"

definition sample_manifest_env :: manifest_env where
  "sample_manifest_env = \<lparr>mf_digest = \<lparr>dg_float = (\<lambda>_. ''0''), dg_sha = (\<lambda>s. ''d'')\<rparr>, mf_repr = (\<lambda>_. []), mf_now = ''now'', mf_root = ''/bucket'',
     mf_size = (\<lambda>_. 100), mf_object_path = bo_trace_id, mf_sources = sample_sources, mf_in_place = (\<lambda>_ _. False), mf_linked = (\<lambda>_ _. True),
     mf_freshness = [], mf_raw = JObj [], mf_trail_events = JObj [], mf_contexts = JObj [], mf_events_index = JObj []\<rparr>"

definition sample_anchored :: bucket_object where
  "sample_anchored = \<lparr>bo_project = ''p'', bo_layer = ''canonical'', bo_trace_id = ''t1'', bo_record_hash = ''h'', bo_legacy_mirror = False,
     bo_security = [(''privacy_tier'', JStr ''basic'')], bo_written_at = ''now'',
     bo_record = (mk_trace_record ''t1'' [])\<lparr>rec_patches := [JObj [(''patch_id'', JStr ''p1''), (''anchor'', JNull)]]\<rparr>\<rparr>"

definition sample_bucket :: bucket where
  "sample_bucket = \<lparr>bk_objects = objects_of [((''p'', ''t1''), sample_anchored)], bk_traces = [], bk_manifest = ManifestAbsent, bk_marker = Some ''m''\<rparr>"

definition sample_read :: bucket_object where
  "sample_read = (case read_trace_record_object sample_anchored of None \<Rightarrow> sample_anchored | Some ob \<Rightarrow> ob)"

definition sample_files :: trace_files where
  "sample_files = healed_files sample_manifest_env (bk_objects sample_bucket) sample_read no_files"

lemma sample_bucket_facts:
  "clean_orphans sample_bucket" "exports_succeed sample_manifest_env sample_bucket" "dict_ok (bk_traces sample_bucket)"
  "iter_trace_record_objects (bk_objects sample_bucket) = [sample_read]"
  "length (rec_patches (bo_record sample_read)) = 1"
  "map_option (length \<circ> rec_patches) (spine_record (tf_spine sample_files)) = Some 2"
  "tf_spine sample_files \<noteq> SpineAbsent"
  "\<not> isl (context_events_for_trace_readonly (mf_sources sample_manifest_env) ''p'' ''t1'')"
  "bo_project sample_read = ''p''" "bo_trace_id sample_read = ''t1''"
  by code_simp+

lemma sample_never_legacy: "\<not> is_legacy_read_in_place_mirror sample_manifest_env p t"
  by (simp add: is_legacy_read_in_place_mirror_def sample_manifest_env_def)

lemma sample_reads_agree: "reads_agree (mf_sources sample_manifest_env)"
  by (simp add: reads_agree_def sample_manifest_env_def sample_sources_def)

lemma sample_first_sweep:
  "\<exists>st. sweep_traces sample_manifest_env heal sample_bucket = Inr st \<and>
     (heal \<longrightarrow> sw_traces st = [((''p'', ''t1''), sample_files)] \<and>
        sw_rows st = [summary_row sample_manifest_env (sweep_anchors sample_manifest_env [sample_read]) ''p'' ''t1''
          (Some (bo_record sample_read)) None sample_files (Some sample_read)])"
proof -
  let ?M = "sweep_anchors sample_manifest_env [sample_read]"
  have traces: "bk_traces sample_bucket = []" by (simp add: sample_bucket_def)
  have rows: "iter_traces_v2 sample_manifest_env ?M [sample_read] sample_bucket = []" by (simp add: iter_traces_v2_def traces)
  let ?st0 = "\<lparr>sw_rows = [], sw_pairs = [], sw_traces = []\<rparr> :: sweep"
  have new: "object_pair sample_read \<notin> set (sw_pairs ?st0)" by simp
  have files: "files_of [] ''p'' ''t1'' = no_files" by (simp add: files_of_def)
  show ?thesis
    using sweep_object_new [OF new sample_never_legacy, of ?M "bk_objects sample_bucket" heal] sample_bucket_facts(8)
    by (auto simp: sweep_traces_def Let_def sample_bucket_facts(4,9,10) rows traces note_row_def object_pair_def files
      sample_files_def [symmetric] dset_def isl_def split: sum.splits)
qed

theorem read_only_sweep_agrees_witness:
  "\<exists>doc. bucket_manifest sample_manifest_env False False sample_bucket = Inr (doc, sample_bucket) \<and>
     (\<exists>B. bucket_manifest sample_manifest_env True True sample_bucket = Inr (doc, B))"
proof -
  obtain doc B where dry: "bucket_manifest sample_manifest_env False False sample_bucket = Inr (doc, B)"
    using sample_first_sweep [of False] by (auto simp: bucket_manifest_def Let_def)
  from read_only_sweep_agrees [OF sample_reads_agree sample_bucket_facts(3,1,2) dry] dry show ?thesis by blast
qed

definition healed_sample :: bucket where
  "healed_sample = sample_bucket\<lparr>bk_traces := [((''p'', ''t1''), sample_files)]\<rparr>"

lemma settled_with_files:
  assumes "bk_objects B = bk_objects sample_bucket" "bk_traces B = [((''p'', ''t1''), sample_files)]"
  shows "settled_bucket sample_manifest_env B"
  using assms sample_bucket_facts(7) by (simp add: settled_bucket_def sample_bucket_facts(4,9,10) object_pair_def)

theorem second_sweep_writes_nothing_witness:
  "\<exists>doc doc' B'. bucket_manifest sample_manifest_env True True healed_sample = Inr (doc, B') \<and>
     bucket_manifest (sample_manifest_env\<lparr>mf_now := ''later''\<rparr>) True True B' = Inr (doc', B')"
proof -
  have settled: "settled_bucket sample_manifest_env healed_sample" by (rule settled_with_files) (simp_all add: healed_sample_def)
  obtain doc B' where sweep: "bucket_manifest sample_manifest_env True True healed_sample = Inr (doc, B')"
    using settled_sweep [OF settled] by (auto simp: bucket_manifest_def Let_def)
  from second_sweep_writes_nothing [OF settled sweep, of "''later''"] sweep show ?thesis by blast
qed

text \<open>
  The row of a trace is computed from the record of its object when the files are written, and from the files
  from then on. A patch anchored in two commits is one patch in the record and two in the file.
\<close>

definition patch_counts :: "(string, json) dict \<Rightarrow> json list" where
  "patch_counts doc = map (\<lambda>row. jfield (jfield row ''summary'') ''patch_count'') (jlist (jget doc ''traces''))"

lemma counts_of_document: "patch_counts (manifest_document E obs rows) = map (\<lambda>row. jfield (jget row ''summary'') ''patch_count'') rows"
  by (simp add: patch_counts_def manifest_document_def manifest_body_def Let_def)

lemma counts_of_row: "jfield (jget (summary_row E M p t (Some r) present files ob) ''summary'') ''patch_count'' = JInt (int (length (rec_patches r)))"
  by (simp add: summary_row_def per_trace_v2_summary_def Let_def)

theorem heal_changes_twice:
  "\<exists>doc B doc' B'. bucket_manifest sample_manifest_env True True sample_bucket = Inr (doc, B) \<and> patch_counts doc = [JInt 1] \<and>
     bucket_manifest sample_manifest_env True True B = Inr (doc', B') \<and> patch_counts doc' = [JInt 2]"
proof -
  obtain r where r: "spine_record (tf_spine sample_files) = Some r" "length (rec_patches r) = 2" using sample_bucket_facts(6) by auto
  obtain doc B where first: "bucket_manifest sample_manifest_env True True sample_bucket = Inr (doc, B)" "patch_counts doc = [JInt 1]"
      "bk_objects B = bk_objects sample_bucket" "bk_traces B = [((''p'', ''t1''), sample_files)]"
    using sample_first_sweep [of True]
    by (auto simp: bucket_manifest_def Let_def counts_of_document counts_of_row sample_bucket_facts(5))
  let ?st = "sweep_traces sample_manifest_env True B"
  have "\<exists>st. ?st = Inr st \<and> map (\<lambda>row. jfield (jget row ''summary'') ''patch_count'') (sw_rows st) = [JInt 2]"
    using settled_sweep [OF settled_with_files [OF first(3,4)], of True] sample_bucket_facts(7)
    by (auto simp: Let_def iter_traces_v2_def first(4) r counts_of_row)
  then obtain doc' B' where "bucket_manifest sample_manifest_env True True B = Inr (doc', B')" "patch_counts doc' = [JInt 2]"
    by (auto simp: bucket_manifest_def Let_def counts_of_document)
  then show ?thesis using first(1,2) by blast
qed

end
