(* ===== verification/StatusProps.thy ===== *)
theory StatusProps
  imports SweepProps
begin

text \<open>
  What the status that is read off the manifest is worth: it says eligible only when the push would be cleared, and
  after a sweep it counts what the scan of the objects counts; a trace that is read in place breaks it for good.
\<close>

section \<open>The counts of the rows\<close>

definition unknown_status :: "json \<Rightarrow> bool" where
  "unknown_status row \<longleftrightarrow> (let s = jfield row ''status'' in \<not> is_jobj s \<or> \<not> truthy (jfield s ''known''))"

definition known_with :: "(json \<Rightarrow> bool) \<Rightarrow> json \<Rightarrow> bool" where
  "known_with P row \<longleftrightarrow> \<not> unknown_status row \<and> P (jfield row ''status'')"

definition row_written :: "(json \<Rightarrow> string) \<Rightarrow> json \<Rightarrow> string" where
  "row_written repr row =
     (let w = jfield (jfield row ''status'') ''written_at'' in if unknown_status row \<or> \<not> truthy w then [] else py_str repr w)"

lemma max_Nil [simp]: "max xs ([] :: string) = xs" "max ([] :: string) xs = xs"
  by (simp_all add: max_def)

lemma count_by_Cons: "count_by P (x # xs) = (if P x then 1 else 0) + count_by P xs"
  by (simp add: count_by_def)

lemma aggregate_fold:
  "fold (count_status repr) rows n =
     \<lparr>sn_syncable = sn_syncable n + count_by (known_with (\<lambda>s. jfield s ''syncable'' = JBool True)) rows,
      sn_unfiltered = sn_unfiltered n + count_by (known_with (\<lambda>s. jfield s ''syncable'' = JBool False)) rows,
      sn_stale = sn_stale n + count_by (known_with (\<lambda>s. truthy (jfield s ''security_stale''))) rows,
      sn_off = sn_off n + count_by (known_with (\<lambda>s. truthy (jfield s ''privacy_off''))) rows,
      sn_unknown = sn_unknown n + count_by unknown_status rows,
      sn_last = fold max (map (row_written repr) rows) (sn_last n)\<rparr>"
proof (induction rows arbitrary: n)
  case (Cons row rows)
  show ?case unfolding fold_Cons comp_apply Cons.IH list.map count_by_Cons
    by (auto simp: count_status_def known_with_def unknown_status_def row_written_def Let_def max.commute)
qed (simp add: count_by_def)

lemma count_by_none: "count_by P xs = 0 \<longleftrightarrow> (\<forall>x\<in>set xs. \<not> P x)"
  by (simp add: count_by_def filter_empty_conv)

lemma iter_list [simp]: "iter_or_empty (JList xs) = Inr xs"
  by (simp add: iter_or_empty_def py_iter_def)

section \<open>Eligible means cleared\<close>

text \<open>Rows carry a status whose verdict is true or false, as every row the program computes does.\<close>

definition typed_status :: "json \<Rightarrow> bool" where
  "typed_status row \<longleftrightarrow> unknown_status row \<or> (case jfield (jfield row ''status'') ''syncable'' of JBool b \<Rightarrow> True | _ \<Rightarrow> False)"

lemma cleared_row:
  "\<not> unknown_status row \<Longrightarrow> jfield (jfield row ''status'') ''syncable'' = JBool True \<Longrightarrow> clearance_state (jfield row ''status'') = CLEARED"
  by (auto simp: unknown_status_def clearance_state_def Let_def is_jobj_def split: json.splits)

lemma typed_cleared:
  "typed_status row \<Longrightarrow> \<not> unknown_status row \<Longrightarrow> jfield (jfield row ''status'') ''syncable'' \<noteq> JBool False \<Longrightarrow>
     clearance_state (jfield row ''status'') = CLEARED"
  using cleared_row [of row] by (cases "jfield (jfield row ''status'') ''syncable''") (auto simp: typed_status_def)

lemma nothing_withheld:
  "\<forall>row\<in>set rows. clearance_state (jfield row ''status'') = CLEARED \<Longrightarrow>
     pp_withheld (fold (partition_row repr) rows p) = pp_withheld p"
  by (induction rows arbitrary: p) (auto simp: partition_row_def Let_def)

text \<open>What the status takes from the manifest, in one place.\<close>

lemma status_parts:
  assumes "bucket_status_from_persisted repr marker m = Inr s"
  obtains vs scalar view where "iter_or_empty (jget m ''traces'') = Inr vs" "as_dict (jget m ''trace_records'') = Inr scalar"
    "bounded_status_view m = Inr view" "s = persisted_status repr marker m (filter is_jobj vs) scalar view"
  using assms unfolding bucket_status_from_persisted_def by (auto split: sum.splits)

lemma persisted_fields:
  "bs_reasons (persisted_status repr marker m rows scalar view) =
     status_reasons marker m (jget scalar ''object_count'') (length rows) (sn_unknown (aggregate_status_from_rows repr rows))"
  "bs_stale (persisted_status repr marker m rows scalar view) \<longleftrightarrow> bs_reasons (persisted_status repr marker m rows scalar view) \<noteq> []"
  "bs_eligible (persisted_status repr marker m rows scalar view) \<longleftrightarrow> bs_reasons (persisted_status repr marker m rows scalar view) = [] \<and>
     is_zero (jget (status_count_block scalar (length rows) (aggregate_status_from_rows repr rows)) ''unfiltered_count'') \<and>
     is_zero (jget (status_count_block scalar (length rows) (aggregate_status_from_rows repr rows)) ''security_stale_count'')"
  by (simp_all add: persisted_status_def Let_def)

text \<open>A count of objects that the rows do not contradict.\<close>

definition count_agrees :: "json \<Rightarrow> nat \<Rightarrow> bool" where
  "count_agrees v n \<longleftrightarrow> (case v of JInt c \<Rightarrow> c = int n | JBool b \<Rightarrow> (if b then 1 else 0) = n | _ \<Rightarrow> True)"

definition row_passes :: "json \<Rightarrow> bool" where
  "row_passes row \<longleftrightarrow> \<not> unknown_status row \<and> jfield (jfield row ''status'') ''syncable'' \<noteq> JBool False \<and>
     \<not> truthy (jfield (jfield row ''status'') ''security_stale'')"

lemma reasons_none:
  assumes "unknown \<le> n"
  shows "status_reasons marker m found n unknown = [] \<longleftrightarrow>
    marker = None \<and> jget m ''security_version'' = JStr SECURITY_VERSION \<and> count_agrees found n \<and> unknown = 0"
  using assms by (auto simp: status_reasons_def count_agrees_def split: json.splits if_splits)

lemma aggregate_counts:
  "sn_unknown (aggregate_status_from_rows repr rows) = count_by unknown_status rows"
  "sn_unfiltered (aggregate_status_from_rows repr rows) = count_by (known_with (\<lambda>s. jfield s ''syncable'' = JBool False)) rows"
  "sn_stale (aggregate_status_from_rows repr rows) = count_by (known_with (\<lambda>s. truthy (jfield s ''security_stale''))) rows"
  by (simp_all add: aggregate_status_from_rows_def aggregate_fold)

lemma persisted_eligible:
  "bs_eligible (persisted_status repr marker m rows scalar view) \<longleftrightarrow>
     marker = None \<and> jget m ''security_version'' = JStr SECURITY_VERSION \<and>
     count_agrees (jget scalar ''object_count'') (length rows) \<and> list_all row_passes rows"
proof -
  let ?agg = "aggregate_status_from_rows repr rows"
  have le: "sn_unknown ?agg \<le> length rows" by (simp add: aggregate_counts count_by_def)
  have zero: "is_zero (jget (status_count_block scalar (length rows) ?agg) ''unfiltered_count'') \<longleftrightarrow> sn_unfiltered ?agg = 0"
    "is_zero (jget (status_count_block scalar (length rows) ?agg) ''security_stale_count'') \<longleftrightarrow> sn_stale ?agg = 0"
    if "sn_unknown ?agg = 0" using that by (auto simp: status_count_block_def is_zero_def)
  have "list_all row_passes rows \<longleftrightarrow> sn_unknown ?agg = 0 \<and> sn_unfiltered ?agg = 0 \<and> sn_stale ?agg = 0"
    by (auto simp: aggregate_counts count_by_none known_with_def row_passes_def list_all_iff)
  then show ?thesis unfolding persisted_fields reasons_none [OF le] using zero by blast
qed

text \<open>C11.
  A status served from the persisted manifest says eligible exactly when no marker is set, the manifest carries the current
  security version, its count of objects is that of its rows, and every row has a known status that is neither unfiltered
  nor stale. And then, if the verdicts of the rows are booleans (as those the program computes are), every row is cleared
  and the clearance gate of the push lets the manifest through with nothing withheld.
\<close>

theorem eligible_means_cleared:
  assumes "bucket_status_from_persisted repr marker m = Inr s"
  shows "\<exists>vs scalar. iter_or_empty (jget m ''traces'') = Inr vs \<and> as_dict (jget m ''trace_records'') = Inr scalar \<and>
    (let rows = filter is_jobj vs
     in (bs_eligible s \<longleftrightarrow> marker = None \<and> jget m ''security_version'' = JStr SECURITY_VERSION \<and>
           count_agrees (jget scalar ''object_count'') (length rows) \<and> list_all row_passes rows) \<and>
        (bs_eligible s \<and> list_all typed_status rows \<longrightarrow>
           list_all (\<lambda>row. clearance_state (jfield row ''status'') = CLEARED) rows \<and>
           (\<exists>part. enforce_push_clearance repr (JObj m) = Inr part \<and> pp_withheld part = [])))"
proof -
  obtain vs scalar view where vs: "iter_or_empty (jget m ''traces'') = Inr vs" "as_dict (jget m ''trace_records'') = Inr scalar"
    and s: "s = persisted_status repr marker m (filter is_jobj vs) scalar view" using status_parts [OF assms(1)] by metis
  let ?rows = "filter is_jobj vs"
  note eligible = persisted_eligible [of repr marker m ?rows scalar view, folded s]
  have "list_all (\<lambda>row. clearance_state (jfield row ''status'') = CLEARED) ?rows \<and>
      (\<exists>part. enforce_push_clearance repr (JObj m) = Inr part \<and> pp_withheld part = [])"
    if "bs_eligible s" "list_all typed_status ?rows"
  proof -
    have clear: "\<forall>row\<in>set ?rows. clearance_state (jfield row ''status'') = CLEARED"
      using that typed_cleared eligible unfolding list_all_iff row_passes_def by blast
    then have none: "pp_withheld (push_withhold_partition repr ?rows) = []"
      by (simp add: push_withhold_partition_def nothing_withheld)
    have "enforce_push_clearance repr (JObj m) = Inr (push_withhold_partition repr ?rows)"
      using none vs by (simp add: enforce_push_clearance_def partition_from_manifest_def)
    with clear none show ?thesis by (auto simp: list_all_iff)
  qed
  with vs eligible show ?thesis unfolding Let_def by blast
qed

section \<open>The rows of a sweep\<close>

definition every_trace_has_object :: "bucket \<Rightarrow> bool" where
  "every_trace_has_object B \<longleftrightarrow>
     list_all (\<lambda>(k, files). tf_spine files = SpineAbsent \<or> k \<in> set (map object_pair (iter_trace_record_objects (bk_objects B)))) (bk_traces B)"

definition object_row :: "manifest_env \<Rightarrow> bucket_object list \<Rightarrow> (string, json) dict \<Rightarrow> bool" where
  "object_row E obs row \<longleftrightarrow> (\<exists>ob\<in>set obs. \<exists>M r present files. row = summary_row E M (bo_project ob) (bo_trace_id ob) r present files (Some ob))"

lemma object_rowI: "ob \<in> set obs \<Longrightarrow> object_row E obs (summary_row E M (bo_project ob) (bo_trace_id ob) r present files (Some ob))"
  unfolding object_row_def by blast

lemma iter_key: "ob \<in> set (iter_trace_record_objects S) \<Longrightarrow> object_pair ob = object_key ob"
  using iter_read [of ob S] by (auto simp: object_pair_def dest!: read_keeps)

lemma distinct_pairs: "store_ok S \<Longrightarrow> distinct (map object_pair (iter_trace_record_objects S))"
  using iter_distinct [of S] iter_key [of _ S] by (metis (no_types, lifting) map_eq_conv)

lemma fold_envelopes:
  "distinct (map object_pair obs) \<Longrightarrow> dget (fold (\<lambda>ob d. dset d (bo_project ob, bo_trace_id ob) ob) obs d) k =
     (case find (\<lambda>ob. object_pair ob = k) obs of None \<Rightarrow> dget d k | Some ob \<Rightarrow> Some ob)"
proof (induction obs arbitrary: d)
  case (Cons ob obs)
  have "find (\<lambda>ob. object_pair ob = k) obs = None" if "object_pair ob = k"
    using Cons.prems that by (auto simp: find_None_iff image_iff)
  then show ?case using Cons by (auto simp: object_pair_def split: option.splits)
qed simp

lemma envelope_of:
  "distinct (map object_pair obs) \<Longrightarrow> ob \<in> set obs \<Longrightarrow> dget (object_envelopes obs) (object_pair ob) = Some ob"
  unfolding object_envelopes_def fold_envelopes
  by (induction obs) (auto split: option.splits)

lemma distinct_sorted [simp]: "distinct (map f (sort_key g xs)) = distinct (map f xs)"
  by (metis mset_map mset_sort mset_eq_imp_distinct_iff)

lemma iter_rows:
  assumes "distinct (map object_pair obs)" "dict_ok (bk_traces B)"
    and covered: "list_all (\<lambda>(k, files). tf_spine files = SpineAbsent \<or> k \<in> set (map object_pair obs)) (bk_traces B)"
  shows "list_all (object_row E obs) (iter_traces_v2 E M obs B) \<and> distinct (map row_order (iter_traces_v2 E M obs B)) \<and>
    row_order ` set (iter_traces_v2 E M obs B) \<subseteq> object_pair ` set obs"
proof -
  define ts where "ts = filter (\<lambda>(_, files). tf_spine files \<noteq> SpineAbsent) (bk_traces B)"
  define row where "row = (\<lambda>((p, t), files). summary_row E M p t (spine_record (tf_spine files)) None files
      (case dget (object_envelopes obs) (p, t) of Some ob \<Rightarrow> Some ob | None \<Rightarrow> resolve_record_envelope (bk_objects B) p t (spine_record (tf_spine files))))"
  have rows: "iter_traces_v2 E M obs B = sort_key row_order (map row ts)" by (simp add: iter_traces_v2_def row_def ts_def)
  have pairs: "fst ` set ts \<subseteq> object_pair ` set obs" using covered by (fastforce simp: ts_def list_all_iff)
  have "object_row E obs (row x)" if mem: "x \<in> set ts" for x
  proof -
    obtain p t files where x: "x = ((p, t), files)" by (cases x) auto
    obtain ob where ob: "ob \<in> set obs" "(p, t) = object_pair ob" using pairs mem x by fastforce
    show ?thesis using envelope_of [OF assms(1) ob(1)] ob object_rowI [OF ob(1)] x by (simp add: object_pair_def row_def)
  qed
  moreover have keys: "row_order (row x) = fst x" for x by (simp add: row_def case_prod_unfold)
  moreover have "distinct (map fst ts)" using assms(2) by (simp add: ts_def dict_ok_def dkeys_def distinct_map_filter)
  ultimately show ?thesis using pairs by (simp add: rows list_all_iff comp_def image_image)
qed

lemma sweep_object_rows:
  assumes "sweep_object E M S True ob st = Inr st'" "ob \<in> set obs"
    and inv: "list_all (object_row E obs) (sw_rows st)" "sw_pairs st = map row_order (sw_rows st)" "distinct (sw_pairs st)"
      "set (sw_pairs st) \<subseteq> object_pair ` set obs"
  shows "list_all (object_row E obs) (sw_rows st') \<and> sw_pairs st' = map row_order (sw_rows st') \<and> distinct (sw_pairs st') \<and>
    set (sw_pairs st') = (if is_legacy_read_in_place_mirror E (bo_project ob) (bo_trace_id ob) then set (sw_pairs st)
      else insert (object_pair ob) (set (sw_pairs st)))"
proof (cases "object_pair ob \<in> set (sw_pairs st) \<or> is_legacy_read_in_place_mirror E (bo_project ob) (bo_trace_id ob)")
  case True
  then show ?thesis using assms(1) inv by (auto simp: sweep_object_skip insert_absorb)
next
  case False
  then show ?thesis using assms(1) inv object_rowI [OF assms(2)]
    by (auto simp: sweep_object_new note_row_def Let_def object_pair_def)
qed

lemma sweep_objects_rows:
  "\<lbrakk>sweep_objects E M S True obs' st = Inr st'; set obs' \<subseteq> set obs; list_all (object_row E obs) (sw_rows st);
     sw_pairs st = map row_order (sw_rows st); distinct (sw_pairs st); set (sw_pairs st) \<subseteq> object_pair ` set obs\<rbrakk> \<Longrightarrow>
   list_all (object_row E obs) (sw_rows st') \<and> distinct (map row_order (sw_rows st')) \<and>
   set (map row_order (sw_rows st')) = set (sw_pairs st) \<union>
     object_pair ` {ob \<in> set obs'. \<not> is_legacy_read_in_place_mirror E (bo_project ob) (bo_trace_id ob)}"
proof (induction obs' arbitrary: st)
  case (Cons ob obs')
  obtain st1 where st1: "sweep_object E M S True ob st = Inr st1" "sweep_objects E M S True obs' st1 = Inr st'"
    using Cons.prems(1) by (auto split: sum.splits)
  have ob: "ob \<in> set obs" using Cons.prems(2) by simp
  note step = sweep_object_rows [OF st1(1) ob Cons.prems(3-6)]
  have pairs: "set (sw_pairs st1) \<subseteq> object_pair ` set obs" using step Cons.prems(6) ob by (auto split: if_splits)
  have inv: "list_all (object_row E obs) (sw_rows st1)" "sw_pairs st1 = map row_order (sw_rows st1)" "distinct (sw_pairs st1)"
    and grown: "set (sw_pairs st1) = (if is_legacy_read_in_place_mirror E (bo_project ob) (bo_trace_id ob) then set (sw_pairs st)
        else insert (object_pair ob) (set (sw_pairs st)))"
    using step by blast+
  have tail: "list_all (object_row E obs) (sw_rows st') \<and> distinct (map row_order (sw_rows st')) \<and>
      set (map row_order (sw_rows st')) = set (sw_pairs st1) \<union>
        object_pair ` {ob \<in> set obs'. \<not> is_legacy_read_in_place_mirror E (bo_project ob) (bo_trace_id ob)}"
    by (rule Cons.IH [OF st1(2) _ inv pairs]) (use Cons.prems(2) in simp)
  have kept: "object_pair ` {x \<in> set (ob # obs'). \<not> is_legacy_read_in_place_mirror E (bo_project x) (bo_trace_id x)} =
      (if is_legacy_read_in_place_mirror E (bo_project ob) (bo_trace_id ob) then {} else {object_pair ob}) \<union>
      object_pair ` {x \<in> set obs'. \<not> is_legacy_read_in_place_mirror E (bo_project x) (bo_trace_id x)}" by auto
  show ?case unfolding kept using tail unfolding grown by (auto split: if_splits)
qed auto

text \<open>After a sweep there is one row for each object that is not read in place, with the status of that object.\<close>

lemma healed_rows:
  assumes "store_ok (bk_objects B)" "dict_ok (bk_traces B)" "every_trace_has_object B"
    and sweep: "sweep_traces E True B = Inr st"
  shows "list_all (object_row E (iter_trace_record_objects (bk_objects B))) (sw_rows st) \<and> distinct (map row_order (sw_rows st)) \<and>
    set (map row_order (sw_rows st)) =
      {k. \<exists>files. (k, files) \<in> set (bk_traces B) \<and> tf_spine files \<noteq> SpineAbsent} \<union>
      object_pair ` {ob \<in> set (iter_trace_record_objects (bk_objects B)). \<not> is_legacy_read_in_place_mirror E (bo_project ob) (bo_trace_id ob)}"
proof -
  let ?obs = "iter_trace_record_objects (bk_objects B)"
  let ?M = "sweep_anchors E ?obs"
  let ?rows = "iter_traces_v2 E ?M ?obs B"
  let ?st0 = "\<lparr>sw_rows = ?rows, sw_pairs = map row_order ?rows, sw_traces = bk_traces B\<rparr>"
  obtain st1 where st1: "sweep_objects E ?M (bk_objects B) True ?obs ?st0 = Inr st1" "st = st1\<lparr>sw_rows := sort_key row_order (sw_rows st1)\<rparr>"
    using sweep by (auto simp: sweep_traces_def Let_def split: sum.splits)
  have start: "list_all (object_row E ?obs) ?rows \<and> distinct (map row_order ?rows) \<and> row_order ` set ?rows \<subseteq> object_pair ` set ?obs"
    using assms(3) by (intro iter_rows distinct_pairs assms(1,2)) (simp add: every_trace_has_object_def)
  have "list_all (object_row E ?obs) (sw_rows st1) \<and> distinct (map row_order (sw_rows st1)) \<and>
      set (map row_order (sw_rows st1)) = set (sw_pairs ?st0) \<union> object_pair ` {ob \<in> set ?obs. \<not> is_legacy_read_in_place_mirror E (bo_project ob) (bo_trace_id ob)}"
    by (rule sweep_objects_rows [OF st1(1)]) (use start in auto)
  then show ?thesis using st1(2) iter_pairs [of E ?M ?obs B] by (auto simp: list_all_iff)
qed

section \<open>What the status shows after a sweep\<close>

lemma row_keys: "dict_ok (summary_row E M p t r present files envelope)"
  by (simp add: summary_row_def per_trace_v2_summary_def Let_def dict_ok_def dkeys_def)

lemma row_status: "jget (summary_row E M p t r present files envelope) ''status'' = JObj (row_status_block envelope)"
  by (simp add: summary_row_def per_trace_v2_summary_def Let_def)

lemma status_keys: "dict_ok (row_status_block envelope)"
  by (simp add: row_status_block_def dict_ok_def dkeys_def split: option.splits)

lemma jfield_canon: "dict_ok d \<Longrightarrow> jfield (canon (JObj d)) k = canon (jget d k)"
  using jget_canon [of d k] by (simp add: jfield_def del: canon.simps) (simp add: jfield_def)

lemma object_row_status:
  assumes "object_row E obs row"
  obtains ob where "ob \<in> set obs" "row_order row = object_pair ob"
    "\<And>k. jfield (jfield (canon (JObj row)) ''status'') k = canon (jget (row_status_block (Some ob)) k)"
    "is_jobj (jfield (canon (JObj row)) ''status'')"
proof -
  obtain ob M r present files where ob: "ob \<in> set obs" "row = summary_row E M (bo_project ob) (bo_trace_id ob) r present files (Some ob)"
    using assms unfolding object_row_def by blast
  have status: "jfield (canon (JObj row)) ''status'' = canon (JObj (row_status_block (Some ob)))"
    unfolding ob(2) jfield_canon [OF row_keys] row_status ..
  show thesis
  proof (rule that [OF ob(1)])
    show "row_order row = object_pair ob" by (simp add: ob(2) object_pair_def)
    show "jfield (jfield (canon (JObj row)) ''status'') k = canon (jget (row_status_block (Some ob)) k)" for k
      unfolding status by (rule jfield_canon [OF status_keys])
    show "is_jobj (jfield (canon (JObj row)) ''status'')" unfolding status by (simp add: is_jobj_def)
  qed
qed

lemma count_transfer:
  assumes "distinct (map f xs)" "distinct (map g ys)" "f ` set xs = g ` set ys"
    and "\<And>x y. x \<in> set xs \<Longrightarrow> y \<in> set ys \<Longrightarrow> f x = g y \<Longrightarrow> P x \<longleftrightarrow> Q y"
  shows "count_by P xs = count_by Q ys"
proof -
  have cards: "count_by R zs = card (h ` {z \<in> set zs. R z})" if "distinct (map h zs)" for R zs and h :: "'z \<Rightarrow> 'k"
    using distinct_card [OF distinct_map_filter [OF that]] by (simp add: count_by_def)
  have "f ` {x \<in> set xs. P x} = g ` {y \<in> set ys. Q y}"
  proof (intro set_eqI iffI)
    fix k assume "k \<in> f ` {x \<in> set xs. P x}"
    then obtain x where x: "x \<in> set xs" "P x" "k = f x" by auto
    then obtain y where "y \<in> set ys" "f x = g y" using assms(3) by blast
    then show "k \<in> g ` {y \<in> set ys. Q y}" using assms(4) x by auto
  next
    fix k assume "k \<in> g ` {y \<in> set ys. Q y}"
    then obtain y where y: "y \<in> set ys" "Q y" "k = g y" by auto
    then obtain x where "x \<in> set xs" "f x = g y" using assms(3) by (metis imageE imageI)
    then show "k \<in> f ` {x \<in> set xs. P x}" using assms(4) y by force
  qed
  then show ?thesis using cards [OF assms(1)] cards [OF assms(2)] by simp
qed

lemma fold_max_set: "set xs = set ys \<Longrightarrow> fold max xs a = fold max ys (a :: 'a :: linorder)"
  by (metis Max.set_eq_fold list.simps(15) fold_simps(2))

definition matches :: "bucket_object list \<Rightarrow> (string, json) dict list \<Rightarrow> bool" where
  "matches obs rows \<longleftrightarrow> distinct (map row_order rows) \<and> distinct (map object_pair obs) \<and> row_order ` set rows = object_pair ` set obs \<and>
     (\<forall>row\<in>set rows. \<forall>ob\<in>set obs. row_order row = object_pair ob \<longrightarrow> is_jobj (jfield (canon (JObj row)) ''status'') \<and>
        (\<forall>k. jfield (jfield (canon (JObj row)) ''status'') k = canon (jget (row_status_block (Some ob)) k)))"

lemma rows_match:
  assumes "list_all (object_row E obs) rows" "distinct (map row_order rows)" "distinct (map object_pair obs)"
    "row_order ` set rows = object_pair ` set obs"
  shows "matches obs rows"
proof -
  have "is_jobj (jfield (canon (JObj row)) ''status'') \<and> (\<forall>k. jfield (jfield (canon (JObj row)) ''status'') k = canon (jget (row_status_block (Some ob)) k))"
    if row: "row \<in> set rows" "ob \<in> set obs" "row_order row = object_pair ob" for row ob
  proof -
    have "object_row E obs row" using assms(1) row(1) by (simp add: list_all_iff)
    then obtain ob' where ob': "ob' \<in> set obs" "row_order row = object_pair ob'"
        "\<And>k. jfield (jfield (canon (JObj row)) ''status'') k = canon (jget (row_status_block (Some ob')) k)" "is_jobj (jfield (canon (JObj row)) ''status'')"
      by (rule object_row_status) (rule that)
    have "ob' = ob" using ob'(1,2) row(2,3) assms(3) by (metis distinct_map inj_onD)
    then show ?thesis using ob' by simp
  qed
  then show ?thesis using assms by (simp add: matches_def)
qed

lemma count_rows:
  assumes "matches obs rows" and "\<And>ob row. is_jobj (jfield row ''status'') \<Longrightarrow>
      (\<And>k. jfield (jfield row ''status'') k = canon (jget (row_status_block (Some ob)) k)) \<Longrightarrow> ob \<in> set obs \<Longrightarrow> P row \<longleftrightarrow> Q ob"
  shows "count_by P (map (canon \<circ> JObj) rows) = count_by Q obs"
proof -
  have "count_by (P \<circ> (canon \<circ> JObj)) rows = count_by Q obs"
    by (rule count_transfer [of row_order rows object_pair obs]) (use assms in \<open>auto simp: matches_def simp del: canon.simps\<close>)
  then show ?thesis by (simp add: count_by_def filter_map comp_def del: canon.simps)
qed

text \<open>The objects a read returns carry their verdict as true or false.\<close>

lemma read_verdicts:
  assumes "ob \<in> set (iter_trace_record_objects S)"
  obtains b c where "jget (bo_security ob) ''syncable'' = JBool b" "jget (bo_security ob) ''stale'' = JBool c"
  using iter_read [OF assms] by (auto simp: read_trace_record_object_def bucket_security_state_def split: if_splits json.splits intro: that)

lemma aggregate_exact:
  assumes "matches obs rows" "obs = iter_trace_record_objects S"
  shows "aggregate_status_from_rows repr (map (canon \<circ> JObj) rows) =
    \<lparr>sn_syncable = count_by (object_flag ''syncable'' True) obs, sn_unfiltered = count_by (object_flag ''syncable'' False) obs,
     sn_stale = count_by (object_flag ''stale'' True) obs, sn_off = count_by (\<lambda>ob. jget (bo_security ob) ''privacy_tier'' = JStr ''off'') obs,
     sn_unknown = 0, sn_last = fold max (map bo_written_at obs) []\<rparr>"
proof -
  note block = row_status_block_def known_with_def unknown_status_def Let_def object_flag_def
  have unknown: "count_by unknown_status (map (canon \<circ> JObj) rows) = count_by (\<lambda>_. False) obs"
    by (rule count_rows [OF assms(1)]) (simp add: block)
  have flags: "count_by (known_with (\<lambda>s. jfield s ''syncable'' = JBool b)) (map (canon \<circ> JObj) rows) = count_by (object_flag ''syncable'' b) obs" for b
    by (rule count_rows [OF assms(1)]) (use assms(2) in \<open>auto simp: block elim!: read_verdicts\<close>)
  have stale: "count_by (known_with (\<lambda>s. truthy (jfield s ''security_stale''))) (map (canon \<circ> JObj) rows) = count_by (object_flag ''stale'' True) obs"
    by (rule count_rows [OF assms(1)]) (use assms(2) in \<open>auto simp: block elim!: read_verdicts\<close>)
  have off: "count_by (known_with (\<lambda>s. truthy (jfield s ''privacy_off''))) (map (canon \<circ> JObj) rows) =
      count_by (\<lambda>ob. jget (bo_security ob) ''privacy_tier'' = JStr ''off'') obs"
    by (rule count_rows [OF assms(1)]) (simp add: block)
  have written: "row_written repr (canon (JObj row)) = bo_written_at ob" if "row \<in> set rows" "ob \<in> set obs" "row_order row = object_pair ob" for row ob
  proof -
    have field: "jfield (jfield (canon (JObj row)) ''status'') k = canon (jget (row_status_block (Some ob)) k)"
        and obj: "is_jobj (jfield (canon (JObj row)) ''status'')" for k
      using that assms(1) unfolding matches_def by blast+
    show ?thesis unfolding row_written_def unknown_status_def Let_def field by (simp add: obj row_status_block_def del: canon.simps) simp
  qed
  have "set (map (row_written repr) (map (canon \<circ> JObj) rows)) = set (map bo_written_at obs)"
  proof -
    have pairs: "row_order ` set rows = object_pair ` set obs" using assms(1) by (simp add: matches_def)
    have "row_written repr (canon (JObj row)) \<in> bo_written_at ` set obs" if row: "row \<in> set rows" for row
    proof -
      obtain ob where "ob \<in> set obs" "row_order row = object_pair ob" using pairs row by blast
      then show ?thesis using written row by simp
    qed
    moreover have "bo_written_at ob \<in> (\<lambda>row. row_written repr (canon (JObj row))) ` set rows" if ob: "ob \<in> set obs" for ob
    proof -
      obtain row where "row \<in> set rows" "object_pair ob = row_order row" using pairs ob by blast
      then show ?thesis using written [of row ob] ob by (metis image_eqI)
    qed
    ultimately show ?thesis by (auto simp del: canon.simps)
  qed
  then have last: "fold max (map (row_written repr) (map (canon \<circ> JObj) rows)) [] = fold max (map bo_written_at obs) []" by (rule fold_max_set)
  have zero: "count_by (\<lambda>_. False) obs = 0" by (simp add: count_by_def)
  show ?thesis unfolding aggregate_status_from_rows_def aggregate_fold unknown flags stale off zero
    using last by simp
qed

lemma document_keys: "dict_ok (manifest_document E obs rows)"
  by (simp add: manifest_document_def manifest_body_def Let_def dict_ok_def dkeys_def)

lemma document_fields:
  "jget (manifest_document E obs rows) ''schema_version'' = JStr BUCKET_MANIFEST_SCHEMA"
  "jget (manifest_document E obs rows) ''security_version'' = JStr SECURITY_VERSION"
  "jget (manifest_document E obs rows) ''traces'' = JList (map JObj rows)"
  "jget (manifest_document E obs rows) ''trace_records'' = trace_records_block E obs"
  "jget (manifest_document E obs rows) ''sync'' = sync_block obs"
  "jget (manifest_document E obs rows) ''trail'' = trail_block E"
  by (simp_all add: manifest_document_def manifest_body_def Let_def)

text \<open>The persisted document is the canonical form of the one computed; its members are those of the document.\<close>

definition persisted_form :: "(string, json) dict \<Rightarrow> (string, json) dict" where
  "persisted_form doc = (case canon (JObj doc) of JObj d \<Rightarrow> d | _ \<Rightarrow> [])"

lemma persisted_get: "dict_ok doc \<Longrightarrow> jget (persisted_form doc) k = canon (jget doc k)"
  unfolding persisted_form_def by (rule jget_canon)

lemma canon_persisted: "canon (JObj doc) = JObj (persisted_form doc)"
  by (simp add: persisted_form_def)

lemma canon_rows: "canon (JList (map JObj rows)) = JList (map (canon \<circ> JObj) rows)"
  by simp

lemma objects_kept: "filter is_jobj (map (canon \<circ> JObj) rows) = map (canon \<circ> JObj) rows"
  by (rule filter_True) (simp add: is_jobj_def)

definition COUNT_KEYS :: "string list" where
  "COUNT_KEYS = [''object_count'', ''syncable_count'', ''unfiltered_count'', ''security_stale_count'', ''privacy_off_count'', ''last_write_at'']"

lemma fold_counts:
  "k \<in> set COUNT_KEYS \<Longrightarrow> jget (fold (\<lambda>(k, x) d. dset d k x) (status_count_block scalar n agg) shown) k = jget (status_count_block scalar n agg) k"
  by (auto simp: COUNT_KEYS_def status_count_block_def)

lemma block_fields:
  "jfield (trace_records_block E obs) ''object_count'' = JInt (int (length obs))"
  "jfield (trace_records_block E obs) ''syncable_count'' = JInt (int (count_by (object_flag ''syncable'' True) obs))"
  "jfield (trace_records_block E obs) ''unfiltered_count'' = JInt (int (count_by (object_flag ''syncable'' False) obs))"
  "jfield (trace_records_block E obs) ''security_stale_count'' = JInt (int (count_by (object_flag ''stale'' True) obs))"
  "jfield (trace_records_block E obs) ''privacy_off_count'' = JInt (int (count_by (\<lambda>ob. jget (bo_security ob) ''privacy_tier'' = JStr ''off'') obs))"
  "jfield (trace_records_block E obs) ''last_write_at'' = latest (map bo_written_at obs)"
  by (simp_all add: trace_records_block_def Let_def)

lemma block_keys: "\<exists>d. trace_records_block E obs = JObj d \<and> dict_ok d \<and> d \<noteq> []"
  by (simp add: trace_records_block_def Let_def dict_ok_def dkeys_def)

lemma persisted_block:
  "\<exists>d. canon (trace_records_block E obs) = JObj d \<and> d \<noteq> [] \<and> (\<forall>k. jget d k = canon (jfield (trace_records_block E obs) k))"
proof -
  obtain d where d: "trace_records_block E obs = JObj d" "dict_ok d" "d \<noteq> []" using block_keys by blast
  have "persisted_form d \<noteq> []" using d(3) by (simp add: persisted_form_def) (metis length_0_conv length_map length_sort)
  then show ?thesis unfolding d(1) canon_persisted using persisted_get [OF d(2)] by auto
qed

lemma status_of_document:
  assumes "matches obs rows" "obs = iter_trace_record_objects S"
  shows "\<exists>s. bucket_status_from_persisted repr None (persisted_form (manifest_document E obs rows)) = Inr s \<and> bs_reasons s = [] \<and>
    (bs_eligible s \<longleftrightarrow> jfield (sync_block obs) ''eligible'' = JBool True) \<and>
    (\<forall>k\<in>set COUNT_KEYS. jfield (jget (bs_view s) ''trace_records'') k = jfield (trace_records_block E obs) k)"
proof -
  let ?m = "persisted_form (manifest_document E obs rows)" and ?rows = "map (canon \<circ> JObj) rows"
  note get = persisted_get [OF document_keys] document_fields
  have traces: "jget ?m ''traces'' = JList ?rows" by (simp only: get canon_rows)
  obtain d where d: "jget ?m ''trace_records'' = JObj d" "d \<noteq> []" "\<And>k. jget d k = canon (jfield (trace_records_block E obs) k)"
    using persisted_block [of E obs] by (auto simp: get)
  have len: "length rows = length obs"
    using assms(1) distinct_card [of "map row_order rows"] distinct_card [of "map object_pair obs"] by (simp add: matches_def)
  obtain view where view: "bounded_status_view ?m = Inr view" by (simp add: bounded_status_view_def traces Let_def del: canon.simps)
  let ?s = "persisted_status repr None ?m ?rows d view" and ?agg = "aggregate_status_from_rows repr ?rows"
  have s: "bucket_status_from_persisted repr None ?m = Inr ?s"
    using d(2) by (simp add: bucket_status_from_persisted_def traces d(1) view as_dict_def objects_kept del: canon.simps map_map)
  note agg = aggregate_exact [OF assms, of repr]
  have reasons: "bs_reasons ?s = []"
    unfolding persisted_fields by (simp add: status_reasons_def agg get d(3) block_fields len del: canon.simps(1,2))
  have counts: "status_count_block d (length ?rows) ?agg = [(''object_count'', JInt (int (length obs))),
      (''syncable_count'', JInt (int (count_by (object_flag ''syncable'' True) obs))), (''unfiltered_count'', JInt (int (count_by (object_flag ''syncable'' False) obs))),
      (''security_stale_count'', JInt (int (count_by (object_flag ''stale'' True) obs))),
      (''privacy_off_count'', JInt (int (count_by (\<lambda>ob. jget (bo_security ob) ''privacy_tier'' = JStr ''off'') obs))),
      (''last_write_at'', latest (map bo_written_at obs))]"
    by (simp add: status_count_block_def agg len latest_def Let_def)
  have "bs_eligible ?s \<longleftrightarrow> jfield (sync_block obs) ''eligible'' = JBool True"
    unfolding persisted_fields(3) reasons counts by (simp add: is_zero_def sync_block_def Let_def)
  moreover have "jfield (jget (bs_view ?s) ''trace_records'') k = jfield (trace_records_block E obs) k" if k: "k \<in> set COUNT_KEYS" for k
  proof -
    have "jfield (jget (bs_view ?s) ''trace_records'') k = jget (status_count_block d (length ?rows) ?agg) k"
      using fold_counts [OF k] by (simp add: persisted_status_def Let_def)
    then show ?thesis using k unfolding counts by (auto simp: COUNT_KEYS_def block_fields)
  qed
  ultimately show ?thesis using s reasons by blast
qed

lemma fast_reads:
  assumes "bk_manifest B = ManifestHolds n (canon (JObj (manifest_document E obs rows)))" "n \<le> cap"
  shows "bucket_status_fast E cap B = bucket_status_from_persisted (mf_repr E) (bk_marker B) (persisted_form (manifest_document E obs rows))"
proof -
  have "jfield (canon (JObj (manifest_document E obs rows))) ''schema_version'' = JStr BUCKET_MANIFEST_SCHEMA"
    unfolding jfield_canon [OF document_keys] document_fields by simp
  then show ?thesis using assms unfolding canon_persisted
    by (simp add: bucket_status_fast_def read_persisted_manifest_capped_def)
qed

text \<open>What the sweep found, and that it dropped the marker.\<close>

lemma manifest_parts:
  assumes "bucket_manifest E True True B = Inr (doc, B')"
  obtains st where "sweep_traces E True B = Inr st" "doc = manifest_document E (iter_trace_record_objects (bk_objects B)) (sw_rows st)"
    "bk_marker B' = None"
  using assms by (auto simp: bucket_manifest_def Let_def clear_if_unchanged_def split: sum.splits if_splits intro!: that)

lemma stale_iff: "bucket_status_from_persisted repr marker m = Inr s \<Longrightarrow> bs_stale s \<longleftrightarrow> bs_reasons s \<noteq> []"
  by (elim status_parts) (simp add: persisted_fields(2))

text \<open>C15.
  Take a bucket whose objects and trace directories are stored under their own keys, in which every trace with a spine
  has an object and no object is a legacy mirror that is read in place. After a healing sweep whose manifest is stored and
  no larger than the cap, the fast status has no reason to be stale, is eligible exactly when the sweep said so, and
  reports the counts that the sweep took from the objects.
\<close>

theorem healed_status_exact:
  assumes "store_ok (bk_objects B)" "dict_ok (bk_traces B)" "every_trace_has_object B"
    and "list_all (\<lambda>ob. \<not> is_legacy_read_in_place_mirror E (bo_project ob) (bo_trace_id ob)) (iter_trace_record_objects (bk_objects B))"
    and sweep: "bucket_manifest E True True B = Inr (doc, B')"
    and stored: "bk_manifest B' = ManifestHolds n (canon (JObj doc))" "n \<le> cap"
  shows "\<exists>s. bucket_status_fast E cap B' = Inr s \<and> bs_reasons s = [] \<and> \<not> bs_stale s \<and>
    (bs_eligible s \<longleftrightarrow> jfield (jget doc ''sync'') ''eligible'' = JBool True) \<and>
    (\<forall>k\<in>set COUNT_KEYS. jfield (jget (bs_view s) ''trace_records'') k = jfield (jget doc ''trace_records'') k)"
proof -
  let ?obs = "iter_trace_record_objects (bk_objects B)"
  obtain st where st: "sweep_traces E True B = Inr st" "doc = manifest_document E ?obs (sw_rows st)" "bk_marker B' = None"
    using manifest_parts [OF sweep] by blast
  have all: "{ob \<in> set ?obs. \<not> is_legacy_read_in_place_mirror E (bo_project ob) (bo_trace_id ob)} = set ?obs"
    using assms(4) by (auto simp: list_all_iff)
  have "{k. \<exists>files. (k, files) \<in> set (bk_traces B) \<and> tf_spine files \<noteq> SpineAbsent} \<subseteq> object_pair ` set ?obs"
    using assms(3) by (fastforce simp: every_trace_has_object_def list_all_iff)
  then have "matches ?obs (sw_rows st)"
    using healed_rows [OF assms(1-3) st(1)] unfolding all by (intro rows_match distinct_pairs assms(1)) auto
  from status_of_document [OF this refl, of "mf_repr E" E] obtain s
    where s: "bucket_status_from_persisted (mf_repr E) None (persisted_form (manifest_document E ?obs (sw_rows st))) = Inr s" "bs_reasons s = []"
      "bs_eligible s \<longleftrightarrow> jfield (sync_block ?obs) ''eligible'' = JBool True"
      "\<forall>k\<in>set COUNT_KEYS. jfield (jget (bs_view s) ''trace_records'') k = jfield (trace_records_block E ?obs) k" by blast
  have "bucket_status_fast E cap B' = Inr s" using fast_reads [OF stored(1) [unfolded st(2)] stored(2)] st(3) s(1) by simp
  moreover have "\<not> bs_stale s" using stale_iff [OF s(1)] s(2) by simp
  ultimately show ?thesis using s(2-4) unfolding st(2) document_fields by blast
qed

text \<open>C39.
  A record of a legacy mirror that is read in place is counted but gets no row: after any healing sweep the status still
  gives incomplete rows as a reason, and is stale and not eligible.
\<close>

theorem mirror_keeps_status_stale:
  assumes "store_ok (bk_objects B)" "dict_ok (bk_traces B)" "every_trace_has_object B"
    and mirror: "ob \<in> set (iter_trace_record_objects (bk_objects B))" "is_legacy_read_in_place_mirror E (bo_project ob) (bo_trace_id ob)"
      "dget (bk_traces B) (object_pair ob) = None"
    and sweep: "bucket_manifest E True True B = Inr (doc, B')"
    and stored: "bk_manifest B' = ManifestHolds n (canon (JObj doc))" "n \<le> cap"
  shows "\<exists>s. bucket_status_fast E cap B' = Inr s \<and> ''incomplete_rows'' \<in> set (bs_reasons s) \<and> bs_stale s \<and> \<not> bs_eligible s"
proof -
  let ?obs = "iter_trace_record_objects (bk_objects B)"
  obtain st where st: "sweep_traces E True B = Inr st" "doc = manifest_document E ?obs (sw_rows st)" "bk_marker B' = None"
    using manifest_parts [OF sweep] by blast
  note rows = healed_rows [OF assms(1-3) st(1)]
  have "set (map row_order (sw_rows st)) \<subset> set (map object_pair ?obs)"
  proof
    show "set (map row_order (sw_rows st)) \<subseteq> set (map object_pair ?obs)"
      using rows assms(3) by (fastforce simp: every_trace_has_object_def list_all_iff)
    have "object_pair ob \<notin> set (map row_order (sw_rows st))"
      using rows mirror assms(2) dget_of_in by (fastforce simp: object_pair_def)
    then show "set (map row_order (sw_rows st)) \<noteq> set (map object_pair ?obs)" using mirror(1) by auto
  qed
  then have "card (set (map row_order (sw_rows st))) < card (set (map object_pair ?obs))" by (intro psubset_card_mono) simp_all
  moreover have "distinct (map row_order (sw_rows st))" using rows by blast
  ultimately have len: "length (sw_rows st) < length ?obs"
    using distinct_card [of "map row_order (sw_rows st)"] distinct_card [OF distinct_pairs [OF assms(1)]] by simp
  let ?m = "persisted_form doc" and ?rows = "map (canon \<circ> JObj) (sw_rows st)"
  note get = persisted_get [OF document_keys] document_fields
  have traces: "jget ?m ''traces'' = JList ?rows" unfolding st(2) by (simp only: get canon_rows)
  obtain d where d: "jget ?m ''trace_records'' = JObj d" "d \<noteq> []" "\<And>k. jget d k = canon (jfield (trace_records_block E ?obs) k)"
    using persisted_block [of E ?obs] unfolding st(2) by (auto simp: get)
  obtain view where view: "bounded_status_view ?m = Inr view" by (simp add: bounded_status_view_def traces Let_def del: canon.simps)
  let ?s = "persisted_status (mf_repr E) None ?m ?rows d view"
  have "bucket_status_from_persisted (mf_repr E) None ?m = Inr ?s"
    using d(2) by (simp add: bucket_status_from_persisted_def traces d(1) view as_dict_def objects_kept del: canon.simps map_map)
  moreover have "''incomplete_rows'' \<in> set (bs_reasons ?s)"
    unfolding persisted_fields(1) using len by (simp add: status_reasons_def d(3) block_fields)
  moreover have "bs_stale ?s \<and> \<not> bs_eligible ?s" using calculation(2) by (auto simp: persisted_fields(2,3))
  moreover have "bucket_status_fast E cap B' = bucket_status_from_persisted (mf_repr E) None ?m"
    using fast_reads [OF stored(1) [unfolded st(2)] stored(2)] st(2,3) by simp
  ultimately show ?thesis by auto
qed

section \<open>Examples\<close>

definition sample_persisted :: "(string, json) dict" where
  "sample_persisted =
     [(''security_version'', JStr SECURITY_VERSION), (''trace_records'', JObj [(''object_count'', JInt 1)]),
      (''traces'', JList [JObj [(''project_slug'', JStr ''p''), (''trace_id'', JStr ''t1''),
         (''status'', JObj [(''known'', JBool True), (''syncable'', JBool True), (''security_stale'', JBool False)])]])]"

lemma sample_rows: "jget sample_persisted ''traces'' = JList (jlist (jget sample_persisted ''traces''))"
    "list_all typed_status (filter is_jobj (jlist (jget sample_persisted ''traces'')))"
    "case bucket_status_from_persisted (\<lambda>_. []) None sample_persisted of Inl _ \<Rightarrow> False | Inr s \<Rightarrow> bs_eligible s"
proof -
  show "jget sample_persisted ''traces'' = JList (jlist (jget sample_persisted ''traces''))" by code_simp
  show "list_all typed_status (filter is_jobj (jlist (jget sample_persisted ''traces'')))" by code_simp
  show "case bucket_status_from_persisted (\<lambda>_. []) None sample_persisted of Inl _ \<Rightarrow> False | Inr s \<Rightarrow> bs_eligible s" by code_simp
qed

theorem eligible_means_cleared_witness:
  "\<exists>s part. bucket_status_from_persisted (\<lambda>_. []) None sample_persisted = Inr s \<and> bs_eligible s \<and>
     enforce_push_clearance (\<lambda>_. []) (JObj sample_persisted) = Inr part \<and> pp_withheld part = []"
proof -
  obtain s where s: "bucket_status_from_persisted (\<lambda>_. []) None sample_persisted = Inr s" "bs_eligible s"
    using sample_rows(3) by (auto split: sum.splits)
  have "iter_or_empty (jget sample_persisted ''traces'') = Inr (jlist (jget sample_persisted ''traces''))"
    using sample_rows(1) iter_list by metis
  with eligible_means_cleared [OF s(1)] s sample_rows(2) show ?thesis unfolding Let_def by auto
qed

lemma sample_store: "store_ok (bk_objects sample_bucket)" "every_trace_has_object sample_bucket"
  by (simp_all add: store_ok_def keyed_def objects_of_def dict_ok_def dkeys_def object_key_def sample_bucket_def sample_anchored_def
    mk_trace_record_def every_trace_has_object_def)

lemma first_manifest:
  assumes "bk_manifest B = ManifestAbsent" "bucket_manifest E True True B = Inr (doc, B')"
  shows "bk_manifest B' = ManifestHolds (mf_size E (canon (JObj doc))) (canon (JObj doc))"
  using assms by (auto simp: bucket_manifest_def Let_def write_if_changed_def existing_view_def split: sum.splits simp del: canon.simps)

theorem healed_status_exact_witness:
  "\<exists>doc B s. bucket_manifest sample_manifest_env True True sample_bucket = Inr (doc, B) \<and>
     bucket_status_fast sample_manifest_env 100 B = Inr s \<and> \<not> bs_stale s"
proof -
  obtain doc B where sweep: "bucket_manifest sample_manifest_env True True sample_bucket = Inr (doc, B)"
    using sample_first_sweep [of True] by (auto simp: bucket_manifest_def Let_def)
  have stored: "bk_manifest B = ManifestHolds 100 (canon (JObj doc))"
    using first_manifest [OF _ sweep] by (simp add: sample_bucket_def sample_manifest_env_def del: canon.simps)
  have "list_all (\<lambda>ob. \<not> is_legacy_read_in_place_mirror sample_manifest_env (bo_project ob) (bo_trace_id ob)) (iter_trace_record_objects (bk_objects sample_bucket))"
    by (simp add: list_all_iff sample_never_legacy)
  from healed_status_exact [OF sample_store(1) sample_bucket_facts(3) sample_store(2) this sweep stored, of 100] sweep
  show ?thesis by blast
qed

definition mirror_env :: manifest_env where
  "mirror_env = sample_manifest_env\<lparr>mf_in_place := \<lambda>_ _. True, mf_linked := \<lambda>_ _. False\<rparr>"

lemma mirror_legacy: "is_legacy_read_in_place_mirror mirror_env p t"
  by (simp add: is_legacy_read_in_place_mirror_def mirror_env_def)

theorem mirror_keeps_status_stale_witness:
  "\<exists>doc B s. bucket_manifest mirror_env True True sample_bucket = Inr (doc, B) \<and>
     bucket_status_fast mirror_env 100 B = Inr s \<and> bs_reasons s \<noteq> []"
proof -
  have "settled_bucket mirror_env sample_bucket" by (simp add: settled_bucket_def mirror_legacy list_all_iff)
  from settled_sweep [OF this, of True] obtain doc B where sweep: "bucket_manifest mirror_env True True sample_bucket = Inr (doc, B)"
    by (auto simp: bucket_manifest_def Let_def)
  have stored: "bk_manifest B = ManifestHolds 100 (canon (JObj doc))"
    using first_manifest [OF _ sweep] by (simp add: sample_bucket_def mirror_env_def sample_manifest_env_def del: canon.simps)
  have object: "sample_read \<in> set (iter_trace_record_objects (bk_objects sample_bucket))" by (simp add: sample_bucket_facts(4))
  have none: "dget (bk_traces sample_bucket) (object_pair sample_read) = None" by (simp add: sample_bucket_def)
  from mirror_keeps_status_stale [OF sample_store(1) sample_bucket_facts(3) sample_store(2) object mirror_legacy none sweep stored, of 100] sweep
  show ?thesis by (metis empty_iff empty_set le_refl)
qed

end
