(* ===== verification/SyncProps.thy ===== *)
theory SyncProps
  imports BucketSync StatusProps
begin

text \<open>
  What the transfers guarantee: the newest mark survives while clears take turns, an upload that stops anywhere has not
  sent a spine before its companions nor the manifest before anything, nothing leaves without the gate, and the
  relation of the two sides after a push and after a pull.
\<close>

section \<open>The marker\<close>

text \<open>The states the marker can reach.\<close>

inductive marker_reach :: "bool \<Rightarrow> marker \<Rightarrow> bool" for alone :: bool where
  start: "marker_reach alone unmarked"
| step: "marker_reach alone m \<Longrightarrow> marker_enabled alone x m \<Longrightarrow> marker_reach alone (marker_apply x m)"

definition held_by :: "marker \<Rightarrow> nat \<Rightarrow> string \<Rightarrow> bool" where
  "held_by m i x \<longleftrightarrow> (\<exists>j. dget (mk_jobs m) i = Some j \<and> cj_held j = Some x)"

text \<open>
  The newest mark, unless a sweep began with it, is in its place or in the hands of the one job that holds a file.
\<close>

definition marker_safe :: "marker \<Rightarrow> bool" where
  "marker_safe m \<longleftrightarrow> dict_ok (mk_jobs m) \<and> (\<forall>i j. dget (mk_jobs m) i = Some j \<longrightarrow> cj_token j \<in> set (mk_begun m)) \<and>
     (\<forall>i k x y. held_by m i x \<longrightarrow> held_by m k y \<longrightarrow> i = k) \<and>
     (\<forall>t. mk_last m = Some t \<longrightarrow> t \<in> set (mk_begun m) \<or> mk_slot m = Some t \<or> mk_slot m = None \<and> (\<exists>i. held_by m i t))"

lemma nobody_held: "nobody_holds m \<Longrightarrow> \<not> held_by m i x"
  by (auto simp: nobody_holds_def held_by_def list_all_iff dest!: dget_Some_in)

lemma holding_iff: "holding m i \<longleftrightarrow> (\<exists>x. held_by m i x)"
  by (auto simp: holding_def held_by_def split: option.splits)

lemma marker_step_safe:
  assumes "marker_safe m" "marker_enabled True x m"
  shows "marker_safe (marker_apply x m)"
proof (cases x)
  case (Mark t)
  then show ?thesis using assms(1) by (simp add: marker_safe_def held_by_def)
next
  case (BeginSweep i)
  then show ?thesis using assms by (auto simp: marker_safe_def held_by_def split: option.splits)
next
  case (RenameAway i)
  obtain j where j: "dget (mk_jobs m) i = Some j" "nobody_holds m" using assms(2) RenameAway by (auto simp: holding_def)
  note free = nobody_held [OF j(2)]
  show ?thesis
  proof (cases "mk_slot m")
    case None
    then show ?thesis using assms(1) RenameAway j free by (auto simp: marker_safe_def held_by_def)
  next
    case (Some y)
    then show ?thesis using assms(1) RenameAway j free by (auto simp: marker_safe_def held_by_def)
  qed
next
  case (InspectHeld i)
  obtain j y where j: "dget (mk_jobs m) i = Some j" "cj_held j = Some y" using assms(2) InspectHeld by (auto simp: holding_def split: option.splits)
  have held: "held_by m i y" using j by (simp add: held_by_def)
  have only: "k = i \<and> z = y" if "held_by m k z" for k z
  proof -
    have "k = i" using assms(1) held that unfolding marker_safe_def by metis
    then show ?thesis using that j by (simp add: held_by_def)
  qed
  have token: "cj_token j \<in> set (mk_begun m)" using assms(1) j by (simp add: marker_safe_def)
  have safe: "dict_ok (mk_jobs m)" "\<And>k l. dget (mk_jobs m) k = Some l \<Longrightarrow> cj_token l \<in> set (mk_begun m)"
    "\<And>t. mk_last m = Some t \<Longrightarrow> t \<in> set (mk_begun m) \<or> mk_slot m = Some t \<or> mk_slot m = None \<and> t = y"
    using assms(1) only unfolding marker_safe_def by blast+
  define m' where "m' = marker_apply x m"
  have m': "mk_jobs m' = dpop (mk_jobs m) i" "mk_begun m' = mk_begun m" "mk_last m' = mk_last m"
      "mk_slot m' = (if y = cj_token j then mk_slot m else restore_or_discard y (mk_slot m))"
    using InspectHeld j by (simp_all add: m'_def)
  have free: "\<not> held_by m' k z" for k z using only [of k z] by (auto simp: held_by_def m'(1) split: if_splits)
  have last: "t \<in> set (mk_begun m') \<or> mk_slot m' = Some t" if "mk_last m' = Some t" for t
    using safe(3) [of t] that token by (auto simp: m' restore_or_discard_def split: option.splits)
  show ?thesis unfolding m'_def [symmetric] marker_safe_def
    using safe(1,2) free last by (auto simp: m'(1,2) split: if_splits)
qed

lemma marker_invariant: "marker_reach True m \<Longrightarrow> marker_safe m"
proof (induction rule: marker_reach.induct)
  case start
  show ?case by (simp add: marker_safe_def unmarked_def held_by_def)
qed (rule marker_step_safe)

text \<open>C18.
  As long as no clear takes the marker away while another one holds it, the newest mark is not lost: unless a sweep has
  begun with it, it is in its place, or a clear holds it and puts it back.
\<close>

theorem newest_mark_kept:
  assumes "marker_reach True m" "mk_last m = Some t" "t \<notin> set (mk_begun m)"
  shows "mk_slot m = Some t \<or> (\<exists>i. held_by m i t \<and> mk_slot (marker_apply (InspectHeld i) m) = Some t)"
proof (cases "mk_slot m = Some t")
  case False
  then obtain i where i: "mk_slot m = None" "held_by m i t" using marker_invariant [OF assms(1)] assms(2,3) by (auto simp: marker_safe_def)
  then obtain j where j: "dget (mk_jobs m) i = Some j" "cj_held j = Some t" by (auto simp: held_by_def)
  have "cj_token j \<noteq> t" using marker_invariant [OF assms(1)] j(1) assms(3) by (auto simp: marker_safe_def)
  then show ?thesis using i j by (auto simp: restore_or_discard_def)
qed simp

lemma run_reach: "marker_reach alone m \<Longrightarrow> marker_run alone xs m = Some m' \<Longrightarrow> marker_reach alone m'"
  by (induction xs arbitrary: m) (auto split: if_splits intro: marker_reach.step)

definition held_run :: "marker_op list" where
  "held_run = [Mark ''a'', BeginSweep 1, Mark ''b'', RenameAway 1]"

theorem newest_mark_kept_witness:
  "\<exists>m. marker_reach True m \<and> mk_slot m = None \<and> (\<exists>i. held_by m i ''b'' \<and> mk_slot (marker_apply (InspectHeld i) m) = Some ''b'')"
proof -
  obtain m where m: "marker_run True held_run unmarked = Some m" "mk_last m = Some ''b''" "''b'' \<notin> set (mk_begun m)" "mk_slot m = None"
    by (simp add: held_run_def unmarked_def dget_def dset_def holding_def nobody_holds_def)
  from newest_mark_kept [OF run_reach [OF start m(1)] m(2,3)] run_reach [OF start m(1)] m(4) show ?thesis by auto
qed

text \<open>A token in the marker, or with which a sweep has begun, was marked before.\<close>

lemma tokens_used: "marker_reach alone m \<Longrightarrow>
    set (mk_begun m) \<subseteq> set (mk_used m) \<and> (\<forall>t. mk_slot m = Some t \<longrightarrow> t \<in> set (mk_used m)) \<and>
    (\<forall>i x. held_by m i x \<longrightarrow> x \<in> set (mk_used m))"
proof (induction rule: marker_reach.induct)
  case (step m x)
  have held: "y \<in> set (mk_used m)" if "dget (mk_jobs m) i = Some j" "cj_held j = Some y" for i j y
    using step.IH that unfolding held_by_def by blast
  show ?case using step.IH held
    by (cases x) (auto simp: held_by_def restore_or_discard_def split: option.splits if_splits)
qed (simp add: unmarked_def held_by_def)

definition losing_run :: "string \<Rightarrow> string \<Rightarrow> string \<Rightarrow> marker_op list" where
  "losing_run a b c = [Mark a, BeginSweep 1, BeginSweep 2, Mark b, BeginSweep 3, RenameAway 1, Mark c, RenameAway 2,
     InspectHeld 1, InspectHeld 2, RenameAway 3, InspectHeld 3]"

text \<open>C37.
  From every reachable state in which no sweep is under way, three sweeps whose clears overlap can lose the newest of three
  marks: the first sweep begins with the mark a, takes away b in its clear, and the second one then takes away c. The
  first puts b back, so that the second, which finds a marker there, drops c, and the third, which began with b, clears it.
  No marker is left, though no sweep began after c was marked.
\<close>

theorem overlapping_clears_lose_a_mark:
  assumes "marker_reach False m" "mk_jobs m = []" "distinct [a, b, c]" "set [a, b, c] \<inter> set (mk_used m) = {}"
  shows "\<exists>m'. marker_run False (losing_run a b c) m = Some m' \<and> marker_reach False m' \<and>
    mk_last m' = Some c \<and> c \<notin> set (mk_begun m') \<and> mk_slot m' = None \<and> mk_jobs m' = []"
proof -
  have begun: "c \<notin> set (mk_begun m)" using tokens_used [OF assms(1)] assms(4) by auto
  have ne: "a \<noteq> b" "b \<noteq> a" "a \<noteq> c" "c \<noteq> a" "b \<noteq> c" "c \<noteq> b" using assms(3) by auto
  have "\<exists>m'. marker_run False (losing_run a b c) m = Some m' \<and> mk_last m' = Some c \<and> c \<notin> set (mk_begun m') \<and>
      mk_slot m' = None \<and> mk_jobs m' = []"
    using assms(2,4) ne begun by (simp add: losing_run_def holding_def restore_or_discard_def dset_def dget_def dpop_def)
  then show ?thesis using run_reach [OF assms(1)] by blast
qed

theorem overlapping_clears_lose_a_mark_witness:
  "\<exists>m. marker_run False (losing_run ''a'' ''b'' ''c'') unmarked = Some m \<and> mk_last m = Some ''c'' \<and> mk_slot m = None \<and> mk_jobs m = []"
  using overlapping_clears_lose_a_mark [OF start, of "''a''" "''b''" "''c''"] by (auto simp: unmarked_def)

section \<open>The order of an upload\<close>

fun pass_rank :: "push_pass \<Rightarrow> nat" where
  "pass_rank PassBlobs = 0" | "pass_rank PassEvents = 1" | "pass_rank PassEnvelopes = 2" | "pass_rank PassSpine = 3" | "pass_rank PassManifest = 4"

definition uploads :: "string list \<Rightarrow> file_list \<Rightarrow> file_list" where
  "uploads blocked fs = concat (map snd (ordered_bucket_upload_passes blocked fs))"

lemma uploads_passes:
  "uploads blocked fs = concat (map (\<lambda>p. filter (\<lambda>(rel, _). classify_bucket_path_pass blocked rel = Some p) fs) push_passes)"
  by (simp add: uploads_def ordered_bucket_upload_passes_def comp_def)

definition rank_of :: "string list \<Rightarrow> string \<times> json \<Rightarrow> nat" where
  "rank_of blocked f = (case classify_bucket_path_pass blocked (fst f) of None \<Rightarrow> 5 | Some p \<Rightarrow> pass_rank p)"

lemma same_rank_sorted: "\<forall>f\<in>set xs. rank_of blocked f = r \<Longrightarrow> sorted (map (rank_of blocked) xs)"
  by (induction xs) auto

lemma pass_sorted: "sorted (map (rank_of blocked) (filter (\<lambda>(rel, _). classify_bucket_path_pass blocked rel = Some p) fs))"
  by (rule same_rank_sorted [of _ _ "pass_rank p"]) (auto simp: rank_of_def)

lemma uploads_sorted: "sorted (map (rank_of blocked) (uploads blocked fs))"
proof -
  have "rank_of blocked f = pass_rank p" if "f \<in> set (filter (\<lambda>(rel, _). classify_bucket_path_pass blocked rel = Some p) fs)" for f p
    using that by (auto simp: rank_of_def)
  then show ?thesis
    unfolding uploads_passes push_passes_def by (auto simp: sorted_append pass_sorted simp del: filter.simps)
qed

lemma uploads_all: "f \<in> set (uploads blocked fs) \<longleftrightarrow> f \<in> set fs \<and> classify_bucket_path_pass blocked (fst f) \<noteq> None"
proof -
  have "p \<in> set push_passes" for p by (cases p) (simp_all add: push_passes_def)
  then show ?thesis by (auto simp: uploads_passes)
qed

lemma earlier_passes_sent:
  assumes "f \<in> set (take n (uploads blocked fs))" "g \<in> set fs"
    and "classify_bucket_path_pass blocked (fst f) = Some p" "classify_bucket_path_pass blocked (fst g) = Some q" "pass_rank q < pass_rank p"
  shows "g \<in> set (take n (uploads blocked fs))"
proof (rule ccontr)
  let ?us = "uploads blocked fs"
  assume "g \<notin> set (take n ?us)"
  moreover have "g \<in> set ?us" using assms(2,4) by (simp add: uploads_all)
  ultimately have "g \<in> set (drop n ?us)" by (metis Un_iff append_take_drop_id set_append)
  moreover have "sorted (map (rank_of blocked) (take n ?us) @ map (rank_of blocked) (drop n ?us))"
    unfolding map_append [symmetric] append_take_drop_id by (rule uploads_sorted)
  then have "\<forall>x\<in>set (map (rank_of blocked) (take n ?us)). \<forall>y\<in>set (map (rank_of blocked) (drop n ?us)). x \<le> y"
    unfolding sorted_append by blast
  ultimately have "rank_of blocked f \<le> rank_of blocked g" using assms(1) unfolding set_map by blast
  then show False using assms(3-5) by (simp add: rank_of_def)
qed

text \<open>What each path is, told from its name: held back with the contexts of a project that may not leave, or a spine.\<close>

definition context_withheld :: "string list \<Rightarrow> string \<Rightarrow> bool" where
  "context_withheld blocked rel \<longleftrightarrow>
     (let parts = split_on (CHR ''/'') rel
      in starts_with rel ''blobs/v1/'' \<and> 4 \<le> length parts \<and> parts ! 3 = ''context'' \<and> parts ! 2 \<in> set blocked \<or>
         starts_with rel ''contexts/v1/'' \<and> 3 \<le> length parts \<and> parts ! 2 \<noteq> ''_shared'' \<and> parts ! 2 \<in> set blocked)"

definition spine_path :: "string \<Rightarrow> bool" where
  "spine_path rel \<longleftrightarrow> starts_with rel ''traces/v1/'' \<and> ends_with rel ''/trace.json''"

text \<open>The first characters tell the directories apart.\<close>

lemma directory_starts:
  "starts_with rel ''blobs/v1/'' \<Longrightarrow> hd rel = CHR ''b''" "starts_with rel ''events/v1/'' \<Longrightarrow> hd rel = CHR ''e''"
  "starts_with rel ''traces/v1/'' \<Longrightarrow> hd rel = CHR ''t''" "starts_with rel ''contexts/v1/'' \<Longrightarrow> hd rel = CHR ''c''"
  by (auto simp: starts_with_iff)

lemma pass_withheld: "classify_bucket_path_pass blocked rel = None \<longleftrightarrow> context_withheld blocked rel"
proof -
  have "\<not> starts_with ''manifest.json'' ''blobs/v1/''" "\<not> starts_with ''manifest.json'' ''contexts/v1/''" by code_simp+
  then show ?thesis
    unfolding classify_bucket_path_pass_def context_withheld_def Let_def
    using directory_starts [of rel] by (cases "rel = ''manifest.json''") (auto split: if_splits)
qed

lemma pass_of_path:
  "classify_bucket_path_pass blocked ''manifest.json'' = Some PassManifest"
  "spine_path rel \<Longrightarrow> classify_bucket_path_pass blocked rel = Some PassSpine"
  "\<not> context_withheld blocked rel \<Longrightarrow> rel \<noteq> ''manifest.json'' \<Longrightarrow> \<not> spine_path rel \<Longrightarrow>
     \<exists>q. classify_bucket_path_pass blocked rel = Some q \<and> pass_rank q < 3"
  "rel \<noteq> ''manifest.json'' \<Longrightarrow> classify_bucket_path_pass blocked rel = Some q \<Longrightarrow> pass_rank q < 4"
proof -
  show "classify_bucket_path_pass blocked ''manifest.json'' = Some PassManifest" by (simp add: classify_bucket_path_pass_def)
  have "\<not> starts_with ''manifest.json'' ''traces/v1/''" by code_simp
  then show "spine_path rel \<Longrightarrow> classify_bucket_path_pass blocked rel = Some PassSpine"
    unfolding classify_bucket_path_pass_def spine_path_def Let_def using directory_starts [of rel]
    by (cases "rel = ''manifest.json''") (auto split: if_splits)
  show "\<not> context_withheld blocked rel \<Longrightarrow> rel \<noteq> ''manifest.json'' \<Longrightarrow> \<not> spine_path rel \<Longrightarrow>
     \<exists>q. classify_bucket_path_pass blocked rel = Some q \<and> pass_rank q < 3"
    unfolding pass_withheld [symmetric]
    by (auto simp: classify_bucket_path_pass_def spine_path_def Let_def split: if_splits)
  show "rel \<noteq> ''manifest.json'' \<Longrightarrow> classify_bucket_path_pass blocked rel = Some q \<Longrightarrow> pass_rank q < 4"
    by (auto simp: classify_bucket_path_pass_def Let_def split: if_splits)
qed

lemma uploads_distinct:
  assumes "distinct (map fst fs)"
  shows "distinct (map fst (uploads blocked fs))"
proof -
  have "distinct (map fst (concat (map (\<lambda>p. filter (\<lambda>(rel, _). classify_bucket_path_pass blocked rel = Some p) fs) ps)))"
    if "distinct ps" for ps
    using that
  proof (induction ps)
    case (Cons p ps)
    have "distinct (map fst (filter (\<lambda>(rel, _). classify_bucket_path_pass blocked rel = Some p) fs))"
      using assms by (rule distinct_map_filter)
    with Cons show ?case by auto
  qed simp
  moreover have "distinct push_passes" by (simp add: push_passes_def)
  ultimately show ?thesis unfolding uploads_passes by blast
qed

lemma upload_get:
  assumes "distinct (map fst xs)"
  shows "dget (upload xs R) rel = (case map_of xs rel of Some v \<Rightarrow> Some v | None \<Rightarrow> (case R of None \<Rightarrow> None | Some d \<Rightarrow> dget d rel))"
proof -
  have "dget (fold (\<lambda>(rel, v) d. dset d rel v) xs d) rel = (case map_of xs rel of Some v \<Rightarrow> Some v | None \<Rightarrow> dget d rel)" for d
    using assms
  proof (induction xs arbitrary: d)
    case (Cons x xs)
    have "map_of xs (fst x) = None" using Cons.prems by (simp add: map_of_eq_None_iff)
    then show ?case using Cons by (auto split: option.splits prod.splits)
  qed simp
  then show ?thesis by (simp add: upload_def split: option.split)
qed

text \<open>The content of a path on the remote, which may not exist.\<close>

definition remote_file :: "two_sides \<Rightarrow> string \<Rightarrow> json option" where
  "remote_file W rel = (case wo_remote W of None \<Rightarrow> None | Some d \<Rightarrow> dget d rel)"

lemma pushed_files:
  assumes "push_files V unsafe_push doc part W = (x, W')" "distinct (map fst (bucket_files V (wo_bucket W)))"
  shows "remote_file W' rel = (case map_of (take (tv_uploads V)
      (uploads (fst (context_tree_skip_set (tv_heads V) unsafe_push)) (bucket_files V (wo_bucket W)))) rel of
        Some v \<Rightarrow> Some v | None \<Rightarrow> remote_file W rel)"
proof -
  let ?us = "uploads (fst (context_tree_skip_set (tv_heads V) unsafe_push)) (bucket_files V (wo_bucket W))"
  have "wo_remote W' = Some (upload (take (tv_uploads V) ?us) (wo_remote W))"
    using assms(1) by (auto simp: push_files_def Let_def uploads_def [symmetric] split: prod.splits if_splits)
  moreover have "distinct (map fst (take (tv_uploads V) ?us))"
    using uploads_distinct [OF assms(2)] by (simp add: take_map [symmetric])
  ultimately show ?thesis unfolding remote_file_def by (simp add: upload_get)
qed

text \<open>C17.
  However far the uploads of a push get, the remote is consistent. Every path there has the content it had or that of the
  local file, and the contexts of projects that may not leave are as they were. If the manifest on the remote
  changed, every other local file that may leave is on the remote with its content; if the spine of a trace changed, so
  is every local file that is neither a spine nor the manifest: its companions, the events and the blobs. When the push
  returns, all of them are.
\<close>

theorem partial_upload_consistent:
  assumes push: "push_files V unsafe_push doc part W = (x, W')" and fs: "distinct (map fst (bucket_files V (wo_bucket W)))"
  shows "let local = bucket_files V (wo_bucket W); blocked = fst (context_tree_skip_set (tv_heads V) unsafe_push);
      sent = (\<lambda>P. \<forall>(g, v)\<in>set local. \<not> context_withheld blocked g \<longrightarrow> P g \<longrightarrow> remote_file W' g = Some v)
    in (\<forall>rel. remote_file W' rel = remote_file W rel \<or> \<not> context_withheld blocked rel \<and> remote_file W' rel = map_of local rel) \<and>
       (remote_file W' ''manifest.json'' \<noteq> remote_file W ''manifest.json'' \<longrightarrow> sent (\<lambda>g. True)) \<and>
       (\<forall>rel. spine_path rel \<and> remote_file W' rel \<noteq> remote_file W rel \<longrightarrow> sent (\<lambda>g. \<not> spine_path g \<and> g \<noteq> ''manifest.json'')) \<and>
       (\<forall>rep. x = Inr rep \<longrightarrow> sent (\<lambda>g. True))"
proof -
  let ?local = "bucket_files V (wo_bucket W)" and ?blocked = "fst (context_tree_skip_set (tv_heads V) unsafe_push)"
  let ?us = "uploads ?blocked ?local"
  let ?sent = "take (tv_uploads V) ?us"
  note remote = pushed_files [OF push fs]
  have key: "distinct (map fst ?sent)" using uploads_distinct [OF fs] by (simp add: take_map [symmetric])
  have there: "remote_file W' g = Some v" if "(g, v) \<in> set ?sent" for g v using remote [of g] key that by simp
  have changed: "\<exists>v. (rel, v) \<in> set ?sent" if "remote_file W' rel \<noteq> remote_file W rel" for rel
    using remote [of rel] that by (auto split: option.splits dest: map_of_SomeD)
  have own: "(g, v) \<in> set ?local \<and> \<not> context_withheld ?blocked g" if "(g, v) \<in> set ?sent" for g v
  proof -
    have "(g, v) \<in> set ?us" using that by (rule in_set_takeD)
    then show ?thesis using uploads_all [of "(g, v)" ?blocked ?local] pass_withheld [of ?blocked g] by simp
  qed
  have one: "v = w" if "(g, v) \<in> set ?local" "(g, w) \<in> set ?local" for g v w using fs that by (metis eq_key_imp_eq_value)
  have "remote_file W' rel = remote_file W rel \<or> \<not> context_withheld ?blocked rel \<and> remote_file W' rel = map_of ?local rel" for rel
    using changed [of rel] there own fs by (metis map_of_is_SomeI)
  moreover have "remote_file W' g = Some v"
    if m: "remote_file W' ''manifest.json'' \<noteq> remote_file W ''manifest.json''" and g: "(g, v) \<in> set ?local" "\<not> context_withheld ?blocked g" for g v
  proof -
    obtain w where w: "(''manifest.json'', w) \<in> set ?sent" using changed [OF m] by blast
    show ?thesis
    proof (cases "g = ''manifest.json''")
      case True
      then show ?thesis using there w own one g(1) by metis
    next
      case False
      obtain q where q: "classify_bucket_path_pass ?blocked g = Some q" using g(2) pass_withheld by fastforce
      have "pass_rank q < pass_rank PassManifest" using pass_of_path(4) [OF False q] by simp
      then have "(g, v) \<in> set ?sent"
        using earlier_passes_sent [OF w g(1), of PassManifest q] pass_of_path(1) q by simp
      then show ?thesis by (rule there)
    qed
  qed
  moreover have "remote_file W' g = Some v"
    if s: "spine_path rel" "remote_file W' rel \<noteq> remote_file W rel" and g: "(g, v) \<in> set ?local" "\<not> context_withheld ?blocked g"
      "\<not> spine_path g" "g \<noteq> ''manifest.json''" for rel g v
  proof -
    obtain w where w: "(rel, w) \<in> set ?sent" using changed [OF s(2)] by blast
    obtain q where q: "classify_bucket_path_pass ?blocked g = Some q" "pass_rank q < 3" using pass_of_path(3) [OF g(2,4,3)] by blast
    then have "(g, v) \<in> set ?sent"
      using earlier_passes_sent [OF w g(1), of PassSpine q] pass_of_path(2) [OF s(1)] by simp
    then show ?thesis by (rule there)
  qed
  moreover have "remote_file W' g = Some v" if r: "x = Inr rep" and g: "(g, v) \<in> set ?local" "\<not> context_withheld ?blocked g" for rep g v
  proof -
    have "?sent = ?us" using push r by (auto simp: push_files_def Let_def uploads_def [symmetric] split: prod.splits if_splits)
    then have "(g, v) \<in> set ?sent" using g pass_withheld [of ?blocked g] by (simp add: uploads_all)
    then show ?thesis by (rule there)
  qed
  ultimately show ?thesis unfolding Let_def by blast
qed

section \<open>The push\<close>

lemma enforce_cleared:
  assumes "enforce_push_clearance repr (JObj d) = Inr part" "iter_or_empty (jget d ''traces'') = Inr rows" "row \<in> set rows" "is_jobj row"
  shows "clearance_state (jfield row ''status'') = CLEARED"
proof -
  have grows: "set (pp_withheld p) \<subseteq> set (pp_withheld (fold (partition_row repr) xs p))" for xs p
    by (induction xs arbitrary: p) (fastforce simp: partition_row_def Let_def)+
  have held: "pp_withheld (fold (partition_row repr) xs p) \<noteq> []" if "r \<in> set xs" "is_jobj r" "clearance_state (jfield r ''status'') \<noteq> CLEARED" for r xs p
    using that
  proof (induction xs arbitrary: p)
    case (Cons x xs)
    show ?case
    proof (cases "x = r")
      case True
      then have "pp_withheld (partition_row repr x p) \<noteq> []" using Cons.prems(2,3) by (simp add: partition_row_def Let_def)
      then show ?thesis using grows [of "partition_row repr x p" xs] by (cases "pp_withheld (partition_row repr x p)") auto
    qed (use Cons in simp)
  qed simp
  show ?thesis using assms held [of row "filter is_jobj rows"]
    by (auto simp: enforce_push_clearance_def partition_from_manifest_def push_withhold_partition_def split: if_splits)
qed

lemma push_files_ok:
  assumes "push_files V unsafe_push doc part W = (Inr rep, W')"
  shows "ur_digest rep = jget doc ''digest'' \<and> ur_partition rep = part \<and> wo_bucket W' = wo_bucket W \<and>
    (\<exists>blocked. ur_uploaded rep = map fst (uploads blocked (bucket_files V (wo_bucket W))) \<and>
       wo_remote W' = Some (upload (uploads blocked (bucket_files V (wo_bucket W))) (wo_remote W))) \<and>
    jget (wo_sync W') ''last_sync_digest'' = jget doc ''digest''"
  using assms by (auto simp: push_files_def Let_def uploads_def [symmetric] write_bucket_sync_state_def split: prod.splits if_splits)

lemma push_gated:
  assumes "hf_push V force unsafe_push W = (Inr rep, W')"
  shows "\<exists>doc B blocked. bucket_manifest (tv_manifest V) True True B = Inr (doc, wo_bucket W') \<and> ur_digest rep = jget doc ''digest'' \<and>
    (\<forall>rows. iter_or_empty (jget doc ''traces'') = Inr rows \<longrightarrow>
       (\<forall>row\<in>set rows. is_jobj row \<longrightarrow> clearance_state (jfield row ''status'') = CLEARED)) \<and>
    ur_uploaded rep = map fst (uploads blocked (bucket_files V (wo_bucket W'))) \<and>
    jget (wo_sync W') ''last_sync_digest'' = jget doc ''digest''"
proof -
  obtain doc B B2 part W3 where push: "bucket_manifest (tv_manifest V) True True B = Inr (doc, B2)"
      "enforce_push_clearance (mf_repr (tv_manifest V)) (JObj doc) = Inr part" "push_files V unsafe_push doc part (W3\<lparr>wo_bucket := B2\<rparr>) = (Inr rep, W')"
    using assms by (auto simp: hf_push_def Let_def split: sum.splits prod.splits if_splits)
  then show ?thesis using push_files_ok [OF push(3)] enforce_cleared [OF push(2)] by auto
qed

text \<open>C9.
  A push that went through has computed a last manifest of the bucket whose files it uploads, all of whose rows are
  cleared; what it reports as uploaded, its digest and the recorded sync point are those of that bucket.
\<close>

theorem push_is_gated:
  assumes "hf_push V force unsafe_push W = (Inr rep, W')"
  shows "\<exists>doc B blocked. bucket_manifest (tv_manifest V) True True B = Inr (doc, wo_bucket W') \<and> ur_digest rep = jget doc ''digest'' \<and>
    (\<forall>rows. iter_or_empty (jget doc ''traces'') = Inr rows \<longrightarrow>
       (\<forall>row\<in>set rows. is_jobj row \<longrightarrow> clearance_state (jfield row ''status'') = CLEARED)) \<and>
    ur_uploaded rep = map fst (uploads blocked (bucket_files V (wo_bucket W'))) \<and>
    jget (wo_sync W') ''last_sync_digest'' = jget doc ''digest''"
  by (rule push_gated [OF assms])

text \<open>A push that is refused sends nothing.\<close>

lemma status_keeps_remote: "hf_status V W = (x, W') \<Longrightarrow> wo_remote W' = wo_remote W"
  by (auto simp: hf_status_def Let_def split: sum.splits)

theorem refused_push_sends_nothing:
  assumes "hf_push V force unsafe_push W = (Inl e, W')" "e \<noteq> TransferStopped"
  shows "wo_remote W' = wo_remote W"
  using assms by (auto simp: hf_push_def push_files_def Let_def dest: status_keeps_remote split: sum.splits prod.splits if_splits)

text \<open>Every object file is sent, the current one of a trace and the ones it superseded.\<close>

lemma object_pass: "starts_with rel ''objects/traces/v1/'' \<Longrightarrow> classify_bucket_path_pass blocked rel = Some PassEnvelopes"
  by (auto simp: classify_bucket_path_pass_def Let_def starts_with_iff)

theorem push_sends_every_object:
  assumes "hf_push V force unsafe_push W = (Inr rep, W')" "f \<in> set (tv_walk V (wo_bucket W'))" "starts_with (fst f) ''objects/traces/v1/''"
  shows "fst f \<in> set (ur_uploaded rep)"
proof -
  obtain blocked where up: "ur_uploaded rep = map fst (uploads blocked (bucket_files V (wo_bucket W')))"
    using push_gated [OF assms(1)] by blast
  have "f \<in> set (uploads blocked (bucket_files V (wo_bucket W')))"
    using assms(2,3) by (simp add: uploads_all object_pass bucket_files_def)
  then show ?thesis using up by simp
qed

section \<open>The pull\<close>

text \<open>
  A pull records the digest of the bucket it leaves as the digest of both sides. When the merge kept something of the
  bucket's own, the next status reports the remote as ahead.
\<close>

lemma copied_get:
  assumes "dict_ok source"
  shows "dget (copy_tree source dir) n = (case dget source n of Some v \<Rightarrow> Some v | None \<Rightarrow> dget dir n)"
proof -
  have "dget (fold (\<lambda>(n, v) d. dset d n v) source dir) n = (case map_of source n of Some v \<Rightarrow> Some v | None \<Rightarrow> dget dir n)"
    if "distinct (map fst source)" for dir
    using that
  proof (induction source arbitrary: dir)
    case (Cons x source)
    have "map_of source (fst x) = None" using Cons.prems by (simp add: map_of_eq_None_iff)
    then show ?case using Cons by (auto split: option.splits prod.splits)
  qed simp
  then show ?thesis using assms by (simp add: copy_tree_def dict_ok_def dkeys_def dget_def [of source])
qed

text \<open>What a pull leaves in the directory: the pulled files, and where it merges, the files of the bucket that it did not pull.\<close>

lemma installed_get:
  "dict_ok pulled \<Longrightarrow> dget (install_pulled full pulled local) n =
     (case dget pulled n of Some v \<Rightarrow> Some v | None \<Rightarrow> if full then None else dget local n)"
  by (simp add: install_pulled_def copied_get split: option.split)

lemma pull_parts:
  assumes "hf_pull V force eager W = (Inr digest, W')" "wo_remote W = Some fs"
  obtains rel W1 doc where "hf_status V W = (Inr rel, W1)"
    "bucket_manifest (tv_manifest V) True True (pulled_bucket V (eager \<or> force) fs (wo_bucket W1)) = Inr (doc, wo_bucket W')"
    "digest = jget doc ''digest''" "tv_reachable V" "wo_remote W' = wo_remote W"
    "wo_sync W' = write_bucket_sync_state (tv_provider V) (tv_target V) digest digest ''pull'' (mf_now (tv_manifest V))"
  using assms by (auto simp: hf_pull_def Let_def dest: status_keeps_remote split: if_splits option.splits sum.splits prod.splits intro!: that)

lemma manifest_digest:
  assumes "bucket_manifest E wr heal B = Inr (doc, B')"
  shows "\<exists>h. jget doc ''digest'' = JStr (HASH_PREFIX @ h)"
  using assms by (auto simp: bucket_manifest_def Let_def document_digest bucket_digest_def digest_payload_def split: sum.splits)

text \<open>C40.
  Take a pull that went through, and suppose that in the bucket it installed (the pulled files copied over the local ones)
  every object has its spine or is read in place. If the digest of the remote is not that of the bucket it left (the merge
  kept something), the next status reports the remote as ahead, with the digest of the bucket for the last sync
  point: the pull recorded a state of both sides that the remote never had, and a push is refused unless it is forced,
  although the bucket holds every file that was pulled.
\<close>

theorem merged_pull_reports_remote_ahead:
  assumes pull: "hf_pull V force eager W = (Inr digest, W')"
    and settled: "\<And>rel W1. hf_status V W = (Inr rel, W1) \<Longrightarrow>
      settled_bucket (tv_manifest V) (pulled_bucket V (eager \<or> force) fs (wo_bucket W1))"
    and remote: "wo_remote W = Some fs" "dget fs ''manifest.json'' = Some (JObj m)" "jget m ''schema_version'' = JStr BUCKET_MANIFEST_SCHEMA"
      "jget m ''digest'' \<noteq> JNull" "jget m ''digest'' \<noteq> digest"
  shows "\<exists>rel. hf_status V W' = (Inr rel, W') \<and> re_state rel = ''remote_ahead'' \<and> re_local rel = digest \<and> re_last rel = digest"
proof -
  obtain rel W1 doc where p: "hf_status V W = (Inr rel, W1)"
      "bucket_manifest (tv_manifest V) True True (pulled_bucket V (eager \<or> force) fs (wo_bucket W1)) = Inr (doc, wo_bucket W')"
      "digest = jget doc ''digest''" "tv_reachable V" "wo_remote W' = wo_remote W"
      "wo_sync W' = write_bucket_sync_state (tv_provider V) (tv_target V) digest digest ''pull'' (mf_now (tv_manifest V))"
    by (rule pull_parts [OF pull remote(1)]) (rule that)
  obtain doc' where again: "bucket_manifest (tv_manifest V) True True (wo_bucket W') = Inr (doc', wo_bucket W')" "jget doc' ''digest'' = digest"
    using settled_sweep_again [OF settled [OF p(1)] p(2), of "mf_now (tv_manifest V)"] p(3) by auto
  obtain h where "digest = JStr (HASH_PREFIX @ h)" using manifest_digest [OF p(2)] p(3) by auto
  then have "truthy digest" by (simp add: HASH_PREFIX_def)
  then show ?thesis using again p(4-6) remote
    by (simp add: hf_status_def classify_bucket_remote_state_def write_bucket_sync_state_def Let_def)
qed

section \<open>Examples\<close>

definition sample_transfer :: transfer_env where
  "sample_transfer = \<lparr>tv_manifest = sample_manifest_env, tv_provider = ''huggingface'', tv_target = ''me/bucket'',
     tv_walk = (\<lambda>_. [(''objects/traces/v1/p/t1/h.json'', JNull)]), tv_refresh = (\<lambda>B. B), tv_meanwhile = (\<lambda>B. B), tv_heads = [],
     tv_load = (\<lambda>_. healed_sample), tv_reachable = True, tv_uploads = 100\<rparr>"

lemma transfer_fields:
  "tv_manifest sample_transfer = sample_manifest_env" "tv_refresh sample_transfer B = B" "tv_meanwhile sample_transfer B = B"
  "tv_heads sample_transfer = []" "tv_reachable sample_transfer" "tv_uploads sample_transfer = 100"
  "tv_load sample_transfer fs = healed_sample"
  by (simp_all add: sample_transfer_def)

definition empty_bucket :: bucket where
  "empty_bucket = \<lparr>bk_objects = objects_of [], bk_traces = [], bk_manifest = ManifestAbsent, bk_marker = None\<rparr>"

definition empty_side :: two_sides where
  "empty_side = \<lparr>wo_bucket = empty_bucket, wo_sync = [], wo_remote = None\<rparr>"

lemma empty_sweep:
  assumes "bk_objects B = objects_of []" "bk_traces B = []" "bk_marker B = None"
  shows "\<exists>B'. bucket_manifest sample_manifest_env True True B = Inr (manifest_document sample_manifest_env [] [], B') \<and>
    bk_objects B' = objects_of [] \<and> bk_traces B' = [] \<and> bk_marker B' = None"
proof -
  have none: "iter_trace_record_objects (objects_of []) = []"
    by (simp add: iter_trace_record_objects_def current_objects_def legacy_objects_def objects_of_def somes_def dvalues_def)
  then have "settled_bucket sample_manifest_env B" by (simp add: settled_bucket_def assms(1))
  from settled_sweep [OF this, of True] show ?thesis
    by (simp add: bucket_manifest_def none Let_def iter_traces_v2_def assms clear_if_unchanged_def)
qed

lemma empty_document:
  "jfield (jget (manifest_document E [] []) ''sync'') ''eligible'' = JBool True"
  "enforce_push_clearance repr (JObj (manifest_document E [] [])) = Inr \<lparr>pp_pushed = [], pp_withheld = []\<rparr>"
  by (simp_all add: document_fields sync_block_def count_by_def Let_def enforce_push_clearance_def partition_from_manifest_def push_withhold_partition_def)

lemma sample_push: "\<exists>rep W'. hf_push sample_transfer False False empty_side = (Inr rep, W')"
proof -
  let ?E = "sample_manifest_env"
  obtain B1 where B1: "bucket_manifest ?E True True empty_bucket = Inr (manifest_document ?E [] [], B1)"
      "bk_objects B1 = objects_of []" "bk_traces B1 = []" "bk_marker B1 = None" using empty_sweep [of empty_bucket] by (auto simp: empty_bucket_def)
  obtain B2 where B2: "bucket_manifest ?E True True B1 = Inr (manifest_document ?E [] [], B2)"
      "bk_objects B2 = objects_of []" "bk_traces B2 = []" "bk_marker B2 = None" using empty_sweep [OF B1(2-4)] by auto
  obtain B3 where B3: "bucket_manifest ?E True True B2 = Inr (manifest_document ?E [] [], B3)" using empty_sweep [OF B2(2-4)] by auto
  have few: "length (uploads [] (bucket_files sample_transfer B3)) \<le> 2"
    by (auto simp: uploads_def ordered_bucket_upload_passes_def push_passes_def bucket_files_def sample_transfer_def split: manifest_file.splits)
  have status: "hf_status sample_transfer \<lparr>wo_bucket = B1, wo_sync = [], wo_remote = None\<rparr> =
      (Inr \<lparr>re_state = ''missing'', re_local = jget (manifest_document ?E [] []) ''digest'', re_remote = JNull, re_last = JNull\<rparr>, \<lparr>wo_bucket = B2, wo_sync = [], wo_remote = None\<rparr>)"
    by (simp add: hf_status_def transfer_fields B2 Let_def empty_side_def)
  show ?thesis using few
    by (simp add: hf_push_def transfer_fields B1 B2 B3 Let_def empty_document status empty_side_def push_files_def context_tree_skip_set_def uploads_def)
qed

theorem push_is_gated_witness:
  "\<exists>rep W' doc B. hf_push sample_transfer False False empty_side = (Inr rep, W') \<and>
     bucket_manifest sample_manifest_env True True B = Inr (doc, wo_bucket W') \<and> ur_digest rep = jget doc ''digest''"
proof -
  obtain rep W' where push: "hf_push sample_transfer False False empty_side = (Inr rep, W')" using sample_push by blast
  from push_is_gated [OF this] push show ?thesis unfolding transfer_fields by blast
qed

theorem push_sends_every_object_witness:
  "\<exists>rep W'. hf_push sample_transfer False False empty_side = (Inr rep, W') \<and> ''objects/traces/v1/p/t1/h.json'' \<in> set (ur_uploaded rep)"
proof -
  obtain rep W' where push: "hf_push sample_transfer False False empty_side = (Inr rep, W')" using sample_push by blast
  have "(''objects/traces/v1/p/t1/h.json'', JNull) \<in> set (tv_walk sample_transfer (wo_bucket W'))" by (simp add: sample_transfer_def)
  from push_sends_every_object [OF push this] push show ?thesis by (simp add: starts_with_def)
qed

definition stale_side :: two_sides where
  "stale_side = \<lparr>wo_bucket = healed_sample, wo_sync = [],
     wo_remote = Some [(''manifest.json'', JObj [(''schema_version'', JStr BUCKET_MANIFEST_SCHEMA), (''digest'', JStr ''x'')])]\<rparr>"

theorem refused_push_sends_nothing_witness:
  "\<exists>e W'. hf_push (sample_transfer\<lparr>tv_refresh := \<lambda>_. empty_bucket\<rparr>) False False
       (stale_side\<lparr>wo_remote := Some [(''manifest.json'', JObj [(''schema_version'', JStr ''other'')])]\<rparr>) = (Inl e, W') \<and>
     wo_remote W' = Some [(''manifest.json'', JObj [(''schema_version'', JStr ''other'')])]"
  (is "\<exists>e W'. hf_push ?V False False ?W = _ \<and> _")
proof -
  let ?E = "sample_manifest_env"
  obtain B1 where B1: "bucket_manifest ?E True True empty_bucket = Inr (manifest_document ?E [] [], B1)"
      "bk_objects B1 = objects_of []" "bk_traces B1 = []" "bk_marker B1 = None" using empty_sweep [of empty_bucket] by (auto simp: empty_bucket_def)
  obtain B2 where B2: "bucket_manifest ?E True True B1 = Inr (manifest_document ?E [] [], B2)" using empty_sweep [OF B1(2-4)] by auto
  have "\<exists>W'. hf_push ?V False False ?W = (Inl (SchemaMismatch (JStr ''other'')), W')"
    by (simp add: hf_push_def transfer_fields B1(1) B2 Let_def empty_document hf_status_def stale_side_def BUCKET_MANIFEST_SCHEMA_def)
  then obtain W' where push: "hf_push ?V False False ?W = (Inl (SchemaMismatch (JStr ''other'')), W')" by blast
  from refused_push_sends_nothing [OF this] push show ?thesis by simp
qed

definition two_uploads :: transfer_env where
  "two_uploads = sample_transfer\<lparr>tv_walk := \<lambda>_. [(''traces/v1/p/t/trace.json'', JNull), (''traces/v1/p/t/trail.jsonl.gz'', JInt 1)], tv_uploads := 2\<rparr>"

definition unsent_side :: two_sides where
  "unsent_side = \<lparr>wo_bucket = empty_bucket\<lparr>bk_manifest := ManifestHolds 2 (JObj [])\<rparr>, wo_sync = [], wo_remote = None\<rparr>"

theorem partial_upload_consistent_witness:
  "\<exists>W'. push_files two_uploads False [] \<lparr>pp_pushed = [], pp_withheld = []\<rparr> unsent_side = (Inl TransferStopped, W') \<and>
     remote_file W' ''traces/v1/p/t/trace.json'' = Some JNull \<and> remote_file W' ''traces/v1/p/t/trail.jsonl.gz'' = Some (JInt 1) \<and>
     remote_file W' ''manifest.json'' = None"
proof -
  have files: "bucket_files two_uploads (wo_bucket unsent_side) =
      [(''traces/v1/p/t/trace.json'', JNull), (''traces/v1/p/t/trail.jsonl.gz'', JInt 1), (''manifest.json'', JObj [])]"
    by (simp add: two_uploads_def unsent_side_def empty_bucket_def bucket_files_def)
  have skip: "context_tree_skip_set (tv_heads two_uploads) False = ([], [])" by (simp add: two_uploads_def sample_transfer_def context_tree_skip_set_def)
  have us: "concat (map snd (ordered_bucket_upload_passes [] (bucket_files two_uploads (wo_bucket unsent_side)))) =
      [(''traces/v1/p/t/trail.jsonl.gz'', JInt 1), (''traces/v1/p/t/trace.json'', JNull), (''manifest.json'', JObj [])]"
    unfolding files by code_simp
  have none: "wo_remote unsent_side = None" by (simp add: unsent_side_def)
  have n: "tv_uploads two_uploads = 2" by (simp add: two_uploads_def)
  let ?W = "unsent_side\<lparr>wo_remote := Some [(''traces/v1/p/t/trail.jsonl.gz'', JInt 1), (''traces/v1/p/t/trace.json'', JNull)]\<rparr>"
  have push: "push_files two_uploads False [] \<lparr>pp_pushed = [], pp_withheld = []\<rparr> unsent_side = (Inl TransferStopped, ?W)"
    by (simp add: push_files_def skip us n upload_def none dset_def)
  have plain: "spine_path ''traces/v1/p/t/trace.json''" "\<not> spine_path ''traces/v1/p/t/trail.jsonl.gz''"
    "\<not> context_withheld [] ''traces/v1/p/t/trail.jsonl.gz''" by code_simp+
  have before: "remote_file unsent_side rel = None" for rel by (simp add: remote_file_def unsent_side_def)
  have spine: "remote_file ?W ''traces/v1/p/t/trace.json'' = Some JNull" "remote_file ?W ''manifest.json'' = None"
    by (simp_all add: remote_file_def dget_def)
  have "remote_file ?W ''traces/v1/p/t/trail.jsonl.gz'' = Some (JInt 1)"
    using partial_upload_consistent [OF push] plain spine(1) before unfolding files skip Let_def fst_conv by fastforce
  with push spine show ?thesis by blast
qed

lemma settled_pull: "settled_bucket sample_manifest_env (pulled_bucket sample_transfer full fs B)"
  by (rule settled_with_files) (simp_all add: pulled_bucket_def read_directory_def transfer_fields healed_sample_def Let_def)

lemma stale_pull: "\<exists>digest W'. hf_pull sample_transfer False False stale_side = (Inr digest, W')"
proof -
  let ?E = "sample_manifest_env"
  have settled: "settled_bucket ?E healed_sample" by (rule settled_with_files) (simp_all add: healed_sample_def)
  obtain doc B where first: "bucket_manifest ?E True True healed_sample = Inr (doc, B)"
    using settled_sweep [OF settled, of True] by (auto simp: bucket_manifest_def Let_def)
  obtain h where h: "jget doc ''digest'' = JStr (HASH_PREFIX @ h)" using manifest_digest [OF first] by auto
  have "jget doc ''digest'' \<noteq> JStr ''x''" by (simp add: h HASH_PREFIX_def)
  then have status: "hf_status sample_transfer stale_side =
      (Inr \<lparr>re_state = ''different'', re_local = jget doc ''digest'', re_remote = JStr ''x'', re_last = JNull\<rparr>, stale_side\<lparr>wo_bucket := B\<rparr>)"
    by (simp add: hf_status_def transfer_fields stale_side_def first Let_def classify_bucket_remote_state_def)
  have remote: "wo_remote stale_side = Some [(''manifest.json'', JObj [(''schema_version'', JStr BUCKET_MANIFEST_SCHEMA), (''digest'', JStr ''x'')])]"
    by (simp add: stale_side_def)
  let ?fs = "[(''manifest.json'', JObj [(''schema_version'', JStr BUCKET_MANIFEST_SCHEMA), (''digest'', JStr ''x'')])]"
  obtain doc2 B2 where "bucket_manifest ?E True True (pulled_bucket sample_transfer False ?fs B) = Inr (doc2, B2)"
    using settled_sweep [OF settled_pull, of True False ?fs B] by (auto simp: bucket_manifest_def Let_def)
  then show ?thesis by (simp add: hf_pull_def transfer_fields remote status)
qed

theorem merged_pull_reports_remote_ahead_witness:
  "\<exists>digest W' rel. hf_pull sample_transfer False False stale_side = (Inr digest, W') \<and> hf_status sample_transfer W' = (Inr rel, W') \<and>
     re_state rel = ''remote_ahead''"
proof -
  let ?m = "[(''schema_version'', JStr BUCKET_MANIFEST_SCHEMA), (''digest'', JStr ''x'')]"
  obtain digest W' where pull: "hf_pull sample_transfer False False stale_side = (Inr digest, W')" using stale_pull by blast
  have settled: "settled_bucket (tv_manifest sample_transfer) (pulled_bucket sample_transfer full fs B)" for full fs B
    unfolding transfer_fields(1) by (rule settled_pull)
  have remote: "wo_remote stale_side = Some [(''manifest.json'', JObj ?m)]" "dget [(''manifest.json'', JObj ?m)] ''manifest.json'' = Some (JObj ?m)"
      "jget ?m ''schema_version'' = JStr BUCKET_MANIFEST_SCHEMA" "jget ?m ''digest'' \<noteq> JNull"
    by (simp_all add: stale_side_def)
  obtain B doc where "bucket_manifest sample_manifest_env True True B = Inr (doc, wo_bucket W')" "digest = jget doc ''digest''"
    using pull_parts [OF pull remote(1)] unfolding transfer_fields(1) by metis
  then obtain h where "digest = JStr (HASH_PREFIX @ h)" using manifest_digest by fastforce
  then have "jget ?m ''digest'' \<noteq> digest" by (simp add: HASH_PREFIX_def)
  from merged_pull_reports_remote_ahead [OF pull settled remote this] pull show ?thesis by blast
qed

end
