(* ===== verification/Spec2Isabelle.thy ===== *)
theory Spec2Isabelle
  imports Slicing StagingProps EventLogProps CompactionReads ContextProps SecurityProps PolicyProps DoorProps SyncProps
begin

text \<open>
  A model of the core of \<^verbatim>\<open>opentraces\<close>, a program that records what coding agents do (steps, tool calls, patches),
  keeps the record in a local bucket, cuts it into trajectories, derives datasets from it and lets some of it leave the
  machine. Paths below are relative to \<^verbatim>\<open>src/opentraces/\<close>.

  How the parts work together. Captured sessions become trace records (\<^theory_text>\<open>TraceModel\<close>, the pydantic models of the schema
  package). Everything that happens to them afterwards is an event in an append-only log kept under a Git ref
  (\<^verbatim>\<open>core/trails\<close>); the context tree (\<^verbatim>\<open>core/context_tree\<close>) and the anchor searches are read off that log. The slicer
  (\<^verbatim>\<open>core/slicing\<close>) cuts the steps of one trace into trajectories. The security pipeline (\<^verbatim>\<open>security/\<close>) rewrites records and
  dataset rows and stamps them; the stamp decides the row of a trace in the bucket manifest, and the manifest is what the
  three doors read: the bucket push, the dataset publish and the capsule export. The staging state (\<^verbatim>\<open>core/state.py\<close>)
  records which trace waits for which remote.

  The theories, in the order of the code.
  \<^item> Shared: \<^theory_text>\<open>Prelude\<close> (Python dictionaries as association lists in insertion order, the locale \<^theory_text>\<open>dict_table\<close>), \<^theory_text>\<open>PyText\<close>
    (the part of \<^verbatim>\<open>str\<close> and \<^verbatim>\<open>re\<close> that is used, with an executable backtracking matcher), \<^theory_text>\<open>RegexFacts\<close>, \<^theory_text>\<open>Json\<close>,
    \<^theory_text>\<open>Walk\<close> (the stack walk with a visited set).
  \<^item> Trace slicer: \<^theory_text>\<open>Tiling\<close> (\<^verbatim>\<open>models.py\<close>, \<^verbatim>\<open>tiling.py\<close>: trajectories from boundaries and the independent verifier),
    \<^theory_text>\<open>SliceSteps\<close> (\<^verbatim>\<open>steps.py\<close>), \<^theory_text>\<open>Slicers\<close> (the four slicers, instances of the locale \<^theory_text>\<open>slicer\<close>), \<^theory_text>\<open>Slicing\<close> (judges,
    envelope and the exit codes; the locale \<^theory_text>\<open>judge_backend\<close> has the four judges as instances).
  \<^item> Staging: \<^theory_text>\<open>Staging\<close> (one function per method of \<^verbatim>\<open>StateManager\<close>; the trace lock), \<^theory_text>\<open>StagingProps\<close> (its transition system).
  \<^item> Event log: \<^theory_text>\<open>EventModel\<close> (\<^verbatim>\<open>models.py\<close>), \<^theory_text>\<open>Ids\<close> (\<^verbatim>\<open>ids.py\<close>), \<^theory_text>\<open>EventLog\<close> (\<^verbatim>\<open>event_log.py\<close>: append, import, verify),
    \<^theory_text>\<open>EventLogProps\<close>. A commit id of the ref is modelled as the history it names, so ancestry is being a prefix.
  \<^item> Anchor searches: \<^theory_text>\<open>SearchRecords\<close> and \<^theory_text>\<open>SearchCompaction\<close>, with \<^theory_text>\<open>CompactionProps\<close> and \<^theory_text>\<open>CompactionReads\<close>.
  \<^item> Context tree: \<^theory_text>\<open>ContextModel\<close>, \<^theory_text>\<open>ContextTree\<close> (projection and queries), \<^theory_text>\<open>ContextPrune\<close>, \<^theory_text>\<open>ContextProps\<close>.
  \<^item> Security: \<^theory_text>\<open>Redaction\<close> (spans, walking of every string field, scanner of one field), \<^theory_text>\<open>Secrets\<close> (patterns, allowlists,
    entropy), \<^theory_text>\<open>Anonymizer\<close>, \<^theory_text>\<open>SecurityTools\<close> and \<^theory_text>\<open>TransformTools\<close> (the tools), \<^theory_text>\<open>SecurityPipeline\<close> (registry, pipeline, dataset
    rows, companions), with \<^theory_text>\<open>RedactionProps\<close>, \<^theory_text>\<open>SecretProps\<close>, \<^theory_text>\<open>EntropyProps\<close>, \<^theory_text>\<open>SecurityProps\<close>.
  \<^item> Egress: \<^theory_text>\<open>Egress\<close> (\<^verbatim>\<open>core/pipeline.py\<close>, the objects of the bucket, \<^verbatim>\<open>core/bucket_security.py\<close>, the clearance predicate,
    Doors A and C), \<^theory_text>\<open>EgressProps\<close>, \<^theory_text>\<open>DoorProps\<close> (the locale \<^theory_text>\<open>egress_door\<close>, interpreted on Doors A and B).
  \<^item> Datasets (\<^verbatim>\<open>core/datasets.py\<close> and \<^verbatim>\<open>dataset.py\<close> of the schema package): \<^theory_text>\<open>DatasetModel\<close> (JSON text, policy, remotes, identity, lineage),
    \<^theory_text>\<open>DatasetStore\<close> (append, read, evaluate, review, withdraw, delete, rebuild, forget), \<^theory_text>\<open>DatasetPublish\<close> (filters, Door B, staging,
    upload with retries), with \<^theory_text>\<open>DatasetProps\<close>, \<^theory_text>\<open>DatasetIndexProps\<close>, \<^theory_text>\<open>PolicyProps\<close>, \<^theory_text>\<open>PublishProps\<close>.
  \<^item> Bucket: \<^theory_text>\<open>BucketEnvelope\<close> (\<^verbatim>\<open>core/bucket_envelope.py\<close>: the events, anchors, patch rows, files and manifest row of one trace),
    \<^theory_text>\<open>BucketManifest\<close> (\<^verbatim>\<open>core/bucket_store.py\<close>: the sweep with and without heal, the manifest and its digest, the upsert at capture,
    the status served from the stored manifest), \<^theory_text>\<open>BucketSync\<close> (\<^verbatim>\<open>core/dirty_marker.py\<close>, \<^verbatim>\<open>core/bucket_remote.py\<close>: the marker, the relation of
    the two sides, push and pull), with \<^theory_text>\<open>EnvelopeProps\<close>, \<^theory_text>\<open>SweepProps\<close>, \<^theory_text>\<open>StatusProps\<close>, \<^theory_text>\<open>SyncProps\<close>. A trace's files are a record
    of the spine and the events each companion holds; the remote is a dictionary from paths to contents.

  What the lemmas show. A completed slicing covers every step once and the verifier accepts exactly the exact covers. Appends
  keep the log a hash chain in every interleaving of writers, a valid log fixes its contents up to a collision of
  the digest, and incremental verification agrees with a full one. Compaction keeps every outcome a reader
  distinguishes, is idempotent, and its streaming form gives the same output. The tables of the context
  tree are functions of the log, its walks stop, and a pruned transcript reads back as the active path. Redaction hides exactly
  the positions some span covers; the walker is one map over the visited texts; no dataset row
  is written below the floor of tools. A cleared trace was scanned by the current version; the doors agree on
  one predicate; an upload carries only approved, unblocked, cleared rows; appended rows read back; edits keep
  the policy coherent. The patch rows of a trace are those its anchors prove, and a read that proves nothing changes none; a
  sweep that only reads returns what the healing one returns, and a settled bucket is left alone; the stored status is never
  eligible too early and, after a sweep, counts what the scan counts; a push is judged on its last manifest and a stopped upload
  is consistent; a marker survives as long as clears do not overlap. Some theorems state what the code does where it differs from what it says: they are listed as
  findings in the manifest.

  Conventions. Python integers are \<^typ>\<open>int\<close> or \<^typ>\<open>nat\<close> (nothing in the modelled code has a fixed width), floats are rationals,
  or reals in the entropy of a text, so their rounding is not modelled. Texts are lists of characters, that is, of code points below
  256; where the code treats higher ones specially (\<^verbatim>\<open>U+2028\<close>) the definition says so. Exceptions and early returns are
  the left side of a sum or \<^term>\<open>None\<close>; JSON objects and dictionaries are association lists; a
  transform that returns the very same string object is \<^term>\<open>None\<close>. Files that hold lines the code splits itself are texts;
  files that a pydantic model writes and reads are the values of the model.

  Parameters. The digest (SHA-256), the clock, fresh ids, the JSON decoder, the printing of floats and of values that are not
  texts, the integer coercion of the validation library, the language model of the judge and of the
  detectors, the named-entity model, TruffleHog, the enrichment of a record, and what a remote answers are
  arguments of the definitions that use them. What a theorem needs of them is a hypothesis in its statement: for
  instance that the decoder reads back what the encoder wrote (\<^theory_text>\<open>decodes\<close>), or that a digest has no collision, and
  its witness instantiates them with concrete functions. For the bucket these are that its reads of one log agree
  (\<^theory_text>\<open>reads_agree\<close>), that exports do not raise (\<^theory_text>\<open>exports_succeed\<close>) and that every object has its files (\<^theory_text>\<open>settled_bucket\<close>); the walk of
  its directory, the installation of pulled files and what other processes do during a push are fields of the environment.

  Bounds and fuel. The matcher's star and the scans over a text carry the length of the remaining text as fuel, which
  suffices because every round consumes a character or stops. The stack walks of the context tree stop by the number of ids
  not yet visited. Appends to the log and publishes retry five times, as in the code; publishing is proved to
  settle after at most that many retries, and an undisturbed append to succeed at once.

  Not modelled. The command line, the capture parsers, the watcher, enrichment, the consumers, quality scoring, the search index over
  SQLite, the storage backends and the maintenance of the bucket (with the refresh of records from the legacy stores), replay of capsules, and the matching of patches against
  Git trees: they read and write outside formats, run other programs or ask a database or a language model, and
  what the modelled code takes from them is a parameter. Within the modelled modules, tree and blob
  plumbing of Git, process-level caches, lazy handles on compressed blobs and the texts for the user are left out.
\<close>

end
